(* ===== verification/Prelude.thy ===== *)
theory Prelude
  imports Main
begin

text \<open>
  Shared groundwork of the development: the collections of simplification and
  introduction rules the component theories extend, generic facts on lists and options,
  and the insertion-ordered map that stands for a JavaScript \<open>Map\<close> (and for a plain
  object used as a dictionary).

  An ordered map is an association list with distinct keys. \<open>omap_set\<close> keeps the
  position of a key that is already there and appends a new one, which is the order
  \<open>Map.prototype.entries\<close> and \<open>Object.entries\<close> report. (An object whose keys are
  array indices such as \<open>"0"\<close> would list those first; connection ids, column names and
  cache keys are treated as ordinary strings.)
\<close>

named_theorems js_text \<open>facts on the JavaScript string operations\<close>
named_theorems wf_intros \<open>introduction rules for well-formedness invariants\<close>
named_theorems step_defs \<open>definitions of handlers, unfolded in step-by-step proofs\<close>

section \<open>Lists and options\<close>

text \<open>\<open>Array.prototype.find\<close>: the first element that satisfies the predicate.\<close>

fun find_first :: "('a \<Rightarrow> bool) \<Rightarrow> 'a list \<Rightarrow> 'a option" where
  "find_first P [] = None"
| "find_first P (x # xs) = (if P x then Some x else find_first P xs)"

text \<open>\<open>Array.prototype.findIndex\<close> and \<open>indexOf\<close>: the least index, \<open>None\<close> for -1.\<close>

fun find_index :: "('a \<Rightarrow> bool) \<Rightarrow> 'a list \<Rightarrow> nat option" where
  "find_index P [] = None"
| "find_index P (x # xs) = (if P x then Some 0 else map_option Suc (find_index P xs))"

definition index_of :: "'a list \<Rightarrow> 'a \<Rightarrow> nat option" where
  "index_of xs x = find_index (\<lambda>y. y = x) xs"

text \<open>\<open>xs[i]\<close>: reading past the end gives \<open>undefined\<close>.\<close>

fun nth_opt :: "'a list \<Rightarrow> nat \<Rightarrow> 'a option" where
  "nth_opt [] n = None"
| "nth_opt (x # xs) n = (case n of 0 \<Rightarrow> Some x | Suc m \<Rightarrow> nth_opt xs m)"

lemma nth_opt_conv: "nth_opt xs n = (if n < length xs then Some (xs ! n) else None)"
  by (induction xs n rule: nth_opt.induct) (auto split: nat.splits)

lemma find_first_Some:
  "find_first P xs = Some x \<Longrightarrow> x \<in> set xs \<and> P x"
  by (induction xs) (auto split: if_splits)

lemma find_first_None: "find_first P xs = None \<longleftrightarrow> (\<forall>x\<in>set xs. \<not> P x)"
  by (induction xs) auto

lemma find_first_append:
  "find_first P (xs @ ys) = (case find_first P xs of None \<Rightarrow> find_first P ys | Some x \<Rightarrow> Some x)"
  by (induction xs) auto

lemma find_first_cong [fundef_cong]:
  "xs = ys \<Longrightarrow> (\<And>x. x \<in> set ys \<Longrightarrow> P x = Q x) \<Longrightarrow> find_first P xs = find_first Q ys"
  by (induction xs arbitrary: ys) auto

lemma find_index_Some:
  "find_index P xs = Some i \<Longrightarrow> i < length xs \<and> P (xs ! i) \<and> (\<forall>j < i. \<not> P (xs ! j))"
proof (induction xs arbitrary: i)
  case (Cons x xs)
  show ?case
  proof (cases "P x")
    case False
    with Cons.prems obtain k where "find_index P xs = Some k" "i = Suc k" by auto
    with Cons.IH [of k] False show ?thesis by (auto simp: nth_Cons split: nat.splits)
  qed (use Cons.prems in auto)
qed simp

lemma find_index_None: "find_index P xs = None \<longleftrightarrow> (\<forall>x\<in>set xs. \<not> P x)"
  by (induction xs) auto

lemma index_of_Some: "index_of xs x = Some i \<Longrightarrow> i < length xs \<and> xs ! i = x"
  unfolding index_of_def by (drule find_index_Some) simp

lemma index_of_None: "index_of xs x = None \<longleftrightarrow> x \<notin> set xs"
  unfolding index_of_def find_index_None by blast

lemma set_take_rev_subset: "set (take n xs) \<subseteq> set xs"
  by (rule set_take_subset)

lemma takeWhile_app_dropWhile_len: "length (dropWhile P xs) \<le> length xs"
  by (rule length_dropWhile_le)

text \<open>
  The pattern \<open>if (seen.has(key)) continue; seen.add(key); out.push(item)\<close>, used by the
  reference parser and by the completion source: keep the first item of every key.
\<close>

fun dedup_on :: "('a \<Rightarrow> 'k) \<Rightarrow> 'k set \<Rightarrow> 'a list \<Rightarrow> 'a list" where
  "dedup_on key seen [] = []"
| "dedup_on key seen (x # xs) =
     (if key x \<in> seen then dedup_on key seen xs
      else x # dedup_on key (insert (key x) seen) xs)"

lemma dedup_on_subset: "set (dedup_on key seen xs) \<subseteq> set xs"
  by (induction key seen xs rule: dedup_on.induct) auto

lemma dedup_on_keys_disjoint: "key ` set (dedup_on key seen xs) \<inter> seen = {}"
  by (induction key seen xs rule: dedup_on.induct) auto

lemma dedup_on_distinct: "distinct (map key (dedup_on key seen xs))"
proof (induction key seen xs rule: dedup_on.induct)
  case (2 key seen x xs)
  then show ?case
    using dedup_on_keys_disjoint [of key "insert (key x) seen" xs] by auto
qed simp

lemma dedup_on_covers:
  "key ` set (dedup_on key seen xs) = key ` set xs - seen"
proof (induction key seen xs rule: dedup_on.induct)
  case (2 key seen x xs)
  then show ?case by auto
qed simp

section \<open>Ordered maps\<close>

type_synonym ('k, 'v) omap = "('k \<times> 'v) list"

fun omap_get :: "('k, 'v) omap \<Rightarrow> 'k \<Rightarrow> 'v option" where
  "omap_get [] k = None"
| "omap_get ((k', v) # m) k = (if k' = k then Some v else omap_get m k)"

fun omap_set :: "('k, 'v) omap \<Rightarrow> 'k \<Rightarrow> 'v \<Rightarrow> ('k, 'v) omap" where
  "omap_set [] k v = [(k, v)]"
| "omap_set ((k', v') # m) k v = (if k' = k then (k', v) # m else (k', v') # omap_set m k v)"

definition omap_delete :: "('k, 'v) omap \<Rightarrow> 'k \<Rightarrow> ('k, 'v) omap" where
  "omap_delete m k = filter (\<lambda>(k', _). k' \<noteq> k) m"

definition omap_has :: "('k, 'v) omap \<Rightarrow> 'k \<Rightarrow> bool" where
  "omap_has m k = (omap_get m k \<noteq> None)"

definition omap_keys :: "('k, 'v) omap \<Rightarrow> 'k list" where
  "omap_keys m = map fst m"

definition omap_values :: "('k, 'v) omap \<Rightarrow> 'v list" where
  "omap_values m = map snd m"

text \<open>\<open>new Map(entries)\<close>: later entries of a repeated key win.\<close>

definition omap_of :: "('k \<times> 'v) list \<Rightarrow> ('k, 'v) omap" where
  "omap_of es = foldl (\<lambda>m (k, v). omap_set m k v) [] es"

definition omap_wf :: "('k, 'v) omap \<Rightarrow> bool" where
  "omap_wf m = distinct (omap_keys m)"

lemma omap_get_set: "omap_get (omap_set m k v) j = (if j = k then Some v else omap_get m j)"
  by (induction m k v rule: omap_set.induct) auto

lemma omap_keys_set:
  "omap_keys (omap_set m k v) = (if k \<in> set (omap_keys m) then omap_keys m else omap_keys m @ [k])"
  unfolding omap_keys_def by (induction m k v rule: omap_set.induct) auto

lemma omap_get_None: "omap_get m k = None \<longleftrightarrow> k \<notin> set (omap_keys m)"
  unfolding omap_keys_def by (induction m k rule: omap_get.induct) auto

lemma omap_get_delete: "omap_get (omap_delete m k) j = (if j = k then None else omap_get m j)"
  unfolding omap_delete_def by (induction m) auto

lemma omap_keys_delete: "omap_keys (omap_delete m k) = filter (\<lambda>j. j \<noteq> k) (omap_keys m)"
  unfolding omap_delete_def omap_keys_def by (induction m) auto

lemma omap_wf_Nil [simp, wf_intros]: "omap_wf []"
  by (simp add: omap_wf_def omap_keys_def)

lemma omap_wf_set [wf_intros]: "omap_wf m \<Longrightarrow> omap_wf (omap_set m k v)"
  by (simp add: omap_wf_def omap_keys_set)

lemma omap_wf_delete [wf_intros]: "omap_wf m \<Longrightarrow> omap_wf (omap_delete m k)"
  by (simp add: omap_wf_def omap_keys_delete)

lemma omap_get_in: "omap_get m k = Some v \<Longrightarrow> (k, v) \<in> set m"
  by (induction m k rule: omap_get.induct) (auto split: if_splits)

lemma omap_in_get: "omap_wf m \<Longrightarrow> (k, v) \<in> set m \<Longrightarrow> omap_get m k = Some v"
  unfolding omap_wf_def omap_keys_def
  by (induction m k rule: omap_get.induct) (auto simp: rev_image_eqI)

lemma omap_set_same: "omap_get m k = Some v \<Longrightarrow> omap_set m k v = m"
  by (induction m k v rule: omap_set.induct) (auto split: if_splits)

lemma omap_values_set_subset: "set (omap_values (omap_set m k v)) \<subseteq> insert v (set (omap_values m))"
  unfolding omap_values_def by (induction m k v rule: omap_set.induct) auto

text \<open>
  The contract of a keyed store, stated once: what a read returns after a write and after
  a delete. The client lemmas below (writes to different keys commute as far as any
  reader can see, a second write wins, a delete undoes a write of a fresh key) are proved
  from the contract alone.
\<close>

locale keyed_store =
  fixes get :: "'m \<Rightarrow> 'k \<Rightarrow> 'v option"
    and put :: "'m \<Rightarrow> 'k \<Rightarrow> 'v \<Rightarrow> 'm"
    and remove :: "'m \<Rightarrow> 'k \<Rightarrow> 'm"
  assumes get_put: "get (put m k v) j = (if j = k then Some v else get m j)"
    and get_remove: "get (remove m k) j = (if j = k then None else get m j)"
begin

lemma get_put_same: "get (put m k v) k = Some v"
  by (simp add: get_put)

lemma get_put_other: "j \<noteq> k \<Longrightarrow> get (put m k v) j = get m j"
  by (simp add: get_put)

lemma put_put_same: "get (put (put m k v) k w) = get (put m k w)"
  by (rule ext) (simp add: get_put)

lemma put_put_commute: "j \<noteq> k \<Longrightarrow> get (put (put m k v) j w) = get (put (put m j w) k v)"
  by (rule ext) (simp add: get_put)

lemma remove_put_fresh: "get m k = None \<Longrightarrow> get (remove (put m k v) k) = get m"
  by (rule ext) (simp add: get_put get_remove)

lemma remove_idem: "get (remove (remove m k) k) = get (remove m k)"
  by (rule ext) (simp add: get_remove)

text \<open>Writing a list of entries: the last write of a key is the one a reader sees.\<close>

lemma get_foldl_put:
  "get (foldl (\<lambda>m (k, v). put m k v) m es) j =
     (case omap_get (rev es) j of None \<Rightarrow> get m j | Some v \<Rightarrow> Some v)"
proof (induction es rule: rev_induct)
  case (snoc e es)
  then show ?case by (cases e) (simp add: get_put)
qed simp

end

interpretation omap_store: keyed_store omap_get omap_set omap_delete
  by unfold_locales (simp_all add: omap_get_set omap_get_delete)

lemma omap_of_get: "omap_get (omap_of es) k = omap_get (rev es) k"
  unfolding omap_of_def omap_store.get_foldl_put by (simp split: option.splits)

lemma omap_of_wf: "omap_wf (omap_of es)"
proof -
  have "omap_wf m \<Longrightarrow> omap_wf (foldl (\<lambda>m (k, v). omap_set m k v) m es)"
    for m :: "('a, 'b) omap"
    by (induction es arbitrary: m) (auto intro: omap_wf_set)
  then show ?thesis unfolding omap_of_def by simp
qed

section \<open>Refinement\<close>

text \<open>
  Operations on a concrete state that follow a specification on its abstraction: what holds
  for one operation holds for every sequence of them.
\<close>

locale refinement =
  fixes abst :: "'s \<Rightarrow> 'a"
    and run :: "'o \<Rightarrow> 's \<Rightarrow> 's"
    and spec :: "'o \<Rightarrow> 'a \<Rightarrow> 'a"
    and ok :: "'s \<Rightarrow> bool"
  assumes run_spec: "ok s \<Longrightarrow> abst (run op s) = spec op (abst s)"
    and run_ok: "ok s \<Longrightarrow> ok (run op s)"
begin

lemma runs_refine: "ok s \<Longrightarrow> abst (fold run ops s) = fold spec ops (abst s) \<and> ok (fold run ops s)"
  by (induction ops arbitrary: s) (simp_all add: run_spec run_ok)

end

section \<open>Event machines\<close>

text \<open>
  A component that reacts to events, one after another. An invariant that every event keeps
  holds after any sequence of them, and whatever only certain events bring about was brought
  about by one of them.
\<close>

definition run_events :: "('e \<Rightarrow> 's \<Rightarrow> 's) \<Rightarrow> 's \<Rightarrow> 'e list \<Rightarrow> 's" where
  "run_events step s evs = foldl (\<lambda>s ev. step ev s) s evs"

lemma run_events_simps [simp]:
  "run_events step s [] = s" "run_events step s (ev # evs) = run_events step (step ev s) evs"
  "run_events step s (evs @ evs') = run_events step (run_events step s evs) evs'"
  by (simp_all add: run_events_def)

locale event_machine =
  fixes step :: "'e \<Rightarrow> 's \<Rightarrow> 's" and start :: 's and inv :: "'s \<Rightarrow> bool"
  assumes start_inv: "inv start" and step_inv: "inv s \<Longrightarrow> inv (step ev s)"
begin

lemma run_from_inv: "inv s \<Longrightarrow> inv (run_events step s evs)"
  by (induction evs arbitrary: s) (simp_all add: step_inv)

lemma run_inv: "inv (run_events step start evs)"
  by (rule run_from_inv [OF start_inv])

lemma run_cause:
  assumes "\<And>s ev. inv s \<Longrightarrow> Q (step ev s) \<Longrightarrow> Q s \<or> cause ev" and "\<not> Q start" and "Q (run_events step start evs)"
  shows "\<exists>ev\<in>set evs. cause ev"
  using assms(3)
proof (induction evs rule: rev_induct)
  case (snoc ev evs)
  then show ?case using assms(1) [OF run_inv, of ev evs] by auto
qed (use assms(2) in simp)

end

end
