(* ===== verification/JsText.thy ===== *)
theory JsText
  imports Prelude
begin

text \<open>
  JavaScript strings, as far as the extension uses them. A JavaScript string is a
  sequence of UTF-16 code units; here a code unit is an Isabelle \<open>char\<close>, so the model
  covers the strings whose code units lie in the Latin-1 range 0..255. Every operation
  below (trimming, lower-casing, splitting, slicing, percent-encoding) stays inside that
  range and agrees with ECMAScript on it: the white space set is the Latin-1 part of the
  specification's, \<open>toLowerCase\<close> covers the accented capitals (0xC0..0xDE without the
  multiplication sign 0xD7), and \<open>\w\<close>, \<open>\d\<close> are the ASCII classes of a regular
  expression without the \<open>u\<close> flag.

  The character predicates are defined by code ranges. The \<open>[code]\<close> lemmas beside them
  restate them on the eight bits of a character, which lets concrete inputs be evaluated
  by the kernel quickly.
\<close>

section \<open>Characters\<close>

definition is_digit_c :: "char \<Rightarrow> bool" where
  "is_digit_c c = (let n = (of_char c :: nat) in 48 \<le> n \<and> n \<le> 57)"

definition is_word_c :: "char \<Rightarrow> bool" where
  "is_word_c c = (let n = (of_char c :: nat) in
     (48 \<le> n \<and> n \<le> 57) \<or> (65 \<le> n \<and> n \<le> 90) \<or> (97 \<le> n \<and> n \<le> 122) \<or> n = 95)"

definition is_upper_c :: "char \<Rightarrow> bool" where
  "is_upper_c c = (let n = (of_char c :: nat) in
     (65 \<le> n \<and> n \<le> 90) \<or> (192 \<le> n \<and> n \<le> 222 \<and> n \<noteq> 215))"

text \<open>\<open>\s\<close> and the set \<open>trim\<close> removes: tab, LF, VT, FF, CR, space, no-break space.\<close>

definition is_space_c :: "char \<Rightarrow> bool" where
  "is_space_c c = (let n = (of_char c :: nat) in (9 \<le> n \<and> n \<le> 13) \<or> n = 32 \<or> n = 160)"

definition lower_c :: "char \<Rightarrow> char" where
  "lower_c c = (if is_upper_c c then char_of (of_char c + 32 :: nat) else c)"

lemma is_digit_c_code [code]:
  "is_digit_c (Char b0 b1 b2 b3 b4 b5 b6 b7) =
     (if b7 then False else if b6 then False else if b5 then
        (if b4 then (if b3 then (if b2 then False else \<not> b1) else True) else False) else False)"
  by (cases b0; cases b1; cases b2; cases b3; cases b4; cases b5; cases b6; cases b7)
     (simp_all add: is_digit_c_def)

lemma is_word_c_code [code]:
  "is_word_c (Char b0 b1 b2 b3 b4 b5 b6 b7) =
     (if b7 then False else if b6 then
        (if b4 then (if b3 then (if b2 then (if b5 then False else b1 \<and> b0) else \<not> (b1 \<and> b0)) else True)
         else (b3 \<or> b2 \<or> b1 \<or> b0))
      else if b5 then
        (if b4 then (if b3 then (if b2 then False else \<not> b1) else True) else False) else False)"
  by (cases b0; cases b1; cases b2; cases b3; cases b4; cases b5; cases b6; cases b7)
     (simp_all add: is_word_c_def)

lemma is_upper_c_code [code]:
  "is_upper_c (Char b0 b1 b2 b3 b4 b5 b6 b7) =
     (if b5 then False else if b6 then
        (if b7 then (if b4 then (if b3 then (if b2 then (if b1 then \<not> b0 else True) else True)
                                 else (if b2 then (if b1 then \<not> b0 else True) else True)) else True)
         else (if b4 then (if b3 then (if b2 then False else \<not> (b1 \<and> b0)) else True)
               else (b3 \<or> b2 \<or> b1 \<or> b0)))
      else False)"
  by (cases b0; cases b1; cases b2; cases b3; cases b4; cases b5; cases b6; cases b7)
     (simp_all add: is_upper_c_def)

lemma is_space_c_code [code]:
  "is_space_c (Char b0 b1 b2 b3 b4 b5 b6 b7) =
     (if b4 then False else if b6 then False
      else if b7 then (b5 \<and> \<not> b3 \<and> \<not> b2 \<and> \<not> b1 \<and> \<not> b0)
      else if b5 then (\<not> b3 \<and> \<not> b2 \<and> \<not> b1 \<and> \<not> b0)
      else if b3 then (if b2 then \<not> b1 else b1 \<or> b0) else False)"
  by (cases b0; cases b1; cases b2; cases b3; cases b4; cases b5; cases b6; cases b7)
     (simp_all add: is_space_c_def)

lemma lower_c_code [code]:
  "lower_c (Char b0 b1 b2 b3 b4 b5 b6 b7) =
     (if is_upper_c (Char b0 b1 b2 b3 b4 b5 b6 b7) then Char b0 b1 b2 b3 b4 True b6 b7
      else Char b0 b1 b2 b3 b4 b5 b6 b7)"
  unfolding lower_c_def is_upper_c_code
  by (cases b0; cases b1; cases b2; cases b3; cases b4; cases b5; cases b6; cases b7)
     (simp_all add: char_of_def bit_iff_odd)

lemma lower_c_not_upper: "\<not> is_upper_c (lower_c c)"
  by (cases c) (auto simp: lower_c_code is_upper_c_code split: if_splits)

lemma lower_c_idem [simp]: "lower_c (lower_c c) = lower_c c"
  using lower_c_not_upper [of c] by (simp add: lower_c_def [of "lower_c c"])

lemma lower_c_fixed: "\<not> is_upper_c c \<Longrightarrow> lower_c c = c"
  by (simp add: lower_c_def)

lemma is_space_lower [simp]: "is_space_c (lower_c c) = is_space_c c"
  by (cases c) (auto simp: lower_c_code is_upper_c_code is_space_c_code split: if_splits)

lemma is_word_lower [simp]: "is_word_c (lower_c c) = is_word_c c"
  by (cases c) (auto simp: lower_c_code is_upper_c_code is_word_c_code split: if_splits)

section \<open>Strings\<close>

definition toLowerCase :: "string \<Rightarrow> string" where
  "toLowerCase s = map lower_c s"

definition trim_start :: "string \<Rightarrow> string" where
  "trim_start s = dropWhile is_space_c s"

definition trim_end :: "string \<Rightarrow> string" where
  "trim_end s = rev (dropWhile is_space_c (rev s))"

definition js_trim :: "string \<Rightarrow> string" where
  "js_trim s = trim_end (trim_start s)"

fun startsWith :: "string \<Rightarrow> string \<Rightarrow> bool" where
  "startsWith s [] = True"
| "startsWith [] (p # ps) = False"
| "startsWith (c # s) (p # ps) = (c = p \<and> startsWith s ps)"

fun indexOf :: "string \<Rightarrow> string \<Rightarrow> nat option" where
  "indexOf [] p = (if p = [] then Some 0 else None)"
| "indexOf (c # s) p = (if startsWith (c # s) p then Some 0 else map_option Suc (indexOf s p))"

definition js_includes :: "string \<Rightarrow> string \<Rightarrow> bool" where
  "js_includes s p = (indexOf s p \<noteq> None)"

fun js_join :: "string \<Rightarrow> string list \<Rightarrow> string" where
  "js_join sep [] = []"
| "js_join sep [x] = x"
| "js_join sep (x # y # xs) = x @ sep @ js_join sep (y # xs)"

text \<open>\<open>s.split(c)\<close> for a one-character separator.\<close>

fun split_char :: "char \<Rightarrow> string \<Rightarrow> string list" where
  "split_char c [] = [[]]"
| "split_char c (x # xs) =
     (if x = c then [] # split_char c xs
      else (case split_char c xs of [] \<Rightarrow> [[x]] | y # ys \<Rightarrow> (x # y) # ys))"

definition slice :: "string \<Rightarrow> nat \<Rightarrow> nat \<Rightarrow> string" where
  "slice s i j = take (j - i) (drop i s)"

definition padStart :: "nat \<Rightarrow> char \<Rightarrow> string \<Rightarrow> string" where
  "padStart n c s = replicate (n - length s) c @ s"

lemma startsWith_take: "startsWith s p \<longleftrightarrow> take (length p) s = p"
  by (induction s p rule: startsWith.induct) auto

lemma startsWith_append [simp]: "startsWith (p @ s) p"
  by (simp add: startsWith_take)

lemma startsWith_iff: "startsWith s p \<longleftrightarrow> (\<exists>r. s = p @ r)"
  unfolding startsWith_take by (metis append_eq_conv_conj append_take_drop_id)

lemma js_includes_iff: "js_includes s p \<longleftrightarrow> (\<exists>a b. s = a @ p @ b)"
proof (induction s)
  case Nil
  then show ?case by (simp add: js_includes_def)
next
  case (Cons c s)
  have "js_includes (c # s) p \<longleftrightarrow> startsWith (c # s) p \<or> js_includes s p"
    by (auto simp: js_includes_def)
  then show ?case
    unfolding Cons startsWith_iff by (metis append_Cons append_Nil append_eq_Cons_conv)
qed

lemma toLowerCase_append [simp]: "toLowerCase (a @ b) = toLowerCase a @ toLowerCase b"
  by (simp add: toLowerCase_def)

lemma toLowerCase_Nil [simp]: "toLowerCase [] = []"
  by (simp add: toLowerCase_def)

lemma toLowerCase_idem [simp]: "toLowerCase (toLowerCase s) = toLowerCase s"
  by (simp add: toLowerCase_def)

lemma length_toLowerCase [simp]: "length (toLowerCase s) = length s"
  by (simp add: toLowerCase_def)

lemma toLowerCase_Nil_iff [simp]: "toLowerCase s = [] \<longleftrightarrow> s = []"
  by (simp add: toLowerCase_def)

lemma split_char_not_Nil [simp]: "split_char c s \<noteq> []"
  by (induction s) (auto split: list.splits)

lemma split_char_join: "js_join [c] (split_char c s) = s"
proof (induction s)
  case (Cons x xs)
  then show ?case
    by (cases "split_char c xs") (auto, (cases "tl (split_char c xs)", auto)+)
qed simp

lemma split_char_no_sep: "\<forall>p\<in>set (split_char c s). c \<notin> set p"
proof (induction s)
  case (Cons x xs)
  then show ?case by (cases "split_char c xs") auto
qed simp

lemma split_char_append:
  "split_char c (a @ c # b) = split_char c a @ split_char c b"
proof (induction a)
  case (Cons x a)
  then show ?case by (cases "split_char c a") auto
qed simp

lemma split_char_single: "c \<notin> set s \<Longrightarrow> split_char c s = [s]"
  by (induction s) auto

lemma split_char_of_join:
  "ps \<noteq> [] \<Longrightarrow> \<forall>p\<in>set ps. c \<notin> set p \<Longrightarrow> split_char c (js_join [c] ps) = ps"
proof (induction "[c]" ps rule: js_join.induct)
  case (3 x y xs)
  then show ?case by (simp add: split_char_append split_char_single)
qed (simp_all add: split_char_single)

subsection \<open>Trimming\<close>

definition trimmed :: "string \<Rightarrow> bool" where
  "trimmed s = (s = [] \<or> (\<not> is_space_c (hd s) \<and> \<not> is_space_c (last s)))"

lemma dropWhile_hd: "dropWhile P xs \<noteq> [] \<Longrightarrow> \<not> P (hd (dropWhile P xs))"
  by (induction xs) auto

lemma trim_end_last: "trim_end s \<noteq> [] \<Longrightarrow> \<not> is_space_c (last (trim_end s))"
  unfolding trim_end_def using dropWhile_hd [of is_space_c "rev s"] by (simp add: last_rev)

lemma trim_end_append: "\<exists>w. s = trim_end s @ w \<and> (\<forall>c\<in>set w. is_space_c c)"
proof -
  have "rev s = takeWhile is_space_c (rev s) @ dropWhile is_space_c (rev s)" by simp
  then have "s = trim_end s @ rev (takeWhile is_space_c (rev s))"
    unfolding trim_end_def by (metis rev_append rev_rev_ident)
  moreover have "\<forall>c\<in>set (rev (takeWhile is_space_c (rev s))). is_space_c c"
    by (auto dest: set_takeWhileD)
  ultimately show ?thesis by blast
qed

lemma trim_end_hd: "trim_end s \<noteq> [] \<Longrightarrow> hd (trim_end s) = hd s"
  using trim_end_append [of s] by (metis hd_append2)

lemma js_trim_trimmed [simp, js_text]: "trimmed (js_trim s)"
proof (cases "js_trim s = []")
  case True
  then show ?thesis by (simp add: trimmed_def)
next
  case False
  have ne: "trim_start s \<noteq> []" using False unfolding js_trim_def trim_end_def by auto
  have "\<not> is_space_c (hd (js_trim s))"
    using trim_end_hd [of "trim_start s"] False dropWhile_hd [of is_space_c s] ne
    unfolding js_trim_def trim_start_def by simp
  moreover have "\<not> is_space_c (last (js_trim s))"
    using trim_end_last [of "trim_start s"] False unfolding js_trim_def by simp
  ultimately show ?thesis by (simp add: trimmed_def)
qed

lemma trimmed_js_trim [js_text]: "trimmed s \<Longrightarrow> js_trim s = s"
proof (cases "s = []")
  case False
  assume "trimmed s"
  then have h: "\<not> is_space_c (hd s)" and l: "\<not> is_space_c (last s)"
    using False by (auto simp: trimmed_def)
  have "trim_start s = s"
    unfolding trim_start_def using h False by (cases s) auto
  moreover have "trim_end s = s"
    unfolding trim_end_def using l False by (cases s rule: rev_cases) auto
  ultimately show ?thesis by (simp add: js_trim_def)
qed (simp add: js_trim_def trim_start_def trim_end_def)

lemma js_trim_idem [simp]: "js_trim (js_trim s) = js_trim s"
  by (simp add: trimmed_js_trim)

lemma js_trim_set: "set (js_trim s) \<subseteq> set s"
  unfolding js_trim_def trim_end_def trim_start_def
  by (auto dest!: set_dropWhileD)

lemma js_trim_length: "length (js_trim s) \<le> length s"
proof -
  have "length (dropWhile is_space_c (rev (dropWhile is_space_c s))) \<le> length (dropWhile is_space_c s)"
    using length_dropWhile_le [of is_space_c "rev (dropWhile is_space_c s)"] by simp
  also have "\<dots> \<le> length s" by (rule length_dropWhile_le)
  finally show ?thesis by (simp add: js_trim_def trim_end_def trim_start_def)
qed

lemma dropWhile_lower:
  "dropWhile is_space_c (map lower_c s) = map lower_c (dropWhile is_space_c s)"
  by (induction s) auto

lemma js_trim_lower: "js_trim (toLowerCase s) = toLowerCase (js_trim s)"
  unfolding js_trim_def trim_end_def trim_start_def toLowerCase_def
  by (simp add: dropWhile_lower rev_map)

section \<open>Numbers as decimal text\<close>

text \<open>\<open>String(n)\<close> of an integer, and the reading of a run of digits back.\<close>

definition digit_char :: "nat \<Rightarrow> char" where
  "digit_char d = (''0123456789'' ! d)"

definition digit_val :: "char \<Rightarrow> nat" where
  "digit_val c = of_char c - 48"

fun nat_to_string :: "nat \<Rightarrow> string" where
  "nat_to_string n = (if n < 10 then [digit_char n] else nat_to_string (n div 10) @ [digit_char (n mod 10)])"

declare nat_to_string.simps [simp del]

definition int_to_string :: "int \<Rightarrow> string" where
  "int_to_string i = (if i < 0 then CHR ''-'' # nat_to_string (nat (- i)) else nat_to_string (nat i))"

definition digits_val :: "string \<Rightarrow> nat" where
  "digits_val s = foldl (\<lambda>n c. 10 * n + digit_val c) 0 s"

lemma digit_char_cases:
  "d < 10 \<Longrightarrow> d = 0 \<or> d = 1 \<or> d = 2 \<or> d = 3 \<or> d = 4 \<or> d = 5 \<or> d = 6 \<or> d = 7 \<or> d = 8 \<or> d = (9::nat)"
  by presburger

lemma digit_char_is_digit: "d < 10 \<Longrightarrow> is_digit_c (digit_char d)"
  by (drule digit_char_cases) (auto simp: digit_char_def is_digit_c_def nth_Cons')

lemma digit_val_char: "d < 10 \<Longrightarrow> digit_val (digit_char d) = d"
  by (drule digit_char_cases) (auto simp: digit_char_def digit_val_def nth_Cons')

lemma nat_to_string_digits: "\<forall>c\<in>set (nat_to_string n). is_digit_c c"
proof (induction n rule: nat_to_string.induct)
  case (1 n)
  then show ?case
    by (subst nat_to_string.simps) (auto simp: digit_char_is_digit)
qed

lemma nat_to_string_not_Nil [simp]: "nat_to_string n \<noteq> []"
  by (subst nat_to_string.simps) simp

lemma digits_val_snoc: "digits_val (s @ [c]) = 10 * digits_val s + digit_val c"
  by (simp add: digits_val_def)

lemma digits_val_nat_to_string [simp]: "digits_val (nat_to_string n) = n"
proof (induction n rule: nat_to_string.induct)
  case (1 n)
  show ?case
  proof (cases "n < 10")
    case True
    then show ?thesis by (subst nat_to_string.simps) (simp add: digits_val_def digit_val_char)
  next
    case False
    then have "digits_val (nat_to_string (n div 10)) = n div 10" using 1 by simp
    with False show ?thesis
      by (subst nat_to_string.simps) (simp add: digits_val_snoc digit_val_char)
  qed
qed

lemma nat_to_string_inj [simp]: "nat_to_string m = nat_to_string n \<longleftrightarrow> m = n"
  using digits_val_nat_to_string by metis

lemma int_to_string_inj: "int_to_string i = int_to_string j \<Longrightarrow> i = j"
proof -
  have nd: "\<not> is_digit_c (CHR ''-'')" by (simp add: is_digit_c_def)
  assume eq: "int_to_string i = int_to_string j"
  have "i < 0 \<longleftrightarrow> j < 0"
    using eq nd nat_to_string_digits [of "nat i"] nat_to_string_digits [of "nat j"]
    unfolding int_to_string_def by (metis list.set_intros(1))
  with eq show ?thesis by (auto simp: int_to_string_def split: if_splits)
qed

lemma int_to_string_not_Nil [simp]: "int_to_string i \<noteq> []"
  by (simp add: int_to_string_def)

end
