(* ===== verification/Doubles.thy ===== *)
theory Doubles
  imports JsText
begin

text \<open>
  JavaScript numbers: the finite doubles, NaN and the infinities. \<open>NInt i\<close> is an integer,
  \<open>NFrac m k\<close> the fraction \<open>m / 2 ^ k\<close> in lowest terms; \<open>is_double\<close> holds of those that
  fit 53 bits and the exponent range. The sign of zero is not kept (\<open>String\<close> and
  \<open>JSON.stringify\<close> do not show it).

  \<open>round_pos\<close> is the rounding of the standard (to the nearest double, ties to even),
  \<open>js_Number\<close> is \<open>Number(s)\<close> and \<open>num_to_string\<close> is \<open>String(n)\<close>: the shortest
  decimal that reads back as \<open>n\<close>. A fraction \<open>(p, q)\<close> is a pair of integers. The main
  lemma is the round trip \<open>number_round_trip\<close>. All of it computes on \<open>int\<close>.
\<close>

datatype jsnum = NInt int | NFrac int nat | NaN | PosInf | NegInf

type_synonym fraction = "int \<times> int"

fun neg_num :: "jsnum \<Rightarrow> jsnum" where
  "neg_num (NInt i) = NInt (- i)"
| "neg_num (NFrac m k) = NFrac (- m) k"
| "neg_num NaN = NaN"
| "neg_num PosInf = NegInf"
| "neg_num NegInf = PosInf"

fun num_frac :: "jsnum \<Rightarrow> fraction" where
  "num_frac (NInt i) = (i, 1)"
| "num_frac (NFrac m k) = (m, 2 ^ k)"
| "num_frac n = (0, 1)"

section \<open>Rounding\<close>

text \<open>Lowest terms.\<close>

definition lowest :: "fraction \<Rightarrow> fraction" where
  "lowest f = (fst f div gcd (fst f) (snd f), snd f div gcd (fst f) (snd f))"

function bits :: "int \<Rightarrow> int" where
  "bits n = (if n \<le> 0 then 0 else 1 + bits (n div 2))"
  by pat_completeness auto
termination by (relation "measure nat") auto

declare bits.simps [simp del]

text \<open>\<open>p / q\<close> in units of \<open>2 ^ e\<close>.\<close>

definition in_units :: "fraction \<Rightarrow> int \<Rightarrow> fraction" where
  "in_units f e = (if e \<ge> 0 then (fst f, snd f * 2 ^ nat e) else (fst f * 2 ^ nat (- e), snd f))"

definition nearest :: "fraction \<Rightarrow> int" where
  "nearest f = (let d = fst f div snd f; r = fst f mod snd f in
     if 2 * r < snd f \<or> 2 * r = snd f \<and> even d then d else d + 1)"

text \<open>The exponent of the last place: 53 significant bits, or less near zero.\<close>

definition last_place :: "fraction \<Rightarrow> int" where
  "last_place f = (let e = bits (fst f) - bits (snd f) - 53; u = in_units f e in
     max (- 1074) (if fst u \<ge> 2 ^ 53 * snd u then e + 1 else e))"

fun halve :: "int \<Rightarrow> nat \<Rightarrow> jsnum" where
  "halve n 0 = NInt n"
| "halve n (Suc k) = (if even n then halve (n div 2) k else NFrac n (Suc k))"

definition round_pos :: "fraction \<Rightarrow> jsnum" where
  "round_pos f = (let g = lowest f in
     if snd g = 1 \<and> fst g \<le> 2 ^ 53 then NInt (fst g)
     else let e = last_place g; n = nearest (in_units g e) in
       if e < 0 then halve n (nat (- e))
       else if n * 2 ^ nat e \<ge> 2 ^ 1024 then PosInf else NInt (n * 2 ^ nat e))"

definition round_num :: "fraction \<Rightarrow> jsnum" where
  "round_num f = (if fst f < 0 then neg_num (round_pos (- fst f, snd f)) else round_pos f)"

fun is_finite :: "jsnum \<Rightarrow> bool" where
  "is_finite (NInt i) = True"
| "is_finite (NFrac m k) = True"
| "is_finite n = False"

definition is_double :: "jsnum \<Rightarrow> bool" where
  "is_double n = (is_finite n \<longrightarrow> round_num (num_frac n) = n)"

section \<open>Text of a number\<close>

function pos_digits :: "int \<Rightarrow> string" where
  "pos_digits i = (if i < 10 then [digit_char (nat i)] else pos_digits (i div 10) @ [digit_char (nat (i mod 10))])"
  by pat_completeness auto
termination by (relation "measure nat") auto

declare pos_digits.simps [simp del]

definition int_digits :: "string \<Rightarrow> int" where
  "int_digits s = foldl (\<lambda>n c. 10 * n + int (digit_val c)) 0 s"

definition times10 :: "int \<Rightarrow> int \<Rightarrow> fraction" where
  "times10 s ex = (if ex \<ge> 0 then (s * 10 ^ nat ex, 1) else (s, 10 ^ nat (- ex)))"

function ndigits :: "int \<Rightarrow> int" where
  "ndigits i = (if i < 10 then 1 else 1 + ndigits (i div 10))"
  by pat_completeness auto
termination by (relation "measure nat") auto

declare ndigits.simps [simp del]

text \<open>The place of the decimal point: \<open>10 ^ (n - 1) \<le> p / q < 10 ^ n\<close>.\<close>

definition point_place :: "fraction \<Rightarrow> int" where
  "point_place f = (if fst f \<ge> snd f then ndigits (fst f div snd f) else 1 - ndigits ((snd f - 1) div fst f))"

text \<open>
  The digits, fewest first. Of two candidates the nearer is taken, at a tie the even one. A double
  needs 17 digits at most, so the exact expansion is never reached.
\<close>

definition reads_as :: "jsnum \<Rightarrow> int \<Rightarrow> int \<Rightarrow> bool" where
  "reads_as x ex c = (c > 0 \<and> round_pos (times10 c ex) = x)"

fun short_from :: "nat \<Rightarrow> int \<Rightarrow> jsnum \<Rightarrow> fraction \<Rightarrow> int \<Rightarrow> (int \<times> int) option" where
  "short_from 0 k x f n = None"
| "short_from (Suc j) k x f n =
     (let ex = n - k;
          u = (if ex \<ge> 0 then (fst f, snd f * 10 ^ nat ex) else (fst f * 10 ^ nat (- ex), snd f));
          c = fst u div snd u;
          nearer = (2 * fst u < (2 * c + 1) * snd u \<or> 2 * fst u = (2 * c + 1) * snd u \<and> even c)
      in if reads_as x ex c \<and> (nearer \<or> \<not> reads_as x ex (c + 1)) then Some (c, ex)
         else if reads_as x ex (c + 1) then Some (c + 1, ex)
         else short_from j (k + 1) x f n)"

fun exact_digits :: "jsnum \<Rightarrow> int \<times> int" where
  "exact_digits (NFrac m k) = (m * 5 ^ k, - int k)"
| "exact_digits n = (fst (num_frac n), 0)"

function strip_zeros :: "int \<Rightarrow> int \<Rightarrow> int \<times> int" where
  "strip_zeros s ex = (if s > 0 \<and> s mod 10 = 0 then strip_zeros (s div 10) (ex + 1) else (s, ex))"
  by pat_completeness auto
termination by (relation "measure (\<lambda>(s, ex). nat s)") auto

declare strip_zeros.simps [simp del]

definition shortest :: "jsnum \<Rightarrow> int \<times> int" where
  "shortest x = (case short_from 17 1 x (num_frac x) (point_place (num_frac x)) of
       Some (s, ex) \<Rightarrow> strip_zeros s ex
     | None \<Rightarrow> strip_zeros (fst (exact_digits x)) (snd (exact_digits x)))"

text \<open>The digits with their point, or in scientific notation.\<close>

definition decimal_text :: "int \<Rightarrow> int \<Rightarrow> string" where
  "decimal_text s ex =
     (let ds = pos_digits s; k = int (length ds); n = ex + k;
          e = [CHR ''e'', if n - 1 < 0 then CHR ''-'' else CHR ''+''] @ pos_digits (abs (n - 1))
      in if k \<le> n \<and> n \<le> 21 then ds @ replicate (nat (n - k)) (CHR ''0'')
         else if 0 < n \<and> n \<le> 21 then take (nat n) ds @ CHR ''.'' # drop (nat n) ds
         else if - 6 < n \<and> n \<le> 0 then ''0.'' @ replicate (nat (- n)) (CHR ''0'') @ ds
         else if k = 1 then ds @ e
         else hd ds # CHR ''.'' # tl ds @ e)"

text \<open>A number that is not negative; \<open>plain_int\<close> are those whose digits are all written.\<close>

fun plain_int :: "jsnum \<Rightarrow> bool" where
  "plain_int (NInt i) = (i \<le> 2 ^ 53)"
| "plain_int (NFrac m k) = (m = 0)"
| "plain_int n = False"

definition abs_text :: "jsnum \<Rightarrow> string" where
  "abs_text x = (if plain_int x then pos_digits (fst (num_frac x))
     else let d = shortest x in decimal_text (fst d) (snd d))"

fun num_to_string :: "jsnum \<Rightarrow> string" where
  "num_to_string (NInt i) =
     (if abs i \<le> 2 ^ 53 then int_to_string i
      else if i < 0 then CHR ''-'' # abs_text (NInt (- i)) else abs_text (NInt i))"
| "num_to_string (NFrac m k) = (if m < 0 then CHR ''-'' # abs_text (NFrac (- m) k) else abs_text (NFrac m k))"
| "num_to_string NaN = ''NaN''"
| "num_to_string PosInf = ''Infinity''"
| "num_to_string NegInf = ''-Infinity''"

section \<open>Reading a number\<close>

definition scan_exp :: "string \<Rightarrow> int \<times> string" where
  "scan_exp s = (case s of
       [] \<Rightarrow> (0, [])
     | c # r \<Rightarrow>
         if c = CHR ''e'' \<or> c = CHR ''E'' then
           (let neg = (r \<noteq> [] \<and> hd r = CHR ''-'');
                body = (if r \<noteq> [] \<and> (hd r = CHR ''-'' \<or> hd r = CHR ''+'') then tl r else r);
                ds = takeWhile is_digit_c body
            in if ds = [] then (0, s)
               else (if neg then - int_digits ds else int_digits ds, dropWhile is_digit_c body))
         else (0, s))"

definition scan_fraction :: "string \<Rightarrow> string \<times> string" where
  "scan_fraction s = (if s \<noteq> [] \<and> hd s = CHR ''.'' then (takeWhile is_digit_c (tl s), dropWhile is_digit_c (tl s))
     else ([], s))"

text \<open>Whole digits, fraction digits, exponent, and what follows.\<close>

definition scan_number :: "string \<Rightarrow> string \<times> string \<times> int \<times> string" where
  "scan_number s = (let ip = takeWhile is_digit_c s;
       (fp, r) = scan_fraction (dropWhile is_digit_c s);
       (e, r') = scan_exp r
     in (ip, fp, e, r'))"

definition decimal_frac :: "string \<Rightarrow> string \<Rightarrow> int \<Rightarrow> fraction" where
  "decimal_frac ip fp e = times10 (int_digits (ip @ fp)) (e - int (length fp))"

definition unsigned_number :: "string \<Rightarrow> jsnum" where
  "unsigned_number d = (if d = ''Infinity'' then PosInf
     else case scan_number d of (ip, fp, e, r) \<Rightarrow>
       if ip @ fp = [] \<or> r \<noteq> [] then NaN else round_pos (decimal_frac ip fp e))"

text \<open>\<open>0x\<close>, \<open>0o\<close> and \<open>0b\<close>.\<close>

definition radix_digit :: "char \<Rightarrow> int" where
  "radix_digit c = (let n = of_char c in
     if is_digit_c c then n - 48 else if 97 \<le> n \<and> n \<le> 122 then n - 87 else if 65 \<le> n \<and> n \<le> 90 then n - 55 else 99)"

definition radix_of :: "string \<Rightarrow> int" where
  "radix_of t = (if length t \<ge> 2 \<and> hd t = CHR ''0'' then
       (let x = hd (tl t) in if x = CHR ''x'' \<or> x = CHR ''X'' then 16 else if x = CHR ''o'' \<or> x = CHR ''O'' then 8
          else if x = CHR ''b'' \<or> x = CHR ''B'' then 2 else 0)
     else 0)"

definition js_Number :: "string \<Rightarrow> jsnum" where
  "js_Number s =
     (let t = js_trim s; b = radix_of t; ds = drop 2 t in
      if t = [] then NInt 0
      else if b > 0 then
        (if ds \<noteq> [] \<and> list_all (\<lambda>c. radix_digit c < b) ds then round_pos (foldl (\<lambda>n c. b * n + radix_digit c) 0 ds, 1) else NaN)
      else if hd t = CHR ''-'' then neg_num (unsigned_number (tl t))
      else if hd t = CHR ''+'' then unsigned_number (tl t)
      else unsigned_number t)"

section \<open>Whole parts\<close>

definition MAX_SAFE_INTEGER :: int where
  "MAX_SAFE_INTEGER = 2 ^ 53 - 1"

fun num_floor :: "jsnum \<Rightarrow> jsnum" where
  "num_floor (NFrac m k) = NInt (m div 2 ^ k)"
| "num_floor n = n"

fun num_trunc :: "jsnum \<Rightarrow> jsnum" where
  "num_trunc (NFrac m k) = NInt (if m < 0 then - (- m div 2 ^ k) else m div 2 ^ k)"
| "num_trunc n = n"

definition is_safe :: "jsnum \<Rightarrow> bool" where
  "is_safe n = (is_finite n \<and> abs (fst (num_frac n)) \<le> MAX_SAFE_INTEGER * snd (num_frac n))"

section \<open>Rounding depends on the value only\<close>

lemma lowest_scale:
  assumes "c > 0"
  shows "lowest (p * c, q * c) = lowest (p, q)"
proof -
  have "gcd (p * c) (q * c) = gcd p q * c" using assms by (simp add: gcd_mult_right gcd.commute [of q p])
  then show ?thesis using assms by (simp add: lowest_def)
qed

lemma lowest_eq:
  assumes "snd f > 0" "snd g > 0" "fst f * snd g = fst g * snd f"
  shows "lowest f = lowest g"
proof -
  have "lowest f = lowest (fst f * snd g, snd f * snd g)"
    using lowest_scale [OF assms(2), of "fst f" "snd f"] by simp
  also have "\<dots> = lowest (fst g * snd f, snd g * snd f)" using assms(3) by (simp add: mult.commute)
  also have "\<dots> = lowest g" using lowest_scale [OF assms(1), of "fst g" "snd g"] by simp
  finally show ?thesis .
qed

lemma round_pos_eq:
  "snd f > 0 \<Longrightarrow> snd g > 0 \<Longrightarrow> fst f * snd g = fst g * snd f \<Longrightarrow> round_pos f = round_pos g"
  unfolding round_pos_def by (drule (2) lowest_eq) (simp only:)

lemma round_pos_int: "i \<le> 2 ^ 53 \<Longrightarrow> round_pos (i, 1) = NInt i"
  by (simp add: round_pos_def lowest_def)

lemma round_pos_zero: "round_pos (0, 2 ^ k) = NInt 0"
  by (simp add: round_pos_def lowest_def)

lemma neg_neg [simp]: "neg_num (neg_num n) = n"
  by (cases n) simp_all

lemma double_int: "abs i \<le> 2 ^ 53 \<Longrightarrow> is_double (NInt i)"
  by (auto simp: is_double_def round_num_def round_pos_int)

text \<open>The quotient taken is a nearest integer, and it has 53 bits unless the number is near zero.\<close>

lemma nearest_half:
  assumes "b > 0"
  shows "2 * abs (a - nearest (a, b) * b) \<le> b"
proof -
  define d r where "d = a div b" and "r = a mod b"
  have a: "a = d * b + r" "0 \<le> r" "r < b" using assms by (simp_all add: d_def r_def)
  have "nearest (a, b) = (if 2 * r < b \<or> 2 * r = b \<and> even d then d else d + 1)"
    by (simp add: nearest_def Let_def d_def r_def)
  moreover have "a - d * b = r" "a - (d + 1) * b = r - b" using a(1) by (simp_all add: algebra_simps)
  ultimately show ?thesis using a(2,3) by auto
qed

lemma bits_bounds: "n > 0 \<Longrightarrow> bits n > 0 \<and> 2 ^ nat (bits n - 1) \<le> n \<and> n < 2 ^ nat (bits n)"
proof (induction n rule: bits.induct)
  case (1 n)
  show ?case
  proof (cases "n = 1")
    case True
    then show ?thesis by (simp add: bits.simps [of 1] bits.simps [of 0])
  next
    case False
    let ?m = "n div 2"
    have m: "?m > 0" "n = 2 * ?m + n mod 2" using False 1 by auto
    then have ih: "bits ?m > 0" "2 ^ nat (bits ?m - 1) \<le> ?m" "?m < 2 ^ nat (bits ?m)" using 1 by auto
    have b: "bits n = 1 + bits ?m" using "1.prems" by (simp add: bits.simps [of n])
    have p: "(2::int) ^ nat (bits ?m) = 2 * 2 ^ nat (bits ?m - 1)" "(2::int) ^ nat (1 + bits ?m) = 2 * 2 ^ nat (bits ?m)"
      using ih(1) by (simp_all flip: power_Suc add: nat_diff_distrib' Suc_nat_eq_nat_zadd1)
    have "n mod 2 < 2" "n mod 2 \<ge> 0" by simp_all
    then have "2 ^ nat (bits ?m) \<le> n" "n < 2 ^ nat (1 + bits ?m)" unfolding p using ih m p(1) by linarith+
    with b ih show ?thesis by simp
  qed
qed

section \<open>Digits\<close>

lemma pos_digits_nat: "i \<ge> 0 \<Longrightarrow> pos_digits i = nat_to_string (nat i)"
proof (induction i rule: pos_digits.induct)
  case (1 i)
  then show ?case
    by (simp add: pos_digits.simps [of i] nat_to_string.simps [of "nat i"] nat_div_distrib nat_mod_distrib nat_less_iff)
qed

lemma int_digits_nat: "int_digits s = int (digits_val s)"
proof -
  have "foldl (\<lambda>n c. 10 * n + int (digit_val c)) (int a) s = int (foldl (\<lambda>n c. 10 * n + digit_val c) a s)" for a
  proof (induction s arbitrary: a)
    case (Cons c s)
    then show ?case using Cons [of "10 * a + digit_val c"] by simp
  qed simp
  from this [of 0] show ?thesis by (simp add: int_digits_def digits_val_def)
qed

lemma int_to_string_code [code]: "int_to_string i = (if i < 0 then CHR ''-'' # pos_digits (- i) else pos_digits i)"
  by (simp add: int_to_string_def pos_digits_nat)

lemma pos_digits_all: "\<forall>c \<in> set (pos_digits i). is_digit_c c"
proof (cases "i \<ge> 0")
  case False
  then show ?thesis by (simp add: pos_digits.simps [of i] digit_char_is_digit)
qed (use nat_to_string_digits [of "nat i"] in \<open>simp add: pos_digits_nat\<close>)

lemma pos_digits_not_Nil [simp]: "pos_digits i \<noteq> []"
  by (subst pos_digits.simps) simp

lemma int_digits_pos: "i \<ge> 0 \<Longrightarrow> int_digits (pos_digits i) = i"
  by (simp add: pos_digits_nat int_digits_nat)

lemma int_digits_append: "int_digits (a @ b) = int_digits a * 10 ^ length b + int_digits b"
proof (induction b rule: rev_induct)
  case (snoc c b)
  have "int_digits (a @ b @ [c]) = 10 * int_digits (a @ b) + int (digit_val c)" for a
    by (simp add: int_digits_def)
  from this [of a] this [of "[]"] snoc show ?case by (simp add: algebra_simps)
qed (simp add: int_digits_def)

lemma zero_digit: "digit_val (CHR ''0'') = 0" "is_digit_c (CHR ''0'')"
  by (simp_all add: digit_val_def is_digit_c_code)

lemma int_digits_zeros: "int_digits (replicate n (CHR ''0'')) = 0"
  by (induction n rule: nat.induct) (simp_all add: int_digits_def zero_digit)

lemma int_digits_trailing: "int_digits (a @ replicate n (CHR ''0'')) = int_digits a * 10 ^ n"
  by (simp add: int_digits_append int_digits_zeros)

lemma int_digits_leading: "int_digits (replicate n (CHR ''0'') @ a) = int_digits a"
  by (simp add: int_digits_append int_digits_zeros)


section \<open>The shortest digits\<close>

definition same_value :: "fraction \<Rightarrow> fraction \<Rightarrow> bool" where
  "same_value f g = (snd f > 0 \<and> snd g > 0 \<and> fst f * snd g = fst g * snd f)"

lemma round_same: "same_value f g \<Longrightarrow> round_pos f = round_pos g"
  by (simp add: same_value_def round_pos_eq)

lemma times10_pos [simp]: "snd (times10 s ex) > 0"
  by (simp add: times10_def)

lemma times10_shift: "same_value (times10 (s * 10 ^ n) ex) (times10 s (ex + int n))"
proof -
  have p: "(10::int) ^ nat (ex + int n) = 10 ^ nat ex * 10 ^ n" if "ex \<ge> 0"
    using that by (simp add: nat_add_distrib power_add)
  have q: "(10::int) ^ n = 10 ^ nat (- ex) * 10 ^ nat (ex + int n)" if "ex < 0" "ex + int n \<ge> 0"
    using that by (simp flip: power_add nat_add_distrib)
  have r: "(10::int) ^ nat (- ex) = 10 ^ n * 10 ^ nat (- (ex + int n))" if "ex + int n < 0"
  proof -
    have "nat (- ex) = n + nat (- (ex + int n))" using that by simp
    then show ?thesis by (simp only: power_add)
  qed
  consider "ex \<ge> 0" | "ex < 0" "ex + int n \<ge> 0" | "ex + int n < 0" by linarith
  then show ?thesis
  proof cases
    case 1
    then show ?thesis using p by (simp add: same_value_def times10_def)
  next
    case 2
    then show ?thesis using q [OF 2] by (simp add: same_value_def times10_def)
  next
    case 3
    then show ?thesis using r [OF 3] by (simp add: same_value_def times10_def)
  qed
qed

lemma strip_value:
  "s > 0 \<Longrightarrow> strip_zeros s ex = (s', ex') \<Longrightarrow>
     s' > 0 \<and> s' mod 10 \<noteq> 0 \<and> (\<exists>n. s = s' * 10 ^ n \<and> ex' = ex + int n)"
proof (induction s ex rule: strip_zeros.induct)
  case (1 s ex)
  show ?case
  proof (cases "s mod 10 = 0")
    case True
    then have s: "s = s div 10 * 10" "s div 10 > 0" using "1.prems"(1) by presburger+
    have "strip_zeros (s div 10) (ex + 1) = (s', ex')"
      using "1.prems" True by (simp add: strip_zeros.simps [of s])
    then obtain n where n: "s' > 0" "s' mod 10 \<noteq> 0" "s div 10 = s' * 10 ^ n" "ex' = ex + 1 + int n"
      using "1.IH" "1.prems" True s(2) by auto
    then have "s = s' * 10 ^ Suc n \<and> ex' = ex + int (Suc n)" using s(1) by simp
    with n show ?thesis by blast
  next
    case False
    then have "s' = s" "ex' = ex" using "1.prems"(2) by (simp_all add: strip_zeros.simps [of s])
    with False "1.prems"(1) show ?thesis by (auto intro!: exI [of _ 0])
  qed
qed

lemma strip_reads:
  assumes "reads_as x ex s"
  shows "reads_as x (snd (strip_zeros s ex)) (fst (strip_zeros s ex)) \<and> fst (strip_zeros s ex) mod 10 \<noteq> 0"
proof (cases "strip_zeros s ex")
  case (Pair s' ex')
  from assms have "s > 0" by (simp add: reads_as_def)
  from strip_value [OF this Pair] obtain n where n: "s' > 0" "s' mod 10 \<noteq> 0" "s = s' * 10 ^ n" "ex' = ex + int n"
    by blast
  then have "same_value (times10 s ex) (times10 s' ex')" using times10_shift by simp
  with round_same assms n Pair show ?thesis by (simp add: reads_as_def)
qed

lemma short_reads: "short_from j k x f n = Some (s, ex) \<Longrightarrow> reads_as x ex s"
  by (induction j k x f n rule: short_from.induct) (auto simp: Let_def split: if_splits)

lemma exact_reads:
  assumes "is_finite x" "fst (num_frac x) > 0" "round_pos (num_frac x) = x"
  shows "reads_as x (snd (exact_digits x)) (fst (exact_digits x))"
proof (cases x)
  case (NFrac m k)
  have "(5::int) ^ k * 2 ^ k = 10 ^ k" by (simp flip: power_mult_distrib)
  moreover have "times10 s (- int k) = (s, 10 ^ k)" for s by (cases "k = 0") (simp_all add: times10_def)
  ultimately have "same_value (times10 (m * 5 ^ k) (- int k)) (m, 2 ^ k)" by (simp add: same_value_def)
  from round_same [OF this] NFrac assms show ?thesis by (simp add: reads_as_def)
qed (use assms in \<open>simp_all add: reads_as_def times10_def\<close>)

lemma shortest_reads:
  assumes "is_finite x" "fst (num_frac x) > 0" "round_pos (num_frac x) = x"
  shows "reads_as x (snd (shortest x)) (fst (shortest x)) \<and> fst (shortest x) mod 10 \<noteq> 0"
proof (cases "short_from 17 1 x (num_frac x) (point_place (num_frac x))")
  case None
  with strip_reads [OF exact_reads [OF assms]] show ?thesis by (simp add: shortest_def)
next
  case (Some d)
  with strip_reads [OF short_reads] show ?thesis by (cases d) (simp add: shortest_def)
qed

section \<open>Reading back\<close>

text \<open>What may follow a number.\<close>

definition num_ends :: "string \<Rightarrow> bool" where
  "num_ends r = (case r of [] \<Rightarrow> True | c # _ \<Rightarrow> \<not> is_digit_c c \<and> c \<noteq> CHR ''.'' \<and> c \<noteq> CHR ''e'' \<and> c \<noteq> CHR ''E'')"

lemma no_leading_zero: "hd (nat_to_string n) = CHR ''0'' \<Longrightarrow> n = 0"
proof (induction n rule: nat_to_string.induct)
  case (1 n)
  show ?case
  proof (cases "n < 10")
    case True
    with "1.prems" have "digit_char n = CHR ''0''" by (simp add: nat_to_string.simps)
    then have "digit_val (digit_char n) = digit_val (CHR ''0'')" by simp
    with True show ?thesis by (simp add: digit_val_char) (simp add: digit_val_def)
  next
    case False
    with "1.prems" have "hd (nat_to_string (n div 10)) = CHR ''0''"
      by (simp add: nat_to_string.simps [of n] hd_append)
    with 1 False have "n div 10 = 0" by simp
    with False show ?thesis by simp
  qed
qed

lemma pos_digits_hd: "i > 0 \<Longrightarrow> hd (pos_digits i) \<noteq> CHR ''0''"
  using no_leading_zero [of "nat i"] by (auto simp: pos_digits_nat)

definition digit_ends :: "string \<Rightarrow> bool" where
  "digit_ends r = (r = [] \<or> \<not> is_digit_c (hd r))"

lemma digit_run:
  assumes "\<forall>c \<in> set a. is_digit_c c" "digit_ends r"
  shows "takeWhile is_digit_c (a @ r) = a" "dropWhile is_digit_c (a @ r) = r"
  using assms by (cases r; simp add: digit_ends_def takeWhile_append2 dropWhile_append2)+

lemma ends_digit: "num_ends r \<Longrightarrow> digit_ends r"
  by (cases r) (auto simp: num_ends_def digit_ends_def)

lemma scan_exp_end: "num_ends r \<Longrightarrow> scan_exp r = (0, r)"
  by (cases r) (auto simp: num_ends_def scan_exp_def)

lemma scan_exp_text:
  assumes "num_ends r" "i \<ge> 0"
  shows "scan_exp (CHR ''e'' # (if neg then CHR ''-'' else CHR ''+'') # pos_digits i @ r) = (if neg then - i else i, r)"
  using digit_run [OF pos_digits_all ends_digit [OF assms(1)], of i] assms(2)
  by (simp add: scan_exp_def Let_def int_digits_pos)

lemma scan_fraction_none: "r = [] \<or> hd r \<noteq> CHR ''.'' \<Longrightarrow> scan_fraction r = ([], r)"
  by (auto simp: scan_fraction_def)

lemma scan_fraction_dot:
  "\<forall>c \<in> set a. is_digit_c c \<Longrightarrow> digit_ends r \<Longrightarrow> scan_fraction (CHR ''.'' # a @ r) = (a, r)"
  by (cases r) (auto simp: scan_fraction_def digit_ends_def)


lemma scan_whole:
  assumes "\<forall>c \<in> set ip. is_digit_c c" "digit_ends rest" "scan_fraction rest = (fp, r1)" "scan_exp r1 = (e, r)"
  shows "scan_number (ip @ rest) = (ip, fp, e, r)" "dropWhile is_digit_c (ip @ rest) = rest"
  using digit_run [OF assms(1,2)] assms(3,4) by (simp_all add: scan_number_def)

lemma ends_mark [simp]: "digit_ends (CHR ''.'' # r)" "digit_ends (CHR ''e'' # r)"
  by (simp_all add: digit_ends_def is_digit_c_code)

text \<open>The whole digits of a text: nothing but \<open>0\<close> starts with a zero, and a point is followed by digits.\<close>

definition plain_number :: "string \<Rightarrow> string \<Rightarrow> string \<Rightarrow> bool" where
  "plain_number ip fp rest = (ip \<noteq> [] \<and> (hd ip = CHR ''0'' \<longrightarrow> ip = ''0'') \<and> (rest \<noteq> [] \<and> hd rest = CHR ''.'' \<longrightarrow> fp \<noteq> []))"

lemma same_value_refl: "snd f > 0 \<Longrightarrow> same_value f f"
  by (simp add: same_value_def)

lemma scanned:
  assumes "t = ip @ rest" "\<forall>c \<in> set ip. is_digit_c c" "digit_ends rest" "scan_fraction rest = (fp, r1)" "scan_exp r1 = (e, r)"
    and "plain_number ip fp rest" "same_value (decimal_frac ip fp e) v"
  shows "\<exists>ip fp e. scan_number t = (ip, fp, e, r) \<and> plain_number ip fp (dropWhile is_digit_c t) \<and> same_value (decimal_frac ip fp e) v"
  using scan_whole [OF assms(2-5)] assms(6,7) unfolding assms(1) by metis

lemma scan_decimal:
  assumes "s > 0" "num_ends r"
  shows "\<exists>ip fp e. scan_number (decimal_text s ex @ r) = (ip, fp, e, r) \<and>
    plain_number ip fp (dropWhile is_digit_c (decimal_text s ex @ r)) \<and> same_value (decimal_frac ip fp e) (times10 s ex)"
proof -
  define ds where "ds = pos_digits s"
  define n where "n = ex + int (length ds)"
  define neg where "neg = (n - 1 < 0)"
  have ds: "ds \<noteq> []" "\<forall>c \<in> set ds. is_digit_c c" "hd ds \<noteq> CHR ''0''" "int_digits ds = s"
    using assms(1) pos_digits_all [of s] pos_digits_hd [of s] by (simp_all add: ds_def int_digits_pos)
  have len: "length ds > 0" using ds(1) by simp
  note r = ends_digit [OF assms(2)] scan_exp_end [OF assms(2)]
  have rdot: "scan_fraction r = ([], r)" "\<not> (r \<noteq> [] \<and> hd r = CHR ''.'')"
    using assms(2) by (cases r; simp add: num_ends_def scan_fraction_def)+
  define e where "e = CHR ''e'' # (if neg then CHR ''-'' else CHR ''+'') # pos_digits (abs (n - 1))"
  have e: "scan_exp (e @ r) = (n - 1, r)" "scan_fraction (e @ r) = ([], e @ r)" "digit_ends (e @ r)"
    "\<not> (e @ r \<noteq> [] \<and> hd (e @ r) = CHR ''.'')"
    using scan_exp_text [OF assms(2), of "abs (n - 1)" neg] by (auto simp: e_def neg_def scan_fraction_def)
  have shape: "decimal_text s ex =
      (if int (length ds) \<le> n \<and> n \<le> 21 then ds @ replicate (nat (n - int (length ds))) (CHR ''0'')
       else if 0 < n \<and> n \<le> 21 then take (nat n) ds @ CHR ''.'' # drop (nat n) ds
       else if - 6 < n \<and> n \<le> 0 then ''0.'' @ replicate (nat (- n)) (CHR ''0'') @ ds
       else if int (length ds) = 1 then ds @ e else hd ds # CHR ''.'' # tl ds @ e)"
    unfolding decimal_text_def Let_def e_def neg_def n_def ds_def by simp
  consider (whole) "int (length ds) \<le> n" "n \<le> 21" | (point) "0 < n" "n < int (length ds)" "n \<le> 21"
    | (small) "- 6 < n" "n \<le> 0" | (one) "int (length ds) = 1" "\<not> (1 \<le> n \<and> n \<le> 21)" "\<not> (- 6 < n \<and> n \<le> 0)"
    | (sci) "int (length ds) > 1" "\<not> (0 < n \<and> n \<le> 21)" "\<not> (- 6 < n \<and> n \<le> 0)"
    using len by linarith
  then show ?thesis
  proof cases
    case whole
    define z where "z = nat (n - int (length ds))"
    have t: "decimal_text s ex @ r = (ds @ replicate z (CHR ''0'')) @ r" using whole by (simp add: shape z_def)
    let ?ip = "ds @ replicate z (CHR ''0'')"
    have ip: "\<forall>c \<in> set ?ip. is_digit_c c" using ds(2) by (auto simp: zero_digit)
    have "same_value (decimal_frac ?ip [] 0) (times10 s ex)"
      using times10_shift [of s z 0] whole ds(4) by (simp add: decimal_frac_def int_digits_trailing z_def n_def)
    moreover have "plain_number ?ip [] r" using ds rdot by (simp add: plain_number_def hd_append)
    ultimately show ?thesis by (intro scanned [OF t ip r(1) rdot(1) r(2)])
  next
    case point
    define a b where "a = take (nat n) ds" and "b = drop (nat n) ds"
    have ab: "ds = a @ b" "length b = nat (int (length ds) - n)" "a \<noteq> []" "b \<noteq> []"
      using point ds(1) by (simp_all add: a_def b_def nat_diff_distrib')
    have t: "decimal_text s ex @ r = a @ CHR ''.'' # b @ r" using point by (simp add: shape a_def b_def)
    have dg: "\<forall>c \<in> set a. is_digit_c c" "\<forall>c \<in> set b. is_digit_c c" using ds(2) ab(1) by auto
    have f: "scan_fraction (CHR ''.'' # b @ r) = (b, r)" using scan_fraction_dot [OF dg(2) r(1)] by simp
    have "same_value (decimal_frac a b 0) (times10 s ex)"
      using ds(4) ab point by (simp add: decimal_frac_def n_def same_value_refl)
    moreover have "plain_number a b (CHR ''.'' # b @ r)" using ds(3) ab by (simp add: plain_number_def)
    ultimately show ?thesis by (intro scanned [OF t dg(1) ends_mark(1) f r(2)])
  next
    case small
    define z where "z = nat (- n)"
    have "\<not> int (length ds) \<le> n" using small(2) len by linarith
    then have t: "decimal_text s ex @ r = ''0'' @ CHR ''.'' # (replicate z (CHR ''0'') @ ds) @ r"
      using small by (simp add: shape z_def)
    let ?fp = "replicate z (CHR ''0'') @ ds"
    have fp: "\<forall>c \<in> set ?fp. is_digit_c c" using ds(2) by (auto simp: zero_digit)
    have f: "scan_fraction (CHR ''.'' # ?fp @ r) = (?fp, r)" using scan_fraction_dot [OF fp r(1)] by simp
    have "int_digits (''0'' @ ?fp) = s"
      using int_digits_leading [of "Suc z" ds] ds(4) by simp
    then have "same_value (decimal_frac ''0'' ?fp 0) (times10 s ex)"
      using small by (simp add: decimal_frac_def z_def n_def same_value_refl algebra_simps)
    moreover have "plain_number ''0'' ?fp (CHR ''.'' # ?fp @ r)" using ds(1) by (simp add: plain_number_def)
    moreover have "\<forall>c \<in> set ''0''. is_digit_c c" by (simp add: zero_digit)
    ultimately show ?thesis by (intro scanned [OF t _ ends_mark(1) f r(2)])
  next
    case one
    have t: "decimal_text s ex @ r = ds @ e @ r" using one len by (auto simp: shape)
    have "same_value (decimal_frac ds [] (n - 1)) (times10 s ex)"
      using one ds(4) by (simp add: decimal_frac_def n_def same_value_refl)
    moreover have "plain_number ds [] (e @ r)" using ds e(4) by (simp add: plain_number_def)
    ultimately show ?thesis by (intro scanned [OF t ds(2) e(3,2,1)])
  next
    case sci
    have c: "ds = [hd ds] @ tl ds" "length (tl ds) = length ds - 1" "tl ds \<noteq> []"
      using sci ds(1) by (cases ds; auto)+
    have t: "decimal_text s ex @ r = [hd ds] @ CHR ''.'' # tl ds @ e @ r" using sci by (auto simp: shape)
    have dg: "\<forall>c \<in> set [hd ds]. is_digit_c c" "\<forall>c \<in> set (tl ds). is_digit_c c"
      using ds(1,2) by (auto dest: list.set_sel(2))
    have f: "scan_fraction (CHR ''.'' # tl ds @ e @ r) = (tl ds, e @ r)" by (rule scan_fraction_dot [OF dg(2) e(3)])
    have "same_value (decimal_frac [hd ds] (tl ds) (n - 1)) (times10 s ex)"
      using sci ds(1,4) by (simp add: decimal_frac_def n_def same_value_refl of_nat_diff)
    moreover have "plain_number [hd ds] (tl ds) (CHR ''.'' # tl ds @ e @ r)" using ds(3) c(3) by (simp add: plain_number_def)
    ultimately show ?thesis by (intro scanned [OF t dg(1) ends_mark(1) f e(1)])
  qed
qed

section \<open>Text and number\<close>

text \<open>The decimal a text of a number denotes.\<close>

definition abs_decimal :: "jsnum \<Rightarrow> fraction" where
  "abs_decimal x = lowest (if plain_int x then num_frac x else times10 (fst (shortest x)) (snd (shortest x)))"

definition num_decimal :: "jsnum \<Rightarrow> fraction" where
  "num_decimal x = (if fst (num_frac x) < 0 then (- fst (abs_decimal (neg_num x)), snd (abs_decimal (neg_num x)))
     else abs_decimal x)"

lemma neg_frac: "is_finite x \<Longrightarrow> num_frac (neg_num x) = (- fst (num_frac x), snd (num_frac x))"
  by (cases x) simp_all

lemma neg_finite [simp]: "is_finite (neg_num x) = is_finite x"
  by (cases x) simp_all

lemma num_to_string_abs:
  "is_finite x \<Longrightarrow> num_to_string x =
     (if fst (num_frac x) < 0 then CHR ''-'' # abs_text (neg_num x) else abs_text x)"
  by (cases x) (auto simp: abs_text_def int_to_string_def pos_digits_nat)

lemma is_double_abs:
  assumes "is_double x" "is_finite x"
  shows "fst (num_frac x) \<ge> 0 \<Longrightarrow> round_pos (num_frac x) = x"
    and "fst (num_frac x) < 0 \<Longrightarrow> round_pos (num_frac (neg_num x)) = neg_num x"
  using assms neg_frac [OF assms(2)] by (auto simp: is_double_def round_num_def, metis neg_neg)

lemma shortest_pos: "is_finite x \<Longrightarrow> fst (num_frac x) > 0 \<Longrightarrow> fst (shortest x) > 0"
proof (cases "short_from 17 1 x (num_frac x) (point_place (num_frac x))")
  case None
  assume "is_finite x" "fst (num_frac x) > 0"
  then have "fst (exact_digits x) > 0" by (cases x) simp_all
  from strip_value [OF this prod.collapse [symmetric]] None show ?thesis by (simp add: shortest_def)
next
  case (Some d)
  then have "fst d > 0" using short_reads [of 17 1 x _ _ "fst d" "snd d"] by (simp add: reads_as_def)
  from strip_value [OF this prod.collapse [symmetric]] Some show ?thesis
    by (cases d) (simp add: shortest_def)
qed

lemma lowest_same: "same_value f g \<Longrightarrow> lowest f = lowest g"
  by (simp add: same_value_def lowest_eq)

lemma scan_abs_text:
  assumes "is_finite x" "fst (num_frac x) \<ge> 0" "num_ends r"
  shows "\<exists>ip fp e. scan_number (abs_text x @ r) = (ip, fp, e, r) \<and>
    plain_number ip fp (dropWhile is_digit_c (abs_text x @ r)) \<and> lowest (decimal_frac ip fp e) = abs_decimal x \<and>
    (round_pos (num_frac x) = x \<longrightarrow> round_pos (decimal_frac ip fp e) = x)"
proof (cases "plain_int x")
  case True
  define i where "i = fst (num_frac x)"
  have i: "0 \<le> i" "lowest (num_frac x) = (i, 1)" "round_pos (num_frac x) = x \<longrightarrow> x = NInt i"
    using True assms(2) by (cases x; simp add: i_def lowest_def round_pos_int round_pos_zero)+
  have f: "scan_fraction r = ([], r)" "\<not> (r \<noteq> [] \<and> hd r = CHR ''.'')"
    using assms(3) by (cases r; simp add: num_ends_def scan_fraction_def)+
  have d: "decimal_frac (pos_digits i) [] 0 = (i, 1)"
    using i(1) by (simp add: decimal_frac_def int_digits_pos times10_def)
  have "plain_number (pos_digits i) [] r"
    using pos_digits_hd [of i] i(1) f(2)
    by (cases "i = 0") (simp_all add: plain_number_def pos_digits.simps [of 0] digit_char_def)
  then have "\<exists>ip fp e. scan_number (pos_digits i @ r) = (ip, fp, e, r) \<and>
      plain_number ip fp (dropWhile is_digit_c (pos_digits i @ r)) \<and> decimal_frac ip fp e = (i, 1)"
    using scan_whole [OF pos_digits_all ends_digit [OF assms(3)] f(1) scan_exp_end [OF assms(3)], of i] d by metis
  moreover have "lowest (i, 1) = (i, 1)" by (simp add: lowest_def)
  moreover have "round_pos (i, 1) = round_pos (num_frac x)"
    unfolding round_pos_def i(2) \<open>lowest (i, 1) = (i, 1)\<close> ..
  ultimately show ?thesis
    using True i by (auto simp: abs_text_def abs_decimal_def i_def [symmetric])
next
  case False
  then have p: "fst (num_frac x) > 0" using assms(1,2) by (cases x) auto
  let ?t = "decimal_text (fst (shortest x)) (snd (shortest x))"
  from scan_decimal [OF shortest_pos [OF assms(1) p] assms(3), of "snd (shortest x)"]
  obtain ip fp e where s: "scan_number (?t @ r) = (ip, fp, e, r)"
    "plain_number ip fp (dropWhile is_digit_c (?t @ r))"
    "same_value (decimal_frac ip fp e) (times10 (fst (shortest x)) (snd (shortest x)))"
    by auto
  moreover have "round_pos (num_frac x) = x \<longrightarrow> round_pos (decimal_frac ip fp e) = x"
    using shortest_reads [OF assms(1) p] round_same [OF s(3)] by (simp add: reads_as_def)
  ultimately show ?thesis using False lowest_same by (auto simp: abs_text_def abs_decimal_def Let_def)
qed

text \<open>The characters of a number's text.\<close>

definition num_char :: "char \<Rightarrow> bool" where
  "num_char c = (is_digit_c c \<or> c \<in> set ''-+.e'')"

lemma decimal_chars: "\<forall>c \<in> set (decimal_text s ex). num_char c"
proof -
  have d: "\<forall>c \<in> set (pos_digits i). num_char c" for i using pos_digits_all [of i] by (auto simp: num_char_def)
  have z: "num_char (CHR ''0'')" "num_char (CHR ''e'')" "num_char (CHR ''.'')" "num_char (CHR ''-'')" "num_char (CHR ''+'')"
    by (simp_all add: num_char_def zero_digit)
  have h: "num_char (hd (pos_digits s))" using d [of s] by simp
  show ?thesis
    using d z h by (auto simp: decimal_text_def Let_def dest: in_set_takeD in_set_dropD list.set_sel(2) [OF pos_digits_not_Nil])
qed

lemma num_chars: "is_finite x \<Longrightarrow> \<forall>c \<in> set (num_to_string x). num_char c"
proof -
  assume "is_finite x"
  moreover have "\<forall>c \<in> set (abs_text y). num_char c" for y
    using decimal_chars pos_digits_all by (auto simp: abs_text_def Let_def num_char_def)
  ultimately show ?thesis by (auto simp: num_to_string_abs num_char_def)
qed

lemma abs_text_start:
  assumes "is_finite x" "fst (num_frac x) \<ge> 0"
  shows "\<exists>c w. abs_text x = c # w \<and> is_digit_c c"
proof -
  from scan_abs_text [OF assms, of "[]"] obtain ip fp e where
    "scan_number (abs_text x) = (ip, fp, e, [])" "ip \<noteq> []"
    by (auto simp: num_ends_def plain_number_def)
  then have "takeWhile is_digit_c (abs_text x) \<noteq> []" by (auto simp: scan_number_def split: prod.splits)
  then show ?thesis by (cases "abs_text x") (auto split: if_splits)
qed

lemma is_space_not_digit: "is_digit_c c \<Longrightarrow> \<not> is_space_c c"
  by (cases c) (auto simp: is_digit_c_code is_space_c_code split: if_splits)

lemma num_char_not: "num_char c \<Longrightarrow> \<not> is_space_c c \<and> c \<notin> set ''xXoObBINTFn'' \<and> c \<noteq> CHR 0x27"
  using is_space_not_digit [of c] by (auto simp: num_char_def is_digit_c_code is_space_c_code)

lemma unsigned_abs_text:
  assumes "is_finite x" "fst (num_frac x) \<ge> 0" "round_pos (num_frac x) = x"
  shows "unsigned_number (abs_text x) = x"
proof -
  from scan_abs_text [OF assms(1,2), of "[]"] assms(3) obtain ip fp e where
    s: "scan_number (abs_text x) = (ip, fp, e, [])" "ip \<noteq> []" "round_pos (decimal_frac ip fp e) = x"
    by (auto simp: num_ends_def plain_number_def)
  have "hd (abs_text x) \<noteq> CHR ''I''" using abs_text_start [OF assms(1,2)] by (auto simp: is_digit_c_code)
  then have "abs_text x \<noteq> ''Infinity''" by auto
  with s show ?thesis by (simp add: unsigned_number_def)
qed

lemma no_radix: "\<forall>c \<in> set t. num_char c \<Longrightarrow> radix_of t = 0"
proof (cases t)
  case (Cons a u)
  moreover assume "\<forall>c \<in> set t. num_char c"
  ultimately show ?thesis using num_char_not [of "hd u"] by (cases u) (auto simp: radix_of_def Let_def)
qed (simp add: radix_of_def)

lemma no_space_trimmed: "\<forall>c \<in> set t. \<not> is_space_c c \<Longrightarrow> trimmed t"
  by (cases "t = []") (simp_all add: trimmed_def)

lemma js_Number_words: "js_Number ''NaN'' = NaN" "js_Number ''Infinity'' = PosInf" "js_Number ''-Infinity'' = NegInf"
  by code_simp+

text \<open>Every number, printed, reads back as itself.\<close>

theorem number_round_trip:
  assumes "is_double x"
  shows "js_Number (num_to_string x) = x"
proof (cases "is_finite x")
  case False
  then show ?thesis by (cases x) (simp_all add: js_Number_words)
next
  case True
  let ?t = "num_to_string x"
  have c: "\<forall>c \<in> set ?t. num_char c" by (rule num_chars [OF True])
  have "trimmed ?t" by (rule no_space_trimmed) (use c num_char_not in blast)
  note js = js_Number_def [of ?t, unfolded Let_def trimmed_js_trim [OF this] no_radix [OF c]]
  show ?thesis
  proof (cases "fst (num_frac x) < 0")
    case False
    then have t: "?t = abs_text x" using True by (simp add: num_to_string_abs)
    obtain a w where a: "abs_text x = a # w" "is_digit_c a" using abs_text_start [OF True] False by auto
    have "a \<noteq> CHR ''-''" "a \<noteq> CHR ''+''" using a(2) by (auto simp: is_digit_c_code)
    then show ?thesis
      using js t a unsigned_abs_text [OF True] is_double_abs(1) [OF assms True] False by auto
  next
    case neg: True
    then have t: "?t = CHR ''-'' # abs_text (neg_num x)" using True by (simp add: num_to_string_abs)
    have "unsigned_number (abs_text (neg_num x)) = neg_num x"
      using unsigned_abs_text [of "neg_num x"] is_double_abs(2) [OF assms True neg] neg neg_frac [OF True] True by simp
    then show ?thesis using js t by simp
  qed
qed

end
