(* ===== verification/JsValue.thy ===== *)
theory JsValue
  imports Doubles
begin

text \<open>
  JavaScript values that cross the extension's boundaries: grid cells coming from the
  helper process, records read from a file, settings. Numbers are doubles (theory Doubles).
  \<open>undefined\<close> and \<open>null\<close> are distinct. An object is its list of own properties in
  order.

  \<open>js_String\<close> is \<open>String(v)\<close>, \<open>json_text\<close> is \<open>JSON.stringify(v)\<close> of a value other
  than \<open>undefined\<close>, \<open>jget\<close> a property read, \<open>truthy\<close> the boolean reading,
  \<open>strict_eq\<close> the \<open>===\<close> of two values that are not the same object.
\<close>

datatype jsval =
    VUndef
  | VNull
  | VBool bool
  | VNum jsnum
  | VStr string
  | VArr "jsval list"
  | VObj "(string \<times> jsval) list"

fun is_obj :: "jsval \<Rightarrow> bool" where
  "is_obj (VObj ps) = True"
| "is_obj v = False"

fun is_nullish :: "jsval \<Rightarrow> bool" where
  "is_nullish VUndef = True"
| "is_nullish VNull = True"
| "is_nullish v = False"

text \<open>\<open>typeof v === "object"\<close> for a value that is not \<open>null\<close>.\<close>

fun is_object_type :: "jsval \<Rightarrow> bool" where
  "is_object_type (VObj ps) = True"
| "is_object_type (VArr vs) = True"
| "is_object_type v = False"

fun js_typeof :: "jsval \<Rightarrow> string" where
  "js_typeof VUndef = ''undefined''"
| "js_typeof VNull = ''object''"
| "js_typeof (VBool b) = ''boolean''"
| "js_typeof (VNum n) = ''number''"
| "js_typeof (VStr s) = ''string''"
| "js_typeof (VArr vs) = ''object''"
| "js_typeof (VObj ps) = ''object''"

fun jget :: "jsval \<Rightarrow> string \<Rightarrow> jsval" where
  "jget (VObj ps) k = (case omap_get ps k of None \<Rightarrow> VUndef | Some v \<Rightarrow> v)"
| "jget v k = VUndef"

fun truthy :: "jsval \<Rightarrow> bool" where
  "truthy VUndef = False"
| "truthy VNull = False"
| "truthy (VBool b) = b"
| "truthy (VNum n) = (n \<noteq> NInt 0 \<and> n \<noteq> NaN)"
| "truthy (VStr s) = (s \<noteq> [])"
| "truthy v = True"

fun strict_eq :: "jsval \<Rightarrow> jsval \<Rightarrow> bool" where
  "strict_eq VUndef VUndef = True"
| "strict_eq VNull VNull = True"
| "strict_eq (VBool a) (VBool b) = (a = b)"
| "strict_eq (VNum a) (VNum b) = (a = b \<and> a \<noteq> NaN)"
| "strict_eq (VStr a) (VStr b) = (a = b)"
| "strict_eq a b = False"

text \<open>The message of the error the host's engine throws for a property of \<open>null\<close>.\<close>

definition null_read :: "string \<Rightarrow> string" where
  "null_read f = ''Cannot read properties of null (reading '' @ [CHR 0x27] @ f @ [CHR 0x27] @ '')''"

section \<open>String(v)\<close>

fun js_String :: "jsval \<Rightarrow> string"
  and js_String_elems :: "jsval list \<Rightarrow> string list" where
  "js_String VUndef = ''undefined''"
| "js_String VNull = ''null''"
| "js_String (VBool b) = (if b then ''true'' else ''false'')"
| "js_String (VNum n) = num_to_string n"
| "js_String (VStr s) = s"
| "js_String (VArr vs) = js_join '','' (js_String_elems vs)"
| "js_String (VObj ps) = ''[object Object]''"
| "js_String_elems [] = []"
| "js_String_elems (v # vs) = (if is_nullish v then [] else js_String v) # js_String_elems vs"

section \<open>JSON.stringify\<close>

definition hex_digit :: "nat \<Rightarrow> char" where
  "hex_digit d = (''0123456789abcdef'' ! d)"

definition json_escape_c :: "char \<Rightarrow> string" where
  "json_escape_c c =
     (if c = CHR 0x22 then [CHR 0x5C, CHR 0x22]
      else if c = CHR 0x5C then [CHR 0x5C, CHR 0x5C]
      else if c = CHR 0x08 then [CHR 0x5C, CHR ''b'']
      else if c = CHR 0x0C then [CHR 0x5C, CHR ''f'']
      else if c = CHR 0x0A then [CHR 0x5C, CHR ''n'']
      else if c = CHR 0x0D then [CHR 0x5C, CHR ''r'']
      else if c = CHR 0x09 then [CHR 0x5C, CHR ''t'']
      else if (of_char c :: nat) < 32
        then [CHR 0x5C, CHR ''u'', CHR ''0'', CHR ''0'', hex_digit (of_char c div 16), hex_digit (of_char c mod 16)]
      else [c])"

definition json_quote :: "string \<Rightarrow> string" where
  "json_quote s = [CHR 0x22] @ concat (map json_escape_c s) @ [CHR 0x22]"

definition json_num :: "jsnum \<Rightarrow> string" where
  "json_num n = (if is_finite n then num_to_string n else ''null'')"

fun json_text :: "jsval \<Rightarrow> string"
  and json_elems :: "jsval list \<Rightarrow> string list"
  and json_members :: "(string \<times> jsval) list \<Rightarrow> string list" where
  "json_text VUndef = ''null''"
| "json_text VNull = ''null''"
| "json_text (VBool b) = (if b then ''true'' else ''false'')"
| "json_text (VNum n) = json_num n"
| "json_text (VStr s) = json_quote s"
| "json_text (VArr vs) = ''['' @ js_join '','' (json_elems vs) @ '']''"
| "json_text (VObj ps) = ''{'' @ js_join '','' (json_members ps) @ ''}''"
| "json_elems [] = []"
| "json_elems (v # vs) = json_text v # json_elems vs"
| "json_members [] = []"
| "json_members ((k, v) # ps) =
     (if v = VUndef then json_members ps
      else (json_quote k @ '':'' @ json_text v) # json_members ps)"

section \<open>parseInt\<close>

text \<open>\<open>Number.parseInt(s, 10)\<close>: leading white space, a sign, then the longest run of digits.\<close>

definition parse_digits :: "string \<Rightarrow> jsnum" where
  "parse_digits s = (let ds = takeWhile is_digit_c s in
     if ds = [] then NaN else round_pos (int_digits ds, 1))"

definition js_parseInt :: "string \<Rightarrow> jsnum" where
  "js_parseInt s = (case trim_start s of
       [] \<Rightarrow> NaN
     | c # r \<Rightarrow> if c = CHR ''-'' then neg_num (parse_digits r)
               else if c = CHR ''+'' then parse_digits r
               else parse_digits (c # r))"

lemma parse_digits_nat_to_string: "int n \<le> 2 ^ 53 \<Longrightarrow> parse_digits (nat_to_string n) = NInt (int n)"
proof -
  assume "int n \<le> 2 ^ 53"
  then have "round_pos (int_digits (nat_to_string n), 1) = NInt (int n)" by (simp add: int_digits_nat round_pos_int)
  moreover
  have "takeWhile is_digit_c (nat_to_string n) = nat_to_string n"
    using nat_to_string_digits by (simp add: takeWhile_eq_all_conv)
  ultimately show ?thesis unfolding parse_digits_def by (simp only: Let_def) simp
qed

lemma parseInt_nat_to_string [js_text]: "int n \<le> 2 ^ 53 \<Longrightarrow> js_parseInt (nat_to_string n) = NInt (int n)"
proof (cases "nat_to_string n")
  case (Cons c r)
  assume small: "int n \<le> 2 ^ 53"
  from Cons have d: "is_digit_c c" using nat_to_string_digits [of n] by auto
  then have "trim_start (nat_to_string n) = nat_to_string n"
    using Cons is_space_not_digit [OF d] by (simp add: trim_start_def)
  moreover have "c \<noteq> CHR ''-''" "c \<noteq> CHR ''+''" using d by (auto simp: is_digit_c_def)
  ultimately show ?thesis
    using Cons parse_digits_nat_to_string [OF small] by (simp add: js_parseInt_def)
qed simp

lemma strict_eq_sym: "strict_eq a b = strict_eq b a"
  by (cases a; cases b) auto

lemma js_typeof_strict: "strict_eq a b \<Longrightarrow> js_typeof a = js_typeof b"
  by (cases a; cases b) auto

end
