(* ===== verification/Runtime.thy ===== *)
theory Runtime
  imports JsValue
begin

text \<open>
  The data the extension keeps (\<open>src/src/runtime.js\<close> and the shapes the other modules
  store in it): saved connections, per-connection sessions, the schema cache of a session,
  the page of a browsed table, the results of a run, and the module-level \<open>state\<close>.

  A field JavaScript may leave \<open>null\<close> or \<open>undefined\<close> is an option. A connection is a
  record with every field, as the two writers of connections (the dialog's form and
  \<open>sanitizeConnection\<close>) produce it; a field an older build did not store reads as the
  empty string, which every use treats like a missing one (\<open>||\<close>, \<open>??\<close> followed by a
  test). Page numbers, sizes and counts are integers.
\<close>

section \<open>Connections\<close>

record conn =
  c_id :: string
  c_name :: string
  c_kind :: string
  c_host :: string
  c_port :: string
  c_user :: string
  c_database :: string
  c_sqlitePath :: string
  c_sqliteReadOnly :: bool
  c_allow_writes :: bool
  c_sslMode :: string
  c_sshTunnel :: string
  c_query_timeout_ms :: jsnum
  c_row_limit :: jsnum

text \<open>The connection dialog's form: a connection and the password typed beside it.\<close>

record form = conn +
  f_password :: string

section \<open>Tables, columns, schema cache\<close>

record table_ref =
  t_database :: string
  t_schema :: string
  t_table :: string
  t_kind :: string

text \<open>One entry of a \<open>/columns\<close> answer.\<close>

record col_info =
  ci_name :: string
  ci_data_type :: string
  ci_full_type :: string
  ci_nullable :: bool
  ci_is_primary :: bool
  ci_auto_increment :: bool
  ci_default :: jsval

record cache_entry =
  e_database :: string
  e_schema :: string
  e_table :: string
  e_kind :: string
  e_columns :: "string list"

record snapshot =
  sn_columns :: "string list"
  sn_rows :: "jsval list list"
  sn_page :: int
  sn_page_size :: int
  sn_total :: "int option"
  sn_total_estimated :: bool
  sn_elapsed_ms :: int

section \<open>Results of a run\<close>

datatype stmt_result =
    SRows string "string list" "jsval list list" bool bool int
  | SExec string int int
  | SError string string int

section \<open>Sessions and the module state\<close>

record pk_cache =
  pk_key :: string
  pk_pks :: "string list"
  pk_columns :: "col_info list"

record session =
  s_connId :: string
  s_sql :: string
  s_result :: "stmt_result list option"
  s_activeTable :: "table_ref option"
  s_tableSnapshot :: "snapshot option"
  s_requestId :: "string option"
  s_schemaCache :: "(string, cache_entry) omap"
  s_currentDatabase :: "string option"
  s_currentSchema :: "string option"
  s_orderBy :: "string option"
  s_orderDir :: string
  s_gridSearch :: string
  s_gridSearchCol :: string
  s_totalKey :: "string option"
  s_total :: "int option"
  s_totalEstimated :: bool
  s_pkCache :: "pk_cache option"
  s_qcols :: "(string, col_info list) omap"
  s_pageSize :: "int option"
  s_actionSql :: "string option"
  s_inTransaction :: bool
  s_editorHidden :: bool

text \<open>\<open>connStatus\<close> values.\<close>

datatype conn_status = Connecting | Reconnecting | Connected | Disconnected | StError

record app =
  a_connections :: "conn list"
  a_active :: "string option"
  a_sessions :: "(string, session) omap"
  a_connStatus :: "(string, conn_status) omap"

definition GRID_PAGE_SIZE :: int where
  "GRID_PAGE_SIZE = 10"

definition PAGE_SIZE_OPTIONS :: "int list" where
  "PAGE_SIZE_OPTIONS = [10, 25, 50, 100, 500]"

definition pageSizeFor :: "session \<Rightarrow> int" where
  "pageSizeFor s = (case s_pageSize s of
       None \<Rightarrow> GRID_PAGE_SIZE
     | Some n \<Rightarrow> if n = 0 then GRID_PAGE_SIZE else n)"

text \<open>\<open>state.connections.find((c) => c.id === id)\<close>\<close>

definition find_conn :: "conn list \<Rightarrow> string \<Rightarrow> conn option" where
  "find_conn cs i = find_first (\<lambda>c. c_id c = i) cs"

lemma find_conn_Some: "find_conn cs i = Some c \<Longrightarrow> c \<in> set cs \<and> c_id c = i"
  unfolding find_conn_def by (rule find_first_Some)

lemma find_conn_None: "find_conn cs i = None \<longleftrightarrow> i \<notin> c_id ` set cs"
  unfolding find_conn_def find_first_None by auto

lemma find_conn_in: "distinct (map c_id cs) \<Longrightarrow> c \<in> set cs \<Longrightarrow> find_conn cs (c_id c) = Some c"
  unfolding find_conn_def by (induction cs) (auto simp: rev_image_eqI)

text \<open>The session \<open>ensureSession\<close> creates (\<open>connections/store.js\<close>).\<close>

definition new_session :: "string \<Rightarrow> session" where
  "new_session i = \<lparr>
     s_connId = i, s_sql = ''SELECT 1;'', s_result = None, s_activeTable = None,
     s_tableSnapshot = None, s_requestId = None, s_schemaCache = [],
     s_currentDatabase = None, s_currentSchema = None,
     s_orderBy = None, s_orderDir = ''asc'', s_gridSearch = [], s_gridSearchCol = [],
     s_totalKey = None, s_total = None, s_totalEstimated = False,
     s_pkCache = None, s_qcols = [], s_pageSize = None, s_actionSql = None,
     s_inTransaction = False, s_editorHidden = False \<rparr>"

end
