(* ===== verification/JsRegex.thy ===== *)
theory JsRegex
  imports JsText
begin

text \<open>
  The part of ECMAScript regular expressions the extension uses, as a syntax tree and a
  backtracking matcher. \<open>re_matches r st\<close> lists every way \<open>r\<close> can match at a position,
  in the order a backtracking engine tries them, so the first element is the match the
  engine reports: alternatives left to right, a greedy repetition longest first, a lazy
  one shortest first, and an iteration that consumes nothing is cut off, as the
  specification's RepeatMatcher does. A position carries the previous character (for
  \<open>\b\<close> and \<open>^\<close>), the rest of the input, and the captures recorded so far.

  \<open>re_search\<close> finds the leftmost match, \<open>re_test\<close> is \<open>RegExp.prototype.test\<close>,
  \<open>re_exec\<close> gives the captures of \<open>exec\<close>, \<open>re_replace\<close> is \<open>replace\<close> with a \<open>g\<close> flag
  and a literal replacement, \<open>re_replace1\<close> without it, \<open>re_find_all\<close> the loop over
  \<open>exec\<close> with a \<open>g\<close> flag and \<open>re_split\<close> is \<open>split\<close> on a pattern that never matches
  the empty string. A case-insensitive literal (flag \<open>i\<close>) compares lower-cased
  characters, which on this character range is the specification's Canonicalize.
\<close>

section \<open>Syntax and matcher\<close>

datatype re =
    REps
  | RCls "char \<Rightarrow> bool"
  | RSeq re re
  | RAlt re re
  | RStar bool re
  | RCap nat re
  | RWordB
  | RBol
  | REol

type_synonym captures = "(nat \<times> string) list"
type_synonym mstate = "char option \<times> string \<times> captures"

definition word_at :: "char option \<Rightarrow> bool" where
  "word_at p = (case p of None \<Rightarrow> False | Some c \<Rightarrow> is_word_c c)"

definition at_boundary :: "char option \<Rightarrow> string \<Rightarrow> bool" where
  "at_boundary p s = (word_at p \<noteq> (case s of [] \<Rightarrow> False | c # _ \<Rightarrow> is_word_c c))"

fun st_rest :: "mstate \<Rightarrow> string" where
  "st_rest (p, s, c) = s"

function (sequential) re_matches :: "re \<Rightarrow> mstate \<Rightarrow> mstate list" where
  "re_matches REps st = [st]"
| "re_matches (RCls P) (p, s, c) =
     (case s of [] \<Rightarrow> [] | x # xs \<Rightarrow> if P x then [(Some x, xs, c)] else [])"
| "re_matches (RSeq r1 r2) st = concat (map (re_matches r2) (re_matches r1 st))"
| "re_matches (RAlt r1 r2) st = re_matches r1 st @ re_matches r2 st"
| "re_matches (RStar greedy r) st =
     (let more = concat (map (\<lambda>st'. if length (st_rest st') < length (st_rest st)
                                    then re_matches (RStar greedy r) st' else [])
                             (re_matches r st))
      in if greedy then more @ [st] else st # more)"
| "re_matches (RCap k r) (p, s, c) =
     map (\<lambda>(p', s', c'). (p', s', (k, take (length s - length s') s) # c')) (re_matches r (p, s, c))"
| "re_matches RWordB (p, s, c) = (if at_boundary p s then [(p, s, c)] else [])"
| "re_matches RBol (p, s, c) = (if p = None then [(p, s, c)] else [])"
| "re_matches REol (p, s, c) = (if s = [] then [(p, s, c)] else [])"
  by pat_completeness auto
termination
  by (relation "measures [\<lambda>(r, st). size r, \<lambda>(r, st). length (st_rest st)]") auto

declare re_matches.simps(5) [simp del]

lemma re_star_mem:
  "st' \<in> set (re_matches (RStar g r) st) \<longleftrightarrow>
     st' = st \<or> (\<exists>st1 \<in> set (re_matches r st). length (st_rest st1) < length (st_rest st) \<and>
                  st' \<in> set (re_matches (RStar g r) st1))"
  by (subst re_matches.simps(5)) (auto simp: Let_def)

fun re_search :: "re \<Rightarrow> char option \<Rightarrow> string \<Rightarrow> (string \<times> mstate) option" where
  "re_search r p s = (case re_matches r (p, s, []) of
       m # _ \<Rightarrow> Some ([], m)
     | [] \<Rightarrow> (case s of
           [] \<Rightarrow> None
         | x # xs \<Rightarrow> map_option (\<lambda>(pre, m). (x # pre, m)) (re_search r (Some x) xs)))"

declare re_search.simps [simp del]

definition re_test :: "re \<Rightarrow> string \<Rightarrow> bool" where
  "re_test r s = (case re_search r None s of None \<Rightarrow> False | Some _ \<Rightarrow> True)"

text \<open>\<open>re_exec r s\<close>: the captures of the leftmost match.\<close>

definition re_exec :: "re \<Rightarrow> string \<Rightarrow> captures option" where
  "re_exec r s = map_option (\<lambda>(pre, p, rest, c). c) (re_search r None s)"

definition cap :: "captures \<Rightarrow> nat \<Rightarrow> string option" where
  "cap c k = omap_get c k"

section \<open>Loops over matches\<close>

lemma re_matches_shorter: "st' \<in> set (re_matches r st) \<Longrightarrow> length (st_rest st') \<le> length (st_rest st)"
proof (induction r st arbitrary: st' rule: re_matches.induct)
  case (2 P p s c)
  then show ?case by (auto split: list.splits if_splits)
next
  case (3 r1 r2 st)
  from "3.prems" obtain st1 where 1: "st1 \<in> set (re_matches r1 st)"
    and 2: "st' \<in> set (re_matches r2 st1)" by auto
  from "3.IH"(2) [OF 1 2] "3.IH"(1) [OF 1] show ?case by simp
next
  case (5 greedy r st)
  show ?case
  proof (cases "st' = st")
    case False
    with "5.prems" re_star_mem [of st' greedy r st] obtain st1 where 1: "st1 \<in> set (re_matches r st)"
      and lt: "length (st_rest st1) < length (st_rest st)"
      and 2: "st' \<in> set (re_matches (RStar greedy r) st1)" by blast
    from "5.IH"(2) [OF 1 lt 2] lt show ?thesis by simp
  qed simp
next
  case (6 k r p s c)
  from "6.prems" obtain p1 s1 c1 where "(p1, s1, c1) \<in> set (re_matches r (p, s, c))"
    "st_rest st' = s1" by auto
  with "6.IH" [of "(p1, s1, c1)"] show ?case by simp
qed (auto split: if_splits)

lemma re_search_Nil: "re_search r p [] = (case re_matches r (p, [], []) of [] \<Rightarrow> None | m # ms \<Rightarrow> Some ([], m))"
  by (subst re_search.simps) (simp split: list.splits)

lemma re_search_Cons:
  "re_search r p (x # xs) = (case re_matches r (p, x # xs, []) of
     [] \<Rightarrow> map_option (\<lambda>(pre, m). (x # pre, m)) (re_search r (Some x) xs)
   | m # ms \<Rightarrow> Some ([], m))"
  by (subst re_search.simps) (simp split: list.splits)

lemma re_search_cases:
  assumes "re_search r p s = Some (pre, m)"
  obtains (here) ms where "pre = []" "re_matches r (p, s, []) = m # ms"
  | (later) x xs pre' where "s = x # xs" "pre = x # pre'" "re_matches r (p, s, []) = []"
      "re_search r (Some x) xs = Some (pre', m)"
proof (cases s)
  case Nil
  with assms here show ?thesis by (auto simp: re_search_Nil split: list.splits)
next
  case (Cons x xs)
  show ?thesis
  proof (cases "re_matches r (p, s, [])")
    case Nil
    with assms Cons obtain pre' where "re_search r (Some x) xs = Some (pre', m)" "pre = x # pre'"
      by (auto simp: re_search_Cons)
    with later Cons Nil show ?thesis by blast
  next
    case (Cons m' ms)
    with assms \<open>s = x # xs\<close> here show ?thesis by (auto simp: re_search_Cons)
  qed
qed

lemma re_search_parts:
  "re_search r p s = Some (pre, q, rest, c) \<Longrightarrow> length pre + length rest \<le> length s"
proof (induction s arbitrary: p pre)
  case Nil
  from Nil.prems show ?case
  proof (cases rule: re_search_cases)
    case (here ms)
    then have "(q, rest, c) \<in> set (re_matches r (p, [], []))" by simp
    from re_matches_shorter [OF this] here show ?thesis by simp
  qed simp
next
  case (Cons x xs)
  from Cons.prems show ?case
  proof (cases rule: re_search_cases)
    case (here ms)
    then have "(q, rest, c) \<in> set (re_matches r (p, x # xs, []))" by simp
    from re_matches_shorter [OF this] here show ?thesis by simp
  next
    case (later y ys pre')
    with Cons.IH [of "Some x" pre'] show ?thesis by simp
  qed
qed

text \<open>
  One round of a global search at a position: the text before the match, the captures
  and the position after it. A match of the empty string advances by one character,
  which is what \<open>lastIndex\<close> does; when it sits at the end of the input the loop ends.
\<close>

function re_fold :: "re \<Rightarrow> char option \<Rightarrow> string \<Rightarrow> (string \<times> captures) list \<times> string" where
  "re_fold r p s = (case re_search r p s of
       None \<Rightarrow> ([], s)
     | Some (pre, q, rest, c) \<Rightarrow>
         if length rest < length s
         then (let (ms, tail) = re_fold r q rest in ((pre, c) # ms, tail))
         else (case rest of
             [] \<Rightarrow> ([(pre, c)], [])
           | x # xs \<Rightarrow> (let (ms, tail) = re_fold r (Some x) xs in
               (case ms of [] \<Rightarrow> ([(pre, c)], x # tail)
                | (pre', c') # ms' \<Rightarrow> ((pre, c) # (x # pre', c') # ms', tail)))))"
  by pat_completeness auto
termination
  by (relation "measure (\<lambda>(r, p, s). length s)") (auto dest: re_search_parts)

declare re_fold.simps [simp del]

definition re_replace :: "re \<Rightarrow> string \<Rightarrow> string \<Rightarrow> string" where
  "re_replace r by s = (let (ms, tail) = re_fold r None s in concat (map (\<lambda>(pre, c). pre @ by) ms) @ tail)"

definition re_replace1 :: "re \<Rightarrow> string \<Rightarrow> string \<Rightarrow> string" where
  "re_replace1 r by s = (case re_search r None s of
       None \<Rightarrow> s | Some (pre, q, rest, c) \<Rightarrow> pre @ by @ rest)"

definition re_find_all :: "re \<Rightarrow> string \<Rightarrow> captures list" where
  "re_find_all r s = map snd (fst (re_fold r None s))"

definition re_split :: "re \<Rightarrow> string \<Rightarrow> string list" where
  "re_split r s = (let (ms, tail) = re_fold r None s in map fst ms @ [tail])"

section \<open>Building patterns\<close>

definition rchar :: "char \<Rightarrow> re" where
  "rchar c = RCls (\<lambda>x. x = c)"

definition rchar_i :: "char \<Rightarrow> re" where
  "rchar_i c = RCls (\<lambda>x. lower_c x = lower_c c)"

fun rlit :: "string \<Rightarrow> re" where
  "rlit [] = REps"
| "rlit [c] = rchar c"
| "rlit (c # d # cs) = RSeq (rchar c) (rlit (d # cs))"

fun rlit_i :: "string \<Rightarrow> re" where
  "rlit_i [] = REps"
| "rlit_i [c] = rchar_i c"
| "rlit_i (c # d # cs) = RSeq (rchar_i c) (rlit_i (d # cs))"

fun rseq :: "re list \<Rightarrow> re" where
  "rseq [] = REps"
| "rseq [r] = r"
| "rseq (r # s # rs) = RSeq r (rseq (s # rs))"

fun ralt :: "re list \<Rightarrow> re" where
  "ralt [] = REps"
| "ralt [r] = r"
| "ralt (r # s # rs) = RAlt r (ralt (s # rs))"

definition ropt :: "re \<Rightarrow> re" where
  "ropt r = RAlt r REps"

definition rstar :: "re \<Rightarrow> re" where
  "rstar r = RStar True r"

definition rstar_lazy :: "re \<Rightarrow> re" where
  "rstar_lazy r = RStar False r"

definition rplus :: "re \<Rightarrow> re" where
  "rplus r = RSeq r (RStar True r)"

definition rspace :: re where
  "rspace = RCls is_space_c"

definition rdigit :: re where
  "rdigit = RCls is_digit_c"

definition rany :: re where
  "rany = RCls (\<lambda>c. True)"

text \<open>\<open>r{m,n}\<close>: greedy, up to \<open>n\<close> times.\<close>

fun rrep_upto :: "nat \<Rightarrow> re \<Rightarrow> re" where
  "rrep_upto 0 r = REps"
| "rrep_upto (Suc n) r = RAlt (RSeq r (rrep_upto n r)) REps"

fun rrep :: "nat \<Rightarrow> re \<Rightarrow> re" where
  "rrep 0 r = REps"
| "rrep (Suc n) r = (if n = 0 then r else RSeq r (rrep n r))"

section \<open>Facts about the matcher\<close>

text \<open>Every match splits the input: what was consumed, then the rest.\<close>

lemma re_matches_suffix:
  "st' \<in> set (re_matches r st) \<Longrightarrow> \<exists>w. st_rest st = w @ st_rest st'"
proof (induction r st arbitrary: st' rule: re_matches.induct)
  case (3 r1 r2 st)
  from "3.prems" obtain st1 where 1: "st1 \<in> set (re_matches r1 st)"
    and 2: "st' \<in> set (re_matches r2 st1)" by auto
  from "3.IH"(1) [OF 1] "3.IH"(2) [OF 1 2] show ?case by auto
next
  case (5 greedy r st)
  show ?case
  proof (cases "st' = st")
    case False
    with "5.prems" re_star_mem [of st' greedy r st] obtain st1 where 1: "st1 \<in> set (re_matches r st)"
      and lt: "length (st_rest st1) < length (st_rest st)"
      and 2: "st' \<in> set (re_matches (RStar greedy r) st1)" by blast
    from "5.IH"(1) [OF 1] "5.IH"(2) [OF 1 lt 2] show ?thesis by auto
  qed simp
next
  case (6 k r p s c)
  from "6.prems" obtain p1 s1 c1 where "(p1, s1, c1) \<in> set (re_matches r (p, s, c))"
    "st_rest st' = s1" by auto
  with "6.IH" [of "(p1, s1, c1)"] show ?case by simp
qed (auto split: if_splits list.splits)

lemma re_search_split:
  "re_search r p s = Some (pre, q, rest, c) \<Longrightarrow> \<exists>w. s = pre @ w @ rest"
proof (induction s arbitrary: p pre)
  case Nil
  from Nil.prems show ?case
  proof (cases rule: re_search_cases)
    case (here ms)
    then have "(q, rest, c) \<in> set (re_matches r (p, [], []))" by simp
    from re_matches_suffix [OF this] here show ?thesis by simp
  qed simp
next
  case (Cons x xs)
  from Cons.prems show ?case
  proof (cases rule: re_search_cases)
    case (here ms)
    then have "(q, rest, c) \<in> set (re_matches r (p, x # xs, []))" by simp
    from re_matches_suffix [OF this] here show ?thesis by simp
  next
    case (later y ys pre')
    with Cons.IH [of "Some x" pre'] show ?thesis by simp
  qed
qed

definition last_opt :: "char option \<Rightarrow> string \<Rightarrow> char option" where
  "last_opt p w = (if w = [] then p else Some (last w))"

text \<open>
  Completeness of the search: if the pattern matches somewhere, the search finds a match.
\<close>

lemma re_search_None_iff:
  "re_search r p s = None \<longleftrightarrow>
     (\<forall>a b. s = a @ b \<longrightarrow> re_matches r (last_opt p a, b, []) = [])"
proof (induction s arbitrary: p)
  case Nil
  then show ?case
    by (auto simp: re_search_Nil last_opt_def split: list.splits)
next
  case (Cons x xs)
  have "(\<forall>a b. x # xs = a @ b \<longrightarrow> re_matches r (last_opt p a, b, []) = []) \<longleftrightarrow>
        re_matches r (p, x # xs, []) = [] \<and>
        (\<forall>a b. xs = a @ b \<longrightarrow> re_matches r (last_opt (Some x) a, b, []) = [])" (is "?l \<longleftrightarrow> ?r")
  proof
    assume l: ?l
    have "re_matches r (p, x # xs, []) = []"
      using l [rule_format, of "[]" "x # xs"] by (simp add: last_opt_def)
    moreover have "re_matches r (last_opt (Some x) a, b, []) = []" if "xs = a @ b" for a b
      using l [rule_format, of "x # a" b] that by (auto simp: last_opt_def)
    ultimately show ?r by blast
  next
    assume r: ?r
    show ?l
    proof (intro allI impI)
      fix a b assume e: "x # xs = a @ b"
      show "re_matches r (last_opt p a, b, []) = []"
      proof (cases a)
        case Nil
        with e r show ?thesis by (simp add: last_opt_def)
      next
        case (Cons y a')
        with e have "xs = a' @ b" "y = x" by auto
        with r have "re_matches r (last_opt (Some x) a', b, []) = []" by blast
        with Cons \<open>y = x\<close> show ?thesis by (auto simp: last_opt_def split: if_splits)
      qed
    qed
  qed
  then show ?case
    using Cons [of "Some x"] by (auto simp: re_search_Cons split: list.splits)
qed

lemma re_test_iff:
  "re_test r s \<longleftrightarrow> (\<exists>a b. s = a @ b \<and> re_matches r (last_opt None a, b, []) \<noteq> [])"
  unfolding re_test_def using re_search_None_iff [of r None s] by (auto split: option.splits)

lemma re_testI: "s = a @ b \<Longrightarrow> re_matches r (last_opt None a, b, []) \<noteq> [] \<Longrightarrow> re_test r s"
  unfolding re_test_iff by blast

text \<open>A literal matches exactly its own text.\<close>

lemma re_matches_rlit:
  "re_matches (rlit w) (p, s, c) =
     (if startsWith s w then [(last_opt p w, drop (length w) s, c)] else [])"
proof (induction w arbitrary: p s rule: rlit.induct)
  case 1
  then show ?case by (simp add: last_opt_def)
next
  case (2 d)
  then show ?case by (cases s) (auto simp: rchar_def last_opt_def)
next
  case (3 d e cs)
  then show ?case by (cases s) (auto simp: rchar_def last_opt_def)
qed

lemma re_matches_rlit_i:
  "re_matches (rlit_i w) (p, s, c) =
     (if toLowerCase (take (length w) s) = toLowerCase w
      then [(last_opt p (take (length w) s), drop (length w) s, c)] else [])"
proof (induction w arbitrary: p s rule: rlit_i.induct)
  case 1
  then show ?case by (simp add: last_opt_def)
next
  case (2 d)
  then show ?case by (cases s) (auto simp: rchar_i_def last_opt_def toLowerCase_def)
next
  case (3 d e cs)
  then show ?case
    by (cases s) (auto simp: rchar_i_def last_opt_def toLowerCase_def)
qed

text \<open>A greedy repetition of a character class tries the longest run first.\<close>

lemma star_cls_first:
  "\<exists>ms. re_matches (RStar True (RCls P)) (p, s, c) =
     (last_opt p (takeWhile P s), dropWhile P s, c) # ms"
proof (induction s arbitrary: p)
  case (Cons x xs)
  show ?case
  proof (cases "P x")
    case True
    from Cons [of "Some x"] obtain ms where
      "re_matches (RStar True (RCls P)) (Some x, xs, c) =
         (last_opt (Some x) (takeWhile P xs), dropWhile P xs, c) # ms" by blast
    with True show ?thesis
      by (subst re_matches.simps(5)) (auto simp: last_opt_def Let_def)
  next
    case False
    then show ?thesis by (subst re_matches.simps(5)) (simp add: last_opt_def)
  qed
qed (simp add: last_opt_def re_matches.simps(5))

lemma re_matches_Seq_ne:
  "st' \<in> set (re_matches r1 st) \<Longrightarrow> re_matches r2 st' \<noteq> [] \<Longrightarrow> re_matches (RSeq r1 r2) st \<noteq> []"
  by fastforce

end
