(* ===== verification/Quoting.thy ===== *)
theory Quoting
  imports JsRegex
begin

text \<open>
  Quoting by doubling and by escaping. Four places of the extension put text of the user
  between delimiters: SQL identifiers and SQL string literals (the delimiter is doubled
  inside), and shell words (a quote closes the string, is escaped, and reopens it).
  The contract they share is stated as a locale: a reader of the target language, placed
  at the quoted text, gives back the original text and stops exactly at its end. From the
  contract follow injectivity and the reading of whole separated lists.
\<close>

section \<open>Readers\<close>

text \<open>
  A reader of a separated list goes on as long as the separator follows. The fuel bounds
  the number of items; a list joined by a separator that may follow a quoted text reads
  back whole (\<open>read_many_join\<close> below).
\<close>

fun read_many :: "(string \<Rightarrow> ('a \<times> string) option) \<Rightarrow> nat \<Rightarrow> string \<Rightarrow> string \<Rightarrow> ('a list \<times> string) option" where
  "read_many reader 0 sep s = None"
| "read_many reader (Suc n) sep s = (case reader s of
       None \<Rightarrow> None
     | Some (x, r) \<Rightarrow>
         if startsWith r sep
         then map_option (\<lambda>(xs, r'). (x # xs, r')) (read_many reader n sep (drop (length sep) r))
         else Some ([x], r))"

text \<open>A first item, a fixed text, a second item; and its reader.\<close>

definition pair_with :: "('a \<Rightarrow> string) \<Rightarrow> string \<Rightarrow> ('b \<Rightarrow> string) \<Rightarrow> 'a \<times> 'b \<Rightarrow> string" where
  "pair_with quote1 mid quote2 p = quote1 (fst p) @ mid @ quote2 (snd p)"

definition read_pair_with ::
  "(string \<Rightarrow> ('a \<times> string) option) \<Rightarrow> string \<Rightarrow> (string \<Rightarrow> ('b \<times> string) option) \<Rightarrow>
   string \<Rightarrow> (('a \<times> 'b) \<times> string) option" where
  "read_pair_with reader1 mid reader2 s = (case reader1 s of
       None \<Rightarrow> None
     | Some (a, r) \<Rightarrow>
         if startsWith r mid
         then map_option (\<lambda>(b, r'). ((a, b), r')) (reader2 (drop (length mid) r))
         else None)"

section \<open>The contract\<close>

text \<open>
  Of what is written, a reader recovers a value; the readers of quoted text recover the text.
\<close>

locale written_text =
  fixes writer :: "'a \<Rightarrow> string"
    and val :: "'a \<Rightarrow> 'b"
    and reader :: "string \<Rightarrow> ('b \<times> string) option"
    and may_follow :: "string \<Rightarrow> bool"
  assumes reader_writer: "may_follow r \<Longrightarrow> reader (writer s @ r) = Some (val s, r)"
    and may_follow_Nil: "may_follow []"
begin

lemma read_many_written:
  assumes "\<And>r. may_follow (sep @ r)" and "may_follow r" and "\<not> startsWith r sep"
  shows "xs \<noteq> [] \<Longrightarrow> length xs \<le> n \<Longrightarrow>
    read_many reader n sep (js_join sep (map writer xs) @ r) = Some (map val xs, r)"
proof (induction xs arbitrary: n rule: induct_list012)
  case (2 x)
  then obtain m where "n = Suc m" by (cases n) auto
  then show ?case using assms(2,3) by (simp add: reader_writer)
next
  case (3 x y xs)
  then obtain m where n: "n = Suc m" "length (y # xs) \<le> m" by (cases n) auto
  have "read_many reader m sep (js_join sep (map writer (y # xs)) @ r) = Some (map val (y # xs), r)"
    using "3.IH"(2) [of m] n(2) by simp
  moreover have "reader (writer x @ sep @ js_join sep (map writer (y # xs)) @ r) =
      Some (val x, sep @ js_join sep (map writer (y # xs)) @ r)"
    by (rule reader_writer) (rule assms(1))
  ultimately show ?case using n(1) by simp
qed simp

end

locale quoted_text = written_text quote "\<lambda>x. x" reader may_follow
  for quote :: "'a \<Rightarrow> string" and reader may_follow
begin

lemmas reader_quote = reader_writer

lemma quote_inj: "quote s = quote t \<longleftrightarrow> s = t"
  using reader_quote [OF may_follow_Nil] by (metis append_Nil2 option.inject prod.inject)

lemma quote_prefix_free:
  "may_follow r \<Longrightarrow> may_follow r' \<Longrightarrow> quote s @ r = quote t @ r' \<longleftrightarrow> s = t \<and> r = r'"
  using reader_quote by (metis option.inject prod.inject)

lemma read_many_join:
  assumes "\<And>r. may_follow (sep @ r)" and "may_follow r" and "\<not> startsWith r sep"
  shows "xs \<noteq> [] \<Longrightarrow> length xs \<le> n \<Longrightarrow>
    read_many reader n sep (js_join sep (map quote xs) @ r) = Some (xs, r)"
  using read_many_written [OF assms] by simp

end

text \<open>
  Two written texts with a fixed text between them are a written text again; this is how
  \<open>column = value\<close> inherits the contract from identifiers and literals.
\<close>

locale written_pair =
  first: written_text writer1 val1 reader1 follow1 + second: written_text writer2 val2 reader2 follow2
  for writer1 :: "'a \<Rightarrow> string" and val1 :: "'a \<Rightarrow> 'c" and reader1 follow1
    and writer2 :: "'b \<Rightarrow> string" and val2 :: "'b \<Rightarrow> 'd" and reader2 follow2 +
  fixes mid :: string
  assumes follow_mid: "follow1 (mid @ r)"
begin

lemma read_pair_text:
  "follow2 r \<Longrightarrow> read_pair_with reader1 mid reader2 (pair_with writer1 mid writer2 p @ r) = Some (map_prod val1 val2 p, r)"
  by (cases p) (simp add: read_pair_with_def pair_with_def first.reader_writer follow_mid second.reader_writer)

end

sublocale written_pair \<subseteq> pair: written_text "pair_with writer1 mid writer2" "map_prod val1 val2"
    "read_pair_with reader1 mid reader2" follow2
  by unfold_locales (simp_all add: read_pair_text second.may_follow_Nil)

section \<open>Doubling a delimiter\<close>

definition double_c :: "char \<Rightarrow> string \<Rightarrow> string" where
  "double_c q s = concat (map (\<lambda>c. if c = q then [q, q] else [c]) s)"

text \<open>A reader of \<open>q...q\<close>, where two delimiters in a row stand for one.\<close>

fun scan_quoted :: "char \<Rightarrow> string \<Rightarrow> (string \<times> string) option" where
  "scan_quoted q [] = None"
| "scan_quoted q [c] = (if c = q then Some ([], []) else None)"
| "scan_quoted q (c # d # s) =
     (if c \<noteq> q then map_option (\<lambda>(a, r). (c # a, r)) (scan_quoted q (d # s))
      else if d = q then map_option (\<lambda>(a, r). (q # a, r)) (scan_quoted q s)
      else Some ([], d # s))"

definition read_quoted :: "char \<Rightarrow> string \<Rightarrow> (string \<times> string) option" where
  "read_quoted q s = (case s of [] \<Rightarrow> None | c # r \<Rightarrow> if c = q then scan_quoted q r else None)"

definition not_at :: "char \<Rightarrow> string \<Rightarrow> bool" where
  "not_at q r = (case r of [] \<Rightarrow> True | c # _ \<Rightarrow> c \<noteq> q)"

definition quote_with :: "char \<Rightarrow> string \<Rightarrow> string" where
  "quote_with q s = [q] @ double_c q s @ [q]"

lemma double_c_simps [simp]:
  "double_c q [] = []"
  "double_c q (c # s) = (if c = q then q # q # double_c q s else c # double_c q s)"
  by (simp_all add: double_c_def)

lemma scan_quoted_double:
  "not_at q r \<Longrightarrow> scan_quoted q (double_c q s @ q # r) = Some (s, r)"
proof (induction s)
  case Nil
  then show ?case by (cases r) (auto simp: not_at_def)
next
  case (Cons c s)
  then show ?case
    by (cases "double_c q s @ q # r") auto
qed

interpretation quote_doubled: quoted_text "quote_with q" "read_quoted q" "not_at q" for q
  by unfold_locales
     (simp_all add: quote_with_def read_quoted_def scan_quoted_double not_at_def)

section \<open>The two spellings of doubling in the source\<close>

lemma join_split_double: "js_join [q, q] (split_char q s) = double_c q s"
proof (induction s)
  case (Cons c s)
  then show ?case
    by (cases "split_char q s") (auto, (cases "tl (split_char q s)", auto)+)
qed simp

lemma re_search_cls_Cons:
  "re_search (RCls P) p (x # xs) =
     (if P x then Some ([], Some x, xs, [])
      else map_option (\<lambda>(pre, m). (x # pre, m)) (re_search (RCls P) (Some x) xs))"
  by (simp add: re_search_Cons)

lemma re_search_cls_shorter:
  "re_search (RCls P) p s = Some (pre, q, rest, c) \<Longrightarrow> length rest < length s"
proof (induction s arbitrary: p pre)
  case (Cons x xs)
  then show ?case
    by (cases "P x") (auto simp: re_search_cls_Cons less_Suc_eq)
qed (simp add: re_search_Nil)

lemma re_fold_cls_Cons:
  "re_fold (RCls P) p (x # xs) =
     (case re_fold (RCls P) (Some x) xs of (ms, tail) \<Rightarrow>
        if P x then (([], []) # ms, tail)
        else (case ms of [] \<Rightarrow> ([], x # tail) | (pre, c) # ms' \<Rightarrow> ((x # pre, c) # ms', tail)))"
proof (cases "P x")
  case True
  then show ?thesis
    by (subst re_fold.simps) (simp add: re_search_cls_Cons split: prod.splits)
next
  case False
  show ?thesis
  proof (cases "re_search (RCls P) (Some x) xs")
    case None
    then have "re_fold (RCls P) (Some x) xs = ([], xs)" by (subst re_fold.simps) simp
    with None False show ?thesis
      by (subst re_fold.simps) (simp add: re_search_cls_Cons)
  next
    case (Some m)
    obtain pre q rest c where m: "m = (pre, q, rest, c)" by (cases m)
    have "length rest < length xs" using Some m re_search_cls_shorter by blast
    then show ?thesis
      using Some m False
      by (simp add: re_fold.simps [of _ p "x # xs"] re_fold.simps [of _ "Some x" xs]
            re_search_cls_Cons split: prod.splits)
  qed
qed

lemma re_fold_cls:
  "re_fold (RCls P) p s = (ms, tail) \<Longrightarrow>
     concat (map (\<lambda>(pre, c). pre @ by) ms) @ tail = concat (map (\<lambda>c. if P c then by else [c]) s)"
proof (induction s arbitrary: p ms tail)
  case Nil
  then show ?case by (simp add: re_fold.simps [of _ p "[]"] re_search_Nil)
next
  case (Cons x xs)
  obtain ms' tail' where f: "re_fold (RCls P) (Some x) xs = (ms', tail')" by fastforce
  from Cons.IH [OF f] Cons.prems f show ?case
    by (auto simp: re_fold_cls_Cons split: if_splits list.splits)
qed

lemma re_replace_cls:
  "re_replace (RCls P) by s = concat (map (\<lambda>c. if P c then by else [c]) s)"
  unfolding re_replace_def using re_fold_cls [of P None s]
  by (cases "re_fold (RCls P) None s") simp

lemma re_replace_char_double: "re_replace (rchar q) [q, q] s = double_c q s"
  unfolding rchar_def re_replace_cls double_c_def ..

section \<open>POSIX shell words\<close>

text \<open>
  A reader of one shell word made of single-quoted stretches and backslash escapes: the
  first argument says whether the reader is inside a single-quoted stretch.
\<close>

fun read_sh :: "bool \<Rightarrow> string \<Rightarrow> (string \<times> string) option" where
  "read_sh True [] = None"
| "read_sh True (c # s) =
     (if c = CHR 0x27 then read_sh False s
      else map_option (\<lambda>(a, r). (c # a, r)) (read_sh True s))"
| "read_sh False [] = Some ([], [])"
| "read_sh False (c # s) =
     (if c = CHR 0x27 then read_sh True s
      else if c = CHR 0x5C then (case s of
           [] \<Rightarrow> None
         | d # s' \<Rightarrow> map_option (\<lambda>(a, r). (d # a, r)) (read_sh False s'))
      else if is_space_c c then Some ([], c # s)
      else map_option (\<lambda>(a, r). (c # a, r)) (read_sh False s))"

definition sh_word_ends :: "string \<Rightarrow> bool" where
  "sh_word_ends r = (case r of [] \<Rightarrow> True | c # _ \<Rightarrow> is_space_c c)"

text \<open>\<open>shellQuote\<close> of \<open>connections/copyInfo.js\<close>.\<close>

definition shellQuote :: "string \<Rightarrow> string" where
  "shellQuote s = [CHR 0x27] @
     re_replace (rchar (CHR 0x27)) [CHR 0x27, CHR 0x5C, CHR 0x27, CHR 0x27] s @ [CHR 0x27]"

lemma read_sh_body:
  "sh_word_ends r \<Longrightarrow>
   read_sh True (concat (map (\<lambda>c. if c = CHR 0x27 then [CHR 0x27, CHR 0x5C, CHR 0x27, CHR 0x27] else [c]) s)
     @ CHR 0x27 # r) = Some (s, r)"
proof (induction s)
  case Nil
  then show ?case
    by (cases r) (auto simp: sh_word_ends_def is_space_c_def)
qed simp

interpretation shell_word: quoted_text shellQuote "read_sh False" sh_word_ends
  by unfold_locales
     (auto simp: shellQuote_def rchar_def re_replace_cls sh_word_ends_def read_sh_body)

end
