(* ===== verification/Dialects.thy ===== *)
theory Dialects
  imports Runtime Quoting
begin

text \<open>
  The engine descriptors (\<open>src/src/dialects/\<close>): one record per engine with the values
  of the source, the registry, identifier quoting and the connection URL. The theory also
  holds the reference reader of a URL that the round-trip theorem is stated with: it
  splits scheme, credentials, host, port, path and query at their delimiters and
  percent-decodes, as a URL parser does.
\<close>

section \<open>Descriptors\<close>

record dialect_ssl =
  ssl_param :: string
  ssl_fallback :: string
  ssl_values :: "(string, string) omap"

record dialect =
  d_id :: string
  d_label :: string
  d_shortLabel :: string
  d_languageId :: string
  d_fileBased :: bool
  d_databaseIsConnectTarget :: bool
  d_defaultPort :: string
  d_urlScheme :: string
  d_quoteChar :: char
  d_explainPrefix :: string
  d_ssl :: "dialect_ssl option"
  d_keywords :: "string list"
  d_functions :: "string list"

definition mysql :: dialect where
  "mysql = \<lparr>
     d_id = ''mysql'', d_label = ''MySQL / MariaDB'', d_shortLabel = ''MySQL'',
     d_languageId = ''sql:mysql'', d_fileBased = False, d_databaseIsConnectTarget = False,
     d_defaultPort = ''3306'', d_urlScheme = ''mysql'', d_quoteChar = CHR 0x60,
     d_explainPrefix = ''EXPLAIN '',
     d_ssl = Some \<lparr>
       ssl_param = ''ssl-mode'', ssl_fallback = ''REQUIRED'',
       ssl_values = [(''preferred'', ''PREFERRED''), (''required'', ''REQUIRED''),
                     (''verify_ca'', ''VERIFY_CA''), (''verify_full'', ''VERIFY_IDENTITY'')] \<rparr>,
     d_keywords = [
       ''AUTO_INCREMENT'', ''UNSIGNED'', ''ZEROFILL'', ''ENGINE'', ''CHARSET'', ''COLLATE'',
       ''MEDIUMINT'', ''LONGBLOB'', ''MEDIUMBLOB'', ''TINYBLOB'', ''ENUM'', ''DUAL'', ''USE'',
       ''LOCK'', ''UNLOCK'', ''DELIMITER'', ''STRAIGHT_JOIN'', ''STORAGE'', ''MEMORY'',
       ''INNODB'', ''MYISAM''],
     d_functions = [
       ''DATE_ADD'', ''DATE_SUB'', ''DATEDIFF'', ''TIMESTAMPDIFF'', ''IFNULL'', ''IF'',
       ''FIND_IN_SET'', ''GROUP_CONCAT'', ''JSON_EXTRACT'', ''JSON_OBJECT'', ''JSON_ARRAY''] \<rparr>"

definition postgres :: dialect where
  "postgres = \<lparr>
     d_id = ''postgres'', d_label = ''PostgreSQL'', d_shortLabel = ''PostgreSQL'',
     d_languageId = ''sql:postgres'', d_fileBased = False, d_databaseIsConnectTarget = True,
     d_defaultPort = ''5432'', d_urlScheme = ''postgres'', d_quoteChar = CHR 0x22,
     d_explainPrefix = ''EXPLAIN '',
     d_ssl = Some \<lparr>
       ssl_param = ''sslmode'', ssl_fallback = ''require'',
       ssl_values = [(''preferred'', ''prefer''), (''required'', ''require''),
                     (''verify_ca'', ''verify-ca''), (''verify_full'', ''verify-full'')] \<rparr>,
     d_keywords = [
       ''SERIAL'', ''BIGSERIAL'', ''SMALLSERIAL'', ''JSONB'', ''UUID'', ''ILIKE'', ''ARRAY'',
       ''CONFLICT'', ''INTERVAL'', ''SIMILAR'', ''LATERAL'', ''MATERIALIZED'', ''FILTER'',
       ''WINDOW'', ''TABLESAMPLE'', ''GENERATED'', ''ALWAYS'', ''IDENTITY'', ''STORED''],
     d_functions = [
       ''TO_CHAR'', ''TO_DATE'', ''TO_TIMESTAMP'', ''AGE'', ''DATE_TRUNC'', ''DATE_PART'',
       ''STRING_AGG'', ''ARRAY_AGG'', ''JSONB_BUILD_OBJECT'', ''JSONB_AGG''] \<rparr>"

definition sqlite :: dialect where
  "sqlite = \<lparr>
     d_id = ''sqlite'', d_label = ''SQLite'', d_shortLabel = ''SQLite'',
     d_languageId = ''sql:sqlite'', d_fileBased = True, d_databaseIsConnectTarget = False,
     d_defaultPort = [], d_urlScheme = ''sqlite'', d_quoteChar = CHR 0x22,
     d_explainPrefix = ''EXPLAIN QUERY PLAN '',
     d_ssl = None,
     d_keywords = [
       ''AUTOINCREMENT'', ''ROWID'', ''PRAGMA'', ''ATTACH'', ''DETACH'', ''VACUUM'',
       ''GLOB'', ''INDEXED'', ''ABORT'', ''FAIL'', ''IGNORE''],
     d_functions = [
       ''IFNULL'', ''IIF'', ''DATETIME'', ''STRFTIME'', ''JULIANDAY'', ''JSON'', ''JSON_EXTRACT''] \<rparr>"

definition generic :: dialect where
  "generic = \<lparr>
     d_id = ''sql'', d_label = ''SQL'', d_shortLabel = ''SQL'',
     d_languageId = ''sql'', d_fileBased = False, d_databaseIsConnectTarget = False,
     d_defaultPort = [], d_urlScheme = [], d_quoteChar = CHR 0x22,
     d_explainPrefix = ''EXPLAIN '',
     d_ssl = None, d_keywords = [], d_functions = [] \<rparr>"

section \<open>Registry\<close>

definition DIALECTS :: "dialect list" where
  "DIALECTS = [mysql, postgres, sqlite]"

definition BY_ID :: "(string, dialect) omap" where
  "BY_ID = omap_of (map (\<lambda>d. (d_id d, d)) DIALECTS)"

definition listDialects :: "dialect list" where
  "listDialects = DIALECTS"

text \<open>\<open>None\<close> is the missing kind of a connection that does not exist.\<close>

definition getDialect :: "string option \<Rightarrow> dialect" where
  "getDialect kind = (case kind of
       None \<Rightarrow> generic
     | Some k \<Rightarrow> (case omap_get BY_ID k of None \<Rightarrow> generic | Some d \<Rightarrow> d))"

definition quoteIdent :: "dialect \<Rightarrow> string \<Rightarrow> string" where
  "quoteIdent d s = (let q = d_quoteChar d in
     [q] @ js_join ([q] @ [q]) (split_char q s) @ [q])"

lemmas dialect_defs = mysql_def postgres_def sqlite_def generic_def

lemma BY_ID_eq: "BY_ID = [(''mysql'', mysql), (''postgres'', postgres), (''sqlite'', sqlite)]"
  by (simp add: BY_ID_def DIALECTS_def omap_of_def dialect_defs)

lemma getDialect_simps [simp]:
  "getDialect None = generic"
  "getDialect (Some ''mysql'') = mysql"
  "getDialect (Some ''postgres'') = postgres"
  "getDialect (Some ''sqlite'') = sqlite"
  by (simp_all add: getDialect_def BY_ID_eq)

lemma getDialect_in: "getDialect k \<in> {mysql, postgres, sqlite, generic}"
  by (cases k) (simp_all add: getDialect_def BY_ID_eq)

lemma getDialect_fileBased: "d_fileBased (getDialect k) \<longleftrightarrow> k = Some ''sqlite''"
  by (cases k) (auto simp: getDialect_def BY_ID_eq dialect_defs)

lemma getDialect_connectTarget:
  "d_databaseIsConnectTarget (getDialect k) \<longleftrightarrow> k = Some ''postgres''"
  by (cases k) (auto simp: getDialect_def BY_ID_eq dialect_defs)

lemma quoteIdent_eq: "quoteIdent d s = quote_with (d_quoteChar d) s"
  by (simp add: quoteIdent_def quote_with_def join_split_double Let_def)

text \<open>Identifier quoting meets the contract of quoted text, for every descriptor.\<close>

interpretation ident: quoted_text "quoteIdent d" "read_quoted (d_quoteChar d)" "not_at (d_quoteChar d)" for d
  by unfold_locales (simp_all add: quoteIdent_eq quote_doubled.reader_quote quote_doubled.may_follow_Nil)

section \<open>Percent-encoding\<close>

definition uri_unreserved :: "char \<Rightarrow> bool" where
  "uri_unreserved c = (is_word_c c \<or> c \<in> set [CHR ''-'', CHR ''.'', CHR ''!'', CHR ''~'', CHR ''*'', CHR 0x27, CHR ''('', CHR '')''])"

definition upper_hex :: "nat \<Rightarrow> char" where
  "upper_hex d = (''0123456789ABCDEF'' ! d)"

definition pct_byte :: "nat \<Rightarrow> string" where
  "pct_byte b = [CHR ''%'', upper_hex (b div 16), upper_hex (b mod 16)]"

text \<open>A code unit above 127 is encoded as its two UTF-8 bytes.\<close>

definition uri_char :: "char \<Rightarrow> string" where
  "uri_char c =
     (if uri_unreserved c then [c]
      else let n = of_char c in
        if n < 128 then pct_byte n else pct_byte (192 + n div 64) @ pct_byte (128 + n mod 64))"

definition encodeURIComponent :: "string \<Rightarrow> string" where
  "encodeURIComponent s = concat (map uri_char s)"

definition hex_val :: "char \<Rightarrow> nat" where
  "hex_val c = (let n = of_char c in if n < 58 then n - 48 else n - 55)"

text \<open>\<open>decodeURIComponent\<close> on the one- and two-byte sequences the encoder emits.\<close>

fun decodeURI :: "string \<Rightarrow> string option" where
  "decodeURI [] = Some []"
| "decodeURI (c # s) =
     (if c \<noteq> CHR ''%'' then map_option (\<lambda>t. c # t) (decodeURI s)
      else (case s of
          a # b # r \<Rightarrow>
            (let m = hex_val a * 16 + hex_val b in
             if m < 128 then map_option (\<lambda>t. char_of m # t) (decodeURI r)
             else (case r of
                 p # a' # b' # r' \<Rightarrow>
                   if p = CHR ''%''
                   then map_option (\<lambda>t. char_of ((m - 192) * 64 + (hex_val a' * 16 + hex_val b' - 128)) # t) (decodeURI r')
                   else None
               | _ \<Rightarrow> None))
        | _ \<Rightarrow> None))"

lemma hex_val_upper: "d < 16 \<Longrightarrow> hex_val (upper_hex d) = d"
proof -
  assume "d < 16"
  then have "d \<in> set [0..<16]" by simp
  then show ?thesis by (auto simp: upper_hex_def hex_val_def upt_conv_Cons)
qed

lemma upper_hex_word: "d < 16 \<Longrightarrow> is_word_c (upper_hex d)"
proof -
  assume "d < 16"
  then have "d \<in> set [0..<16]" by simp
  then show ?thesis by (auto simp: upper_hex_def is_word_c_def upt_conv_Cons)
qed

lemma pct_not_unreserved: "\<not> uri_unreserved (CHR ''%'')"
  by (simp add: uri_unreserved_def is_word_c_def)

lemma decodeURI_char: "decodeURI (uri_char c @ r) = map_option (\<lambda>t. c # t) (decodeURI r)"
proof (cases "uri_unreserved c")
  case True
  then have "c \<noteq> CHR ''%''" using pct_not_unreserved by auto
  with True show ?thesis by (simp add: uri_char_def)
next
  case False
  define n :: nat where "n = of_char c"
  have n: "n < 256" by (simp add: n_def)
  show ?thesis
  proof (cases "n < 128")
    case True
    then have "n div 16 * 16 + n mod 16 = n" "n div 16 < 16" by simp_all
    with False True show ?thesis
      by (simp add: uri_char_def pct_byte_def hex_val_upper n_def [symmetric] Let_def)
         (simp add: n_def)
  next
    case high: False
    let ?a = "192 + n div 64" and ?b = "128 + n mod 64"
    have lt: "?a div 16 < 16" "?b div 16 < 16" using n by auto
    have "?a div 16 * 16 + ?a mod 16 = ?a" "?b div 16 * 16 + ?b mod 16 = ?b" by simp_all
    moreover have "\<not> ?a < 128" by simp
    moreover have "n div 64 * 64 + n mod 64 = n" by simp
    ultimately show ?thesis
      using False high lt
      by (simp add: uri_char_def pct_byte_def hex_val_upper n_def [symmetric] Let_def
            del: div_mult_mod_eq)
         (simp add: n_def)
  qed
qed

lemma decodeURI_encode: "decodeURI (encodeURIComponent s) = Some s"
  unfolding encodeURIComponent_def by (induction s) (simp_all add: decodeURI_char)

text \<open>Nothing the encoder emits is a URL delimiter.\<close>

lemma uri_char_safe: "d \<in> set (uri_char c) \<Longrightarrow> uri_unreserved d \<or> d = CHR ''%''"
proof (cases "uri_unreserved c")
  case False
  assume d: "d \<in> set (uri_char c)"
  define n :: nat where "n = of_char c"
  have n: "n < 256" by (simp add: n_def)
  have h: "uri_unreserved (upper_hex k)" if "k < 16" for k
    using upper_hex_word [OF that] by (simp add: uri_unreserved_def)
  have lt: "n div 16 < 16" "(192 + n div 64) div 16 < 16" "(128 + n mod 64) div 16 < 16"
    using n by auto
  from d False lt show ?thesis
    by (auto simp: uri_char_def pct_byte_def n_def [symmetric] Let_def h split: if_splits)
qed (simp add: uri_char_def)

lemma encodeURIComponent_safe:
  "d \<in> set (encodeURIComponent s) \<Longrightarrow> uri_unreserved d \<or> d = CHR ''%''"
  unfolding encodeURIComponent_def using uri_char_safe by auto

lemma encodeURIComponent_Nil_iff [simp]: "encodeURIComponent s = [] \<longleftrightarrow> s = []"
  unfolding encodeURIComponent_def
  by (cases s) (auto simp: uri_char_def pct_byte_def Let_def)

definition url_delim :: "char \<Rightarrow> bool" where
  "url_delim c = (c \<in> set [CHR '':'', CHR ''/'', CHR ''?'', CHR ''#'', CHR ''@''])"

lemma encodeURIComponent_no_delim: "d \<in> set (encodeURIComponent s) \<Longrightarrow> \<not> url_delim d"
  by (drule encodeURIComponent_safe)
     (auto simp: url_delim_def uri_unreserved_def is_word_c_def)

section \<open>The connection URL\<close>

definition sslParam :: "dialect \<Rightarrow> string \<Rightarrow> string" where
  "sslParam d sslMode =
     (if sslMode = [] \<or> sslMode = ''none'' then []
      else (case d_ssl d of
          None \<Rightarrow> []
        | Some ssl \<Rightarrow>
            (let v = (case omap_get (ssl_values ssl) sslMode of Some v \<Rightarrow> v | None \<Rightarrow> ssl_fallback ssl)
             in ''?'' @ ssl_param ssl @ ''='' @ v)))"

definition buildConnectionUrl :: "dialect \<Rightarrow> form \<Rightarrow> string" where
  "buildConnectionUrl d f =
     (if d_fileBased d then
        (let path = re_replace (rchar (CHR 0x5C)) ''/'' (c_sqlitePath f) in
         if path = '':memory:'' then d_urlScheme d @ ''::memory:''
         else d_urlScheme d @ ''://'' @ path @ (if c_sqliteReadOnly f then ''?mode=ro'' else []))
      else
        (let ssl = sslParam d (c_sslMode f);
             port = (if c_port f \<noteq> [] then '':'' @ c_port f else []);
             user = encodeURIComponent (c_user f);
             pass = (if f_password f \<noteq> [] then '':'' @ encodeURIComponent (f_password f) else []);
             cred = (if user \<noteq> [] then user @ pass @ ''@'' else []);
             db = (if c_database f \<noteq> [] then ''/'' @ encodeURIComponent (c_database f) else [])
         in d_urlScheme d @ ''://'' @ cred @ c_host f @ port @ db @ ssl))"

subsection \<open>A reference reader\<close>

definition split_first :: "char \<Rightarrow> string \<Rightarrow> string \<times> string option" where
  "split_first c s = (takeWhile (\<lambda>x. x \<noteq> c) s,
     (case dropWhile (\<lambda>x. x \<noteq> c) s of [] \<Rightarrow> None | _ # r \<Rightarrow> Some r))"

record url =
  u_scheme :: string
  u_user :: "string option"
  u_pass :: "string option"
  u_host :: string
  u_port :: "string option"
  u_path :: "string option"
  u_query :: "string option"

definition read_url :: "string \<Rightarrow> url option" where
  "read_url s = (case split_first (CHR '':'') s of
       (scheme, Some (a # b # s1)) \<Rightarrow>
         if a = CHR ''/'' \<and> b = CHR ''/'' then
           (let (main, query) = split_first (CHR ''?'') s1;
                (auth, path) = split_first (CHR ''/'') main;
                (cred, hostport) = (case split_first (CHR ''@'') auth of
                    (hp, None) \<Rightarrow> (None, hp) | (c, Some hp) \<Rightarrow> (Some c, hp));
                (host, port) = split_first (CHR '':'') hostport;
                (user, pass) = (case cred of None \<Rightarrow> (None, None)
                    | Some c \<Rightarrow> (case split_first (CHR '':'') c of (u, p) \<Rightarrow> (Some u, p)))
            in Some \<lparr> u_scheme = scheme,
                      u_user = Option.bind user decodeURI,
                      u_pass = Option.bind pass decodeURI,
                      u_host = host, u_port = port,
                      u_path = Option.bind path decodeURI, u_query = query \<rparr>)
         else None
     | _ \<Rightarrow> None)"

lemma split_first_none: "c \<notin> set s \<Longrightarrow> split_first c s = (s, None)"
proof -
  assume "c \<notin> set s"
  then have "\<forall>x\<in>set s. x \<noteq> c" by blast
  then have "takeWhile (\<lambda>x. x \<noteq> c) s = s" and "dropWhile (\<lambda>x. x \<noteq> c) s = []"
    by (auto simp: takeWhile_eq_all_conv)
  then show ?thesis by (simp only: split_first_def list.case)
qed

lemma split_first_some: "c \<notin> set s \<Longrightarrow> split_first c (s @ c # r) = (s, Some r)"
proof -
  assume "c \<notin> set s"
  then have "\<forall>x\<in>set s. x \<noteq> c" by blast
  then have "takeWhile (\<lambda>x. x \<noteq> c) (s @ c # r) = s" "dropWhile (\<lambda>x. x \<noteq> c) (s @ c # r) = c # r"
    by (simp_all add: takeWhile_append2 dropWhile_append2)
  then show ?thesis by (simp add: split_first_def)
qed

text \<open>What of the saved fields must hold for a server URL to be readable at all: the host
  and the port are copied in raw.\<close>

definition plain_host :: "string \<Rightarrow> bool" where
  "plain_host s = list_all (\<lambda>c. \<not> url_delim c) s"

definition opt_field :: "string \<Rightarrow> string option" where
  "opt_field s = (if s = [] then None else Some s)"

lemma plain_host_notin:
  "plain_host s \<Longrightarrow> url_delim d \<Longrightarrow> d \<notin> set s"
  by (auto simp: plain_host_def list_all_iff)

lemma url_delims [simp]:
  "url_delim (CHR '':'')" "url_delim (CHR ''/'')" "url_delim (CHR ''?'')" "url_delim (CHR ''@'')"
  by (simp_all add: url_delim_def)

lemma encode_notin: "url_delim d \<Longrightarrow> d \<notin> set (encodeURIComponent s)"
  using encodeURIComponent_no_delim by blast

definition ssl_query :: "dialect \<Rightarrow> string \<Rightarrow> string option" where
  "ssl_query d m = (case sslParam d m of [] \<Rightarrow> None | _ # r \<Rightarrow> Some r)"

lemma sslParam_query: "sslParam d m = (case ssl_query d m of None \<Rightarrow> [] | Some q \<Rightarrow> CHR ''?'' # q)"
  by (auto simp: ssl_query_def sslParam_def Let_def split: list.splits option.splits if_splits)

lemma read_url_parts:
  assumes "CHR '':'' \<notin> set sch"
    and "CHR ''?'' \<notin> set auth" "CHR ''/'' \<notin> set auth"
    and "CHR ''?'' \<notin> set pth"
  shows "read_url (sch @ ''://'' @ auth @ (if pth = [] then [] else ''/'' @ pth) @
            (case q of None \<Rightarrow> [] | Some r \<Rightarrow> CHR ''?'' # r)) =
    (let (cred, hostport) = (case split_first (CHR ''@'') auth of
             (hp, None) \<Rightarrow> (None, hp) | (c, Some hp) \<Rightarrow> (Some c, hp));
         (host, port) = split_first (CHR '':'') hostport;
         (user, pass) = (case cred of None \<Rightarrow> (None, None)
             | Some c \<Rightarrow> (case split_first (CHR '':'') c of (u, p) \<Rightarrow> (Some u, p)))
     in Some \<lparr> u_scheme = sch, u_user = Option.bind user decodeURI,
               u_pass = Option.bind pass decodeURI, u_host = host, u_port = port,
               u_path = Option.bind (opt_field pth) decodeURI, u_query = q \<rparr>)"
proof -
  let ?main = "auth @ (if pth = [] then [] else ''/'' @ pth)"
  have q: "split_first (CHR ''?'') (?main @ (case q of None \<Rightarrow> [] | Some r \<Rightarrow> CHR ''?'' # r)) = (?main, q)"
    using assms split_first_none [of "CHR ''?''" ?main] split_first_some [of "CHR ''?''" ?main]
    by (cases q) auto
  have m: "split_first (CHR ''/'') ?main = (auth, opt_field pth)"
    using assms split_first_none [of "CHR ''/''" auth] split_first_some [of "CHR ''/''" auth pth]
    by (auto simp: opt_field_def)
  have "split_first (CHR '':'') (sch @ CHR '':'' # (''//'' @ ?main @ (case q of None \<Rightarrow> [] | Some r \<Rightarrow> CHR ''?'' # r))) =
      (sch, Some (''//'' @ ?main @ (case q of None \<Rightarrow> [] | Some r \<Rightarrow> CHR ''?'' # r)))"
    using assms(1) by (rule split_first_some)
  with q m show ?thesis by (simp add: read_url_def)
qed

definition url_cred :: "form \<Rightarrow> string" where
  "url_cred f = (if c_user f = [] then [] else encodeURIComponent (c_user f) @
     (if f_password f \<noteq> [] then '':'' @ encodeURIComponent (f_password f) else []) @ ''@'')"

definition url_hostport :: "form \<Rightarrow> string" where
  "url_hostport f = c_host f @ (if c_port f \<noteq> [] then '':'' @ c_port f else [])"

lemma server_url:
  assumes "\<not> d_fileBased d"
  shows "buildConnectionUrl d f = d_urlScheme d @ ''://'' @ (url_cred f @ url_hostport f) @
      (if encodeURIComponent (c_database f) = [] then [] else ''/'' @ encodeURIComponent (c_database f)) @
      (case ssl_query d (c_sslMode f) of None \<Rightarrow> [] | Some r \<Rightarrow> CHR ''?'' # r)"
  using assms by (simp add: buildConnectionUrl_def sslParam_query url_cred_def url_hostport_def Let_def)

lemma url_auth_notin:
  assumes "plain_host (c_host f)" "plain_host (c_port f)" "url_delim x" "x \<noteq> CHR '':''" "x \<noteq> CHR ''@''"
  shows "x \<notin> set (url_cred f @ url_hostport f)"
  using assms by (auto simp: url_cred_def url_hostport_def dest: plain_host_notin encodeURIComponent_no_delim)

text \<open>The three splits of the authority part.\<close>

lemma split_auth:
  assumes "plain_host (c_host f)" "plain_host (c_port f)"
  shows "(case split_first (CHR ''@'') (url_cred f @ url_hostport f) of
        (hp, None) \<Rightarrow> (None, hp) | (c, Some hp) \<Rightarrow> (Some c, hp)) =
      (if c_user f = [] then None else Some (butlast (url_cred f)), url_hostport f)"
proof (cases "c_user f = []")
  case True
  have "CHR ''@'' \<notin> set (url_hostport f)"
    using assms by (auto simp: url_hostport_def dest: plain_host_notin [where d = "CHR ''@''"])
  from split_first_none [OF this] True show ?thesis by (simp add: url_cred_def)
next
  case False
  have "CHR ''@'' \<notin> set (butlast (url_cred f))"
    using encode_notin [of "CHR ''@''"] False by (simp add: url_cred_def butlast_append)
  from split_first_some [OF this, of "url_hostport f"] False show ?thesis
    by (simp add: url_cred_def butlast_append)
qed

lemma split_hostport:
  assumes "plain_host (c_host f)"
  shows "split_first (CHR '':'') (url_hostport f) = (c_host f, opt_field (c_port f))"
  using split_first_none [of "CHR '':''" "c_host f"] split_first_some [of "CHR '':''" "c_host f" "c_port f"]
    plain_host_notin [OF assms, of "CHR '':''"]
  by (simp add: opt_field_def url_hostport_def)

lemma split_cred:
  "c_user f \<noteq> [] \<Longrightarrow> split_first (CHR '':'') (butlast (url_cred f)) =
     (encodeURIComponent (c_user f), map_option encodeURIComponent (opt_field (f_password f)))"
  using split_first_none [of "CHR '':''" "encodeURIComponent (c_user f)"]
    split_first_some [of "CHR '':''" "encodeURIComponent (c_user f)" "encodeURIComponent (f_password f)"]
    encode_notin [of "CHR '':''"]
  by (simp add: opt_field_def url_cred_def butlast_append)

lemma bind_encoded:
  "Option.bind (map_option encodeURIComponent (opt_field s)) decodeURI = opt_field s"
  "Option.bind (opt_field (encodeURIComponent s)) decodeURI = opt_field s"
  by (auto simp: opt_field_def decodeURI_encode)


definition demo_form :: form where
  "demo_form = \<lparr> c_id = ''c1'', c_name = ''db'', c_kind = ''postgres'', c_host = ''localhost'',
     c_port = ''5432'', c_user = ''me@corp'', c_database = ''a/b?c'', c_sqlitePath = [],
     c_sqliteReadOnly = False, c_allow_writes = True, c_sslMode = ''required'', c_sshTunnel = [],
     c_query_timeout_ms = NInt 0, c_row_limit = NInt 0, f_password = ''p:w'' \<rparr>"


end
