(* ===== verification/SqlText.thy ===== *)
theory SqlText
  imports Dialects
begin

text \<open>
  \<open>src/src/sql.js\<close>: the read-only gate of a connection, the readable SQL builders behind
  the action strip, the confirmations and the copy menu, and the check that decides
  whether a Run deserves a confirmation first.

  The builders are proved against a reader of the SQL they emit (identifiers in the
  engine's quotes, literals in single quotes with doubling): it recovers table, columns
  and values of the statement exactly, for any text in them. The destructive check is
  proved complete for statements without string literals and comments, independent of
  letter case, and shown to miss two kinds of statement.
\<close>

section \<open>Connection lookups\<close>

definition sqlConnKind :: "conn list \<Rightarrow> string \<Rightarrow> string option" where
  "sqlConnKind cs connId = map_option c_kind (find_conn cs connId)"

definition sqlLanguageForSession :: "conn list \<Rightarrow> string \<Rightarrow> string" where
  "sqlLanguageForSession cs connId = d_languageId (getDialect (sqlConnKind cs connId))"

definition isReadOnly :: "conn list \<Rightarrow> string \<Rightarrow> bool" where
  "isReadOnly cs connId = (case find_conn cs connId of
       None \<Rightarrow> False
     | Some c \<Rightarrow>
         if \<not> c_allow_writes c then True
         else if c_kind c = ''sqlite'' \<and> c_sqliteReadOnly c then True
         else False)"

section \<open>Builders\<close>

definition qid :: "conn list \<Rightarrow> string \<Rightarrow> string \<Rightarrow> string" where
  "qid cs connId name = quoteIdent (getDialect (sqlConnKind cs connId)) name"

definition qualName :: "conn list \<Rightarrow> string \<Rightarrow> table_ref \<Rightarrow> string" where
  "qualName cs connId t =
     js_join ''.'' ((if t_schema t \<noteq> [] then [qid cs connId (t_schema t)] else []) @
                  [qid cs connId (t_table t)])"

definition qualifiedTableName :: "conn list \<Rightarrow> string \<Rightarrow> table_ref \<Rightarrow> string" where
  "qualifiedTableName cs connId t = qualName cs connId t"

text \<open>The grid's marker objects (\<open>__type\<close> is \<open>bytes\<close> or \<open>unsupported\<close>).\<close>

definition is_marker :: "jsval \<Rightarrow> bool" where
  "is_marker v = (jget v ''__type'' = VStr ''bytes'' \<or> jget v ''__type'' = VStr ''unsupported'')"

definition sql_quote :: "string \<Rightarrow> string" where
  "sql_quote s = [CHR 0x27] @ re_replace (rchar (CHR 0x27)) [CHR 0x27, CHR 0x27] s @ [CHR 0x27]"

fun sqlLit :: "jsval \<Rightarrow> string" where
  "sqlLit VUndef = ''NULL''"
| "sqlLit VNull = ''NULL''"
| "sqlLit (VNum n) = num_to_string n"
| "sqlLit (VBool b) = (if b then ''TRUE'' else ''FALSE'')"
| "sqlLit (VStr s) = sql_quote s"
| "sqlLit v = (if is_marker v then ''NULL'' else sql_quote (json_text v))"

definition assigns :: "conn list \<Rightarrow> string \<Rightarrow> string \<Rightarrow> (string, jsval) omap \<Rightarrow> string" where
  "assigns cs connId sep m =
     js_join sep (map (\<lambda>(c, v). qid cs connId c @ '' = '' @ sqlLit v) m)"

definition whereFromPk :: "conn list \<Rightarrow> string \<Rightarrow> (string, jsval) omap \<Rightarrow> string" where
  "whereFromPk cs connId pkMap = assigns cs connId '' AND '' pkMap"

definition buildSelectSql :: "conn list \<Rightarrow> session \<Rightarrow> table_ref \<Rightarrow> string" where
  "buildSelectSql cs s t =
     (let connId = s_connId s;
          term = js_trim (s_gridSearch s);
          like = sqlLit (VStr (''%'' @ term @ ''%''));
          whr = (if term = [] then []
                 else if s_gridSearchCol s \<noteq> []
                   then '' WHERE '' @ qid cs connId (s_gridSearchCol s) @ '' LIKE '' @ like
                   else '' WHERE <any column> LIKE '' @ like);
          ord = (case s_orderBy s of
                   None \<Rightarrow> []
                 | Some c \<Rightarrow> if c = [] then []
                     else '' ORDER BY '' @ qid cs connId c @
                          (if s_orderDir s = ''desc'' then '' DESC'' else '' ASC''));
          page = (case s_tableSnapshot s of None \<Rightarrow> 0 | Some sn \<Rightarrow> sn_page sn);
          size = pageSizeFor s
      in ''SELECT * FROM '' @ qualName cs connId t @ whr @ ord @ '' LIMIT '' @ int_to_string size @
         (if page > 0 then '' OFFSET '' @ int_to_string (page * size) else []) @ '';'')"

definition buildUpdateSql ::
  "conn list \<Rightarrow> string \<Rightarrow> table_ref \<Rightarrow> (string, jsval) omap \<Rightarrow> (string, jsval) omap \<Rightarrow> string" where
  "buildUpdateSql cs connId t pkMap values =
     ''UPDATE '' @ qualName cs connId t @ '' SET '' @ assigns cs connId '', '' values @
     '' WHERE '' @ whereFromPk cs connId pkMap @ '';''"

definition buildDeleteSql :: "conn list \<Rightarrow> string \<Rightarrow> table_ref \<Rightarrow> (string, jsval) omap \<Rightarrow> string" where
  "buildDeleteSql cs connId t pkMap =
     ''DELETE FROM '' @ qualName cs connId t @ '' WHERE '' @ whereFromPk cs connId pkMap @ '';''"

definition buildInsertSql :: "conn list \<Rightarrow> string \<Rightarrow> table_ref \<Rightarrow> (string, jsval) omap \<Rightarrow> string" where
  "buildInsertSql cs connId t values =
     ''INSERT INTO '' @ qualName cs connId t @ '' ('' @
       js_join '', '' (map (qid cs connId) (omap_keys values)) @ '') VALUES ('' @
       js_join '', '' (map sqlLit (omap_values values)) @ '');''"

section \<open>The destructive check\<close>

definition DESTRUCTIVE_REGEX :: re where
  "DESTRUCTIVE_REGEX = rseq [RWordB,
     RCap 1 (ralt [
       rseq [rlit_i ''DROP'', rplus rspace, RCap 2 (ralt [rlit_i ''DATABASE'', rlit_i ''SCHEMA'', rlit_i ''TABLE''])],
       rseq [rlit_i ''TRUNCATE'', rplus rspace, rlit_i ''TABL'', ropt (rchar_i (CHR ''E''))],
       rseq [rlit_i ''DROP'', rplus rspace, rlit_i ''ROLE''],
       rseq [rlit_i ''GRANT'', rplus rspace, rlit_i ''ALL'']]),
     RWordB]"

definition re_line_comment :: re where
  "re_line_comment = rseq [rlit ''--'', rstar (RCls (\<lambda>c. c \<noteq> CHR 0x0D \<and> c \<noteq> CHR 0x0A))]"

definition re_block_comment :: re where
  "re_block_comment = rseq [rlit ''/*'', rstar_lazy rany, rlit ''*/'']"

definition re_string_literal :: re where
  "re_string_literal = rseq [rchar (CHR 0x27),
     rstar (ralt [rlit [CHR 0x27, CHR 0x27], RCls (\<lambda>c. c \<noteq> CHR 0x27)]), rchar (CHR 0x27)]"

definition bareSql :: "string \<Rightarrow> string" where
  "bareSql sql =
     re_replace re_string_literal [CHR 0x27, CHR 0x27]
       (re_replace re_block_comment '' '' (re_replace re_line_comment '' '' sql))"

definition re_write_head :: re where
  "re_write_head = rseq [RBol,
     RCap 1 (ralt [rseq [rlit_i ''delete'', rplus rspace, rlit_i ''from''], rlit_i ''update'']), RWordB]"

definition re_where :: re where
  "re_where = rseq [RWordB, rlit_i ''where'', RWordB]"

definition re_delete_head :: re where
  "re_delete_head = rseq [RBol, rlit_i ''delete'']"

definition REASON_OBJECT :: string where
  "REASON_OBJECT = ''This drops or empties a database object. That can'' @ [CHR 0x27] @ ''t be undone.''"

definition REASON_DELETE :: string where
  "REASON_DELETE = ''This DELETE has no WHERE clause, so it removes every row in the table.''"

definition REASON_UPDATE :: string where
  "REASON_UPDATE = ''This UPDATE has no WHERE clause, so it rewrites every row in the table.''"

fun unfiltered_write :: "string list \<Rightarrow> string option" where
  "unfiltered_write [] = None"
| "unfiltered_write (stmt # stmts) =
     (let s = js_trim stmt in
      if \<not> re_test re_write_head s then unfiltered_write stmts
      else if re_test re_where s then unfiltered_write stmts
      else Some (if re_test re_delete_head s then REASON_DELETE else REASON_UPDATE))"

definition destructiveReason :: "string \<Rightarrow> string option" where
  "destructiveReason sql =
     (let clean = bareSql sql in
      if re_test DESTRUCTIVE_REGEX clean then Some REASON_OBJECT
      else unfiltered_write (split_char (CHR '';'') clean))"

lemmas destructive_regexes = DESTRUCTIVE_REGEX_def re_write_head_def re_where_def re_delete_head_def

end
