(* ===== verification/SqlReader.thy ===== *)
theory SqlReader
  imports SqlText
begin

text \<open>
  A reader of the SQL the builders of \<open>src/src/sql.js\<close> emit, and the proofs that it
  recovers the statement: table, columns and values come back exactly, whatever quotes,
  separators or keywords the names and values contain. A value is read as the SQL value
  its literal denotes; the literals of the standard are read (a quote inside a string is
  doubled, a backslash is an ordinary character). The last section shows what changes
  under MySQL's default rules, where a backslash escapes.
\<close>

section \<open>Values and their literals\<close>

text \<open>
  A numeric literal denotes a decimal, exactly; \<open>NaN\<close> and \<open>Infinity\<close> are words to SQL.
\<close>

datatype sql_value = SNull | SBool bool | SNum fraction | SWord string | SText string

text \<open>The SQL value a cell value is written as.\<close>

definition lit_value :: "jsval \<Rightarrow> sql_value" where
  "lit_value v = (case v of
       VUndef \<Rightarrow> SNull
     | VNull \<Rightarrow> SNull
     | VNum n \<Rightarrow> if is_finite n then SNum (num_decimal n) else SWord (num_to_string n)
     | VBool b \<Rightarrow> SBool b
     | VStr s \<Rightarrow> SText s
     | _ \<Rightarrow> if is_marker v then SNull else SText (json_text v))"

lemma sql_quote_eq: "sql_quote s = quote_with (CHR 0x27) s"
  by (simp add: sql_quote_def quote_with_def re_replace_char_double)

definition lit_char :: "char \<Rightarrow> bool" where
  "lit_char c = (is_word_c c \<or> c \<in> set ''-+.'')"

definition lit_ends :: "string \<Rightarrow> bool" where
  "lit_ends r = (case r of [] \<Rightarrow> True | c # _ \<Rightarrow> \<not> lit_char c \<and> c \<noteq> CHR 0x27)"

definition read_number :: "string \<Rightarrow> sql_value" where
  "read_number w =
     (let neg = (w \<noteq> [] \<and> hd w = CHR ''-'') in
      case scan_number (if neg then tl w else w) of (ip, fp, e, r) \<Rightarrow>
        if ip @ fp = [] \<or> r \<noteq> [] then SWord w
        else let f = lowest (decimal_frac ip fp e) in SNum (if neg then - fst f else fst f, snd f))"

definition read_word :: "string \<Rightarrow> sql_value" where
  "read_word w =
     (if w = ''NULL'' then SNull
      else if w = ''TRUE'' then SBool True
      else if w = ''FALSE'' then SBool False
      else read_number w)"

definition read_value :: "string \<Rightarrow> (sql_value \<times> string) option" where
  "read_value s = (case s of
       [] \<Rightarrow> None
     | c # _ \<Rightarrow>
         if c = CHR 0x27 then map_option (\<lambda>(t, r). (SText t, r)) (read_quoted (CHR 0x27) s)
         else if lit_char c then Some (read_word (takeWhile lit_char s), dropWhile lit_char s)
         else None)"

lemma num_lit_char: "num_char c \<Longrightarrow> lit_char c"
  by (auto simp: num_char_def lit_char_def is_word_c_def is_digit_c_def Let_def)

lemma num_decimal_int [simp]: "abs i \<le> 2 ^ 53 \<Longrightarrow> num_decimal (NInt i) = (i, 1)"
  by (cases "i < 0") (simp_all add: num_decimal_def abs_decimal_def lowest_def)

text \<open>A number's text starts with a digit, after its sign.\<close>

lemma num_text_start:
  assumes "is_finite n"
  shows "\<exists>c w. num_to_string n = c # w \<and> (is_digit_c c \<or> c = CHR ''-'') \<and> (\<forall>d\<in>set (c # w). lit_char d)"
proof -
  have "\<forall>d\<in>set (num_to_string n). lit_char d" using num_chars [OF assms] num_lit_char by blast
  then show ?thesis
    using abs_text_start [OF assms] by (cases "fst (num_frac n) < 0") (auto simp: num_to_string_abs [OF assms])
qed

lemma read_number_text:
  assumes "is_finite n"
  shows "read_number (num_to_string n) = SNum (num_decimal n)"
proof (cases "fst (num_frac n) < 0")
  case True
  with scan_abs_text [of "neg_num n" "[]"] neg_frac [OF assms] assms show ?thesis
    by (auto simp: read_number_def num_to_string_abs [OF assms] num_decimal_def num_ends_def plain_number_def Let_def)
next
  case False
  then obtain c w where c: "abs_text n = c # w" "is_digit_c c" using abs_text_start [OF assms] by auto
  then have "c \<noteq> CHR ''-''" by (auto simp: is_digit_c_code)
  with c False scan_abs_text [OF assms, of "[]"] show ?thesis
    by (auto simp: read_number_def num_to_string_abs [OF assms] num_decimal_def num_ends_def plain_number_def Let_def)
qed

lemma read_word_num:
  assumes "is_finite n"
  shows "read_word (num_to_string n) = SNum (num_decimal n)"
proof -
  obtain c w where e: "num_to_string n = c # w" "is_digit_c c \<or> c = CHR ''-''" using num_text_start [OF assms] by blast
  have "c \<notin> set [CHR ''N'', CHR ''T'', CHR ''F'']" using e(2) by (auto simp: is_digit_c_def)
  then show ?thesis using e read_number_text [OF assms] by (auto simp: read_word_def)
qed

lemma lit_word_split:
  assumes "\<forall>d\<in>set w. lit_char d" "lit_ends r"
  shows "takeWhile lit_char (w @ r) = w" "dropWhile lit_char (w @ r) = r"
proof -
  have "takeWhile lit_char r = [] \<and> dropWhile lit_char r = r"
    using assms(2) by (cases r) (auto simp: lit_ends_def)
  with assms(1) show "takeWhile lit_char (w @ r) = w" "dropWhile lit_char (w @ r) = r" by auto
qed

lemma lit_words:
  "\<forall>d\<in>set ''NULL''. lit_char d" "\<forall>d\<in>set ''TRUE''. lit_char d" "\<forall>d\<in>set ''FALSE''. lit_char d"
  "\<forall>d\<in>set ''NaN''. lit_char d" "\<forall>d\<in>set ''Infinity''. lit_char d" "\<forall>d\<in>set ''-Infinity''. lit_char d"
  by (simp_all add: lit_char_def is_word_c_code)

lemma read_lit_words:
  "read_word ''NULL'' = SNull" "read_word ''TRUE'' = SBool True" "read_word ''FALSE'' = SBool False"
  "read_word ''NaN'' = SWord ''NaN''" "read_word ''Infinity'' = SWord ''Infinity''" "read_word ''-Infinity'' = SWord ''-Infinity''"
  by code_simp+

lemma read_value_word:
  assumes "w \<noteq> []" "\<forall>d\<in>set w. lit_char d" "lit_ends r"
  shows "read_value (w @ r) = Some (read_word w, r)"
proof -
  have "\<not> lit_char (CHR 0x27)" by (simp add: lit_char_def is_word_c_code)
  with assms lit_word_split [OF assms(2,3)] show ?thesis
    unfolding read_value_def by (cases w) auto
qed

lemma read_value_quote: "lit_ends r \<Longrightarrow> read_value (sql_quote s @ r) = Some (SText s, r)"
proof -
  assume r: "lit_ends r"
  then have "not_at (CHR 0x27) r" by (cases r) (auto simp: lit_ends_def not_at_def)
  from quote_doubled.reader_quote [OF this, of s] show ?thesis
    unfolding sql_quote_eq by (simp add: read_value_def quote_with_def)
qed

lemma read_lit: "lit_ends r \<Longrightarrow> read_value (sqlLit v @ r) = Some (lit_value v, r)"
proof (cases v)
  case (VNum n)
  assume r: "lit_ends r"
  show ?thesis
  proof (cases "is_finite n")
    case True
    then have "num_to_string n \<noteq> []" "\<forall>d\<in>set (num_to_string n). lit_char d" using num_text_start [OF True] by auto
    from read_value_word [OF this r] show ?thesis using True VNum by (simp add: lit_value_def read_word_num)
  next
    case False
    then show ?thesis using VNum r read_value_word [of "num_to_string n" r] by (cases n) (simp_all add: lit_value_def lit_words read_lit_words)
  qed
qed (use read_value_word [of "sqlLit v"] in \<open>auto simp: lit_value_def lit_words read_lit_words read_value_quote\<close>)

interpretation lit: written_text sqlLit lit_value read_value lit_ends
  by unfold_locales (simp_all add: read_lit lit_ends_def)

section \<open>Assignments, names, statements\<close>

lemma dialect_quoteChar: "d_quoteChar (getDialect k) = CHR 0x60 \<or> d_quoteChar (getDialect k) = CHR 0x22"
  using getDialect_in [of k] by (auto simp: dialect_defs)

definition assign_text :: "string option \<Rightarrow> string \<times> jsval \<Rightarrow> string" where
  "assign_text k = pair_with (quoteIdent (getDialect k)) '' = '' sqlLit"

definition read_assign :: "string option \<Rightarrow> string \<Rightarrow> ((string \<times> sql_value) \<times> string) option" where
  "read_assign k = read_pair_with (read_quoted (d_quoteChar (getDialect k))) '' = '' read_value"

interpretation assign: written_pair
    "quoteIdent (getDialect k)" "\<lambda>x. x" "read_quoted (d_quoteChar (getDialect k))" "not_at (d_quoteChar (getDialect k))"
    sqlLit lit_value read_value lit_ends "'' = ''" for k
  by unfold_locales (use dialect_quoteChar [of k] in \<open>auto simp: not_at_def ident.reader_quote\<close>)

definition name_parts :: "table_ref \<Rightarrow> string list" where
  "name_parts t = (if t_schema t \<noteq> [] then [t_schema t] else []) @ [t_table t]"

definition lit_values :: "(string, jsval) omap \<Rightarrow> (string \<times> sql_value) list" where
  "lit_values m = map (\<lambda>(c, v). (c, lit_value v)) m"

lemma qualName_join:
  "qualName cs i t = js_join ''.'' (map (quoteIdent (getDialect (sqlConnKind cs i))) (name_parts t))"
  by (simp add: qualName_def name_parts_def qid_def)

lemma assigns_join:
  "assigns cs i sep m = js_join sep (map (assign_text (sqlConnKind cs i)) m)"
proof -
  have "(\<lambda>(c, v). qid cs i c @ '' = '' @ sqlLit v) = assign_text (sqlConnKind cs i)"
    by (rule ext) (auto simp: assign_text_def pair_with_def qid_def)
  then show ?thesis unfolding assigns_def by (rule arg_cong)
qed

text \<open>Skip a fixed text.\<close>

definition skip :: "string \<Rightarrow> string \<Rightarrow> string option" where
  "skip p s = (if startsWith s p then Some (drop (length p) s) else None)"

lemma skip_append [simp]: "skip p (p @ r) = Some r"
  by (simp add: skip_def)

text \<open>Every reader below is given the engine kind, as the builders take it from the connection.\<close>

definition read_ident :: "string option \<Rightarrow> string \<Rightarrow> (string \<times> string) option" where
  "read_ident k = read_quoted (d_quoteChar (getDialect k))"

definition read_name :: "string option \<Rightarrow> string \<Rightarrow> (string list \<times> string) option" where
  "read_name k s = read_many (read_ident k) (Suc (length s)) ''.'' s"

definition read_assigns ::
  "string option \<Rightarrow> string \<Rightarrow> string \<Rightarrow> ((string \<times> sql_value) list \<times> string) option" where
  "read_assigns k sep s = read_many (read_assign k) (Suc (length s)) sep s"

lemma js_join_length: "sep \<noteq> [] \<Longrightarrow> length xs \<le> Suc (length (js_join sep xs))"
proof (induction sep xs rule: js_join.induct)
  case (3 sep x y xs)
  then show ?case by (cases sep) auto
qed auto

lemma read_many_fuel:
  "sep \<noteq> [] \<Longrightarrow> length xs \<le> Suc (length (js_join sep (map f xs) @ r))"
  using js_join_length [of sep "map f xs"] by simp

lemma read_name_qualName:
  assumes "k = sqlConnKind cs i" and "r = [] \<or> hd r = CHR '' '' \<or> hd r = CHR '';''"
  shows "read_name k (qualName cs i t @ r) = Some (name_parts t, r)"
proof -
  have "not_at (d_quoteChar (getDialect k)) (''.'' @ r')" for r'
    using dialect_quoteChar [of k] by (auto simp: not_at_def)
  moreover have "not_at (d_quoteChar (getDialect k)) r" "\<not> startsWith r ''.''"
    using assms(2) dialect_quoteChar [of k] by (cases r; auto simp: not_at_def)+
  moreover have "name_parts t \<noteq> []" by (simp add: name_parts_def)
  ultimately show ?thesis
    unfolding read_name_def qualName_join read_ident_def assms(1) [symmetric]
    by (intro ident.read_many_join read_many_fuel) simp_all
qed

lemma read_assigns_text:
  assumes "m \<noteq> []" "sep \<in> {'', '', '' AND ''}" "r = '';'' \<or> hd r = CHR '' '' \<and> \<not> startsWith r sep"
  shows "read_assigns (sqlConnKind cs i) sep (assigns cs i sep m @ r) = Some (lit_values m, r)"
proof -
  have "lit_ends (sep @ r')" for r' using assms(2) by (auto simp: lit_ends_def lit_char_def is_word_c_code)
  moreover have "lit_ends r" "\<not> startsWith r sep"
    using assms(2,3) by (cases r; auto simp: lit_ends_def lit_char_def is_word_c_code)+
  moreover have v: "lit_values m = map (map_prod (\<lambda>x. x) lit_value) m" by (auto simp: lit_values_def)
  ultimately show ?thesis
    unfolding read_assigns_def assigns_join read_assign_def assign_text_def v
    using assms(1,2) by (intro assign.pair.read_many_written read_many_fuel) auto
qed

text \<open>\<open>UPDATE name SET c = v, ... WHERE c = v AND ...;\<close>\<close>

definition read_update ::
  "string option \<Rightarrow> string \<Rightarrow> (string list \<times> (string \<times> sql_value) list \<times> (string \<times> sql_value) list) option" where
  "read_update k s =
     Option.bind (skip ''UPDATE '' s) (\<lambda>s1.
     Option.bind (read_name k s1) (\<lambda>(name, s2).
     Option.bind (skip '' SET '' s2) (\<lambda>s3.
     Option.bind (read_assigns k '', '' s3) (\<lambda>(sets, s4).
     Option.bind (skip '' WHERE '' s4) (\<lambda>s5.
     Option.bind (read_assigns k '' AND '' s5) (\<lambda>(conds, s6).
     if s6 = '';'' then Some (name, sets, conds) else None))))))"

definition read_delete ::
  "string option \<Rightarrow> string \<Rightarrow> (string list \<times> (string \<times> sql_value) list) option" where
  "read_delete k s =
     Option.bind (skip ''DELETE FROM '' s) (\<lambda>s1.
     Option.bind (read_name k s1) (\<lambda>(name, s2).
     Option.bind (skip '' WHERE '' s2) (\<lambda>s3.
     Option.bind (read_assigns k '' AND '' s3) (\<lambda>(conds, s4).
     if s4 = '';'' then Some (name, conds) else None))))"

definition read_insert ::
  "string option \<Rightarrow> string \<Rightarrow> (string list \<times> string list \<times> sql_value list) option" where
  "read_insert k s =
     Option.bind (skip ''INSERT INTO '' s) (\<lambda>s1.
     Option.bind (read_name k s1) (\<lambda>(name, s2).
     Option.bind (skip '' ('' s2) (\<lambda>s3.
     Option.bind (read_many (read_ident k) (Suc (length s3)) '', '' s3) (\<lambda>(cols, s4).
     Option.bind (skip '') VALUES ('' s4) (\<lambda>s5.
     Option.bind (read_many read_value (Suc (length s5)) '', '' s5) (\<lambda>(vals, s6).
     if s6 = '');'' then Some (name, cols, vals) else None))))))"

lemma read_update_text:
  assumes "pk \<noteq> []" and "vals \<noteq> []"
  shows "read_update (sqlConnKind cs i) (buildUpdateSql cs i t pk vals) =
     Some (name_parts t, lit_values vals, lit_values pk)"
  using read_assigns_text [OF assms(1), of "'' AND ''" "'';''" cs i]
    read_assigns_text [OF assms(2), of "'', ''" "'' WHERE '' @ whereFromPk cs i pk @ '';''" cs i]
    read_name_qualName [OF refl, of "'' SET '' @ assigns cs i '', '' vals @ '' WHERE '' @ whereFromPk cs i pk @ '';''" cs i t]
  by (simp add: read_update_def buildUpdateSql_def whereFromPk_def skip_def)

text \<open>
  C3: the UPDATE shown and copied for an edit reads back, under the standard's literal
  rules, as exactly the table, the assignments and the key conditions it was built from,
  whatever the names and values contain: no value can end its literal early or add a
  condition.
\<close>

theorem buildUpdateSql_reads_back:
  assumes "pk \<noteq> []" and "vals \<noteq> []"
  shows "read_update (sqlConnKind cs i) (buildUpdateSql cs i t pk vals) =
     Some (name_parts t, lit_values vals, lit_values pk)"
  using assms by (rule read_update_text)

lemma buildUpdateSql_reads_back_witness:
  "read_update (Some ''mysql'')
     (buildUpdateSql [] [] \<lparr>t_database = [], t_schema = ''s'', t_table = ''t'', t_kind = []\<rparr>
        [(''id'', VNum (NInt 7))] [(''n'', VStr [CHR 0x27])]) = None \<and>
   read_update None
     (buildUpdateSql [] [] \<lparr>t_database = [], t_schema = ''s'', t_table = ''t'', t_kind = []\<rparr>
        [(''id'', VNum (NInt 7))] [(''n'', VStr [CHR 0x27])]) =
   Some ([''s'', ''t''], [(''n'', SText [CHR 0x27])], [(''id'', SNum (7, 1))])"
proof -
  let ?t = "\<lparr>t_database = [], t_schema = ''s'', t_table = ''t'', t_kind = []\<rparr>"
  have "sqlConnKind [] [] = None" by (simp add: sqlConnKind_def find_conn_def)
  then have "read_update None
     (buildUpdateSql [] [] ?t [(''id'', VNum (NInt 7))] [(''n'', VStr [CHR 0x27])]) =
     Some (name_parts ?t, lit_values [(''n'', VStr [CHR 0x27])], lit_values [(''id'', VNum (NInt 7))])"
    using buildUpdateSql_reads_back [of "[(''id'', VNum (NInt 7))]" "[(''n'', VStr [CHR 0x27])]" "[]" "[]" ?t]
    by simp
  moreover have "read_update (Some ''mysql'')
     (buildUpdateSql [] [] ?t [(''id'', VNum (NInt 7))] [(''n'', VStr [CHR 0x27])]) = None"
    by code_simp
  ultimately show ?thesis by (simp add: name_parts_def lit_values_def lit_value_def)
qed

text \<open>
  The DELETE of a row reads back as exactly its table and the conditions on its key.
\<close>

theorem buildDeleteSql_reads_back:
  assumes "pk \<noteq> []"
  shows "read_delete (sqlConnKind cs i) (buildDeleteSql cs i t pk) = Some (name_parts t, lit_values pk)"
  using read_assigns_text [OF assms, of "'' AND ''" "'';''" cs i]
    read_name_qualName [OF refl, of "'' WHERE '' @ whereFromPk cs i pk @ '';''" cs i t]
  by (simp add: read_delete_def buildDeleteSql_def whereFromPk_def skip_def)

lemma buildDeleteSql_reads_back_witness:
  "read_delete None (buildDeleteSql [] [] \<lparr>t_database = [], t_schema = [], t_table = [CHR 0x22], t_kind = []\<rparr>
     [(''id'', VNull)]) = Some ([[CHR 0x22]], [(''id'', SNull)])"
  using buildDeleteSql_reads_back [of "[(''id'', VNull)]" "[]" "[]"
      "\<lparr>t_database = [], t_schema = [], t_table = [CHR 0x22], t_kind = []\<rparr>"]
  by (simp add: sqlConnKind_def find_conn_def name_parts_def lit_values_def lit_value_def)

lemma read_insert_text:
  assumes "vals \<noteq> []"
  shows "read_insert (sqlConnKind cs i) (buildInsertSql cs i t vals) =
     Some (name_parts t, omap_keys vals, map lit_value (omap_values vals))"
proof -
  let ?k = "sqlConnKind cs i"
  let ?v = "js_join '', '' (map sqlLit (omap_values vals)) @ '');''"
  have ne: "omap_keys vals \<noteq> []" "omap_values vals \<noteq> []"
    using assms by (simp_all add: omap_keys_def omap_values_def)
  have nat: "not_at (d_quoteChar (getDialect ?k)) ('', '' @ r)" "not_at (d_quoteChar (getDialect ?k)) ('') VALUES ('' @ r)" for r
    using dialect_quoteChar [of ?k] by (auto simp: not_at_def)
  have cols: "read_many (read_ident ?k) (Suc (length (js_join '', '' (map (quoteIdent (getDialect ?k)) (omap_keys vals)) @ '') VALUES ('' @ ?v)))
      '', '' (js_join '', '' (map (quoteIdent (getDialect ?k)) (omap_keys vals)) @ '') VALUES ('' @ ?v)
    = Some (omap_keys vals, '') VALUES ('' @ ?v)"
    unfolding read_ident_def by (intro ident.read_many_join read_many_fuel nat ne) simp_all
  have lit: "lit_ends ('', '' @ r)" "lit_ends '');''" for r
    by (simp_all add: lit_ends_def lit_char_def is_word_c_code)
  have vals: "read_many read_value (Suc (length ?v)) '', '' ?v = Some (map lit_value (omap_values vals), '');'')"
    by (intro lit.read_many_written read_many_fuel lit ne) simp_all
  have ins: "buildInsertSql cs i t vals = ''INSERT INTO '' @ qualName cs i t @ '' ('' @
      js_join '', '' (map (quoteIdent (getDialect ?k)) (omap_keys vals)) @ '') VALUES ('' @ ?v"
  proof -
    have "qid cs i = quoteIdent (getDialect ?k)" by (rule ext) (simp add: qid_def)
    then show ?thesis by (simp add: buildInsertSql_def)
  qed
  have nm: "read_name ?k (qualName cs i t @ '' ('' @ js_join '', '' (map (quoteIdent (getDialect ?k)) (omap_keys vals)) @ '') VALUES ('' @ ?v)
     = Some (name_parts t, '' ('' @ js_join '', '' (map (quoteIdent (getDialect ?k)) (omap_keys vals)) @ '') VALUES ('' @ ?v)"
    by (rule read_name_qualName) simp_all
  show ?thesis
    unfolding ins read_insert_def by (simp only: skip_append bind.simps nm prod.case cols vals if_True refl)
qed

text \<open>
  The INSERT copied for a row reads back as exactly its table, its columns and the
  SQL values of its cells, in order.
\<close>

theorem buildInsertSql_reads_back:
  assumes "vals \<noteq> []"
  shows "read_insert (sqlConnKind cs i) (buildInsertSql cs i t vals) =
     Some (name_parts t, omap_keys vals, map lit_value (omap_values vals))"
  using assms by (rule read_insert_text)

lemma buildInsertSql_reads_back_witness:
  "read_insert None (buildInsertSql [] [] \<lparr>t_database = [], t_schema = [], t_table = ''t'', t_kind = []\<rparr>
     [(''a'', VBool True), (''b'', VStr '', b'')]) = Some ([''t''], [''a'', ''b''], [SBool True, SText '', b''])"
  using buildInsertSql_reads_back [of "[(''a'', VBool True), (''b'', VStr '', b'')]" "[]" "[]"
      "\<lparr>t_database = [], t_schema = [], t_table = ''t'', t_kind = []\<rparr>"]
  by (simp add: sqlConnKind_def find_conn_def name_parts_def lit_value_def omap_keys_def omap_values_def)

section \<open>MySQL's backslash\<close>

text \<open>A string literal under MySQL's default rules: a backslash escapes the next character.\<close>

fun scan_escaped :: "string \<Rightarrow> (string \<times> string) option" where
  "scan_escaped [] = None"
| "scan_escaped [c] = (if c = CHR 0x27 then Some ([], []) else None)"
| "scan_escaped (c # d # s) =
     (if c = CHR 0x5C then map_option (\<lambda>(a, r). (d # a, r)) (scan_escaped s)
      else if c \<noteq> CHR 0x27 then map_option (\<lambda>(a, r). (c # a, r)) (scan_escaped (d # s))
      else if d = CHR 0x27 then map_option (\<lambda>(a, r). (CHR 0x27 # a, r)) (scan_escaped s)
      else Some ([], d # s))"

definition read_mysql_text :: "string \<Rightarrow> (string \<times> string) option" where
  "read_mysql_text s = (case s of [] \<Rightarrow> None | c # r \<Rightarrow> if c = CHR 0x27 then scan_escaped r else None)"

lemma scan_escaped_double:
  "CHR 0x5C \<notin> set s \<Longrightarrow> not_at (CHR 0x27) r \<Longrightarrow>
     scan_escaped (double_c (CHR 0x27) s @ CHR 0x27 # r) = Some (s, r)"
proof (induction s)
  case Nil
  then show ?case by (cases r) (auto simp: not_at_def)
next
  case (Cons c s)
  then show ?case by (cases "double_c (CHR 0x27) s @ CHR 0x27 # r") auto
qed

text \<open>
  Under MySQL's default literal rules the text literal of a value reads back exactly
  when the value has no backslash, and the literal of a value that ends in a backslash
  does not end at all: the statement copied for such a row swallows what follows.
\<close>

theorem sqlLit_mysql_backslash:
  "(CHR 0x5C \<notin> set s \<longrightarrow> read_mysql_text (sqlLit (VStr s)) = Some (s, [])) \<and>
   read_mysql_text (sqlLit (VStr [CHR ''C'', CHR '':'', CHR 0x5C])) = None"
proof -
  have "read_mysql_text (sqlLit (VStr s)) = Some (s, [])" if "CHR 0x5C \<notin> set s"
    using scan_escaped_double [OF that, of "[]"]
    by (simp add: sql_quote_eq quote_with_def read_mysql_text_def not_at_def)
  moreover have "read_mysql_text (sqlLit (VStr [CHR ''C'', CHR '':'', CHR 0x5C])) = None"
    by (simp add: sql_quote_eq quote_with_def read_mysql_text_def)
  ultimately show ?thesis by blast
qed

lemma sqlLit_mysql_backslash_witness:
  "read_mysql_text (sqlLit (VStr [CHR ''a'', CHR 0x27])) = Some ([CHR ''a'', CHR 0x27], []) \<and>
   read_mysql_text (sqlLit (VStr [CHR ''C'', CHR '':'', CHR 0x5C])) = None"
  using sqlLit_mysql_backslash [of "[CHR ''a'', CHR 0x27]"] by simp

end
