(* ===== verification/RegexLang.thy ===== *)
theory RegexLang
  imports JsRegex
begin

text \<open>
  What a pattern can match, with the order of attempts and the captures forgotten:
  \<open>re_ends r (p, s)\<close> is the set of positions a match of \<open>r\<close> that starts at \<open>(p, s)\<close> may
  end at. Since no pattern of the extension refers back to a capture, the set is
  computed by the structure of the pattern, and \<open>re_test\<close> asks whether it is non-empty
  somewhere. Proofs about \<open>test\<close> calls use these equations and never the matcher.
\<close>

definition drop_caps :: "mstate \<Rightarrow> char option \<times> string" where
  "drop_caps st = (fst st, st_rest st)"

lemma drop_caps_simps [simp]: "drop_caps (p, s, c) = (p, s)"
  by (simp add: drop_caps_def)

abbreviation same_pos :: "mstate \<Rightarrow> mstate \<Rightarrow> bool" where
  "same_pos x y \<equiv> drop_caps x = drop_caps y"

lemma same_pos_rest: "same_pos x y \<Longrightarrow> st_rest x = st_rest y"
  by (simp add: drop_caps_def)

lemma list_all2_concat_map:
  assumes "list_all2 R xs ys" "\<And>x y. x \<in> set xs \<Longrightarrow> y \<in> set ys \<Longrightarrow> R x y \<Longrightarrow> list_all2 S (f x) (g y)"
  shows "list_all2 S (concat (map f xs)) (concat (map g ys))"
  using assms by (induction rule: list_all2_induct) (auto intro!: list_all2_appendI)

lemma re_matches_caps:
  "same_pos st' st \<Longrightarrow> list_all2 same_pos (re_matches r st') (re_matches r st)"
proof (induction r st arbitrary: st' rule: re_matches.induct)
  case (2 P p s c)
  then show ?case by (cases st') (auto split: list.splits)
next
  case (3 r1 r2 st)
  have "list_all2 same_pos (re_matches r1 st') (re_matches r1 st)"
    by (rule "3.IH"(1) [OF "3.prems"])
  then have "list_all2 same_pos (concat (map (re_matches r2) (re_matches r1 st')))
      (concat (map (re_matches r2) (re_matches r1 st)))"
    by (rule list_all2_concat_map) (rule "3.IH"(2))
  then show ?case by simp
next
  case (4 r1 r2 st)
  from "4.IH"(1) [OF "4.prems"] "4.IH"(2) [OF "4.prems"] show ?case
    by (simp add: list_all2_appendI)
next
  case (5 greedy r st)
  have 1: "list_all2 same_pos (re_matches r st') (re_matches r st)"
    by (rule "5.IH"(1) [OF "5.prems"])
  have len: "st_rest st' = st_rest st" using "5.prems" by (rule same_pos_rest)
  have "list_all2 same_pos
     (concat (map (\<lambda>x. if length (st_rest x) < length (st_rest st') then re_matches (RStar greedy r) x else [])
        (re_matches r st')))
     (concat (map (\<lambda>x. if length (st_rest x) < length (st_rest st) then re_matches (RStar greedy r) x else [])
        (re_matches r st)))"
    using 1
  proof (rule list_all2_concat_map)
    fix x y assume "x \<in> set (re_matches r st')" "y \<in> set (re_matches r st)" "same_pos x y"
    with "5.IH"(2) [of y x] len same_pos_rest [of x y]
    show "list_all2 same_pos
       (if length (st_rest x) < length (st_rest st') then re_matches (RStar greedy r) x else [])
       (if length (st_rest y) < length (st_rest st) then re_matches (RStar greedy r) y else [])"
      by auto
  qed
  with "5.prems" show ?case
    by (subst (1 2) re_matches.simps(5)) (auto simp: Let_def intro!: list_all2_appendI)
next
  case (6 k r p s c)
  obtain c' where st': "st' = (p, s, c')" using "6.prems" by (cases st') auto
  have "list_all2 same_pos (re_matches r (p, s, c')) (re_matches r (p, s, c))"
    using "6.IH" [of "(p, s, c')"] by simp
  then show ?case
    by (auto simp: st' list_all2_map1 list_all2_map2 case_prod_beta elim: list_all2_mono)
next
  case (7 p s c)
  then show ?case by (cases st') auto
next
  case (8 p s c)
  then show ?case by (cases st') auto
next
  case (9 p s c)
  then show ?case by (cases st') auto
qed simp

definition re_ends :: "re \<Rightarrow> char option \<times> string \<Rightarrow> (char option \<times> string) set" where
  "re_ends r x = drop_caps ` set (re_matches r (fst x, snd x, []))"

lemma re_ends_any: "drop_caps ` set (re_matches r st) = re_ends r (drop_caps st)"
proof -
  have "list_all2 same_pos (re_matches r (fst (drop_caps st), snd (drop_caps st), [])) (re_matches r st)"
    by (rule re_matches_caps) (simp add: drop_caps_def)
  then have "map drop_caps (re_matches r (fst (drop_caps st), snd (drop_caps st), [])) =
      map drop_caps (re_matches r st)"
    by (induction rule: list_all2_induct) auto
  then show ?thesis unfolding re_ends_def by (metis set_map)
qed

lemma re_ends_Eps [simp]: "re_ends REps x = {x}"
  by (simp add: re_ends_def)

lemma re_ends_Cls: "re_ends (RCls P) (p, s) = (case s of [] \<Rightarrow> {} | c # r \<Rightarrow> if P c then {(Some c, r)} else {})"
  by (simp add: re_ends_def split: list.splits)

lemma re_ends_Seq [simp]: "re_ends (RSeq r1 r2) x = (\<Union>y\<in>re_ends r1 x. re_ends r2 y)"
proof -
  have "re_ends (RSeq r1 r2) x =
      (\<Union>st\<in>set (re_matches r1 (fst x, snd x, [])). drop_caps ` set (re_matches r2 st))"
    by (auto simp: re_ends_def)
  also have "\<dots> = (\<Union>y\<in>re_ends r1 x. re_ends r2 y)"
    by (simp add: re_ends_any) (simp add: re_ends_def)
  finally show ?thesis .
qed

lemma re_ends_Alt [simp]: "re_ends (RAlt r1 r2) x = re_ends r1 x \<union> re_ends r2 x"
  by (auto simp: re_ends_def)

lemma re_ends_Cap [simp]: "re_ends (RCap k r) x = re_ends r x"
  by (force simp: re_ends_def)

lemma re_ends_WordB [simp]: "re_ends RWordB (p, s) = (if at_boundary p s then {(p, s)} else {})"
  by (simp add: re_ends_def)

lemma re_ends_Bol [simp]: "re_ends RBol (p, s) = (if p = None then {(p, s)} else {})"
  by (simp add: re_ends_def)

lemma re_ends_Eol [simp]: "re_ends REol (p, s) = (if s = [] then {(p, s)} else {})"
  by (simp add: re_ends_def)

lemma re_ends_star_unfold:
  "re_ends (RStar g r) x =
     insert x (\<Union>y\<in>{y \<in> re_ends r x. length (snd y) < length (snd x)}. re_ends (RStar g r) y)"
  (is "_ = insert x ?U")
proof -
  let ?st = "(fst x, snd x, []) :: mstate"
  have "drop_caps st' = x \<or> drop_caps st' \<in> ?U"
    if st': "st' \<in> set (re_matches (RStar g r) (fst x, snd x, []))" for st'
  proof (cases "st' = ?st")
    case False
    with st' re_star_mem [of st' g r ?st] obtain st1 where
      "st1 \<in> set (re_matches r ?st)" "length (st_rest st1) < length (snd x)"
      "st' \<in> set (re_matches (RStar g r) st1)" by auto
    then have "drop_caps st1 \<in> re_ends r x" "drop_caps st' \<in> re_ends (RStar g r) (drop_caps st1)"
      "length (snd (drop_caps st1)) < length (snd x)"
      using re_ends_any [of "RStar g r" st1] by (auto simp: re_ends_def drop_caps_def)
    then show ?thesis by blast
  qed simp
  moreover have "y \<in> drop_caps ` set (re_matches (RStar g r) (fst x, snd x, []))"
    if "z \<in> re_ends r x" "length (snd z) < length (snd x)" "y \<in> re_ends (RStar g r) z" for y z
  proof -
    from that(1) obtain st1 where st1: "st1 \<in> set (re_matches r ?st)" "z = drop_caps st1"
      by (auto simp: re_ends_def)
    with that(3) have "y \<in> drop_caps ` set (re_matches (RStar g r) st1)"
      using re_ends_any [of "RStar g r" st1] by simp
    then obtain st2 where "st2 \<in> set (re_matches (RStar g r) st1)" "y = drop_caps st2" by blast
    with st1 that(2) have "st2 \<in> set (re_matches (RStar g r) ?st)"
      using re_star_mem [of st2 g r ?st] by (auto simp: drop_caps_def)
    with \<open>y = drop_caps st2\<close> show ?thesis by (auto simp: re_ends_def)
  qed
  moreover have "x \<in> drop_caps ` set (re_matches (RStar g r) (fst x, snd x, []))"
    using re_star_mem [of ?st g r ?st] by (force simp: re_ends_def)
  ultimately show ?thesis unfolding re_ends_def [of "RStar g r" x] by blast
qed

lemma re_ends_star_cls:
  "re_ends (RStar g (RCls P)) (p, s) = {(last_opt p w, b) |w b. s = w @ b \<and> (\<forall>c\<in>set w. P c)}"
proof (induction s arbitrary: p)
  case Nil
  then show ?case by (subst re_ends_star_unfold) (auto simp: re_ends_Cls last_opt_def)
next
  case (Cons x xs)
  show ?case
  proof (cases "P x")
    case True
    then have "re_ends (RStar g (RCls P)) (p, x # xs) =
        insert (p, x # xs) {(last_opt (Some x) w, b) |w b. xs = w @ b \<and> (\<forall>c\<in>set w. P c)}"
      by (subst re_ends_star_unfold) (simp add: re_ends_Cls Cons)
    also have "\<dots> = {(last_opt p w, b) |w b. x # xs = w @ b \<and> (\<forall>c\<in>set w. P c)}"
    proof (intro equalityI subsetI)
      fix y assume "y \<in> insert (p, x # xs) {(last_opt (Some x) w, b) |w b. xs = w @ b \<and> (\<forall>c\<in>set w. P c)}"
      then consider "y = (p, x # xs)" | w b where "y = (last_opt (Some x) w, b)" "xs = w @ b" "\<forall>c\<in>set w. P c"
        by blast
      then show "y \<in> {(last_opt p w, b) |w b. x # xs = w @ b \<and> (\<forall>c\<in>set w. P c)}"
      proof cases
        case 1
        then show ?thesis by (auto simp: last_opt_def intro!: exI [of _ "[]"])
      next
        case (2 w b)
        then show ?thesis using True by (auto simp: last_opt_def intro!: exI [of _ "x # w"])
      qed
    next
      fix y assume "y \<in> {(last_opt p w, b) |w b. x # xs = w @ b \<and> (\<forall>c\<in>set w. P c)}"
      then obtain w b where y: "y = (last_opt p w, b)" "x # xs = w @ b" "\<forall>c\<in>set w. P c" by blast
      then show "y \<in> insert (p, x # xs) {(last_opt (Some x) w, b) |w b. xs = w @ b \<and> (\<forall>c\<in>set w. P c)}"
      proof (cases w)
        case (Cons a w')
        with y have "y = (last_opt (Some x) w', b)" "xs = w' @ b" "\<forall>c\<in>set w'. P c"
          by (auto simp: last_opt_def)
        then show ?thesis by blast
      qed (simp add: last_opt_def)
    qed
    finally show ?thesis .
  next
    case False
    have "{(last_opt p w, b) |w b. x # xs = w @ b \<and> (\<forall>c\<in>set w. P c)} = {(p, x # xs)}"
    proof -
      have "w = []" if "x # xs = w @ b" "\<forall>c\<in>set w. P c" for w b
        using that False by (cases w) auto
      then show ?thesis by (auto simp: last_opt_def)
    qed
    with False show ?thesis by (subst re_ends_star_unfold) (simp add: re_ends_Cls)
  qed
qed

lemma last_opt_append: "last_opt p (v @ w) = last_opt (last_opt p v) w"
  by (simp add: last_opt_def)

lemma last_opt_Nil [simp]: "last_opt p [] = p"
  by (simp add: last_opt_def)

lemma re_ends_plus_cls:
  "re_ends (rplus (RCls P)) (p, s) =
     {(last_opt p w, b) |w b. s = w @ b \<and> w \<noteq> [] \<and> (\<forall>c\<in>set w. P c)}"
proof (cases s)
  case Nil
  then show ?thesis by (simp add: rplus_def re_ends_Cls)
next
  case (Cons x xs)
  show ?thesis
  proof (intro equalityI subsetI)
    fix y assume "y \<in> re_ends (rplus (RCls P)) (p, s)"
    then obtain w b where "P x" "y = (last_opt (Some x) w, b)" "xs = w @ b" "\<forall>c\<in>set w. P c"
      using Cons by (auto simp: rplus_def re_ends_Cls re_ends_star_cls split: if_splits)
    then show "y \<in> {(last_opt p w, b) |w b. s = w @ b \<and> w \<noteq> [] \<and> (\<forall>c\<in>set w. P c)}"
      using Cons by (auto intro!: exI [of _ "x # w"] simp: last_opt_def)
  next
    fix y assume "y \<in> {(last_opt p w, b) |w b. s = w @ b \<and> w \<noteq> [] \<and> (\<forall>c\<in>set w. P c)}"
    then obtain w b where y: "y = (last_opt p w, b)" "s = w @ b" "w \<noteq> []" "\<forall>c\<in>set w. P c" by blast
    then obtain w' where "w = x # w'" using Cons by (cases w) auto
    with y Cons show "y \<in> re_ends (rplus (RCls P)) (p, s)"
      by (auto simp: rplus_def re_ends_Cls re_ends_star_cls last_opt_def)
  qed
qed

lemma re_ends_lit_i:
  "re_ends (rlit_i k) (p, s) = {(last_opt p w, b) |w b. s = w @ b \<and> toLowerCase w = toLowerCase k}"
proof -
  have "toLowerCase (take (length k) s) = toLowerCase k \<and> s = take (length k) s @ drop (length k) s"
    if "s = w @ b" "toLowerCase w = toLowerCase k" for w b
    using that by (metis append_eq_conv_conj append_take_drop_id length_toLowerCase)
  moreover have "w = take (length k) s \<and> b = drop (length k) s"
    if "s = w @ b" "toLowerCase w = toLowerCase k" for w b
    using that by (metis append_eq_conv_conj length_toLowerCase)
  ultimately show ?thesis
    unfolding re_ends_def by (auto simp: re_matches_rlit_i) (metis append_take_drop_id)
qed

section \<open>Patterns without assertions\<close>

text \<open>
  A pattern without \<open>\<^bold>b\<close>, \<open>^\<close> and \<open>$\<close> matches a stretch of text regardless of what is around
  it: \<open>spans r Q\<close> says that the stretches are those with property \<open>Q\<close>.
\<close>

definition spans :: "re \<Rightarrow> (string \<Rightarrow> bool) \<Rightarrow> bool" where
  "spans r Q = (\<forall>p s. re_ends r (p, s) = {(last_opt p w, b) |w b. s = w @ b \<and> Q w})"

lemma spansD: "spans r Q \<Longrightarrow> re_ends r (p, s) = {(last_opt p w, b) |w b. s = w @ b \<and> Q w}"
  by (simp add: spans_def)

lemma spans_cong: "spans r Q \<Longrightarrow> (\<And>w. Q w = Q' w) \<Longrightarrow> spans r Q'"
  by (simp add: spans_def)

lemma spans_lit_i: "spans (rlit_i k) (\<lambda>w. toLowerCase w = toLowerCase k)"
  by (simp add: spans_def re_ends_lit_i)

lemma spans_lit: "spans (rlit k) (\<lambda>w. w = k)"
  unfolding spans_def re_ends_def
  by (auto simp: re_matches_rlit startsWith_iff)

lemma spans_cls: "spans (RCls P) (\<lambda>w. \<exists>c. w = [c] \<and> P c)"
  unfolding spans_def re_ends_Cls by (auto simp: last_opt_def split: list.splits)

lemma spans_star_cls: "spans (RStar g (RCls P)) (\<lambda>w. \<forall>c\<in>set w. P c)"
  by (simp add: spans_def re_ends_star_cls)

lemma spans_plus_cls: "spans (rplus (RCls P)) (\<lambda>w. w \<noteq> [] \<and> (\<forall>c\<in>set w. P c))"
  by (simp add: spans_def re_ends_plus_cls)

lemma spans_alt: "spans r Q \<Longrightarrow> spans r' Q' \<Longrightarrow> spans (RAlt r r') (\<lambda>w. Q w \<or> Q' w)"
  unfolding spans_def by (intro allI) (simp only: re_ends_Alt, blast)

lemma spans_eps: "spans REps (\<lambda>w. w = [])"
  by (simp add: spans_def)

lemma spans_opt: "spans r Q \<Longrightarrow> spans (ropt r) (\<lambda>w. Q w \<or> w = [])"
  unfolding ropt_def by (intro spans_alt spans_eps)

lemma spans_cap: "spans r Q \<Longrightarrow> spans (RCap k r) Q"
  by (simp add: spans_def)

lemma spans_seq:
  assumes "spans r Q" "spans r' Q'"
  shows "spans (RSeq r r') (\<lambda>w. \<exists>u v. w = u @ v \<and> Q u \<and> Q' v)"
  unfolding spans_def
proof (intro allI equalityI subsetI)
  fix p s y assume "y \<in> re_ends (RSeq r r') (p, s)"
  then obtain u t where "s = u @ t" "Q u" "y \<in> re_ends r' (last_opt p u, t)"
    using spansD [OF assms(1), of p s] by auto
  moreover then obtain v b where "t = v @ b" "Q' v" "y = (last_opt (last_opt p u) v, b)"
    using spansD [OF assms(2), of "last_opt p u" t] by auto
  ultimately have "y = (last_opt p (u @ v), b)" "s = (u @ v) @ b" "Q u" "Q' v"
    by (simp_all add: last_opt_append)
  then show "y \<in> {(last_opt p w, b) |w b. s = w @ b \<and> (\<exists>u v. w = u @ v \<and> Q u \<and> Q' v)}" by blast
next
  fix p s y
  assume "y \<in> {(last_opt p w, b) |w b. s = w @ b \<and> (\<exists>u v. w = u @ v \<and> Q u \<and> Q' v)}"
  then obtain u v b where y: "y = (last_opt p (u @ v), b)" "s = u @ v @ b" "Q u" "Q' v" by auto
  have "(last_opt p u, v @ b) \<in> re_ends r (p, s)"
    unfolding spansD [OF assms(1)] using y by blast
  moreover have "y \<in> re_ends r' (last_opt p u, v @ b)"
    unfolding spansD [OF assms(2)] using y last_opt_append by blast
  ultimately show "y \<in> re_ends (RSeq r r') (p, s)" by auto
qed

section \<open>Tests\<close>

text \<open>The test, by positions.\<close>

lemma re_test_ends:
  "re_test r s \<longleftrightarrow> (\<exists>a b. s = a @ b \<and> re_ends r (last_opt None a, b) \<noteq> {})"
  unfolding re_test_iff re_ends_def by simp

lemma at_boundary_word_start:
  "w \<noteq> [] \<Longrightarrow> is_word_c (hd w) \<Longrightarrow>
     at_boundary (last_opt None a) (w @ b) \<longleftrightarrow> a = [] \<or> \<not> is_word_c (last a)"
  by (cases w) (auto simp: at_boundary_def word_at_def last_opt_def)

lemma at_boundary_word_end:
  "w \<noteq> [] \<Longrightarrow> is_word_c (last w) \<Longrightarrow>
     at_boundary (last_opt p w) b \<longleftrightarrow> b = [] \<or> \<not> is_word_c (hd b)"
  by (cases b) (auto simp: at_boundary_def word_at_def last_opt_def)

definition ends_word :: "string \<Rightarrow> bool" where
  "ends_word b = (b = [] \<or> \<not> is_word_c (hd b))"

definition before_word :: "string \<Rightarrow> bool" where
  "before_word a = (a = [] \<or> \<not> is_word_c (last a))"

definition is_words :: "string \<Rightarrow> bool" where
  "is_words w = (w \<noteq> [] \<and> is_word_c (hd w) \<and> is_word_c (last w))"

text \<open>A pattern between two word boundaries, when what it matches starts and ends a word.\<close>

lemma bounded_test:
  assumes ends: "spans r Q" and word: "\<And>w. Q w \<Longrightarrow> is_words w"
  shows "re_test (RSeq RWordB (RSeq r RWordB)) s \<longleftrightarrow>
    (\<exists>a w b. s = a @ w @ b \<and> before_word a \<and> Q w \<and> ends_word b)" (is "?l \<longleftrightarrow> ?r")
proof
  assume ?l
  then obtain a t y where s: "s = a @ t" and "y \<in> re_ends (RSeq RWordB (RSeq r RWordB)) (last_opt None a, t)"
    unfolding re_test_ends by blast
  then obtain p' b where at: "at_boundary (last_opt None a) t" "(p', b) \<in> re_ends r (last_opt None a, t)"
    "at_boundary p' b" by (auto split: if_splits)
  then obtain w where w: "t = w @ b" "Q w" "p' = last_opt (last_opt None a) w"
    using spansD [OF ends] by auto
  from word [OF w(2)] have "w \<noteq> []" "is_word_c (hd w)" "is_word_c (last w)"
    by (simp_all add: is_words_def)
  with at w have "before_word a" "ends_word b"
    using at_boundary_word_start [of w a b] at_boundary_word_end [of w "last_opt None a" b]
    by (simp_all add: before_word_def ends_word_def)
  with s w show ?r by blast
next
  assume ?r
  then obtain a w b where h: "s = a @ w @ b" "before_word a" "Q w" "ends_word b" by blast
  from word [OF h(3)] have "w \<noteq> []" "is_word_c (hd w)" "is_word_c (last w)"
    by (simp_all add: is_words_def)
  with h have "at_boundary (last_opt None a) (w @ b)" "at_boundary (last_opt (last_opt None a) w) b"
    using at_boundary_word_start [of w a b] at_boundary_word_end [of w "last_opt None a" b]
    by (simp_all add: before_word_def ends_word_def)
  moreover have "(last_opt (last_opt None a) w, b) \<in> re_ends r (last_opt None a, w @ b)"
    unfolding spansD [OF ends] using h(3) by blast
  ultimately have "re_ends (RSeq RWordB (RSeq r RWordB)) (last_opt None a, w @ b) \<noteq> {}" by force
  with h(1) show ?l unfolding re_test_ends by blast
qed

text \<open>A pattern at the start of the text, up to a word boundary.\<close>

lemma start_test:
  assumes ends: "spans r Q" and word: "\<And>w. Q w \<Longrightarrow> is_words w"
  shows "re_test (RSeq RBol (RSeq r RWordB)) s \<longleftrightarrow> (\<exists>w b. s = w @ b \<and> Q w \<and> ends_word b)"
    (is "?l \<longleftrightarrow> ?r")
proof
  assume ?l
  then obtain a t y where s: "s = a @ t" and "y \<in> re_ends (RSeq RBol (RSeq r RWordB)) (last_opt None a, t)"
    unfolding re_test_ends by blast
  then obtain p' b where at: "last_opt None a = None" "(p', b) \<in> re_ends r (last_opt None a, t)"
    "at_boundary p' b" by (auto split: if_splits)
  then obtain w where w: "t = w @ b" "Q w" "p' = last_opt None w"
    using spansD [OF ends] by auto
  from word [OF w(2)] have "w \<noteq> []" "is_word_c (last w)" by (simp_all add: is_words_def)
  with at w have "ends_word b"
    using at_boundary_word_end [of w None b] by (simp add: ends_word_def)
  moreover have "a = []" using at(1) by (simp add: last_opt_def split: if_splits)
  ultimately show ?r using s w by blast
next
  assume ?r
  then obtain w b where h: "s = w @ b" "Q w" "ends_word b" by blast
  from word [OF h(2)] have "w \<noteq> []" "is_word_c (last w)" by (simp_all add: is_words_def)
  with h have "at_boundary (last_opt None w) b"
    using at_boundary_word_end [of w None b] by (simp add: ends_word_def)
  moreover have "(last_opt None w, b) \<in> re_ends r (None, w @ b)"
    unfolding spansD [OF ends] using h(2) by blast
  ultimately have "re_ends (RSeq RBol (RSeq r RWordB)) (last_opt None [], w @ b) \<noteq> {}" by force
  with h(1) show ?l unfolding re_test_ends by (metis append_Nil)
qed

lemma start_only_test:
  assumes "spans r Q"
  shows "re_test (RSeq RBol r) s \<longleftrightarrow> (\<exists>w b. s = w @ b \<and> Q w)"
proof
  assume "re_test (RSeq RBol r) s"
  then obtain a t y where s: "s = a @ t" and "y \<in> re_ends (RSeq RBol r) (last_opt None a, t)"
    unfolding re_test_ends by blast
  then have "last_opt None a = None" "y \<in> re_ends r (None, t)" by (auto split: if_splits)
  moreover then have "a = []" by (simp add: last_opt_def split: if_splits)
  ultimately show "\<exists>w b. s = w @ b \<and> Q w" using s spansD [OF assms, of None t] by auto
next
  assume "\<exists>w b. s = w @ b \<and> Q w"
  then obtain w b where h: "s = w @ b" "Q w" by blast
  then have "(last_opt None w, b) \<in> re_ends r (None, s)" unfolding spansD [OF assms] by blast
  then have "re_ends (RSeq RBol r) (last_opt None [], s) \<noteq> {}" by force
  then show "re_test (RSeq RBol r) s" unfolding re_test_ends by (metis append_Nil)
qed

end
