(* ===== verification/SqlCheck.thy ===== *)
theory SqlCheck
  imports SqlText RegexLang
begin

text \<open>
  What \<open>destructiveReason\<close> of \<open>src/src/sql.js\<close> promises: the answer does not depend on
  letter case; on a script without string literals and comments it catches every object
  removal its pattern names and every DELETE and UPDATE without WHERE. The last section
  proves the two ways a destructive statement gets past it.
\<close>

section \<open>Case-insensitive patterns\<close>

fun re_ci :: "re \<Rightarrow> bool" where
  "re_ci (RCls P) = (\<forall>c. P (lower_c c) = P c)"
| "re_ci (RSeq r1 r2) = (re_ci r1 \<and> re_ci r2)"
| "re_ci (RAlt r1 r2) = (re_ci r1 \<and> re_ci r2)"
| "re_ci (RStar g r) = re_ci r"
| "re_ci (RCap k r) = re_ci r"
| "re_ci r = True"

definition lower_caps :: "captures \<Rightarrow> captures" where
  "lower_caps c = map (\<lambda>(k, w). (k, toLowerCase w)) c"

fun lower_st :: "mstate \<Rightarrow> mstate" where
  "lower_st (p, s, c) = (map_option lower_c p, toLowerCase s, lower_caps c)"

lemma at_boundary_lower: "at_boundary (map_option lower_c p) (toLowerCase s) = at_boundary p s"
  by (cases p; cases s) (simp_all add: at_boundary_def word_at_def is_word_lower toLowerCase_def)

lemma st_rest_lower [simp]: "st_rest (lower_st st) = toLowerCase (st_rest st)"
  by (cases st) simp

lemma toLowerCase_take: "toLowerCase (take n s) = take n (toLowerCase s)"
  by (simp add: toLowerCase_def take_map)

lemma re_matches_lower: "re_ci r \<Longrightarrow> re_matches r (lower_st st) = map lower_st (re_matches r st)"
proof (induction r st rule: re_matches.induct)
  case (2 P p s c)
  then show ?case by (cases s) (auto simp: toLowerCase_def)
next
  case (3 r1 r2 st)
  have "map (re_matches r2) (map lower_st (re_matches r1 st)) =
      map (map lower_st) (map (re_matches r2) (re_matches r1 st))"
    using "3.IH"(2) "3.prems" by simp
  with "3.IH"(1) "3.prems" show ?case by (simp add: map_concat comp_def del: map_eq_conv)
next
  case (5 greedy r st)
  have "map (\<lambda>st'. if length (st_rest st') < length (st_rest (lower_st st))
             then re_matches (RStar greedy r) st' else []) (map lower_st (re_matches r st)) =
      map (map lower_st) (map (\<lambda>st'. if length (st_rest st') < length (st_rest st)
             then re_matches (RStar greedy r) st' else []) (re_matches r st))"
    using "5.IH"(2) "5.prems" by simp
  then show ?case
    using "5.IH"(1) "5.prems"
    by (subst (1 2) re_matches.simps(5)) (simp add: Let_def map_concat del: map_map)
next
  case (6 k r p s c)
  have "map (\<lambda>(p', s', c'). (p', s', (k, take (length (toLowerCase s) - length s') (toLowerCase s)) # c'))
        (map lower_st (re_matches r (p, s, c))) =
      map lower_st (map (\<lambda>(p', s', c'). (p', s', (k, take (length s - length s') s) # c'))
        (re_matches r (p, s, c)))"
    by (auto simp: lower_caps_def toLowerCase_take)
  with 6 show ?case by simp
qed (auto simp: at_boundary_lower)

lemma re_search_lower:
  "re_ci r \<Longrightarrow> re_search r (map_option lower_c p) (toLowerCase s) =
     map_option (\<lambda>(pre, m). (toLowerCase pre, lower_st m)) (re_search r p s)"
proof (induction s arbitrary: p)
  case Nil
  then show ?case
    using re_matches_lower [OF Nil, of "(p, [], [])"]
    by (simp add: toLowerCase_def lower_caps_def re_search_Nil split: list.splits)
next
  case (Cons x xs)
  have m: "re_matches r (map_option lower_c p, toLowerCase (x # xs), []) =
      map lower_st (re_matches r (p, x # xs, []))"
    using re_matches_lower [OF Cons.prems, of "(p, x # xs, [])"] by (simp add: lower_caps_def)
  have "toLowerCase (x # xs) = lower_c x # toLowerCase xs" by (simp add: toLowerCase_def)
  then show ?case
    using m Cons.IH [OF Cons.prems, of "Some x"]
    by (cases "re_matches r (p, x # xs, [])"; cases "re_search r (Some x) xs")
       (auto simp: re_search_Cons toLowerCase_def)
qed

lemma re_test_lower: "re_ci r \<Longrightarrow> re_test r (toLowerCase s) = re_test r s"
  using re_search_lower [of r None s] by (simp add: re_test_def split: option.splits)

lemma re_fold_lower:
  "re_ci r \<Longrightarrow> re_fold r (map_option lower_c p) (toLowerCase s) =
     (case re_fold r p s of (ms, tail) \<Rightarrow>
        (map (\<lambda>(pre, c). (toLowerCase pre, lower_caps c)) ms, toLowerCase tail))"
proof (induction r p s rule: re_fold.induct)
  case (1 r p s)
  have s: "re_search r (map_option lower_c p) (toLowerCase s) =
     map_option (\<lambda>(pre, m). (toLowerCase pre, lower_st m)) (re_search r p s)"
    by (rule re_search_lower [OF "1.prems"])
  show ?case
  proof (cases "re_search r p s")
    case None
    with s show ?thesis by (simp add: re_fold.simps [of _ p s] re_fold.simps [of _ "map_option lower_c p"])
  next
    case (Some m)
    obtain pre q rest c where m: "m = (pre, q, rest, c)" by (cases m)
    show ?thesis
    proof (cases "length rest < length s")
      case True
      from "1.IH"(1) [OF Some, of pre "(q, rest, c)" q "(rest, c)" rest c] m True "1.prems"
      have "re_fold r (map_option lower_c q) (toLowerCase rest) =
        (case re_fold r q rest of (ms, tail) \<Rightarrow>
          (map (\<lambda>(pre, c). (toLowerCase pre, lower_caps c)) ms, toLowerCase tail))" by simp
      with True Some m s show ?thesis
        by (simp add: re_fold.simps [of _ p s] re_fold.simps [of _ "map_option lower_c p"]
            split: prod.splits)
    next
      case False
      show ?thesis
      proof (cases rest)
        case Nil
        with False have "s = []" by simp
        with Nil Some m s show ?thesis
          by (simp add: toLowerCase_def re_fold.simps [of _ p "[]"]
              re_fold.simps [of _ "map_option lower_c p" "[]"])
      next
        case (Cons x xs)
        from "1.IH"(2) [OF Some, of pre "(q, rest, c)" q "(rest, c)" rest c x xs] m False Cons "1.prems"
        have "re_fold r (Some (lower_c x)) (toLowerCase xs) =
          (case re_fold r (Some x) xs of (ms, tail) \<Rightarrow>
            (map (\<lambda>(pre, c). (toLowerCase pre, lower_caps c)) ms, toLowerCase tail))" by simp
        moreover have "toLowerCase rest = lower_c x # toLowerCase xs"
          using Cons by (simp add: toLowerCase_def)
        ultimately show ?thesis
          using False Some m s Cons
          by (auto simp: re_fold.simps [of _ p s] re_fold.simps [of _ "map_option lower_c p"]
              toLowerCase_def split: prod.splits list.splits)
      qed
    qed
  qed
qed

lemma toLowerCase_concat: "toLowerCase (concat xs) = concat (map toLowerCase xs)"
  by (induction xs) (simp_all add: toLowerCase_def)

lemma re_replace_lower:
  "re_ci r \<Longrightarrow> re_replace r (toLowerCase by) (toLowerCase s) = toLowerCase (re_replace r by s)"
  using re_fold_lower [of r None s]
  by (cases "re_fold r None s") (simp add: re_replace_def toLowerCase_concat comp_def case_prod_beta)

section \<open>The patterns of the check\<close>

lemma re_ci_rlit_i [simp]: "re_ci (rlit_i w)"
  by (induction w rule: rlit_i.induct) (simp_all add: rchar_i_def)

lemma re_ci_rchar_i [simp]: "re_ci (rchar_i c)"
  by (simp add: rchar_i_def)

lemma lower_c_delims:
  "lower_c x = CHR 0x27 \<longleftrightarrow> x = CHR 0x27" "lower_c x = CHR ''-'' \<longleftrightarrow> x = CHR ''-''"
  "lower_c x = CHR ''/'' \<longleftrightarrow> x = CHR ''/''" "lower_c x = CHR ''*'' \<longleftrightarrow> x = CHR ''*''"
  "lower_c x = CHR '';'' \<longleftrightarrow> x = CHR '';''" "lower_c x = CHR 0x0A \<longleftrightarrow> x = CHR 0x0A"
  "lower_c x = CHR 0x0D \<longleftrightarrow> x = CHR 0x0D"
  by (cases x; auto simp: lower_c_code is_upper_c_code split: if_splits)+

lemma re_ci_space [simp]: "re_ci rspace"
  using is_space_lower by (simp add: rspace_def)

lemmas re_ci_defs = rseq.simps ralt.simps ropt_def rplus_def rstar_def rstar_lazy_def rany_def
  rlit.simps rchar_def

lemma re_ci_object: "re_ci DESTRUCTIVE_REGEX"
  by (simp add: DESTRUCTIVE_REGEX_def re_ci_defs del: rlit_i.simps)

lemma re_ci_heads: "re_ci re_write_head" "re_ci re_where" "re_ci re_delete_head"
  by (simp_all add: re_write_head_def re_where_def re_delete_head_def re_ci_defs del: rlit_i.simps)

lemma re_ci_bare: "re_ci re_line_comment" "re_ci re_block_comment" "re_ci re_string_literal"
  by (simp_all add: re_line_comment_def re_block_comment_def re_string_literal_def re_ci_defs
      lower_c_delims)

lemma bareSql_lower: "bareSql (toLowerCase s) = toLowerCase (bareSql s)"
proof -
  have "toLowerCase '' '' = '' ''" "toLowerCase [CHR 0x27, CHR 0x27] = [CHR 0x27, CHR 0x27]"
    by (simp_all add: toLowerCase_def lower_c_code is_upper_c_code)
  then show ?thesis
    using re_replace_lower [OF re_ci_bare(1), of "'' ''" s]
      re_replace_lower [OF re_ci_bare(2), of "'' ''"]
      re_replace_lower [OF re_ci_bare(3), of "[CHR 0x27, CHR 0x27]"]
    by (simp add: bareSql_def)
qed

lemma split_char_lower: "split_char (CHR '';'') (toLowerCase s) = map toLowerCase (split_char (CHR '';'') s)"
proof (induction s)
  case (Cons x xs)
  then show ?case
    by (cases "split_char (CHR '';'') xs") (auto simp: toLowerCase_def lower_c_delims)
qed (simp add: toLowerCase_def)

lemma unfiltered_write_lower: "unfiltered_write (map toLowerCase stmts) = unfiltered_write stmts"
  by (induction stmts) (simp_all add: js_trim_lower re_test_lower re_ci_heads Let_def)

text \<open>
  the answer of the destructive check does not depend on letter case, anywhere in
  the statement.
\<close>

theorem destructiveReason_case_insensitive:
  "destructiveReason (toLowerCase sql) = destructiveReason sql"
  by (simp add: destructiveReason_def bareSql_lower re_test_lower re_ci_object split_char_lower
      unfiltered_write_lower Let_def)

section \<open>Statements without literals and comments\<close>

definition plain_sql :: "string \<Rightarrow> bool" where
  "plain_sql s = (CHR 0x27 \<notin> set s \<and> \<not> js_includes s ''--'' \<and> \<not> js_includes s ''/*'')"

lemma re_replace_no_match: "re_search r None s = None \<Longrightarrow> re_replace r by s = s"
  by (simp add: re_replace_def re_fold.simps)

lemma re_search_none_prefix:
  "\<not> js_includes s w \<Longrightarrow> re_search (RSeq (rlit w) r) p s = None"
proof -
  assume n: "\<not> js_includes s w"
  have "re_matches (RSeq (rlit w) r) (last_opt p a, b, []) = []" if "s = a @ b" for a b
  proof -
    have "\<not> startsWith b w" using n that unfolding js_includes_iff startsWith_iff by blast
    then show ?thesis by (simp add: re_matches_rlit)
  qed
  then show ?thesis by (simp add: re_search_None_iff)
qed

lemma bareSql_plain: "plain_sql s \<Longrightarrow> bareSql s = s"
proof -
  assume p: "plain_sql s"
  have "re_search re_line_comment None s = None"
    using p re_search_none_prefix [of s "''--''"] by (simp add: plain_sql_def re_line_comment_def del: rlit.simps)
  moreover have "re_search re_block_comment None s = None"
    using p re_search_none_prefix [of s "''/*''"] by (simp add: plain_sql_def re_block_comment_def del: rlit.simps)
  moreover have "\<not> js_includes s [CHR 0x27]" using p by (auto simp: plain_sql_def js_includes_iff)
  then have "re_search re_string_literal None s = None"
    using re_search_none_prefix [of s "[CHR 0x27]"] by (simp add: re_string_literal_def)
  ultimately show ?thesis by (simp add: bareSql_def re_replace_no_match)
qed

text \<open>
  The text contains the phrase \<open>k1 k2\<close> as whole words in any case, white space between;
  it begins with it; it contains the word \<open>k\<close>.
\<close>

definition starts_at :: "string \<Rightarrow> string \<Rightarrow> string \<Rightarrow> string \<Rightarrow> bool" where
  "starts_at k1 k2 b s = (\<exists>w1 ws w2. s = w1 @ ws @ w2 @ b \<and> toLowerCase w1 = k1 \<and>
     ws \<noteq> [] \<and> (\<forall>c\<in>set ws. is_space_c c) \<and> toLowerCase w2 = k2)"

definition has_phrase :: "string \<Rightarrow> string \<Rightarrow> string \<Rightarrow> bool" where
  "has_phrase k1 k2 s = (\<exists>a b s'. s = a @ s' \<and> before_word a \<and> starts_at k1 k2 b s' \<and> ends_word b)"

definition starts_phrase :: "string \<Rightarrow> string \<Rightarrow> string \<Rightarrow> bool" where
  "starts_phrase k1 k2 s = (\<exists>b. starts_at k1 k2 b s \<and> ends_word b)"

definition starts_word :: "string \<Rightarrow> string \<Rightarrow> bool" where
  "starts_word k s = (\<exists>w b. s = w @ b \<and> toLowerCase w = k \<and> ends_word b)"

definition has_word :: "string \<Rightarrow> string \<Rightarrow> bool" where
  "has_word k s = (\<exists>a w b. s = a @ w @ b \<and> before_word a \<and> toLowerCase w = k \<and> ends_word b)"

definition object_phrases :: "(string \<times> string) list" where
  "object_phrases = [(''drop'', ''database''), (''drop'', ''schema''), (''drop'', ''table''),
     (''truncate'', ''table''), (''truncate'', ''tabl''), (''drop'', ''role''), (''grant'', ''all'')]"

lemma starts_at_split: "starts_at k1 k2 b s \<longleftrightarrow> (\<exists>w. s = w @ b \<and> starts_at k1 k2 [] w)"
proof
  assume "starts_at k1 k2 b s"
  then obtain w1 ws w2 where h: "s = w1 @ ws @ w2 @ b" "toLowerCase w1 = k1" "ws \<noteq> []"
    "\<forall>c\<in>set ws. is_space_c c" "toLowerCase w2 = k2" unfolding starts_at_def by blast
  then have "s = (w1 @ ws @ w2) @ b" by simp
  moreover have "starts_at k1 k2 [] (w1 @ ws @ w2)"
    unfolding starts_at_def using h(2-5) by (intro exI conjI) simp_all
  ultimately show "\<exists>w. s = w @ b \<and> starts_at k1 k2 [] w" by blast
next
  assume "\<exists>w. s = w @ b \<and> starts_at k1 k2 [] w"
  then obtain w1 ws w2 where h: "s = (w1 @ ws @ w2 @ []) @ b" "toLowerCase w1 = k1" "ws \<noteq> []"
    "\<forall>c\<in>set ws. is_space_c c" "toLowerCase w2 = k2" unfolding starts_at_def by blast
  then have "s = w1 @ ws @ w2 @ b" by simp
  with h(2-5) show "starts_at k1 k2 b s" unfolding starts_at_def by blast
qed

lemma ex_split3:
  "(\<exists>u v. w = u @ v \<and> A u \<and> (\<exists>u' v'. v = u' @ v' \<and> B u' \<and> C v')) \<longleftrightarrow>
   (\<exists>u u' v'. w = u @ u' @ v' \<and> A u \<and> B u' \<and> C v')"
  by auto

lemma spans_phrase:
  assumes "spans r Q"
  shows "spans (RSeq (rlit_i k) (RSeq (rplus rspace) r))
     (\<lambda>w. \<exists>w1 ws w2. w = w1 @ ws @ w2 \<and> toLowerCase w1 = toLowerCase k \<and>
        (ws \<noteq> [] \<and> (\<forall>c\<in>set ws. is_space_c c)) \<and> Q w2)"
  using spans_seq [OF spans_lit_i spans_seq [OF spans_plus_cls assms], of k is_space_c]
  unfolding rspace_def ex_split3 .

definition phrase_at :: "string \<Rightarrow> bool" where
  "phrase_at w = (\<exists>k\<in>set object_phrases. starts_at (fst k) (snd k) [] w)"

lemma lower_keys:
  "toLowerCase ''DROP'' = ''drop''" "toLowerCase ''TRUNCATE'' = ''truncate''" "toLowerCase ''GRANT'' = ''grant''"
  "toLowerCase ''DATABASE'' = ''database''" "toLowerCase ''SCHEMA'' = ''schema''"
  "toLowerCase ''TABLE'' = ''table''" "toLowerCase ''TABL'' = ''tabl''" "toLowerCase ''ROLE'' = ''role''"
  "toLowerCase ''ALL'' = ''all''" "toLowerCase ''E'' = ''e''" "toLowerCase ''delete'' = ''delete''"
  "toLowerCase ''from'' = ''from''" "toLowerCase ''update'' = ''update''" "toLowerCase ''where'' = ''where''"
  by code_simp+

lemma rchar_i_lit: "rchar_i c = rlit_i [c]"
  by simp

lemma lower_append_split: "toLowerCase w = a @ b \<longleftrightarrow> (\<exists>u v. w = u @ v \<and> toLowerCase u = a \<and> toLowerCase v = b)"
  unfolding toLowerCase_def by (auto simp: map_eq_append_conv)

lemma spans_table:
  "spans (RSeq (rlit_i ''TABL'') (ropt (rchar_i (CHR ''E''))))
     (\<lambda>w. toLowerCase w = ''table'' \<or> toLowerCase w = ''tabl'')"
proof (rule spans_cong)
  show "spans (RSeq (rlit_i ''TABL'') (ropt (rchar_i (CHR ''E''))))
     (\<lambda>w. \<exists>u v. w = u @ v \<and> toLowerCase u = ''tabl'' \<and> (toLowerCase v = ''e'' \<or> v = []))"
    unfolding rchar_i_lit lower_keys [symmetric]
    by (intro spans_seq spans_opt spans_lit_i)
next
  fix w
  show "(\<exists>u v. w = u @ v \<and> toLowerCase u = ''tabl'' \<and> (toLowerCase v = ''e'' \<or> v = [])) =
      (toLowerCase w = ''table'' \<or> toLowerCase w = ''tabl'')"
    using lower_append_split [of w "''tabl''" "''e''"] by auto
qed

definition object_re :: re where
  "object_re = RAlt
     (RSeq (rlit_i ''DROP'') (RSeq (rplus rspace)
        (RCap 2 (RAlt (rlit_i ''DATABASE'') (RAlt (rlit_i ''SCHEMA'') (rlit_i ''TABLE''))))))
     (RAlt (RSeq (rlit_i ''TRUNCATE'') (RSeq (rplus rspace) (RSeq (rlit_i ''TABL'') (ropt (rchar_i (CHR ''E''))))))
     (RAlt (RSeq (rlit_i ''DROP'') (RSeq (rplus rspace) (rlit_i ''ROLE'')))
        (RSeq (rlit_i ''GRANT'') (RSeq (rplus rspace) (rlit_i ''ALL'')))))"

lemma spans_object: "spans object_re phrase_at"
  unfolding object_re_def
  by (rule spans_cong [OF spans_alt [OF spans_phrase [OF spans_cap [OF spans_alt
        [OF spans_lit_i spans_alt [OF spans_lit_i spans_lit_i]]]]
      spans_alt [OF spans_phrase [OF spans_table] spans_alt
        [OF spans_phrase [OF spans_lit_i] spans_phrase [OF spans_lit_i]]]]])
     (simp add: phrase_at_def object_phrases_def starts_at_def lower_keys ex_disj_distrib
        conj_disj_distribL disj_assoc conj_assoc)

lemma words_lower: "is_words w \<longleftrightarrow> is_words (toLowerCase w)"
  by (cases "w = []") (simp_all add: is_words_def toLowerCase_def hd_map last_map is_word_lower)

lemma is_words_phrase:
  assumes "starts_at k1 k2 [] w" "is_words k1" "is_words k2"
  shows "is_words w"
proof -
  obtain w1 ws w2 where w: "w = w1 @ ws @ w2" "toLowerCase w1 = k1" "toLowerCase w2 = k2"
    using assms(1) unfolding starts_at_def by auto
  then have "is_words w1" "is_words w2" using assms(2,3) words_lower by auto
  then show ?thesis using w(1) by (auto simp: is_words_def)
qed

lemma phrase_at_words: "phrase_at w \<Longrightarrow> is_words w"
proof -
  assume "phrase_at w"
  then obtain k where "k \<in> set object_phrases" "starts_at (fst k) (snd k) [] w"
    unfolding phrase_at_def by blast
  moreover from this(1) have "is_words (fst k) \<and> is_words (snd k)"
    by (auto simp: object_phrases_def is_words_def is_word_c_code)
  ultimately show ?thesis using is_words_phrase by blast
qed

lemma object_test:
  "re_test DESTRUCTIVE_REGEX s \<longleftrightarrow> (\<exists>k\<in>set object_phrases. has_phrase (fst k) (snd k) s)"
proof -
  have R: "DESTRUCTIVE_REGEX = RSeq RWordB (RSeq (RCap 1 object_re) RWordB)"
    unfolding DESTRUCTIVE_REGEX_def object_re_def rseq.simps ralt.simps ..
  have "re_test DESTRUCTIVE_REGEX s \<longleftrightarrow>
      (\<exists>a w b. s = a @ w @ b \<and> before_word a \<and> phrase_at w \<and> ends_word b)"
    unfolding R by (rule bounded_test [OF spans_cap [OF spans_object] phrase_at_words])
  also have "\<dots> \<longleftrightarrow> (\<exists>k\<in>set object_phrases. has_phrase (fst k) (snd k) s)"
  proof
    assume "\<exists>a w b. s = a @ w @ b \<and> before_word a \<and> phrase_at w \<and> ends_word b"
    then obtain a w b k where "s = a @ w @ b" "before_word a" "k \<in> set object_phrases"
      "starts_at (fst k) (snd k) [] w" "ends_word b" unfolding phrase_at_def by blast
    moreover from this(4) have "starts_at (fst k) (snd k) b (w @ b)" using starts_at_split by blast
    ultimately show "\<exists>k\<in>set object_phrases. has_phrase (fst k) (snd k) s"
      unfolding has_phrase_def by blast
  next
    assume "\<exists>k\<in>set object_phrases. has_phrase (fst k) (snd k) s"
    then obtain k a b t where k: "k \<in> set object_phrases" "s = a @ t" "before_word a"
      "starts_at (fst k) (snd k) b t" "ends_word b" unfolding has_phrase_def by blast
    then obtain w where "t = w @ b" "starts_at (fst k) (snd k) [] w" using starts_at_split by blast
    with k show "\<exists>a w b. s = a @ w @ b \<and> before_word a \<and> phrase_at w \<and> ends_word b"
      unfolding phrase_at_def by blast
  qed
  finally show ?thesis .
qed

lemma where_test: "re_test re_where s \<longleftrightarrow> has_word ''where'' s"
proof -
  have w: "is_words w" if "toLowerCase w = toLowerCase ''where''" for w
  proof -
    have "is_words (toLowerCase w)" unfolding that lower_keys by (simp add: is_words_def is_word_c_code)
    then show ?thesis unfolding words_lower [of w] .
  qed
  show ?thesis
    unfolding re_where_def rseq.simps has_word_def
    using bounded_test [OF spans_lit_i w] by (simp only: lower_keys)
qed

definition starts_write :: "string \<Rightarrow> bool" where
  "starts_write s = (starts_phrase ''delete'' ''from'' s \<or> starts_word ''update'' s)"

lemma write_head_test: "re_test re_write_head s \<longleftrightarrow> starts_write s"
proof -
  let ?Q = "\<lambda>w. starts_at ''delete'' ''from'' [] w \<or> toLowerCase w = ''update''"
  have "spans (RCap 1 (RAlt (RSeq (rlit_i ''delete'') (RSeq (rplus rspace) (rlit_i ''from''))) (rlit_i ''update''))) ?Q"
    by (rule spans_cong [OF spans_cap [OF spans_alt [OF spans_phrase [OF spans_lit_i] spans_lit_i]]])
       (simp add: starts_at_def lower_keys)
  moreover have "is_words w" if "?Q w" for w
  proof -
    have k: "is_words ''delete''" "is_words ''from''" "is_words ''update''"
      by (simp_all add: is_words_def is_word_c_code)
    from that show ?thesis
    proof
      assume "starts_at ''delete'' ''from'' [] w"
      then show ?thesis using is_words_phrase k(1,2) by blast
    next
      assume "toLowerCase w = ''update''"
      with k(3) show ?thesis using words_lower [of w] by simp
    qed
  qed
  ultimately have "re_test re_write_head s \<longleftrightarrow> (\<exists>w b. s = w @ b \<and> ?Q w \<and> ends_word b)"
    unfolding re_write_head_def rseq.simps ralt.simps by (rule start_test)
  then show ?thesis
    unfolding starts_write_def starts_phrase_def starts_word_def
    using starts_at_split [of "''delete''" "''from''" _ s] by blast
qed

lemma unfiltered_write_iff:
  "unfiltered_write stmts \<noteq> None \<longleftrightarrow>
     (\<exists>s\<in>set stmts. starts_write (js_trim s) \<and> \<not> has_word ''where'' (js_trim s))"
  by (induction stmts) (auto simp: Let_def write_head_test where_test)



section \<open>What gets past it\<close>

lemma fold_prefix_skip:
  "re_matches r (p, x # xs, []) = [] \<Longrightarrow> re_search r p (x # xs) =
     map_option (\<lambda>(pre, m). (x # pre, m)) (re_search r (Some x) xs)"
  by (simp add: re_search_Cons)

text \<open>
  two dashes inside a string literal hide the rest of the line from the check: after
  \<open>SELECT '--'\<close> any text without a line break runs unconfirmed, a DROP included.
\<close>

theorem destructiveReason_dashes_in_literal:
  assumes "CHR 0x0A \<notin> set rest" "CHR 0x0D \<notin> set rest"
  shows "destructiveReason (''SELECT '' @ [CHR 0x27] @ ''--'' @ [CHR 0x27] @ rest) = None"
proof -
  let ?tail = "[CHR 0x27] @ rest"
  let ?P = "\<lambda>c. c \<noteq> CHR 0x0D \<and> c \<noteq> CHR 0x0A"
  have all: "\<forall>c\<in>set ?tail. ?P c" using assms by auto
  have tw: "takeWhile ?P ?tail = ?tail" "dropWhile ?P ?tail = []"
    using all by (auto simp only: takeWhile_eq_all_conv dropWhile_eq_Nil_conv)
  obtain ms where "re_matches (rstar (RCls ?P)) (Some (CHR ''-''), ?tail, []) =
      (last_opt (Some (CHR ''-'')) ?tail, [], []) # ms"
    using star_cls_first [of ?P "Some (CHR ''-'')" ?tail "[]"] unfolding rstar_def tw by blast
  then have here: "re_matches re_line_comment (p, ''--'' @ ?tail, []) =
      (last_opt (Some (CHR ''-'')) ?tail, [], []) # ms" for p
    by (simp add: re_line_comment_def re_matches_rlit last_opt_def rchar_def)
  have no: "re_matches re_line_comment (p, c # s, []) = []" if "c \<noteq> CHR ''-''" for p c s
    using that by (simp add: re_line_comment_def re_matches_rlit rchar_def)
  have "re_search re_line_comment None (''SELECT '' @ [CHR 0x27] @ ''--'' @ ?tail) =
      Some (''SELECT '' @ [CHR 0x27], last_opt (Some (CHR ''-'')) ?tail, [], [])"
    using here by (simp add: fold_prefix_skip no re_search_Cons [of _ _ "CHR ''-''"])
  then have fold: "re_fold re_line_comment None (''SELECT '' @ [CHR 0x27] @ ''--'' @ ?tail) =
      ([(''SELECT '' @ [CHR 0x27], [])], [])"
    by (subst re_fold.simps) (simp add: re_fold.simps [of _ _ "[]"] re_search_Nil re_line_comment_def
        re_matches_rlit rchar_def)
  have "re_replace re_line_comment '' '' (''SELECT '' @ [CHR 0x27] @ ''--'' @ ?tail) = ''SELECT '' @ [CHR 0x27] @ '' ''"
    unfolding re_replace_def fold by simp
  then have "destructiveReason (''SELECT '' @ [CHR 0x27] @ ''--'' @ ?tail) =
      (let clean = re_replace re_string_literal [CHR 0x27, CHR 0x27]
          (re_replace re_block_comment '' '' (''SELECT '' @ [CHR 0x27] @ '' ''))
       in if re_test DESTRUCTIVE_REGEX clean then Some REASON_OBJECT
          else unfiltered_write (split_char (CHR '';'') clean))"
    by (simp add: destructiveReason_def bareSql_def)
  also have "\<dots> = None" by code_simp
  finally show ?thesis by simp
qed

lemma destructiveReason_dashes_in_literal_witness:
  "destructiveReason (''SELECT '' @ [CHR 0x27] @ ''--'' @ [CHR 0x27] @ ''; DROP TABLE users'') = None \<and>
   destructiveReason ''DROP TABLE users'' = Some REASON_OBJECT"
proof
  show "destructiveReason (''SELECT '' @ [CHR 0x27] @ ''--'' @ [CHR 0x27] @ ''; DROP TABLE users'') = None"
    by (rule destructiveReason_dashes_in_literal) simp_all
  show "destructiveReason ''DROP TABLE users'' = Some REASON_OBJECT" by code_simp
qed

text \<open>
  TRUNCATE without the optional word TABLE, which empties a table just the same, is
  not confirmed; the pattern makes the last letter of TABLE optional, not the word.
\<close>

theorem destructiveReason_truncate:
  "destructiveReason ''TRUNCATE users'' = None \<and>
   destructiveReason ''TRUNCATE TABLE users'' = Some REASON_OBJECT \<and>
   destructiveReason ''TRUNCATE TABL users'' = Some REASON_OBJECT"
  by code_simp

end
