(* ===== verification/Columns.thy ===== *)
theory Columns
  imports SqlCheck
begin

text \<open>
  \<open>src/src/columns.js\<close>: from column metadata to the editor widget of a cell, the text an
  input shows for a server value, the equality that decides whether an edit changed
  anything, and the per-session cache of a table's primary key. A request to the helper
  process is an argument: the function from a table to the columns it would answer.
\<close>

section \<open>Labels\<close>

definition or_text :: "string \<Rightarrow> string \<Rightarrow> string" where
  "or_text a b = (if a \<noteq> [] then a else b)"

definition shortTypeLabel :: "col_info option \<Rightarrow> string" where
  "shortTypeLabel meta = (case meta of None \<Rightarrow> [] | Some m \<Rightarrow>
     toLowerCase (or_text (ci_full_type m) (ci_data_type m)))"

definition mid_dot :: string where
  "mid_dot = [CHR '' '', CHR 0xB7, CHR '' '']"

definition columnHeaderTooltip :: "string \<Rightarrow> col_info option \<Rightarrow> string" where
  "columnHeaderTooltip col meta = (case meta of
       None \<Rightarrow> col @ '': click to sort''
     | Some m \<Rightarrow>
        (let type = or_text (ci_full_type m) (ci_data_type m);
             bits = (if type \<noteq> [] then [type] else []) @
                    (if ci_is_primary m then [''PRIMARY KEY''] else []) @
                    [if \<not> ci_nullable m then ''NOT NULL'' else ''nullable''] @
                    (if ci_auto_increment m then [''auto-increment''] else []) @
                    (if \<not> is_nullish (ci_default m) \<and> ci_default m \<noteq> VStr []
                     then [''default '' @ js_String (ci_default m)] else [])
         in col @ mid_dot @ js_join mid_dot bits))"

section \<open>The widget of a column\<close>

datatype col_type =
    TText | TBoolean | TDate | TTime | TDatetime | TInteger | TNumber | TJson | TBytes
  | TEnum "string list"

definition re_tinyint1 :: re where
  "re_tinyint1 = rseq [RWordB, rlit ''tinyint(1)'']"

definition not_eol :: "char \<Rightarrow> bool" where
  "not_eol c = (c \<noteq> CHR 0x0A \<and> c \<noteq> CHR 0x0D)"

definition re_enum :: re where
  "re_enum = rseq [RBol, rlit ''enum('', RCap 1 (rplus (RCls not_eol)), rchar (CHR '')''), REol]"

definition re_enum_option :: re where
  "re_enum_option = rseq [rchar (CHR 0x27),
     RCap 1 (rstar (RAlt (RCls (\<lambda>c. c \<noteq> CHR 0x27)) (rlit [CHR 0x27, CHR 0x27]))), rchar (CHR 0x27)]"

definition enum_options :: "string \<Rightarrow> string list" where
  "enum_options spec = map (\<lambda>c. re_replace (rlit [CHR 0x27, CHR 0x27]) [CHR 0x27]
       (case cap c 1 of Some w \<Rightarrow> w | None \<Rightarrow> []))
     (re_find_all re_enum_option spec)"

definition re_integer :: re where
  "re_integer = rseq [RBol, ralt [rlit ''smallint'', rlit ''mediumint'', rlit ''int'', rlit ''integer'',
     rlit ''bigint'', rlit ''tinyint'', rlit ''int2'', rlit ''int4'', rlit ''int8'', rlit ''serial'',
     rlit ''smallserial'', rlit ''bigserial'', rlit ''year''], REol]"

definition re_number :: re where
  "re_number = rseq [RBol, ralt [rlit ''float'', rlit ''double'', rlit ''real'', rlit ''float4'',
     rlit ''float8'', rlit ''decimal'', rlit ''numeric'', rlit ''money''], REol]"

definition re_bytes :: re where
  "re_bytes = ralt [rlit ''binary'', rlit ''blob'', rlit ''bytea'']"

definition classifyColumnType :: "col_info option \<Rightarrow> col_type" where
  "classifyColumnType colInfo =
     (let dt = (case colInfo of None \<Rightarrow> [] | Some m \<Rightarrow> toLowerCase (ci_data_type m));
          ft = (case colInfo of None \<Rightarrow> [] | Some m \<Rightarrow> toLowerCase (ci_full_type m));
          opts = (if dt = ''enum'' then
              (case re_exec re_enum ft of
                 None \<Rightarrow> []
               | Some m \<Rightarrow> enum_options (case cap m 1 of Some w \<Rightarrow> w | None \<Rightarrow> []))
            else [])
      in if dt = [] \<and> ft = [] then TText
         else if dt = ''bool'' \<or> dt = ''boolean'' then TBoolean
         else if dt = ''tinyint'' \<and> re_test re_tinyint1 ft then TBoolean
         else if opts \<noteq> [] then TEnum opts
         else if dt = ''date'' then TDate
         else if dt = ''time'' \<or> dt = ''timetz'' \<or> startsWith dt ''time without'' then TTime
         else if dt = ''datetime'' \<or> dt = ''timestamp'' \<or> dt = ''timestamptz'' \<or> startsWith dt ''timestamp ''
           then TDatetime
         else if re_test re_integer dt then TInteger
         else if re_test re_number dt then TNumber
         else if re_test (rlit ''json'') dt then TJson
         else if re_test re_bytes dt then TBytes
         else TText)"

definition isBytesCell :: "jsval \<Rightarrow> bool" where
  "isBytesCell v = (truthy v \<and> is_object_type v \<and> is_marker v)"

section \<open>Input values\<close>

definition re_hms :: re where
  "re_hms = RCap 1 (rseq [rrep 2 rdigit, rchar (CHR '':''), rrep 2 rdigit, rchar (CHR '':''), rrep 2 rdigit])"

definition re_zulu :: re where
  "re_zulu = rseq [RCls (\<lambda>c. c = CHR ''z'' \<or> c = CHR ''Z''), REol]"

definition re_offset :: re where
  "re_offset = rseq [RCls (\<lambda>c. c = CHR ''+'' \<or> c = CHR ''-''), rrep 2 rdigit,
     ropt (rchar (CHR '':'')), rrep 2 rdigit, REol]"

definition isoToInputValue :: "col_type \<Rightarrow> jsval \<Rightarrow> string" where
  "isoToInputValue kind v =
     (if is_nullish v then []
      else let s = js_String v in
        if kind = TDate then slice s 0 10
        else if kind = TTime then
          (case re_exec re_hms s of
             Some m \<Rightarrow> (case cap m 1 of Some w \<Rightarrow> w | None \<Rightarrow> s)
           | None \<Rightarrow> s)
        else let t = re_replace1 re_offset [] (re_replace1 re_zulu [] s) in
          if js_includes t ''T'' then t else re_replace1 (rchar (CHR '' '')) ''T'' t)"

text \<open>The empty field is NULL.\<close>

definition inputValueToIso :: "string \<Rightarrow> jsval" where
  "inputValueToIso v = (if v = [] then VNull else VStr v)"

section \<open>Equality of cell values\<close>

fun isBoolish :: "jsval \<Rightarrow> bool" where
  "isBoolish (VBool b) = True"
| "isBoolish (VNum n) = (n = NInt 0 \<or> n = NInt 1)"
| "isBoolish (VStr s) = (s = ''0'' \<or> s = ''1'')"
| "isBoolish v = False"

definition bool_value :: "jsval \<Rightarrow> bool" where
  "bool_value v = (v = VBool True \<or> v = VNum (NInt 1) \<or> v = VStr ''1'')"

definition deepEqual :: "jsval \<Rightarrow> jsval \<Rightarrow> bool" where
  "deepEqual a b =
     (if strict_eq a b then True
      else if is_nullish a \<or> is_nullish b then False
      else if isBoolish a \<and> isBoolish b then bool_value a = bool_value b
      else if js_typeof a \<noteq> js_typeof b then False
      else if js_typeof a = ''object'' then json_text a = json_text b
      else False)"

lemma strict_eq_eq: "strict_eq a b \<Longrightarrow> a = b"
  by (induction a b rule: strict_eq.induct) auto

lemma strict_eq_refl: "strict_eq a a \<longleftrightarrow> a \<noteq> VNum NaN \<and> \<not> is_object_type a"
  by (cases a) auto

lemma typeof_object: "js_typeof a = ''object'' \<longleftrightarrow> a = VNull \<or> is_object_type a"
  by (cases a) auto

lemma boolish_not_object: "isBoolish a \<Longrightarrow> \<not> is_object_type a \<and> \<not> is_nullish a \<and> a \<noteq> VNum NaN"
  by (cases a) auto

text \<open>The relation, by kind of value.\<close>

lemma deepEqual_iff:
  "deepEqual a b \<longleftrightarrow>
     (isBoolish a \<and> isBoolish b \<and> bool_value a = bool_value b) \<or>
     (is_object_type a \<and> is_object_type b \<and> json_text a = json_text b) \<or>
     (a = b \<and> a \<noteq> VNum NaN)"
proof (cases "strict_eq a b")
  case True
  then have "a = b" by (rule strict_eq_eq)
  with True strict_eq_refl [of a] show ?thesis by (simp add: deepEqual_def)
next
  case False
  then show ?thesis
    by (cases a; cases b) (auto simp: deepEqual_def bool_value_def split: if_splits)
qed

text \<open>
  the equality that decides whether an edit changed a cell is an equivalence on all
  values a cell can carry (a NaN, which equals nothing, aside), and it identifies the
  spellings of a boolean and nothing else among numbers, strings and booleans.
\<close>

theorem deepEqual_equivalence:
  "(deepEqual a a \<longleftrightarrow> a \<noteq> VNum NaN) \<and>
   deepEqual a b = deepEqual b a \<and>
   (deepEqual a b \<and> deepEqual b c \<longrightarrow> deepEqual a c) \<and>
   (\<not> is_object_type a \<longrightarrow>
     (deepEqual a b \<longleftrightarrow> a = b \<and> a \<noteq> VNum NaN \<or>
        isBoolish a \<and> isBoolish b \<and> bool_value a = bool_value b))"
  using boolish_not_object [of a] boolish_not_object [of b] boolish_not_object [of c]
  unfolding deepEqual_iff
  by (auto)

lemma deepEqual_equivalence_witness:
  "deepEqual (VNum (NInt 1)) (VStr ''1'') \<and> deepEqual (VStr ''1'') (VBool True) \<and>
   deepEqual (VNum (NInt 1)) (VBool True) \<and> \<not> deepEqual (VNum (NInt 2)) (VStr ''2'')"
  using deepEqual_equivalence [of "VNum (NInt 1)" "VStr ''1''" "VBool True"]
    deepEqual_equivalence [of "VNum (NInt 2)" "VStr ''2''" "VNull"]
  by (simp add: deepEqual_iff bool_value_def)

section \<open>The option list of an enum\<close>

abbreviation option_body :: re where
  "option_body \<equiv> RAlt (RCls (\<lambda>c. c \<noteq> CHR 0x27)) (rlit [CHR 0x27, CHR 0x27])"

lemma option_body_step:
  "re_matches option_body (p, c # s, cs) =
     (if c \<noteq> CHR 0x27 then [(Some c, s, cs)]
      else (case s of [] \<Rightarrow> [] | d # s' \<Rightarrow> if d = CHR 0x27 then [(Some d, s', cs)] else []))"
  by (auto simp: rchar_def split: list.splits)

lemma option_star_first:
  "not_at (CHR 0x27) r \<Longrightarrow> \<exists>q ms. re_matches (RStar True option_body)
     (p, double_c (CHR 0x27) w @ CHR 0x27 # r, cs) = (q, CHR 0x27 # r, cs) # ms"
proof (induction w arbitrary: p)
  case Nil
  then have "re_matches option_body (p, CHR 0x27 # r, cs) = []"
    by (cases r) (auto simp: not_at_def rchar_def)
  then show ?case
    by (subst re_matches.simps(5))
       (simp only: double_c_simps append_Nil list.map concat.simps Let_def if_True, blast)
next
  case (Cons c w)
  let ?rest = "double_c (CHR 0x27) w @ CHR 0x27 # r"
  have step: "re_matches option_body (p, double_c (CHR 0x27) (c # w) @ CHR 0x27 # r, cs) = [(Some c, ?rest, cs)]"
    by (auto simp: rchar_def)
  obtain q ms where "re_matches (RStar True option_body) (Some c, ?rest, cs) = (q, CHR 0x27 # r, cs) # ms"
    using Cons.IH [OF Cons.prems, of "Some c"] by blast
  moreover have "length ?rest < length (double_c (CHR 0x27) (c # w) @ CHR 0x27 # r)" by simp
  ultimately show ?case
    by (subst re_matches.simps(5)) (simp only: step list.map concat.simps append_Nil2 st_rest.simps if_True Let_def append_Cons, blast)
qed

lemma option_first:
  assumes "not_at (CHR 0x27) r"
  shows "\<exists>q ms. re_matches re_enum_option (p, quote_with (CHR 0x27) w @ r, []) =
     (q, r, [(1, double_c (CHR 0x27) w)]) # ms"
proof -
  obtain q ms where m: "re_matches (RStar True option_body)
      (Some (CHR 0x27), double_c (CHR 0x27) w @ CHR 0x27 # r, []) = (q, CHR 0x27 # r, []) # ms"
    using option_star_first [OF assms] by blast
  show ?thesis
    using m by (simp add: re_enum_option_def quote_with_def rchar_def rstar_def)
qed

lemma option_search:
  assumes "not_at (CHR 0x27) r"
  shows "\<exists>q. re_search re_enum_option p (quote_with (CHR 0x27) w @ r) =
     Some ([], q, r, [(1, double_c (CHR 0x27) w)])"
  using option_first [OF assms, of p w]
  by (auto simp: quote_with_def re_search_Cons)

lemma option_search_comma:
  "re_search re_enum_option p (CHR '','' # s) =
     map_option (\<lambda>(pre, m). (CHR '','' # pre, m)) (re_search re_enum_option (Some (CHR '','')) s)"
  by (simp add: re_search_Cons re_enum_option_def rchar_def)

lemma option_fold:
  "ws \<noteq> [] \<Longrightarrow> \<exists>ms tail. re_fold re_enum_option p (sep @ js_join '','' (map (quote_with (CHR 0x27)) ws)) = (ms, tail) \<and>
     map snd ms = map (\<lambda>w. [(1, double_c (CHR 0x27) w)]) ws" if "sep \<in> {[], '',''}" for sep
  using that
proof (induction ws arbitrary: p sep rule: induct_list012)
  case (2 w)
  have "\<exists>pre q. re_search re_enum_option p (sep @ quote_with (CHR 0x27) w) = Some (pre, q, [], [(1, double_c (CHR 0x27) w)])"
    using "2.prems"(2) option_search [of "[]" p w]
      option_search [of "[]" "Some (CHR '','')" w] by (auto simp: not_at_def option_search_comma)
  then obtain pre q where s: "re_search re_enum_option p (sep @ quote_with (CHR 0x27) w) = Some (pre, q, [], [(1, double_c (CHR 0x27) w)])" by blast
  have n: "re_fold re_enum_option q [] = ([], [])"
    by (simp add: re_fold.simps re_search_Nil re_enum_option_def rchar_def)
  from s n show ?case by (subst re_fold.simps) (simp add: quote_with_def)
next
  case (3 w v ws)
  let ?r = "'','' @ js_join '','' (map (quote_with (CHR 0x27)) (v # ws))"
  have eq: "sep @ js_join '','' (map (quote_with (CHR 0x27)) (w # v # ws)) = sep @ quote_with (CHR 0x27) w @ ?r" by simp
  have "\<exists>pre q. re_search re_enum_option p (sep @ quote_with (CHR 0x27) w @ ?r) = Some (pre, q, ?r, [(1, double_c (CHR 0x27) w)])"
    using "3.prems"(2) option_search [of ?r p w]
      option_search [of ?r "Some (CHR '','')" w] by (auto simp: not_at_def option_search_comma)
  then obtain pre q where s: "re_search re_enum_option p (sep @ quote_with (CHR 0x27) w @ ?r) = Some (pre, q, ?r, [(1, double_c (CHR 0x27) w)])" by blast
  obtain ms tail where f: "re_fold re_enum_option q ?r = (ms, tail)"
    "map snd ms = map (\<lambda>w. [(1, double_c (CHR 0x27) w)]) (v # ws)"
    using "3.IH"(2) [of "'',''" q] by blast
  have len: "length ?r < length (sep @ quote_with (CHR 0x27) w @ ?r)" by (simp add: quote_with_def)
  show ?case unfolding eq
    by (subst re_fold.simps) (simp only: s option.case prod.case len if_True f(1) Let_def, simp add: f(2))
qed simp

abbreviation quote_pair :: re where
  "quote_pair \<equiv> rlit [CHR 0x27, CHR 0x27]"

lemma re_search_lit: "re_search (rlit w) p s = Some (pre, q, rest, c) \<Longrightarrow> s = pre @ w @ rest"
proof (induction s arbitrary: p pre)
  case Nil
  then show ?case
    by (auto simp: re_search_Nil re_matches_rlit startsWith_take split: if_splits)
next
  case (Cons x xs)
  from Cons.prems show ?case
  proof (cases rule: re_search_cases)
    case (here ms)
    then show ?thesis
      by (auto simp: re_matches_rlit startsWith_take split: if_splits) (metis append_take_drop_id)
  next
    case (later y ys pre')
    with Cons.IH show ?thesis by auto
  qed
qed

lemma undouble_fold:
  "\<exists>ms tail. re_fold quote_pair p (double_c (CHR 0x27) w) = (ms, tail) \<and>
     concat (map (\<lambda>(pre, c). pre @ [CHR 0x27]) ms) @ tail = w"
proof (induction w arbitrary: p)
  case Nil
  then show ?case by (simp add: re_fold.simps re_search_Nil rchar_def)
next
  case (Cons c w)
  show ?case
  proof (cases "c = CHR 0x27")
    case True
    then show ?thesis
      using Cons [of "Some (CHR 0x27)"]
      by (subst re_fold.simps) (auto simp: re_search_Cons rchar_def)
  next
    case False
    obtain ms tail where f: "re_fold quote_pair (Some c) (double_c (CHR 0x27) w) = (ms, tail)"
      and e: "concat (map (\<lambda>(pre, c). pre @ [CHR 0x27]) ms) @ tail = w" using Cons by blast
    have s: "re_search quote_pair p (c # double_c (CHR 0x27) w) =
        map_option (\<lambda>(pre, m). (c # pre, m)) (re_search quote_pair (Some c) (double_c (CHR 0x27) w))"
      using False by (simp add: re_search_Cons rchar_def)
    show ?thesis
    proof (cases "re_search quote_pair (Some c) (double_c (CHR 0x27) w)")
      case None
      with f have "ms = []" "tail = double_c (CHR 0x27) w" by (simp_all add: re_fold.simps)
      with e False None s show ?thesis by (simp add: re_fold.simps)
    next
      case (Some m)
      obtain pre q rest cs where m: "m = (pre, q, rest, cs)" by (cases m)
      with Some re_search_lit [of "[CHR 0x27, CHR 0x27]" "Some c"]
      have lt: "length rest < length (double_c (CHR 0x27) w)" by fastforce
      obtain ms' tail' where g: "re_fold quote_pair q rest = (ms', tail')" by fastforce
      from f Some m lt g have "ms = (pre, cs) # ms'" "tail = tail'"
        by (simp_all add: re_fold.simps [of _ "Some c"])
      with e False s Some m lt g show ?thesis by (simp add: re_fold.simps [of _ p])
    qed
  qed
qed

lemma undouble: "re_replace quote_pair [CHR 0x27] (double_c (CHR 0x27) w) = w"
  using undouble_fold [of None w] by (auto simp: re_replace_def)

lemma enum_options_list:
  "ws \<noteq> [] \<Longrightarrow> enum_options (js_join '','' (map (quote_with (CHR 0x27)) ws)) = ws"
proof -
  assume "ws \<noteq> []"
  then obtain ms tail where "re_fold re_enum_option None ([] @ js_join '','' (map (quote_with (CHR 0x27)) ws)) = (ms, tail)"
    "map snd ms = map (\<lambda>w. [(1, double_c (CHR 0x27) w)]) ws"
    using option_fold [of "[]" ws None] by blast
  then show ?thesis
    by (simp add: enum_options_def re_find_all_def cap_def comp_def undouble del: rlit.simps)
qed

text \<open>The specification between the outer parentheses.\<close>

lemma enum_body:
  assumes "body \<noteq> []" "\<forall>c\<in>set body. not_eol c"
  shows "re_exec re_enum (''enum('' @ body @ '')'') = Some [(1, body)]"
proof -
  let ?inner = "RCap 1 (rplus (RCls not_eol))"
  let ?tailre = "RSeq (rchar (CHR '')'')) REol"
  let ?st = "(Some (CHR ''(''), body @ '')'', [])"
  have R: "re_matches re_enum (None, ''enum('' @ body @ '')'', []) = concat (map (re_matches ?tailre) (re_matches ?inner ?st))"
    by (simp add: re_enum_def rchar_def)
  have caps: "c = [(1, body)]"
    if "(p, s, c) \<in> set (concat (map (re_matches ?tailre) (re_matches ?inner ?st)))" for p s c
  proof -
    from that obtain x where x: "x \<in> set (re_matches ?inner ?st)" "(p, s, c) \<in> set (re_matches ?tailre x)"
      by (simp only: set_concat set_map UN_iff image_iff) blast
    obtain p1 s1 c1 where "x = (p1, s1, c1)" by (cases x)
    with x have 1: "(p1, s1, c1) \<in> set (re_matches ?inner ?st)"
      and 2: "(p, s, c) \<in> set (re_matches ?tailre (p1, s1, c1))" by blast+
    from 2 have s1: "s1 = '')''" "c = c1" by (auto simp: rchar_def split: list.splits if_splits)
    from 1 obtain c0 where r: "(p1, s1, c0) \<in> set (re_matches (rplus (RCls not_eol)) ?st)"
      and c1: "c1 = (1, take (length (body @ '')'') - length s1) (body @ '')'')) # c0" by auto
    have star: "c' = []" if "(p', s', c') \<in> set (re_matches (RStar True (RCls not_eol)) (q, t, []))" for p' s' c' q t
      using that
    proof (induction t arbitrary: q)
      case Nil
      then show ?case using re_star_mem [of "(p', s', c')" True "RCls not_eol" "(q, [], [])"] by auto
    next
      case (Cons x t)
      then show ?case using re_star_mem [of "(p', s', c')" True "RCls not_eol" "(q, x # t, [])"]
        by (auto split: if_splits)
    qed
    from r have "c0 = []" using assms(1) star by (cases body) (auto simp: rplus_def split: if_splits)
    with s1 c1 show ?thesis by simp
  qed
  have "re_ends re_enum (None, ''enum('' @ body @ '')'') \<noteq> {}"
  proof -
    have "(last_opt (Some (CHR ''('')) body, '')'') \<in> re_ends ?inner (Some (CHR ''(''), body @ '')'')"
      using assms by (auto simp: re_ends_plus_cls)
    then have "(Some (CHR '')''), []) \<in> re_ends (RSeq ?inner ?tailre) (Some (CHR ''(''), body @ '')'')"
      unfolding re_ends_Seq [of ?inner] by (rule UN_I) (simp add: rchar_def re_ends_Cls)
    moreover have "re_ends (RSeq RBol (RSeq (rlit ''enum('') (RSeq ?inner ?tailre))) (None, ''enum('' @ body @ '')'') =
        re_ends (RSeq ?inner ?tailre) (Some (CHR ''(''), body @ '')'')"
      by (simp add: rchar_def re_ends_Cls)
    ultimately show ?thesis by (auto simp: re_enum_def)
  qed
  then obtain m ms where m: "re_matches re_enum (None, ''enum('' @ body @ '')'', []) = m # ms"
    by (cases "re_matches re_enum (None, ''enum('' @ body @ '')'', [])") (auto simp: re_ends_def)
  obtain p s c where "m = (p, s, c)" by (cases m)
  then have "(p, s, c) \<in> set (re_matches re_enum (None, ''enum('' @ body @ '')'', []))"
    unfolding m by simp
  then have "c = [(1, body)]" unfolding R by (rule caps)
  with m \<open>m = (p, s, c)\<close> show ?thesis
    by (simp add: re_exec_def re_search_Cons)
qed

lemma js_join_set: "c \<in> set (js_join sep xs) \<Longrightarrow> c \<in> set sep \<or> (\<exists>x\<in>set xs. c \<in> set x)"
  by (induction sep xs rule: js_join.induct) auto

lemma double_c_set: "set (double_c q w) \<subseteq> insert q (set w)"
  by (induction w) auto

lemma toLowerCase_join: "toLowerCase (js_join sep xs) = js_join (toLowerCase sep) (map toLowerCase xs)"
  by (induction sep xs rule: js_join.induct) simp_all

lemma toLowerCase_quote: "toLowerCase (quote_with (CHR 0x27) w) = quote_with (CHR 0x27) (toLowerCase w)"
proof -
  have q: "lower_c (CHR 0x27) = CHR 0x27" by (simp add: lower_c_code is_upper_c_code)
  have "map lower_c (double_c (CHR 0x27) w) = double_c (CHR 0x27) (map lower_c w)"
    by (induction w) (auto simp: lower_c_delims q)
  then show ?thesis by (simp add: quote_with_def toLowerCase_def q)
qed

definition enum_spec :: "string list \<Rightarrow> string" where
  "enum_spec opts = ''enum('' @ js_join '','' (map (quote_with (CHR 0x27)) opts) @ '')''"

text \<open>
  the options of an enum column, whatever quotes, commas and parentheses they
  contain, are recovered from the type text one by one and in order, but in lower case:
  an option with a capital letter is offered, and written back, as a different value.
\<close>

theorem classifyColumnType_enum:
  assumes "toLowerCase (ci_data_type m) = ''enum''" and "ci_full_type m = enum_spec opts"
    and "opts \<noteq> []" and "\<forall>w\<in>set opts. \<forall>c\<in>set w. not_eol c"
  shows "classifyColumnType (Some m) = TEnum (map toLowerCase opts)"
proof -
  let ?low = "map toLowerCase opts"
  let ?body = "js_join '','' (map (quote_with (CHR 0x27)) ?low)"
  have "toLowerCase ''enum('' = ''enum(''" "toLowerCase '')'' = '')''" "toLowerCase '','' = '',''"
    by code_simp+
  then have ft: "toLowerCase (ci_full_type m) = ''enum('' @ ?body @ '')''"
    by (simp only: assms(2) enum_spec_def toLowerCase_append toLowerCase_join list.map_comp comp_def toLowerCase_quote)
  have low: "not_eol (lower_c c) \<longleftrightarrow> not_eol c" for c by (simp add: not_eol_def lower_c_delims)
  have "\<forall>c\<in>set ?body. not_eol c"
  proof
    fix c assume "c \<in> set ?body"
    then consider "c = CHR '',''" | w where "w \<in> set opts" "c \<in> set (quote_with (CHR 0x27) (toLowerCase w))"
      using js_join_set [of c "'',''" "map (quote_with (CHR 0x27)) ?low"] by auto
    then show "not_eol c"
    proof cases
      case (2 w)
      then have "c = CHR 0x27 \<or> c \<in> set (toLowerCase w)"
        using double_c_set [of "CHR 0x27" "toLowerCase w"] by (auto simp: quote_with_def)
      then show ?thesis
      proof
        assume "c = CHR 0x27" then show ?thesis by (simp add: not_eol_def)
      next
        assume "c \<in> set (toLowerCase w)"
        then obtain d where "d \<in> set w" "c = lower_c d" unfolding toLowerCase_def by auto
        with 2(1) assms(4) low show ?thesis by blast
      qed
    qed (simp add: not_eol_def)
  qed
  moreover have "?body \<noteq> []" using assms(3) 
    by (cases opts; cases "tl opts") (simp_all add: quote_with_def)
  ultimately have "re_exec re_enum (toLowerCase (ci_full_type m)) = Some [(1, ?body)]"
    unfolding ft by (intro enum_body)
  then show ?thesis
    using assms(1,3) enum_options_list [of ?low] by (simp add: classifyColumnType_def Let_def cap_def)
qed

definition size_column :: col_info where
  "size_column = \<lparr> ci_name = ''size'', ci_data_type = ''enum'',
     ci_full_type = [CHR ''e'', CHR ''n'', CHR ''u'', CHR ''m'', CHR ''('', CHR 0x27, CHR ''X'', CHR ''L'', CHR 0x27,
       CHR '','', CHR 0x27, CHR ''a'', CHR 0x27, CHR 0x27, CHR '')'', CHR 0x27, CHR '')''],
     ci_nullable = True, ci_is_primary = False, ci_auto_increment = False, ci_default = VNull \<rparr>"

lemma classifyColumnType_enum_witness:
  "classifyColumnType (Some size_column) = TEnum [''xl'', [CHR ''a'', CHR 0x27, CHR '')'']]"
proof -
  have "toLowerCase (ci_data_type size_column) = ''enum''" by code_simp
  moreover have "ci_full_type size_column = enum_spec [''XL'', [CHR ''a'', CHR 0x27, CHR '')'']]" by code_simp
  moreover have "\<forall>w\<in>set [''XL'', [CHR ''a'', CHR 0x27, CHR '')'']]. \<forall>c\<in>set w. not_eol c"
    by (simp add: not_eol_def)
  ultimately have "classifyColumnType (Some size_column) = TEnum (map toLowerCase [''XL'', [CHR ''a'', CHR 0x27, CHR '')'']])"
    by (intro classifyColumnType_enum) simp_all
  moreover have "map toLowerCase [''XL'', [CHR ''a'', CHR 0x27, CHR '')'']] = [''xl'', [CHR ''a'', CHR 0x27, CHR '')'']]"
    by code_simp
  ultimately show ?thesis by simp
qed

section \<open>Column metadata\<close>

text \<open>The request path of a table's columns.\<close>

definition columns_path :: "string \<Rightarrow> string \<Rightarrow> string \<Rightarrow> string \<Rightarrow> string" where
  "columns_path connId database schema tbl =
     ''/columns?conn='' @ encodeURIComponent connId @ ''&database='' @ encodeURIComponent database @
     ''&schema='' @ encodeURIComponent schema @ ''&table='' @ encodeURIComponent tbl"

definition table_key :: "string \<Rightarrow> string \<Rightarrow> string \<Rightarrow> string" where
  "table_key database schema tbl = database @ ''.'' @ schema @ ''.'' @ tbl"

text \<open>
  \<open>fetch\<close> is the answer of the helper to a path. The result is the key columns and the
  session with the cache filled.
\<close>

definition ensurePkColumns :: "(string \<Rightarrow> col_info list) \<Rightarrow> session \<Rightarrow> table_ref \<Rightarrow> string list \<times> session" where
  "ensurePkColumns fetch s t =
     (let key = table_key (t_database t) (t_schema t) (t_table t) in
      case s_pkCache s of
        Some c \<Rightarrow> if pk_key c = key then (pk_pks c, s)
          else (let cols = fetch (columns_path (s_connId s) (t_database t) (t_schema t) (t_table t));
                    pks = map ci_name (filter ci_is_primary cols)
                in (pks, s\<lparr>s_pkCache := Some \<lparr>pk_key = key, pk_pks = pks, pk_columns = cols\<rparr>\<rparr>))
      | None \<Rightarrow>
          (let cols = fetch (columns_path (s_connId s) (t_database t) (t_schema t) (t_table t));
               pks = map ci_name (filter ci_is_primary cols)
           in (pks, s\<lparr>s_pkCache := Some \<lparr>pk_key = key, pk_pks = pks, pk_columns = cols\<rparr>\<rparr>)))"

text \<open>
  The cache answers for another table exactly when the two dotted names coincide.
\<close>

definition dotless :: "string \<Rightarrow> bool" where
  "dotless s = (CHR ''.'' \<notin> set s)"

lemma table_key_inj:
  assumes "dotless d" "dotless s" "dotless t" "dotless d'" "dotless s'" "dotless t'"
  shows "table_key d s t = table_key d' s' t' \<longleftrightarrow> d = d' \<and> s = s' \<and> t = t'"
proof -
  have k: "table_key a b c = js_join ''.'' [a, b, c]" for a b c by (simp add: table_key_def)
  have "split_char (CHR ''.'') (table_key d s t) = [d, s, t]"
    "split_char (CHR ''.'') (table_key d' s' t') = [d', s', t']"
    unfolding k using assms split_char_of_join [of "[d, s, t]" "CHR ''.''"]
      split_char_of_join [of "[d', s', t']" "CHR ''.''"] unfolding dotless_def by simp_all
  then show ?thesis by (metis list.inject)
qed

text \<open>
  \<open>srv\<close> answers with the table's columns; a session is coherent when its cached entry,
  if any, came from the table the key names.
\<close>

definition pk_coherent :: "(string \<Rightarrow> col_info list) \<Rightarrow> session \<Rightarrow> bool" where
  "pk_coherent fetch s = (case s_pkCache s of None \<Rightarrow> True | Some c \<Rightarrow>
     (\<exists>d sc t. dotless d \<and> dotless sc \<and> dotless t \<and> pk_key c = table_key d sc t \<and>
        pk_columns c = fetch (columns_path (s_connId s) d sc t) \<and>
        pk_pks c = map ci_name (filter ci_is_primary (pk_columns c))))"

text \<open>
  as long as names contain no dot, the key columns used to address a row are always
  those of the table being edited, whether they came from the session's cache or from
  the helper, and the cache stays coherent.
\<close>

theorem ensurePkColumns_correct:
  assumes "pk_coherent fetch s" "dotless (t_database t)" "dotless (t_schema t)" "dotless (t_table t)"
  shows "fst (ensurePkColumns fetch s t) = map ci_name (filter ci_is_primary
           (fetch (columns_path (s_connId s) (t_database t) (t_schema t) (t_table t)))) \<and>
         pk_coherent fetch (snd (ensurePkColumns fetch s t)) \<and>
         s_connId (snd (ensurePkColumns fetch s t)) = s_connId s"
proof (cases "s_pkCache s")
  case None
  then show ?thesis using assms(2-4) by (auto simp: ensurePkColumns_def Let_def pk_coherent_def)
next
  case (Some c)
  with assms(1) obtain d sc n where "dotless d" "dotless sc" "dotless n" "pk_key c = table_key d sc n"
    "pk_columns c = fetch (columns_path (s_connId s) d sc n)"
    "pk_pks c = map ci_name (filter ci_is_primary (pk_columns c))" by (auto simp: pk_coherent_def)
  with Some assms table_key_inj [of d sc n "t_database t" "t_schema t" "t_table t"] show ?thesis
    by (auto simp: ensurePkColumns_def Let_def pk_coherent_def)
qed

definition id_column :: "string \<Rightarrow> col_info" where
  "id_column n = \<lparr> ci_name = n, ci_data_type = ''int'', ci_full_type = ''int'', ci_nullable = False,
     ci_is_primary = True, ci_auto_increment = True, ci_default = VNull \<rparr>"

lemma ensurePkColumns_correct_witness:
  "fst (ensurePkColumns (\<lambda>p. [id_column ''id'']) (new_session ''c'')
     \<lparr>t_database = ''d'', t_schema = ''s'', t_table = ''t'', t_kind = []\<rparr>) = [''id'']"
  using ensurePkColumns_correct [of "\<lambda>p. [id_column ''id'']" "new_session ''c''"
      "\<lparr>t_database = ''d'', t_schema = ''s'', t_table = ''t'', t_kind = []\<rparr>"]
  by (simp add: pk_coherent_def new_session_def dotless_def id_column_def)

text \<open>
  With a dot in a name the dotted keys of two tables can coincide, and then the
  session answers the second table's request with the first table's key columns.
\<close>

theorem ensurePkColumns_collision:
  "let t1 = \<lparr>t_database = ''a'', t_schema = ''b.c'', t_table = ''t'', t_kind = []\<rparr>;
       t2 = \<lparr>t_database = ''a.b'', t_schema = ''c'', t_table = ''t'', t_kind = []\<rparr>;
       fetch = (\<lambda>p. if p = columns_path ''c'' ''a'' ''b.c'' ''t'' then [id_column ''id''] else [id_column ''code'']);
       s1 = snd (ensurePkColumns fetch (new_session ''c'') t1)
   in fst (ensurePkColumns fetch s1 t2) = [''id''] \<and>
      fst (ensurePkColumns fetch (new_session ''c'') t2) = [''code'']"
proof -
  have "columns_path ''c'' ''a.b'' ''c'' ''t'' \<noteq> columns_path ''c'' ''a'' ''b.c'' ''t''" by code_simp
  then show ?thesis
    by (simp add: ensurePkColumns_def new_session_def Let_def table_key_def id_column_def)
qed

end
