(* ===== verification/DateParts.thy ===== *)
theory DateParts
  imports JsValue RegexLang
begin

text \<open>
  \<open>src/src/dom/dateParts.js\<close>: the conversions between the text of a date, time or
  datetime cell and the working state of the picker. The current date, which the code
  reads from the clock, is an argument.
\<close>

record date_state =
  ds_y :: int
  ds_mo :: int
  ds_d :: int
  ds_hh :: int
  ds_mi :: int
  ds_ss :: int
  ds_hasDate :: bool
  ds_hasTime :: bool

datatype picker_type = PDate | PTime | PDatetime

definition WEEKDAYS :: "string list" where
  "WEEKDAYS = [''Su'', ''Mo'', ''Tu'', ''We'', ''Th'', ''Fr'', ''Sa'']"

definition MONTHS :: "string list" where
  "MONTHS = [''January'', ''February'', ''March'', ''April'', ''May'', ''June'',
     ''July'', ''August'', ''September'', ''October'', ''November'', ''December'']"

definition pad2 :: "int \<Rightarrow> string" where
  "pad2 n = padStart 2 (CHR ''0'') (int_to_string n)"

definition re_date :: re where
  "re_date = rseq [RCap 1 (rrep 4 rdigit), rchar (CHR ''-''), RCap 2 (RSeq rdigit (ropt rdigit)),
     rchar (CHR ''-''), RCap 3 (RSeq rdigit (ropt rdigit))]"

definition re_time :: re where
  "re_time = rseq [RAlt RBol (RCls (\<lambda>c. c = CHR ''T'' \<or> c = CHR '' '')),
     RCap 1 (RSeq rdigit (ropt rdigit)), rchar (CHR '':''), RCap 2 (rrep 2 rdigit),
     ropt (rseq [rchar (CHR '':''), RCap 3 (rrep 2 rdigit)])]"

definition clamp :: "int \<Rightarrow> int \<Rightarrow> int \<Rightarrow> int" where
  "clamp lo hi n = min hi (max lo n)"

text \<open>\<open>+m[k]\<close> of a captured run of digits.\<close>

definition cap_num :: "captures \<Rightarrow> nat \<Rightarrow> int" where
  "cap_num c k = (case cap c k of None \<Rightarrow> 0 | Some w \<Rightarrow> int (digits_val w))"

definition parseState :: "int \<times> int \<times> int \<Rightarrow> picker_type \<Rightarrow> jsval \<Rightarrow> date_state" where
  "parseState now type v =
     (let (ny, nmo, nd) = now;
          st = \<lparr>ds_y = ny, ds_mo = nmo, ds_d = nd, ds_hh = 0, ds_mi = 0, ds_ss = 0,
                ds_hasDate = False, ds_hasTime = False\<rparr>;
          s = (if is_nullish v then [] else js_String v);
          st1 = (if s \<noteq> [] \<and> type \<noteq> PTime then
                   (case re_exec re_date s of None \<Rightarrow> st
                    | Some dm \<Rightarrow> st\<lparr>ds_y := cap_num dm 1, ds_mo := clamp 0 11 (cap_num dm 2 - 1),
                                    ds_d := clamp 1 31 (cap_num dm 3), ds_hasDate := True\<rparr>)
                 else st)
      in if s \<noteq> [] \<and> type \<noteq> PDate then
           (case re_exec re_time s of None \<Rightarrow> st1
            | Some tm \<Rightarrow> st1\<lparr>ds_hh := clamp 0 23 (cap_num tm 1), ds_mi := clamp 0 59 (cap_num tm 2),
                             ds_ss := (if cap tm 3 \<noteq> None then clamp 0 59 (cap_num tm 3) else 0),
                             ds_hasTime := True\<rparr>)
         else st1)"

definition formatState :: "picker_type \<Rightarrow> date_state \<Rightarrow> string" where
  "formatState type st =
     (let time = pad2 (ds_hh st) @ '':'' @ pad2 (ds_mi st) @ '':'' @ pad2 (ds_ss st);
          date = int_to_string (ds_y st) @ ''-'' @ pad2 (ds_mo st + 1) @ ''-'' @ pad2 (ds_d st)
      in if type = PTime then time else if type = PDate then date else date @ ''T'' @ time)"

section \<open>Bounds\<close>

definition fields_ok :: "date_state \<Rightarrow> bool" where
  "fields_ok st = (0 \<le> ds_mo st \<and> ds_mo st \<le> 11 \<and> 1 \<le> ds_d st \<and> ds_d st \<le> 31 \<and>
     0 \<le> ds_hh st \<and> ds_hh st \<le> 23 \<and> 0 \<le> ds_mi st \<and> ds_mi st \<le> 59 \<and> 0 \<le> ds_ss st \<and> ds_ss st \<le> 59)"

lemma clamp_bounds: "lo \<le> hi \<Longrightarrow> lo \<le> clamp lo hi n \<and> clamp lo hi n \<le> hi"
  by (auto simp: clamp_def)

lemma clamp_id: "lo \<le> n \<Longrightarrow> n \<le> hi \<Longrightarrow> clamp lo hi n = n"
  by (auto simp: clamp_def)

text \<open>
  Whatever text a cell holds, the picker opens on a month, a day, an hour, a minute
  and a second within their ranges.
\<close>

theorem parseState_bounds:
  assumes "0 \<le> nmo" "nmo \<le> 11" "1 \<le> nd" "nd \<le> 31"
  shows "fields_ok (parseState (ny, nmo, nd) type v)"
  using assms clamp_bounds [of 0 11] clamp_bounds [of 1 31] clamp_bounds [of 0 23] clamp_bounds [of 0 59]
  by (simp add: parseState_def fields_ok_def Let_def split: option.splits)

lemma parseState_bounds_witness:
  "fields_ok (parseState (2024, 0, 1) PDatetime (VStr ''2024-99-77T99:99:99'')) \<and>
   ds_mo (parseState (2024, 0, 1) PDatetime (VStr ''2024-99-77T99:99:99'')) = 11"
proof
  show "fields_ok (parseState (2024, 0, 1) PDatetime (VStr ''2024-99-77T99:99:99''))"
    by (rule parseState_bounds) simp_all
  show "ds_mo (parseState (2024, 0, 1) PDatetime (VStr ''2024-99-77T99:99:99'')) = 11"
    by code_simp
qed

section \<open>Round trip\<close>

lemma nat_to_string_lt10: "n < 10 \<Longrightarrow> nat_to_string n = [digit_char n]"
  by (simp add: nat_to_string.simps)

lemma nat_to_string_ge10: "10 \<le> n \<Longrightarrow> nat_to_string n = nat_to_string (n div 10) @ [digit_char (n mod 10)]"
  by (subst nat_to_string.simps) simp

lemma pad2_digits:
  "0 \<le> n \<Longrightarrow> n < 100 \<Longrightarrow> \<exists>a b. pad2 n = [a, b] \<and> is_digit_c a \<and> is_digit_c b \<and> digits_val [a, b] = nat n"
proof -
  assume n: "0 \<le> n" "n < 100"
  define m where "m = nat n"
  have m: "m < 100" "n = int m" using n by (simp_all add: m_def)
  show ?thesis
  proof (cases "m < 10")
    case True
    then have "pad2 n = [CHR ''0'', digit_char m]"
      by (simp add: pad2_def padStart_def int_to_string_def m(2) nat_to_string_lt10)
    then show ?thesis
      using True digit_char_is_digit [of m]
      by (auto simp: is_digit_c_code digits_val_def digit_val_char m digit_val_def [of "CHR ''0''"])
  next
    case False
    then have "m div 10 < 10" "m mod 10 < 10" using m(1) by auto
    moreover have "pad2 n = [digit_char (m div 10), digit_char (m mod 10)]"
      using False m nat_to_string_ge10 [of m] \<open>m div 10 < 10\<close>
      by (simp add: pad2_def padStart_def int_to_string_def nat_to_string_lt10)
    ultimately show ?thesis using m
      by (auto simp: digit_char_is_digit digits_val_def digit_val_char)
  qed
qed

lemma year_digits:
  assumes "1000 \<le> n" "n \<le> 9999"
  shows "\<exists>a b c d. int_to_string n = [a, b, c, d] \<and> is_digit_c a \<and> is_digit_c b \<and> is_digit_c c \<and>
     is_digit_c d \<and> digits_val [a, b, c, d] = nat n"
proof -
  define m where "m = nat n"
  have m: "1000 \<le> m" "m \<le> 9999" "n = int m" using assms by (simp_all add: m_def)
  have e: "nat_to_string m = [digit_char (m div 1000), digit_char (m div 100 mod 10),
      digit_char (m div 10 mod 10), digit_char (m mod 10)]"
    using m nat_to_string_ge10 [of m] nat_to_string_ge10 [of "m div 10"]
      nat_to_string_ge10 [of "m div 10 div 10"] nat_to_string_lt10 [of "m div 10 div 10 div 10"]
    by (simp add: div_mult2_eq [symmetric])
  have "m div 1000 < 10" using m by auto
  then have "\<forall>c\<in>set (nat_to_string m). is_digit_c c" using nat_to_string_digits by blast
  then show ?thesis
    using e digits_val_nat_to_string [of m] m(3) by (auto simp: int_to_string_def)
qed

lemma not_digits: "\<not> is_digit_c (CHR ''-'')" "\<not> is_digit_c (CHR '':'')" "\<not> is_digit_c (CHR ''T'')" "\<not> is_digit_c (CHR '' '')"
  by (simp_all add: is_digit_c_code)

lemma digit_ne:
  "is_digit_c c \<Longrightarrow> c \<noteq> CHR ''-''" "is_digit_c c \<Longrightarrow> c \<noteq> CHR '':''" "is_digit_c c \<Longrightarrow> c \<noteq> CHR ''T''"
  "is_digit_c c \<Longrightarrow> c \<noteq> CHR '' ''"
  using not_digits by auto

lemma exec_date:
  assumes "is_digit_c a" "is_digit_c b" "is_digit_c c" "is_digit_c d" "is_digit_c e" "is_digit_c f"
    "is_digit_c g" "is_digit_c h"
  shows "\<exists>cs. re_exec re_date (a # b # c # d # CHR ''-'' # e # f # CHR ''-'' # g # h # rest) = Some cs \<and>
    cap cs 1 = Some [a, b, c, d] \<and> cap cs 2 = Some [e, f] \<and> cap cs 3 = Some [g, h]"
  using assms
  by (simp add: re_exec_def re_search_Cons re_date_def rdigit_def ropt_def rchar_def cap_def eval_nat_numeral digit_ne)

lemma exec_time:
  assumes "is_digit_c a" "is_digit_c b" "is_digit_c c" "is_digit_c d" "is_digit_c e" "is_digit_c f"
  shows "\<exists>cs. re_exec re_time [a, b, CHR '':'', c, d, CHR '':'', e, f] = Some cs \<and>
    cap cs 1 = Some [a, b] \<and> cap cs 2 = Some [c, d] \<and> cap cs 3 = Some [e, f]"
  using assms
  by (simp add: re_exec_def re_search_Cons re_time_def rdigit_def ropt_def rchar_def cap_def eval_nat_numeral digit_ne)

lemma exec_datetime:
  assumes "is_digit_c a" "is_digit_c b" "is_digit_c c" "is_digit_c d" "is_digit_c e" "is_digit_c f"
    "is_digit_c a1" "is_digit_c a2" "is_digit_c a3" "is_digit_c a4" "is_digit_c b1" "is_digit_c b2"
    "is_digit_c c1" "is_digit_c c2"
  shows "\<exists>cs. re_exec re_time (a1 # a2 # a3 # a4 # CHR ''-'' # b1 # b2 # CHR ''-'' # c1 # c2 # CHR ''T'' #
      [a, b, CHR '':'', c, d, CHR '':'', e, f]) = Some cs \<and>
    cap cs 1 = Some [a, b] \<and> cap cs 2 = Some [c, d] \<and> cap cs 3 = Some [e, f]"
  using assms
  by (simp add: re_exec_def re_search_Cons re_time_def rdigit_def ropt_def rchar_def cap_def eval_nat_numeral digit_ne)

text \<open>The state a picker of the given type can express: what it does not show is the default.\<close>

definition expressible :: "int \<times> int \<times> int \<Rightarrow> picker_type \<Rightarrow> date_state \<Rightarrow> bool" where
  "expressible now type st =
     (fields_ok st \<and> 1000 \<le> ds_y st \<and> ds_y st \<le> 9999 \<and>
      ds_hasDate st = (type \<noteq> PTime) \<and> ds_hasTime st = (type \<noteq> PDate) \<and>
      (type = PTime \<longrightarrow> (ds_y st, ds_mo st, ds_d st) = now) \<and>
      (type = PDate \<longrightarrow> ds_hh st = 0 \<and> ds_mi st = 0 \<and> ds_ss st = 0))"

lemma format_digits:
  assumes "fields_ok st" "1000 \<le> ds_y st" "ds_y st \<le> 9999"
  obtains a1 a2 a3 a4 b1 b2 c1 c2 a b c d e f where
    "int_to_string (ds_y st) = [a1, a2, a3, a4]" "digits_val [a1, a2, a3, a4] = nat (ds_y st)"
    "pad2 (ds_mo st + 1) = [b1, b2]" "digits_val [b1, b2] = nat (ds_mo st + 1)"
    "pad2 (ds_d st) = [c1, c2]" "digits_val [c1, c2] = nat (ds_d st)"
    "pad2 (ds_hh st) = [a, b]" "digits_val [a, b] = nat (ds_hh st)"
    "pad2 (ds_mi st) = [c, d]" "digits_val [c, d] = nat (ds_mi st)"
    "pad2 (ds_ss st) = [e, f]" "digits_val [e, f] = nat (ds_ss st)"
    "\<forall>x\<in>set [a1, a2, a3, a4, b1, b2, c1, c2, a, b, c, d, e, f]. is_digit_c x"
proof -
  from year_digits [OF assms(2,3)] obtain a1 a2 a3 a4 where y: "int_to_string (ds_y st) = [a1, a2, a3, a4]"
    "digits_val [a1, a2, a3, a4] = nat (ds_y st)" "\<forall>x\<in>set [a1, a2, a3, a4]. is_digit_c x" by auto
  have two: "\<exists>a b. pad2 n = [a, b] \<and> digits_val [a, b] = nat n \<and> is_digit_c a \<and> is_digit_c b"
    if "0 \<le> n" "n < 100" for n using pad2_digits [OF that] by blast
  have r: "0 \<le> ds_mo st + 1 \<and> ds_mo st + 1 < 100" "0 \<le> ds_d st \<and> ds_d st < 100"
    "0 \<le> ds_hh st \<and> ds_hh st < 100" "0 \<le> ds_mi st \<and> ds_mi st < 100" "0 \<le> ds_ss st \<and> ds_ss st < 100"
    using assms(1) by (auto simp: fields_ok_def)
  obtain b1 b2 where m: "pad2 (ds_mo st + 1) = [b1, b2]" "digits_val [b1, b2] = nat (ds_mo st + 1)"
    "is_digit_c b1" "is_digit_c b2" using two r(1) by blast
  obtain c1 c2 where d: "pad2 (ds_d st) = [c1, c2]" "digits_val [c1, c2] = nat (ds_d st)"
    "is_digit_c c1" "is_digit_c c2" using two r(2) by blast
  obtain a b where h: "pad2 (ds_hh st) = [a, b]" "digits_val [a, b] = nat (ds_hh st)"
    "is_digit_c a" "is_digit_c b" using two r(3) by blast
  obtain c d where mi: "pad2 (ds_mi st) = [c, d]" "digits_val [c, d] = nat (ds_mi st)"
    "is_digit_c c" "is_digit_c d" using two r(4) by blast
  obtain e f where s: "pad2 (ds_ss st) = [e, f]" "digits_val [e, f] = nat (ds_ss st)"
    "is_digit_c e" "is_digit_c f" using two r(5) by blast
  show thesis
    by (rule that [OF y(1,2) m(1,2) d(1,2) h(1,2) mi(1,2) s(1,2)])
       (use y(3) m(3,4) d(3,4) h(3,4) mi(3,4) s(3,4) in simp)
qed

text \<open>The two patterns on a formatted text.\<close>

lemma exec_format:
  assumes "fields_ok st" "1000 \<le> ds_y st" "ds_y st \<le> 9999"
  shows "type \<noteq> PTime \<Longrightarrow> \<exists>dm. re_exec re_date (formatState type st) = Some dm \<and>
      cap_num dm 1 = ds_y st \<and> cap_num dm 2 = ds_mo st + 1 \<and> cap_num dm 3 = ds_d st"
    and "type \<noteq> PDate \<Longrightarrow> \<exists>tm. re_exec re_time (formatState type st) = Some tm \<and>
      cap_num tm 1 = ds_hh st \<and> cap_num tm 2 = ds_mi st \<and> cap tm 3 \<noteq> None \<and> cap_num tm 3 = ds_ss st"
    and "formatState type st \<noteq> []"
proof -
  obtain a1 a2 a3 a4 b1 b2 c1 c2 a b c d e f where
    v: "int_to_string (ds_y st) = [a1, a2, a3, a4]" "digits_val [a1, a2, a3, a4] = nat (ds_y st)"
    "pad2 (ds_mo st + 1) = [b1, b2]" "digits_val [b1, b2] = nat (ds_mo st + 1)"
    "pad2 (ds_d st) = [c1, c2]" "digits_val [c1, c2] = nat (ds_d st)"
    "pad2 (ds_hh st) = [a, b]" "digits_val [a, b] = nat (ds_hh st)"
    "pad2 (ds_mi st) = [c, d]" "digits_val [c, d] = nat (ds_mi st)"
    "pad2 (ds_ss st) = [e, f]" "digits_val [e, f] = nat (ds_ss st)"
    and dig: "\<forall>x\<in>set [a1, a2, a3, a4, b1, b2, c1, c2, a, b, c, d, e, f]. is_digit_c x"
    by (rule format_digits [OF assms])
  let ?date = "[a1, a2, a3, a4, CHR ''-'', b1, b2, CHR ''-'', c1, c2]"
  let ?time = "[a, b, CHR '':'', c, d, CHR '':'', e, f]"
  have fmt: "formatState type st = (if type = PTime then ?time else if type = PDate then ?date else ?date @ CHR ''T'' # ?time)"
    using v by (simp add: formatState_def Let_def)
  have ne: "ds_y st = int (digits_val [a1, a2, a3, a4])" "ds_mo st + 1 = int (digits_val [b1, b2])"
    "ds_d st = int (digits_val [c1, c2])" "ds_hh st = int (digits_val [a, b])"
    "ds_mi st = int (digits_val [c, d])" "ds_ss st = int (digits_val [e, f])"
    using v assms by (simp_all add: fields_ok_def)
  show "formatState type st \<noteq> []" by (simp add: fmt)
  show "\<exists>dm. re_exec re_date (formatState type st) = Some dm \<and>
      cap_num dm 1 = ds_y st \<and> cap_num dm 2 = ds_mo st + 1 \<and> cap_num dm 3 = ds_d st" if "type \<noteq> PTime"
    using that exec_date [of a1 a2 a3 a4 b1 b2 c1 c2 "[]"] exec_date [of a1 a2 a3 a4 b1 b2 c1 c2 "CHR ''T'' # ?time"]
      dig ne by (auto simp: fmt cap_num_def)
  show "\<exists>tm. re_exec re_time (formatState type st) = Some tm \<and>
      cap_num tm 1 = ds_hh st \<and> cap_num tm 2 = ds_mi st \<and> cap tm 3 \<noteq> None \<and> cap_num tm 3 = ds_ss st"
    if "type \<noteq> PDate"
    using that exec_time [of a b c d e f] exec_datetime [of a b c d e f a1 a2 a3 a4 b1 b2 c1 c2]
      dig ne by (auto simp: fmt cap_num_def)
qed

lemma parse_format:
  assumes "expressible now type st"
  shows "parseState now type (VStr (formatState type st)) = st"
proof -
  have ok: "fields_ok st" "1000 \<le> ds_y st" "ds_y st \<le> 9999" using assms by (simp_all add: expressible_def)
  have clamps: "clamp 0 11 (ds_mo st) = ds_mo st" "clamp 1 31 (ds_d st) = ds_d st" "clamp 0 23 (ds_hh st) = ds_hh st"
    "clamp 0 59 (ds_mi st) = ds_mi st" "clamp 0 59 (ds_ss st) = ds_ss st"
    using ok(1) by (simp_all add: fields_ok_def clamp_id)
  note exec = exec_format [OF ok, of type]
  show ?thesis
  proof (cases type)
    case PDate
    with exec(1,3) clamps assms show ?thesis
      by (cases now) (auto simp add: parseState_def Let_def expressible_def)
  next
    case PTime
    with exec(2,3) clamps assms show ?thesis
      by (cases now) (auto simp add: parseState_def Let_def expressible_def)
  next
    case PDatetime
    with exec clamps assms show ?thesis
      by (cases now) (auto simp add: parseState_def Let_def expressible_def)
  qed
qed

text \<open>
  Formatting the picker's state and parsing it again gives the same state, for every
  date, time and datetime of the years 1000 to 9999: opening and confirming the picker
  never changes a value.
\<close>

theorem parseState_formatState:
  assumes "expressible now type st"
  shows "parseState now type (VStr (formatState type st)) = st"
  using assms by (rule parse_format)

definition demo_date :: date_state where
  "demo_date = \<lparr>ds_y = 2024, ds_mo = 1, ds_d = 29, ds_hh = 7, ds_mi = 5, ds_ss = 59,
     ds_hasDate = True, ds_hasTime = True\<rparr>"

lemma parseState_formatState_witness:
  "parseState (2025, 0, 1) PDatetime (VStr (formatState PDatetime demo_date)) = demo_date \<and>
   formatState PDatetime demo_date = ''2024-02-29T07:05:59''"
proof
  show "parseState (2025, 0, 1) PDatetime (VStr (formatState PDatetime demo_date)) = demo_date"
    by (rule parseState_formatState) (simp add: expressible_def demo_date_def fields_ok_def)
  show "formatState PDatetime demo_date = ''2024-02-29T07:05:59''" by code_simp
qed

text \<open>
  A year below 1000 is written with fewer than four digits, which the parser does
  not recognise: confirming a picker opened on such a date writes another text, and the
  date is gone when it is opened again.
\<close>

theorem formatState_short_year:
  "formatState PDate (parseState (2025, 0, 1) PDate (VStr ''0999-05-06'')) = ''999-05-06'' \<and>
   ds_hasDate (parseState (2025, 0, 1) PDate (VStr ''999-05-06'')) = False"
  by code_simp

end
