(* ===== verification/SqlRefs.thy ===== *)
theory SqlRefs
  imports SqlCheck
begin

text \<open>
  \<open>src/src/query/sqlRefs.js\<close>: which tables a typed statement names, which cached table a
  reference resolves to, and whether a SELECT maps one to one to the rows of one table.
\<close>

section \<open>References\<close>

definition re_letter :: re where
  "re_letter = RCls (\<lambda>c. is_word_c c \<and> \<not> is_digit_c c)"

definition re_ident_rest :: re where
  "re_ident_rest = rstar (RCls (\<lambda>c. is_word_c c \<or> c = CHR ''$''))"

definition re_ident :: re where
  "re_ident = ralt [
     rseq [rchar (CHR 0x60), rplus (RCls (\<lambda>c. c \<noteq> CHR 0x60)), rchar (CHR 0x60)],
     rseq [rchar (CHR 0x22), rplus (RCls (\<lambda>c. c \<noteq> CHR 0x22)), rchar (CHR 0x22)],
     rseq [rchar (CHR ''[''), rplus (RCls (\<lambda>c. c \<noteq> CHR '']'')), rchar (CHR '']'')],
     RSeq re_letter re_ident_rest]"

definition re_dot :: re where
  "re_dot = rseq [rstar rspace, rchar (CHR ''.''), rstar rspace]"

definition re_table_ref :: re where
  "re_table_ref = rseq [RWordB,
     ralt [rlit_i ''FROM'', rlit_i ''JOIN'', rlit_i ''UPDATE'', rlit_i ''INTO'',
       rseq [rlit_i ''DELETE'', rplus rspace, rlit_i ''FROM''],
       rseq [rlit_i ''TRUNCATE'', ropt (rseq [rplus rspace, rlit_i ''TABLE''])],
       rseq [ralt [rlit_i ''CREATE'', rlit_i ''ALTER'', rlit_i ''DROP''], rplus rspace, rlit_i ''TABLE'']],
     RWordB, rplus rspace,
     RCap 1 (RSeq re_ident (rrep_upto 2 (RSeq re_dot re_ident)))]"

definition re_open_quote :: re where
  "re_open_quote = RAlt (rseq [RBol, RCls (\<lambda>c. c = CHR 0x60 \<or> c = CHR 0x22 \<or> c = CHR ''['')])
     (rseq [RCls (\<lambda>c. c = CHR 0x60 \<or> c = CHR 0x22 \<or> c = CHR '']''), REol])"

record table_name =
  r_raw :: string
  r_parts :: "string list"

definition ref_of :: "captures \<Rightarrow> table_name" where
  "ref_of m = (let raw = js_trim (case cap m 1 of Some w \<Rightarrow> w | None \<Rightarrow> []) in
     \<lparr>r_raw = raw, r_parts = map (\<lambda>p. toLowerCase (re_replace re_open_quote [] p)) (re_split re_dot raw)\<rparr>)"

definition ref_key :: "table_name \<Rightarrow> string" where
  "ref_key r = js_join ''.'' (r_parts r)"

definition parseSqlReferences :: "string \<Rightarrow> table_name list" where
  "parseSqlReferences sql =
     (if sql = [] then []
      else dedup_on ref_key {} (map ref_of (re_find_all re_table_ref (bareSql sql))))"

lemma re_split_not_Nil: "re_split r s \<noteq> []"
  by (simp add: re_split_def split: prod.splits)

text \<open>
  The references of a statement are pairwise different, each has at least one part,
  and all parts are in lower case, the spelling the cache lookup compares with.
\<close>

theorem parseSqlReferences_wf:
  "distinct (map ref_key (parseSqlReferences sql)) \<and>
   list_all (\<lambda>r. r_parts r \<noteq> [] \<and> list_all (\<lambda>p. toLowerCase p = p) (r_parts r)) (parseSqlReferences sql)"
proof -
  have "set (parseSqlReferences sql) \<subseteq> range ref_of"
    using dedup_on_subset [of ref_key "{}" "map ref_of (re_find_all re_table_ref (bareSql sql))"]
    by (auto simp: parseSqlReferences_def)
  moreover have "r_parts (ref_of m) \<noteq> [] \<and> list_all (\<lambda>p. toLowerCase p = p) (r_parts (ref_of m))" for m
    by (auto simp: list_all_iff ref_of_def Let_def re_split_not_Nil)
  ultimately have "list_all (\<lambda>r. r_parts r \<noteq> [] \<and> list_all (\<lambda>p. toLowerCase p = p) (r_parts r)) (parseSqlReferences sql)"
    unfolding list_all_iff [of _ "parseSqlReferences sql"] by blast
  then show ?thesis by (simp add: parseSqlReferences_def dedup_on_distinct)
qed

section \<open>Resolving a reference\<close>

definition table_candidates :: "cache_entry list \<Rightarrow> string \<Rightarrow> cache_entry list" where
  "table_candidates entries name = filter (\<lambda>e. toLowerCase (e_table e) = name) entries"

definition pick_match :: "string \<Rightarrow> string list \<Rightarrow> cache_entry list \<Rightarrow> cache_entry option" where
  "pick_match current parts candidates =
     (let full = (if length parts \<ge> 3
            then find_first (\<lambda>e. toLowerCase (e_database e) = parts ! 0 \<and> toLowerCase (e_schema e) = parts ! 1) candidates
            else None);
          half = (if length parts = 2
            then find_first (\<lambda>e. toLowerCase (e_database e) = parts ! 0 \<or> toLowerCase (e_schema e) = parts ! 0) candidates
            else None);
          here = (if current \<noteq> [] then find_first (\<lambda>e. toLowerCase (e_database e) = current) candidates else None)
      in case full of Some e \<Rightarrow> Some e | None \<Rightarrow>
         (case half of Some e \<Rightarrow> Some e | None \<Rightarrow>
         (case here of Some e \<Rightarrow> Some e | None \<Rightarrow> nth_opt candidates 0)))"

fun find_match :: "cache_entry list \<Rightarrow> string \<Rightarrow> table_name list \<Rightarrow> cache_entry option" where
  "find_match entries current [] = None"
| "find_match entries current (r # rs) =
     (let name = last (r_parts r) in
      if name = [] then find_match entries current rs
      else let candidates = table_candidates entries name in
        if candidates = [] then find_match entries current rs
        else pick_match current (r_parts r) candidates)"

definition findCachedMatch :: "session \<Rightarrow> table_name list \<Rightarrow> cache_entry option" where
  "findCachedMatch s refs =
     (if s_schemaCache s = [] then None
      else find_match (omap_values (s_schemaCache s))
        (case s_currentDatabase s of None \<Rightarrow> [] | Some d \<Rightarrow> toLowerCase d) refs)"

lemma pick_match_cases:
  assumes "pick_match current parts candidates = Some m"
  obtains P where "find_first P candidates = Some m" | "nth_opt candidates 0 = Some m"
  using assms unfolding pick_match_def Let_def by (auto split: option.splits if_splits)

lemma pick_match_in: "pick_match current parts candidates = Some m \<Longrightarrow> m \<in> set candidates"
  by (erule pick_match_cases) (auto dest: find_first_Some simp: nth_opt_conv split: if_splits)

lemma pick_match_full:
  assumes "length parts \<ge> 3" "e \<in> set candidates"
    "toLowerCase (e_database e) = parts ! 0" "toLowerCase (e_schema e) = parts ! 1"
    "pick_match current parts candidates = Some m"
  shows "toLowerCase (e_database m) = parts ! 0 \<and> toLowerCase (e_schema m) = parts ! 1"
proof -
  have "find_first (\<lambda>e. toLowerCase (e_database e) = parts ! 0 \<and> toLowerCase (e_schema e) = parts ! 1) candidates \<noteq> None"
    using assms(2-4) unfolding find_first_None by blast
  then obtain y where y: "find_first (\<lambda>e. toLowerCase (e_database e) = parts ! 0 \<and> toLowerCase (e_schema e) = parts ! 1) candidates = Some y"
    by blast
  then have "m = y" using assms(1,5) unfolding pick_match_def Let_def y by simp
  with find_first_Some [OF y] show ?thesis by blast
qed

lemma find_match_in:
  "find_match entries current refs = Some e \<Longrightarrow>
     e \<in> set entries \<and> (\<exists>r\<in>set refs. toLowerCase (e_table e) = last (r_parts r))"
proof (induction refs)
  case (Cons r rs)
  show ?case
  proof (cases "last (r_parts r) = [] \<or> table_candidates entries (last (r_parts r)) = []")
    case True
    with Cons show ?thesis by (auto simp: Let_def split: if_splits)
  next
    case False
    then have "pick_match current (r_parts r) (table_candidates entries (last (r_parts r))) = Some e"
      using Cons.prems by (simp add: Let_def)
    then have "e \<in> set (table_candidates entries (last (r_parts r)))" by (rule pick_match_in)
    then show ?thesis by (auto simp: table_candidates_def)
  qed
qed simp

text \<open>
  a resolved reference is always a table of the session's cache with the name that
  was written, and a fully qualified name that is in the cache is never resolved to a
  table of another database or schema.
\<close>

theorem findCachedMatch_sound:
  assumes "findCachedMatch s [r] = Some e"
  shows "e \<in> set (omap_values (s_schemaCache s)) \<and> toLowerCase (e_table e) = last (r_parts r) \<and>
    (length (r_parts r) = 3 \<and>
     (\<exists>f. f \<in> set (omap_values (s_schemaCache s)) \<and>
        [toLowerCase (e_database f), toLowerCase (e_schema f), toLowerCase (e_table f)] = r_parts r) \<longrightarrow>
     [toLowerCase (e_database e), toLowerCase (e_schema e), toLowerCase (e_table e)] = r_parts r)"
proof -
  let ?es = "omap_values (s_schemaCache s)"
  let ?cur = "case s_currentDatabase s of None \<Rightarrow> [] | Some d \<Rightarrow> toLowerCase d"
  have m: "find_match ?es ?cur [r] = Some e"
    using assms by (auto simp: findCachedMatch_def split: if_splits)
  have in_es: "e \<in> set ?es" "toLowerCase (e_table e) = last (r_parts r)"
    using find_match_in [OF m] by auto
  have "[toLowerCase (e_database e), toLowerCase (e_schema e), toLowerCase (e_table e)] = r_parts r"
    if len: "length (r_parts r) = 3" and f: "f \<in> set ?es"
      and eq: "[toLowerCase (e_database f), toLowerCase (e_schema f), toLowerCase (e_table f)] = r_parts r" for f
  proof -
    have p: "r_parts r ! 0 = toLowerCase (e_database f)" "r_parts r ! 1 = toLowerCase (e_schema f)"
      "last (r_parts r) = toLowerCase (e_table f)" using eq by (metis nth_Cons_0, metis nth_Cons_0 nth_Cons_Suc One_nat_def, metis last.simps list.distinct(1))
    then have "f \<in> set (table_candidates ?es (last (r_parts r)))" using f by (simp add: table_candidates_def)
    moreover have "pick_match ?cur (r_parts r) (table_candidates ?es (last (r_parts r))) = Some e"
      using m by (auto simp: Let_def split: if_splits)
    ultimately have "toLowerCase (e_database e) = r_parts r ! 0 \<and> toLowerCase (e_schema e) = r_parts r ! 1"
      using len p by (intro pick_match_full) simp_all
    with p in_es(2) eq show ?thesis by simp
  qed
  with in_es show ?thesis by blast
qed

definition demo_cache :: "(string, cache_entry) omap" where
  "demo_cache = [
     (''app.public.users'', \<lparr>e_database = ''app'', e_schema = ''public'', e_table = ''users'', e_kind = ''table'', e_columns = [''id'']\<rparr>),
     (''app.audit.Users'', \<lparr>e_database = ''app'', e_schema = ''audit'', e_table = ''Users'', e_kind = ''table'', e_columns = [''id'']\<rparr>)]"

lemma findCachedMatch_sound_witness:
  "findCachedMatch (new_session ''c''\<lparr>s_schemaCache := demo_cache\<rparr>)
     (parseSqlReferences ''select * from APP.audit.users'') = Some (snd (demo_cache ! 1)) \<and>
   [toLowerCase (e_database (snd (demo_cache ! 1))), toLowerCase (e_schema (snd (demo_cache ! 1))),
    toLowerCase (e_table (snd (demo_cache ! 1)))] = [''app'', ''audit'', ''users'']"
proof -
  let ?s = "new_session ''c''\<lparr>s_schemaCache := demo_cache\<rparr>"
  let ?r = "\<lparr>r_raw = ''APP.audit.users'', r_parts = [''app'', ''audit'', ''users'']\<rparr>"
  have p: "parseSqlReferences ''select * from APP.audit.users'' = [?r]" by code_simp
  have m: "findCachedMatch ?s [?r] = Some (snd (demo_cache ! 1))" by code_simp
  have "snd (demo_cache ! 1) \<in> set (omap_values (s_schemaCache ?s))"
    by (simp add: demo_cache_def omap_values_def)
  moreover have "[toLowerCase (e_database (snd (demo_cache ! 1))), toLowerCase (e_schema (snd (demo_cache ! 1))),
    toLowerCase (e_table (snd (demo_cache ! 1)))] = r_parts ?r" by code_simp
  ultimately show ?thesis using findCachedMatch_sound [OF m] p m by auto
qed

section \<open>Single-table SELECT\<close>

definition re_select :: re where
  "re_select = rseq [RBol, rstar rspace, rlit_i ''select'', RWordB]"

definition re_word :: "string \<Rightarrow> re" where
  "re_word w = rseq [RWordB, rlit_i w, RWordB]"

definition re_group_by :: re where
  "re_group_by = rseq [RWordB, rlit_i ''group'', rplus rspace, rlit_i ''by'', RWordB]"

definition re_set_op :: re where
  "re_set_op = rseq [RWordB, RCap 1 (ralt [rlit_i ''union'', rlit_i ''intersect'', rlit_i ''except'']), RWordB]"

definition re_from :: re where
  "re_from = rseq [RWordB, rlit_i ''from'', RWordB, RCap 1 (rstar_lazy rany),
     RCap 2 (ralt [re_word ''where'', re_word ''group'', re_word ''order'', re_word ''limit'',
       re_word ''having'', re_word ''window'', REol])]"

definition isSingleTableSelect :: "string \<Rightarrow> bool" where
  "isSingleTableSelect sql =
     (let clean = bareSql sql in
      if \<not> re_test re_select clean then False
      else if re_test (re_word ''join'') clean then False
      else if re_test re_group_by clean then False
      else if re_test (re_word ''having'') clean then False
      else if re_test (re_word ''distinct'') clean then False
      else if re_test re_set_op clean then False
      else (case re_exec re_from clean of
          None \<Rightarrow> True
        | Some m \<Rightarrow> (case cap m 1 of None \<Rightarrow> True | Some w \<Rightarrow> \<not> js_includes w '','')))"

lemma lower_words:
  "toLowerCase ''join'' = ''join''" "toLowerCase ''having'' = ''having''" "toLowerCase ''distinct'' = ''distinct''"
  "toLowerCase ''union'' = ''union''" "toLowerCase ''intersect'' = ''intersect''" "toLowerCase ''except'' = ''except''"
  by code_simp+

lemma word_test: "is_words k \<Longrightarrow> toLowerCase k = k \<Longrightarrow> re_test (re_word k) s \<longleftrightarrow> has_word k s"
proof -
  assume k: "is_words k" "toLowerCase k = k"
  have "is_words w" if "toLowerCase w = toLowerCase k" for w
    using k that words_lower [of w] by metis
  from bounded_test [OF spans_lit_i this] k(2) show ?thesis
    by (simp add: re_word_def has_word_def del: rlit_i.simps)
qed

text \<open>
  a statement taken for a single-table SELECT contains, outside literals and
  comments and in any case, none of the words JOIN, HAVING, DISTINCT, UNION, INTERSECT,
  EXCEPT.
\<close>

theorem isSingleTableSelect_excludes:
  assumes "isSingleTableSelect sql" and "k \<in> {''join'', ''having'', ''distinct'', ''union'', ''intersect'', ''except''}"
  shows "\<not> has_word k (bareSql sql)"
proof -
  let ?c = "bareSql sql"
  have words: "is_words k" "toLowerCase k = k"
    using assms(2) lower_words by (auto simp: is_words_def is_word_c_code)
  have "\<not> re_test (re_word ''join'') ?c" "\<not> re_test (re_word ''having'') ?c" "\<not> re_test (re_word ''distinct'') ?c"
    and set_op: "\<not> re_test re_set_op ?c"
    using assms(1) by (auto simp: isSingleTableSelect_def Let_def split: if_splits)
  moreover have "\<not> has_word k ?c" if "k \<in> {''union'', ''intersect'', ''except''}"
  proof
    assume h: "has_word k ?c"
    let ?Q = "\<lambda>w. toLowerCase w = toLowerCase ''union'' \<or> toLowerCase w = toLowerCase ''intersect'' \<or> toLowerCase w = toLowerCase ''except''"
    have "spans (RCap 1 (RAlt (rlit_i ''union'') (RAlt (rlit_i ''intersect'') (rlit_i ''except'')))) ?Q"
      by (intro spans_cap spans_alt spans_lit_i)
    moreover have "is_words w" if "?Q w" for w
      using that words_lower [of w] unfolding lower_words by (auto simp: is_words_def is_word_c_code)
    ultimately have "re_test re_set_op ?c \<longleftrightarrow> (\<exists>a w b. ?c = a @ w @ b \<and> before_word a \<and> ?Q w \<and> ends_word b)"
      unfolding re_set_op_def rseq.simps ralt.simps by (rule bounded_test)
    with h that set_op show False unfolding has_word_def lower_words by blast
  qed
  ultimately show ?thesis
    using assms(2) word_test [OF words, of ?c] by blast
qed

lemma isSingleTableSelect_excludes_witness:
  "isSingleTableSelect ''SELECT a FROM t WHERE b = 1'' \<and>
   \<not> has_word ''join'' (bareSql ''SELECT a FROM t WHERE b = 1'')"
proof -
  have "isSingleTableSelect ''SELECT a FROM t WHERE b = 1''" by code_simp
  with isSingleTableSelect_excludes [OF this, of "''join''"] show ?thesis by simp
qed

end
