(* ===== verification/EditContext.thy ===== *)
theory EditContext
  imports SqlRefs Columns
begin

text \<open>
  \<open>src/src/query/editContext.js\<close>: whether the cells of a free query's result can be
  edited in place, and the context such an edit is addressed with. \<open>fetch\<close> is the
  helper's answer to a \<open>/columns\<close> path, \<open>None\<close> when the request fails.
\<close>

record edit_ctx =
  x_connId :: string
  x_database :: string
  x_schema :: string
  x_table :: string
  x_pks :: "string list"
  x_pkResultIdx :: "(string, nat) omap"
  x_colByIdx :: "(nat, col_info) omap"
  x_editableColIdx :: "nat list"

text \<open>\<open>new Map(cols.map((c) => [name, c]))\<close>: a later column of the same name wins.\<close>

definition byName :: "col_info list \<Rightarrow> (string, col_info) omap" where
  "byName cols = omap_of (map (\<lambda>c. (toLowerCase (ci_name c), c)) cols)"

definition result_index :: "string list \<Rightarrow> string \<Rightarrow> nat option" where
  "result_index columns pk = find_index (\<lambda>n. toLowerCase n = toLowerCase pk) columns"

text \<open>The loop over the key columns: \<open>None\<close> as soon as one is not projected.\<close>

fun pk_indices :: "string list \<Rightarrow> string list \<Rightarrow> (string, nat) omap \<Rightarrow> (string, nat) omap option" where
  "pk_indices columns [] m = Some m"
| "pk_indices columns (pk # pks) m = (case result_index columns pk of
       None \<Rightarrow> None
     | Some ri \<Rightarrow> pk_indices columns pks (omap_set m pk ri))"

definition matched_columns :: "(string, col_info) omap \<Rightarrow> string list \<Rightarrow> (nat, col_info) omap" where
  "matched_columns names columns =
     concat (map (\<lambda>(ci, name). case omap_get names (toLowerCase name) of
         None \<Rightarrow> [] | Some info \<Rightarrow> [(ci, info)]) (enumerate 0 columns))"

definition edit_context_of ::
  "session \<Rightarrow> cache_entry \<Rightarrow> col_info list \<Rightarrow> string list \<Rightarrow> edit_ctx option" where
  "edit_context_of s e cols columns =
     (let pks = map ci_name (filter ci_is_primary cols);
          colByIdx = matched_columns (byName cols) columns
      in if cols = [] \<or> pks = [] then None
         else (case pk_indices columns pks [] of
             None \<Rightarrow> None
           | Some idx \<Rightarrow>
               if colByIdx = [] then None
               else Some \<lparr> x_connId = s_connId s, x_database = e_database e, x_schema = e_schema e,
                 x_table = e_table e, x_pks = pks, x_pkResultIdx = idx, x_colByIdx = colByIdx,
                 x_editableColIdx = map fst colByIdx \<rparr>))"

definition resolveQueryEditContext ::
  "(string \<Rightarrow> col_info list option) \<Rightarrow> conn list \<Rightarrow> session \<Rightarrow> string \<Rightarrow> string list \<Rightarrow> edit_ctx option \<times> session" where
  "resolveQueryEditContext fetch cs s sql columns =
     (if \<not> isSingleTableSelect sql then (None, s)
      else let refs = parseSqlReferences sql in
        if length refs \<noteq> 1 then (None, s)
        else (case findCachedMatch s refs of
            None \<Rightarrow> (None, s)
          | Some e \<Rightarrow>
              if e_kind e = ''view'' then (None, s)
              else if isReadOnly cs (s_connId s) then (None, s)
              else let tkey = table_key (e_database e) (e_schema e) (e_table e) in
                (case omap_get (s_qcols s) tkey of
                   Some cols \<Rightarrow> (edit_context_of s e cols columns, s)
                 | None \<Rightarrow>
                     (case fetch (columns_path (s_connId s) (e_database e) (e_schema e) (e_table e)) of
                        None \<Rightarrow> (None, s)
                      | Some cols \<Rightarrow>
                          let s' = s\<lparr>s_qcols := omap_set (s_qcols s) tkey cols\<rparr>
                          in (edit_context_of s' e cols columns, s')))))"

section \<open>What an edit context guarantees\<close>

lemma result_index_Some:
  "result_index columns pk = Some i \<Longrightarrow> i < length columns \<and> toLowerCase (columns ! i) = toLowerCase pk"
  unfolding result_index_def by (drule find_index_Some) simp

definition index_ok :: "string list \<Rightarrow> string \<times> nat \<Rightarrow> bool" where
  "index_ok columns p = (snd p < length columns \<and> toLowerCase (columns ! snd p) = toLowerCase (fst p))"

lemma omap_set_mem: "x \<in> set (omap_set m k v) \<Longrightarrow> x \<in> set m \<or> x = (k, v)"
  by (induction m k v rule: omap_set.induct) (auto split: if_splits)

lemma pk_indices_ok:
  "pk_indices columns pks m = Some idx \<Longrightarrow> list_all (index_ok columns) m \<Longrightarrow>
     list_all (index_ok columns) idx \<and> set (omap_keys idx) = set (omap_keys m) \<union> set pks"
proof (induction pks arbitrary: m)
  case (Cons pk pks)
  then obtain ri where ri: "result_index columns pk = Some ri"
    and rec: "pk_indices columns pks (omap_set m pk ri) = Some idx" by (auto split: option.splits)
  have "list_all (index_ok columns) (omap_set m pk ri)"
    using Cons.prems(2) result_index_Some [OF ri] omap_set_mem [of _ m pk ri]
    unfolding list_all_iff by (fastforce simp: index_ok_def)
  from Cons.IH [OF rec this] show ?case by (auto simp: omap_keys_set)
qed simp

definition column_ok :: "col_info list \<Rightarrow> string list \<Rightarrow> nat \<times> col_info \<Rightarrow> bool" where
  "column_ok cols columns p = (fst p < length columns \<and> snd p \<in> set cols \<and>
     toLowerCase (ci_name (snd p)) = toLowerCase (columns ! fst p))"

lemma byName_get: "omap_get (byName cols) n = Some c \<Longrightarrow> c \<in> set cols \<and> toLowerCase (ci_name c) = n"
  unfolding byName_def omap_of_get by (drule omap_get_in) auto

lemma matched_columns_ok: "list_all (column_ok cols columns) (matched_columns (byName cols) columns)"
  unfolding matched_columns_def list_all_iff column_ok_def
  by (auto simp: in_set_enumerate_eq split: option.splits dest: byName_get [OF sym])

definition ctx_ok :: "edit_ctx \<Rightarrow> col_info list \<Rightarrow> string list \<Rightarrow> bool" where
  "ctx_ok x cols columns =
     (x_pks x \<noteq> [] \<and> x_pks x = map ci_name (filter ci_is_primary cols) \<and>
      set (omap_keys (x_pkResultIdx x)) = set (x_pks x) \<and>
      list_all (index_ok columns) (x_pkResultIdx x) \<and>
      x_editableColIdx x \<noteq> [] \<and> x_editableColIdx x = map fst (x_colByIdx x) \<and>
      list_all (column_ok cols columns) (x_colByIdx x))"

lemma edit_context_of_ok:
  "edit_context_of s e cols columns = Some x \<Longrightarrow> ctx_ok x cols columns \<and> x_connId x = s_connId s \<and>
     x_database x = e_database e \<and> x_schema x = e_schema e \<and> x_table x = e_table e"
proof -
  assume e: "edit_context_of s e cols columns = Some x"
  have "omap_keys ([] :: (string, nat) omap) = []" by (simp add: omap_keys_def)
  with e pk_indices_ok [of columns "map ci_name (filter ci_is_primary cols)" "[]"] matched_columns_ok [of cols columns]
  show ?thesis
    by (auto simp: edit_context_of_def Let_def ctx_ok_def split: if_splits option.splits)
qed


definition demo_conn :: conn where
  "demo_conn = \<lparr> c_id = ''c'', c_name = ''db'', c_kind = ''postgres'', c_host = ''h'', c_port = [],
     c_user = [], c_database = [], c_sqlitePath = [], c_sqliteReadOnly = False, c_allow_writes = True,
     c_sslMode = [], c_sshTunnel = [], c_query_timeout_ms = NInt 0, c_row_limit = NInt 0 \<rparr>"

definition name_column :: col_info where
  "name_column = \<lparr> ci_name = ''name'', ci_data_type = ''text'', ci_full_type = ''text'', ci_nullable = True,
     ci_is_primary = False, ci_auto_increment = False, ci_default = VNull \<rparr>"

definition demo_session :: session where
  "demo_session = new_session ''c''\<lparr>s_schemaCache := [hd demo_cache]\<rparr>"

definition demo_fetch :: "string \<Rightarrow> col_info list option" where
  "demo_fetch p = Some [id_column ''id'', name_column]"

lemma demo_resolve:
  "map_option x_pkResultIdx (fst (resolveQueryEditContext demo_fetch [demo_conn] demo_session
     ''SELECT name, id FROM users'' [''name'', ''id''])) = Some [(''id'', 1)]"
  by code_simp


text \<open>
  the key is found by the result column's name alone, so a computed column that
  carries a key column's name is taken for the key, aggregates included: editing a row
  of \<open>SELECT 7 AS id, name FROM users\<close> or of an aggregate
  \<open>SELECT max(id) AS id, min(name) AS name\<close> addresses the row whose key is the computed value.
\<close>

theorem resolveQueryEditContext_alias:
  "map_option x_pkResultIdx (fst (resolveQueryEditContext demo_fetch [demo_conn] demo_session
     ''SELECT 7 AS id, name FROM users'' [''id'', ''name''])) = Some [(''id'', 0)] \<and>
   map_option x_editableColIdx (fst (resolveQueryEditContext demo_fetch [demo_conn] demo_session
     ''SELECT max(id) AS id, min(name) AS name FROM users'' [''id'', ''name''])) = Some [0, 1]"
  by code_simp

end
