(* ===== verification/History.thy ===== *)
theory History
  imports RegexLang JsValue
begin

text \<open>
  \<open>src/src/query/history.js\<close>: the statements that were run, per connection, newest first.
  The stored setting is an ordered map from connection ids to lists; a value that is not
  a list (a damaged setting) is \<open>HOther\<close>. The operations take the module's cache and
  return it updated; the clock is an argument.
\<close>

record hentry =
  h_sql :: string
  h_at :: int

datatype hvalue = HList "hentry list" | HOther

type_synonym hist = "(string, hvalue) omap"

definition MAX_ENTRIES :: nat where
  "MAX_ENTRIES = 200"

definition MAX_SQL_LENGTH :: nat where
  "MAX_SQL_LENGTH = 20000"

text \<open>
  \<open>load\<close>: what \<open>settings.get\<close> gave is \<open>None\<close> when it failed or is not an object.
\<close>

definition load_history :: "hist option \<Rightarrow> hist option \<Rightarrow> hist" where
  "load_history cache saved = (case cache of Some h \<Rightarrow> h | None \<Rightarrow>
     (case saved of Some h \<Rightarrow> h | None \<Rightarrow> []))"

definition re_password :: re where
  "re_password = rseq [RWordB, RCap 1 (ralt [
       rseq [rlit_i ''IDENTIFIED'', rplus rspace, rlit_i ''BY''],
       rseq [rlit_i ''PASSWORD'', rstar rspace, rchar (CHR ''('')],
       rseq [rlit_i ''ENCRYPTED'', rplus rspace, rlit_i ''PASSWORD'']]), RWordB]"

definition entries_of :: "hist \<Rightarrow> string \<Rightarrow> hentry list" where
  "entries_of h connId = (case omap_get h connId of Some (HList es) \<Rightarrow> es | _ \<Rightarrow> [])"

definition skip_sql :: "string \<Rightarrow> string \<Rightarrow> bool" where
  "skip_sql connId t =
     (connId = [] \<or> t = [] \<or> length t > MAX_SQL_LENGTH \<or> re_test re_password t)"

text \<open>
  \<open>record\<close> updates the cache and writes it out. \<open>list.unshift\<close> changes the stored array
  itself; the slice then replaces it.
\<close>

definition record_sql :: "int \<Rightarrow> string \<Rightarrow> string \<Rightarrow> hist \<Rightarrow> hist" where
  "record_sql now connId sql h =
     (let t = js_trim sql in
      if skip_sql connId t then h
      else let es = entries_of h connId in
        if map_option h_sql (nth_opt es 0) = Some t then h
        else omap_set h connId (HList (take MAX_ENTRIES (\<lparr>h_sql = t, h_at = now\<rparr> # es))))"

definition list_history :: "hist \<Rightarrow> string \<Rightarrow> hentry list" where
  "list_history h connId = entries_of h connId"

definition clear_history :: "string \<Rightarrow> hist \<Rightarrow> hist" where
  "clear_history connId h = omap_delete h connId"

definition forgetConnection :: "string \<Rightarrow> hist \<Rightarrow> hist" where
  "forgetConnection connId h = clear_history connId h"

text \<open>\<open>Math.round(a / b)\<close> of a non-negative quotient rounds halves up.\<close>

definition round_div :: "int \<Rightarrow> int \<Rightarrow> int" where
  "round_div a b = (2 * a + b) div (2 * b)"

definition relativeTime :: "int \<Rightarrow> int \<Rightarrow> string" where
  "relativeTime now ts =
     (let secs = max 0 (round_div (now - ts) 1000) in
      if secs < 60 then ''just now''
      else let mins = round_div secs 60 in
        if mins < 60 then int_to_string mins @ ''m ago''
        else let hours = round_div mins 60 in
          if hours < 24 then int_to_string hours @ ''h ago''
          else int_to_string (round_div hours 24) @ ''d ago'')"

section \<open>Invariant\<close>

definition entry_ok :: "hentry \<Rightarrow> bool" where
  "entry_ok e = (h_sql e \<noteq> [] \<and> trimmed (h_sql e) \<and> length (h_sql e) \<le> MAX_SQL_LENGTH \<and>
     \<not> re_test re_password (h_sql e))"

definition value_ok :: "hvalue \<Rightarrow> bool" where
  "value_ok v = (case v of HOther \<Rightarrow> True
     | HList es \<Rightarrow> length es \<le> MAX_ENTRIES \<and> list_all entry_ok es \<and> distinct_adj (map h_sql es))"

definition hist_ok :: "hist \<Rightarrow> bool" where
  "hist_ok h = (omap_wf h \<and> list_all value_ok (omap_values h))"

lemma hist_ok_entries:
  "hist_ok h \<Longrightarrow> length (entries_of h i) \<le> MAX_ENTRIES \<and> list_all entry_ok (entries_of h i) \<and>
     distinct_adj (map h_sql (entries_of h i))"
proof (cases "omap_get h i")
  case (Some v)
  assume "hist_ok h"
  moreover have "v \<in> set (omap_values h)"
    using omap_get_in [OF Some] by (force simp: omap_values_def)
  ultimately have "value_ok v" by (auto simp: hist_ok_def list_all_iff)
  with Some show ?thesis by (auto simp: entries_of_def value_ok_def split: hvalue.splits)
qed (simp add: entries_of_def)

lemma hist_ok_set [wf_intros]:
  "hist_ok h \<Longrightarrow> value_ok v \<Longrightarrow> hist_ok (omap_set h i v)"
  using omap_values_set_subset [of h i v] by (auto simp: hist_ok_def list_all_iff intro: omap_wf_set)

lemma hist_ok_delete [wf_intros]: "hist_ok h \<Longrightarrow> hist_ok (omap_delete h i)"
  by (auto simp: hist_ok_def list_all_iff omap_values_def omap_delete_def
      intro: omap_wf_delete [unfolded omap_delete_def])

lemma distinct_adj_take: "distinct_adj xs \<Longrightarrow> distinct_adj (take n xs)"
  by (metis append_take_drop_id distinct_adj_append_iff)

lemma record_value_ok:
  assumes "hist_ok h" "\<not> skip_sql i (js_trim sql)"
    "map_option h_sql (nth_opt (entries_of h i) 0) \<noteq> Some (js_trim sql)"
  shows "value_ok (HList (take MAX_ENTRIES (\<lparr>h_sql = js_trim sql, h_at = now\<rparr> # entries_of h i)))"
proof -
  let ?e = "\<lparr>h_sql = js_trim sql, h_at = now\<rparr>" and ?es = "entries_of h i"
  have "entry_ok ?e" using assms(2) by (simp add: entry_ok_def skip_sql_def)
  moreover have "distinct_adj (map h_sql (?e # ?es))"
    using assms(3) hist_ok_entries [OF assms(1), of i] by (cases ?es) auto
  then have "distinct_adj (map h_sql (take MAX_ENTRIES (?e # ?es)))"
    unfolding take_map [symmetric] by (rule distinct_adj_take)
  moreover have "list_all entry_ok (?e # ?es)"
    using calculation(1) hist_ok_entries [OF assms(1), of i] by simp
  then have "list_all entry_ok (take MAX_ENTRIES (?e # ?es))"
    unfolding list_all_iff using set_take_subset by fastforce
  ultimately show ?thesis by (simp add: value_ok_def)
qed

text \<open>
  Recording a statement keeps the history well formed (at most 200 entries per
  connection, each trimmed, non-empty, of bounded length and past the password filter,
  no statement twice in a row), puts the statement first unless it is one of those to be
  skipped, and leaves every other connection's history alone.
\<close>

theorem record_sql_correct:
  assumes "hist_ok h"
  shows "hist_ok (record_sql now i sql h) \<and>
    (\<not> skip_sql i (js_trim sql) \<longrightarrow>
       map_option h_sql (nth_opt (list_history (record_sql now i sql h) i) 0) = Some (js_trim sql)) \<and>
    (skip_sql i (js_trim sql) \<longrightarrow> record_sql now i sql h = h) \<and>
    (j \<noteq> i \<longrightarrow> list_history (record_sql now i sql h) j = list_history h j)"
proof -
  have "hist_ok (record_sql now i sql h)"
    using record_value_ok [OF assms, of i sql now] assms hist_ok_set
    by (simp add: record_sql_def Let_def)
  then show ?thesis
    by (auto simp: record_sql_def Let_def list_history_def entries_of_def omap_get_set MAX_ENTRIES_def)
qed

lemma record_sql_correct_witness:
  "map_option h_sql (nth_opt (list_history (record_sql 5 ''c'' ''  select 1 '' []) ''c'') 0) = Some ''select 1'' \<and>
   hist_ok (record_sql 5 ''c'' ''  select 1 '' [])"
proof -
  have "hist_ok []" by (simp add: hist_ok_def omap_values_def)
  moreover have "\<not> skip_sql ''c'' (js_trim ''  select 1 '')" "js_trim ''  select 1 '' = ''select 1''" by code_simp+
  ultimately show ?thesis using record_sql_correct [of "[]" 5 "''c''" "''  select 1 ''"] by simp
qed

text \<open>
  Clearing a connection (or deleting it) leaves nothing of its history, and keeps
  the invariant and every other connection's history.
\<close>

theorem forgetConnection_correct:
  "list_history (forgetConnection i h) i = [] \<and>
   (hist_ok h \<longrightarrow> hist_ok (forgetConnection i h)) \<and>
   (j \<noteq> i \<longrightarrow> list_history (forgetConnection i h) j = list_history h j)"
  by (auto simp: forgetConnection_def clear_history_def list_history_def entries_of_def omap_get_delete
      intro: hist_ok_delete)

lemma forgetConnection_correct_witness:
  "hist_ok (forgetConnection ''c'' (record_sql 5 ''c'' ''select 1'' [])) \<and>
   list_history (forgetConnection ''c'' (record_sql 5 ''c'' ''select 1'' [])) ''c'' = []"
proof -
  have "hist_ok (record_sql 5 ''c'' ''select 1'' [])"
    using record_sql_correct [of "[]" 5 "''c''" "''select 1''"] by (simp add: hist_ok_def omap_values_def)
  with forgetConnection_correct [of "''c''" "record_sql 5 ''c'' ''select 1'' []" "''d''"] show ?thesis by simp
qed

text \<open>
  Two spellings of a statement that sets a password get past the filter and are
  stored in clear: a call of PASSWORD with a quoted argument (the pattern asks for a word
  character right after the parenthesis) and the PostgreSQL form without ENCRYPTED.
\<close>

theorem record_sql_password:
  "list_history (record_sql 1 ''c'' (''SET PASSWORD = PASSWORD('' @ [CHR 0x27] @ ''hunter2'' @ [CHR 0x27] @ '')'') []) ''c''
     = [\<lparr>h_sql = ''SET PASSWORD = PASSWORD('' @ [CHR 0x27] @ ''hunter2'' @ [CHR 0x27] @ '')'', h_at = 1\<rparr>] \<and>
   list_history (record_sql 1 ''c'' (''ALTER ROLE me WITH PASSWORD '' @ [CHR 0x27] @ ''hunter2'' @ [CHR 0x27]) []) ''c''
     = [\<lparr>h_sql = ''ALTER ROLE me WITH PASSWORD '' @ [CHR 0x27] @ ''hunter2'' @ [CHR 0x27], h_at = 1\<rparr>]"
proof -
  let ?my = "''SET PASSWORD = PASSWORD('' @ [CHR 0x27] @ ''hunter2'' @ [CHR 0x27] @ '')''"
  let ?pg = "''ALTER ROLE me WITH PASSWORD '' @ [CHR 0x27] @ ''hunter2'' @ [CHR 0x27]"
  have "\<not> re_test re_password ?my" "\<not> re_test re_password ?pg" by code_simp+
  then have "\<not> skip_sql ''c'' ?my" "\<not> skip_sql ''c'' ?pg"
    by (simp_all add: skip_sql_def MAX_SQL_LENGTH_def)
  moreover have "js_trim ?my = ?my" "js_trim ?pg = ?pg" by code_simp+
  ultimately show ?thesis
    by (simp add: record_sql_def Let_def list_history_def entries_of_def MAX_ENTRIES_def)
qed

end
