(* ===== verification/Store.thy ===== *)
theory Store
  imports Dialects
begin

text \<open>
  \<open>src/src/connections/store.js\<close>: the saved connections and the workbench session in the
  host's settings, passwords in the keychain, validation and normalisation of the
  connection form, and the reading of the database field. What the host's settings answer
  is an argument, \<open>None\<close> when the call fails; the keychain is an ordered map.

  The refresh of the connection list runs beside this window's own writes. The last
  section models that as a step relation over the calls in flight.
\<close>

section \<open>Settings\<close>

definition loadSavedConnections :: "conn list option \<Rightarrow> app \<Rightarrow> app" where
  "loadSavedConnections saved a = (case saved of None \<Rightarrow> a | Some cs \<Rightarrow> a\<lparr>a_connections := cs\<rparr>)"

definition ensureSession :: "string \<Rightarrow> app \<Rightarrow> app" where
  "ensureSession i a = (if omap_has (a_sessions a) i then a
     else a\<lparr>a_sessions := omap_set (a_sessions a) i (new_session i)\<rparr>)"

definition session_of :: "app \<Rightarrow> string \<Rightarrow> session" where
  "session_of a i = (case omap_get (a_sessions a) i of Some s \<Rightarrow> s | None \<Rightarrow> new_session i)"

definition update_session :: "string \<Rightarrow> (session \<Rightarrow> session) \<Rightarrow> app \<Rightarrow> app" where
  "update_session i f a = a\<lparr>a_sessions := omap_set (a_sessions a) i (f (session_of a i))\<rparr>"

text \<open>The saved record: a statement that is not text reads as \<open>None\<close>.\<close>

record saved_session =
  v_sql :: "string option"
  v_activeTable :: "table_ref option"

record workbench =
  wb_active :: "string option"
  wb_sessions :: "(string, saved_session) omap"

definition saveWorkbenchSession :: "app \<Rightarrow> workbench" where
  "saveWorkbenchSession a = \<lparr> wb_active = a_active a,
     wb_sessions = map (\<lambda>(i, s). (i, \<lparr>v_sql = Some (s_sql s), v_activeTable = s_activeTable s\<rparr>)) (a_sessions a) \<rparr>"

definition has_conn :: "app \<Rightarrow> string \<Rightarrow> bool" where
  "has_conn a i = list_ex (\<lambda>c. c_id c = i) (a_connections a)"

definition restore_one :: "string \<times> saved_session \<Rightarrow> app \<Rightarrow> app" where
  "restore_one e a = (case e of (i, v) \<Rightarrow>
     if \<not> has_conn a i then a
     else update_session i (\<lambda>s. s\<lparr>
         s_sql := (case v_sql v of Some q \<Rightarrow> q | None \<Rightarrow> s_sql s),
         s_activeTable := (case v_activeTable v of Some t \<Rightarrow> Some t | None \<Rightarrow> s_activeTable s)\<rparr>)
       (ensureSession i a))"

definition restoreWorkbenchSession :: "workbench option \<Rightarrow> app \<Rightarrow> string option \<times> app" where
  "restoreWorkbenchSession saved a = (case saved of
       None \<Rightarrow> (None, a)
     | Some w \<Rightarrow>
        (let a1 = fold restore_one (wb_sessions w) a;
             a2 = (case wb_active w of
                 None \<Rightarrow> a1
               | Some i \<Rightarrow> if i \<noteq> [] \<and> has_conn a1 i then a1\<lparr>a_active := Some i\<rparr> else a1)
         in (a_active a2, a2)))"

lemma session_of_ensure [simp]: "session_of (ensureSession j a) i = session_of a i"
  by (auto simp: session_of_def ensureSession_def omap_has_def omap_get_set split: option.splits)

lemma session_of_update:
  "session_of (update_session j f a) i = (if i = j then f (session_of a j) else session_of a i)"
  by (simp add: update_session_def session_of_def [of "_\<lparr>a_sessions := _\<rparr>"] omap_get_set)
     (simp add: session_of_def)

lemma has_conn_restore [simp]: "has_conn (restore_one e a) i = has_conn a i"
  by (auto simp: has_conn_def restore_one_def update_session_def ensureSession_def split: prod.splits)

lemma restore_one_session:
  "session_of (restore_one (j, v) a) i =
     (if i = j \<and> has_conn a j
      then (session_of a i)\<lparr>
         s_sql := (case v_sql v of Some q \<Rightarrow> q | None \<Rightarrow> s_sql (session_of a i)),
         s_activeTable := (case v_activeTable v of Some t \<Rightarrow> Some t | None \<Rightarrow> s_activeTable (session_of a i))\<rparr>
      else session_of a i)"
  by (auto simp: restore_one_def session_of_update split: option.splits)

lemma restore_fold_other:
  "i \<notin> fst ` set es \<Longrightarrow> session_of (fold restore_one es a) i = session_of a i"
  by (induction es arbitrary: a) (auto simp: restore_one_session)

lemma restore_fold_conn [simp]: "has_conn (fold restore_one es a) i = has_conn a i"
  by (induction es arbitrary: a) auto

lemma restore_one_active [simp]: "a_active (restore_one e a) = a_active a"
  by (auto simp: restore_one_def update_session_def ensureSession_def split: prod.splits)

lemma restore_fold_active [simp]: "a_active (fold restore_one es a) = a_active a"
  by (induction es arbitrary: a) auto

lemma restore_fold_session:
  "distinct (map fst es) \<Longrightarrow> (i, v) \<in> set es \<Longrightarrow> has_conn a i \<Longrightarrow>
     session_of (fold restore_one es a) i = session_of (restore_one (i, v) a) i"
proof (induction es arbitrary: a)
  case (Cons e es)
  show ?case
  proof (cases "e = (i, v)")
    case True
    with Cons.prems have "i \<notin> fst ` set es" by auto
    with True show ?thesis by (simp add: restore_fold_other)
  next
    case False
    with Cons.prems have mem: "(i, v) \<in> set es" by auto
    then have "i \<in> fst ` set es" by force
    with Cons.prems(1) have ne: "fst e \<noteq> i" by auto
    obtain j u where e: "e = (j, u)" by (cases e)
    have "session_of (restore_one e a) i = session_of a i" using ne e by (simp add: restore_one_session)
    then have "session_of (restore_one (i, v) (restore_one e a)) i = session_of (restore_one (i, v) a) i"
      by (auto simp: restore_one_session split: option.splits)
    with Cons.IH [of "restore_one e a"] Cons.prems mem show ?thesis by simp
  qed
qed simp

lemma workbench_restored:
  assumes wf: "omap_wf (a_sessions a)" and fresh: "a_sessions b = []"
    and mem: "omap_get (a_sessions a) i = Some s" and ex: "has_conn b i"
  shows "s_sql (session_of (snd (restoreWorkbenchSession (Some (saveWorkbenchSession a)) b)) i) = s_sql s \<and>
    s_activeTable (session_of (snd (restoreWorkbenchSession (Some (saveWorkbenchSession a)) b)) i) = s_activeTable s \<and>
    (a_active a = Some i \<and> i \<noteq> [] \<longrightarrow>
       fst (restoreWorkbenchSession (Some (saveWorkbenchSession a)) b) = Some i)"
proof -
  let ?es = "wb_sessions (saveWorkbenchSession a)"
  let ?v = "\<lparr>v_sql = Some (s_sql s), v_activeTable = s_activeTable s\<rparr>"
  have "distinct (map fst ?es)"
    using wf by (simp add: saveWorkbenchSession_def omap_wf_def omap_keys_def comp_def case_prod_beta)
  moreover have "(i, ?v) \<in> set ?es"
    using omap_get_in [OF mem] by (force simp: saveWorkbenchSession_def)
  ultimately have f: "session_of (fold restore_one ?es b) i = session_of (restore_one (i, ?v) b) i"
    using ex by (rule restore_fold_session)
  have "session_of b i = new_session i" using fresh by (simp add: session_of_def)
  then have g: "s_sql (session_of (fold restore_one ?es b) i) = s_sql s \<and>
      s_activeTable (session_of (fold restore_one ?es b) i) = s_activeTable s"
    using f ex by (simp add: restore_one_session new_session_def split: option.splits)
  have "session_of (snd (restoreWorkbenchSession (Some (saveWorkbenchSession a)) b)) i =
      session_of (fold restore_one ?es b) i"
    by (simp add: restoreWorkbenchSession_def Let_def session_of_def split: option.splits)
  moreover have "fst (restoreWorkbenchSession (Some (saveWorkbenchSession a)) b) = Some i"
    if "a_active a = Some i" "i \<noteq> []"
    using that ex by (simp add: restoreWorkbenchSession_def Let_def saveWorkbenchSession_def)
  ultimately show ?thesis using g by simp
qed

text \<open>
  closing and reopening the workbench (or popping it out into another window) gives
  back, for every connection that still exists, the text of its editor and the table it
  showed, and the connection that was active.
\<close>

theorem workbench_roundtrip:
  assumes wf: "omap_wf (a_sessions a)" and fresh: "a_sessions b = []"
    and mem: "omap_get (a_sessions a) i = Some s" and ex: "has_conn b i"
  shows "s_sql (session_of (snd (restoreWorkbenchSession (Some (saveWorkbenchSession a)) b)) i) = s_sql s \<and>
    s_activeTable (session_of (snd (restoreWorkbenchSession (Some (saveWorkbenchSession a)) b)) i) = s_activeTable s \<and>
    (a_active a = Some i \<and> i \<noteq> [] \<longrightarrow>
       fst (restoreWorkbenchSession (Some (saveWorkbenchSession a)) b) = Some i)"
  using assms by (rule workbench_restored)

definition plain_conn :: "string \<Rightarrow> string \<Rightarrow> string \<Rightarrow> conn" where
  "plain_conn i kind database = \<lparr> c_id = i, c_name = i, c_kind = kind, c_host = ''h'', c_port = [],
     c_user = [], c_database = database, c_sqlitePath = [], c_sqliteReadOnly = False, c_allow_writes = True,
     c_sslMode = [], c_sshTunnel = [], c_query_timeout_ms = NInt 0, c_row_limit = NInt 0 \<rparr>"

lemma workbench_roundtrip_witness:
  "let a = \<lparr>a_connections = [plain_conn ''c'' ''mysql'' []], a_active = Some ''c'',
            a_sessions = [(''c'', new_session ''c''\<lparr>s_sql := ''select 2''\<rparr>)], a_connStatus = []\<rparr>;
       b = \<lparr>a_connections = [plain_conn ''c'' ''mysql'' []], a_active = None, a_sessions = [], a_connStatus = []\<rparr>;
       r = restoreWorkbenchSession (Some (saveWorkbenchSession a)) b
   in s_sql (session_of (snd r) ''c'') = ''select 2'' \<and> fst r = Some ''c''"
  using workbench_roundtrip [of "\<lparr>a_connections = [plain_conn ''c'' ''mysql'' []], a_active = Some ''c'',
            a_sessions = [(''c'', new_session ''c''\<lparr>s_sql := ''select 2''\<rparr>)], a_connStatus = []\<rparr>"
      "\<lparr>a_connections = [plain_conn ''c'' ''mysql'' []], a_active = None, a_sessions = [], a_connStatus = []\<rparr>" "''c''"
      "new_session ''c''\<lparr>s_sql := ''select 2''\<rparr>"]
  by (simp add: omap_wf_def omap_keys_def has_conn_def plain_conn_def Let_def)

section \<open>Secrets\<close>

type_synonym keychain = "(string, string) omap"

definition secret_key :: "string \<Rightarrow> string" where
  "secret_key connId = ''conn:'' @ connId"

definition setSecret :: "string \<Rightarrow> string option \<Rightarrow> keychain \<Rightarrow> keychain" where
  "setSecret connId password k = (case password of
       None \<Rightarrow> k | Some p \<Rightarrow> if p = [] then k else omap_set k (secret_key connId) p)"

definition getSecret :: "string \<Rightarrow> keychain \<Rightarrow> string option" where
  "getSecret connId k = omap_get k (secret_key connId)"

text \<open>\<open>can_delete\<close>: the host has \<open>secrets.delete\<close>.\<close>

definition deleteSecret :: "bool \<Rightarrow> string \<Rightarrow> keychain \<Rightarrow> keychain" where
  "deleteSecret can_delete connId k =
     (if can_delete then omap_delete k (secret_key connId) else omap_set k (secret_key connId) [])"

section \<open>Form helpers\<close>

definition scopedDatabases :: "conn \<Rightarrow> string list" where
  "scopedDatabases c =
     (if d_databaseIsConnectTarget (getDialect (Some (c_kind c))) then []
      else filter (\<lambda>s. s \<noteq> []) (map js_trim (split_char (CHR '','') (c_database c))))"

definition connectTargetDatabase :: "conn \<Rightarrow> string option" where
  "connectTargetDatabase f =
     (if d_databaseIsConnectTarget (getDialect (Some (c_kind f)))
      then (if c_database f = [] then None else Some (c_database f))
      else nth_opt (scopedDatabases f) 0)"

definition validateForm :: "conn \<Rightarrow> string + unit" where
  "validateForm f =
     (if c_name f = [] \<and> c_id f = [] then Inl ''Name is required''
      else if c_kind f = ''sqlite'' \<and> c_sqlitePath f = [] then Inl ''SQLite file path is required''
      else if c_kind f \<noteq> ''sqlite'' \<and> c_host f = [] then Inl ''Host is required''
      else Inr ())"

definition formToPersistable :: "form \<Rightarrow> conn" where
  "formToPersistable f = (let rest = conn.truncate f in
     if c_kind rest = ''sqlite''
     then rest\<lparr>c_host := [], c_port := [], c_user := [], c_database := []\<rparr>
     else rest)"

definition scope_name :: "string \<Rightarrow> bool" where
  "scope_name s = (s \<noteq> [] \<and> trimmed s \<and> CHR '','' \<notin> set s)"

lemma scopedDatabases_names: "list_all scope_name (scopedDatabases c)"
  using split_char_no_sep [of "CHR '',''" "c_database c"] js_trim_set
  by (fastforce simp: scopedDatabases_def list_all_iff scope_name_def)

lemma map_trim_id: "list_all scope_name ds \<Longrightarrow> map js_trim ds = ds"
  by (induction ds) (auto simp: scope_name_def trimmed_js_trim)

text \<open>
  for an engine whose database field is a filter, the field lists exactly the
  non-empty names between its commas, trimmed; writing such a list back into the field
  reads as the same list, and the database handed to the helper is the first of them,
  never the list itself.
\<close>

theorem scopedDatabases_roundtrip:
  assumes "c_kind c \<noteq> ''postgres''"
  shows "list_all scope_name (scopedDatabases c) \<and>
    scopedDatabases (c\<lparr>c_database := js_join '','' (scopedDatabases c)\<rparr>) = scopedDatabases c \<and>
    connectTargetDatabase c = (case scopedDatabases c of [] \<Rightarrow> None | d # _ \<Rightarrow> Some d)"
proof -
  let ?ds = "scopedDatabases c"
  have nt: "\<not> d_databaseIsConnectTarget (getDialect (Some (c_kind c)))"
    using assms by (simp add: getDialect_connectTarget)
  have names: "list_all scope_name ?ds" by (rule scopedDatabases_names)
  have "scopedDatabases (c\<lparr>c_database := js_join '','' ?ds\<rparr>) = ?ds"
  proof (cases "?ds = []")
    case True
    then show ?thesis using nt by (simp add: scopedDatabases_def js_trim_def trim_end_def trim_start_def)
  next
    case False
    have "\<forall>p\<in>set ?ds. CHR '','' \<notin> set p" using names by (auto simp: list_all_iff scope_name_def)
    from split_char_of_join [OF False this] have "split_char (CHR '','') (js_join '','' ?ds) = ?ds" .
    moreover have "filter (\<lambda>s. s \<noteq> []) ?ds = ?ds"
      using names by (auto simp: filter_id_conv list_all_iff scope_name_def)
    ultimately show ?thesis
      using nt map_trim_id [OF names] by (simp add: scopedDatabases_def [of "c\<lparr>c_database := _\<rparr>"])
  qed
  with names nt show ?thesis
    by (cases ?ds) (simp_all add: connectTargetDatabase_def)
qed

lemma scopedDatabases_roundtrip_witness:
  "scopedDatabases (plain_conn ''c'' ''mysql'' '' app , , audit'') = [''app'', ''audit''] \<and>
   connectTargetDatabase (plain_conn ''c'' ''mysql'' '' app , , audit'') = Some ''app''"
proof -
  have e: "scopedDatabases (plain_conn ''c'' ''mysql'' '' app , , audit'') = [''app'', ''audit'']" by code_simp
  then show ?thesis
    using scopedDatabases_roundtrip [of "plain_conn ''c'' ''mysql'' '' app , , audit''"]
    by (simp add: plain_conn_def)
qed

section \<open>Refreshing the list beside one's own writes\<close>

text \<open>The result of a refresh whose read began at revision \<open>before\<close> and returned \<open>saved\<close>.\<close>

definition refreshSavedConnections ::
  "nat \<Rightarrow> nat \<Rightarrow> conn list option \<Rightarrow> conn list \<Rightarrow> bool \<times> conn list" where
  "refreshSavedConnections before revision saved mem = (case saved of
       None \<Rightarrow> (False, mem)
     | Some cs \<Rightarrow>
         if revision \<noteq> before then (False, mem)
         else if cs = mem then (False, mem)
         else (True, cs))"

text \<open>\<open>persistConnections\<close> bumps the revision before it hands the list to the host.\<close>

record window =
  w_mem :: "conn list"
  w_rev :: nat
  w_disk :: "conn list"
  w_writes :: "conn list list"
  w_read :: "(nat \<times> conn list option) option"

definition persistConnections :: "window \<Rightarrow> window" where
  "persistConnections w = w\<lparr>w_rev := w_rev w + 1, w_writes := w_writes w @ [w_mem w]\<rparr>"

text \<open>
  The steps of one window: a change of the list followed by \<open>persistConnections\<close>, a write
  reaching the settings, a refresh starting its read, the host answering it, and the
  refresh finishing. With \<open>calm\<close> a refresh starts only when no write is in flight.
\<close>

inductive window_step :: "bool \<Rightarrow> window \<Rightarrow> window \<Rightarrow> bool" for calm where
  edit: "window_step calm w (persistConnections (w\<lparr>w_mem := cs\<rparr>))"
| lands: "w_writes w = cs # ws \<Longrightarrow> window_step calm w (w\<lparr>w_disk := cs, w_writes := ws\<rparr>)"
| read_start: "w_read w = None \<Longrightarrow> (calm \<Longrightarrow> w_writes w = []) \<Longrightarrow>
    window_step calm w (w\<lparr>w_read := Some (w_rev w, None)\<rparr>)"
| read_served: "w_read w = Some (b, None) \<Longrightarrow>
    window_step calm w (w\<lparr>w_read := Some (b, Some (w_disk w))\<rparr>)"
| read_done: "w_read w = Some (b, Some cs) \<Longrightarrow>
    window_step calm w (w\<lparr>w_mem := snd (refreshSavedConnections b (w_rev w) (Some cs) (w_mem w)), w_read := None\<rparr>)"

inductive_cases window_stepE: "window_step calm w w'"

inductive window_reach :: "bool \<Rightarrow> window \<Rightarrow> window \<Rightarrow> bool" for calm and w where
  reach_refl: "window_reach calm w w"
| reach_step: "window_reach calm w u \<Longrightarrow> window_step calm u v \<Longrightarrow> window_reach calm w v"

definition window_start :: "conn list \<Rightarrow> window" where
  "window_start cs = \<lparr>w_mem = cs, w_rev = 0, w_disk = cs, w_writes = [], w_read = None\<rparr>"

text \<open>What this window last decided the list to be: the newest write in flight, or the disk.\<close>

definition settled :: "window \<Rightarrow> conn list" where
  "settled w = (if w_writes w = [] then w_disk w else last (w_writes w))"

definition window_inv :: "window \<Rightarrow> bool" where
  "window_inv w = (w_mem w = settled w \<and>
     (case w_read w of None \<Rightarrow> True
      | Some (b, sv) \<Rightarrow> b \<le> w_rev w \<and>
          (b = w_rev w \<longrightarrow> w_writes w = [] \<and> (case sv of None \<Rightarrow> True | Some cs \<Rightarrow> cs = w_mem w))))"

lemma window_step_inv: "window_step True w w' \<Longrightarrow> window_inv w \<Longrightarrow> window_inv w'"
  by (induction rule: window_step.induct)
     (auto simp: window_inv_def settled_def persistConnections_def refreshSavedConnections_def
       split: option.splits if_splits)

lemma window_reach_inv: "window_reach True w w' \<Longrightarrow> window_inv w \<Longrightarrow> window_inv w'"
  by (induction rule: window_reach.induct) (auto dest: window_step_inv)



text \<open>
  the revision check alone does not give this. If the host may answer a read before
  an earlier write has landed, a refresh that starts between the call and the landing of
  the write sees an unchanged revision and puts the older list back: the new connection
  is gone from memory while it is on its way to the settings.
\<close>

theorem refresh_loses_write_in_flight:
  "\<exists>w. window_reach False (window_start []) w \<and> w_writes w = [] \<and>
     w_disk w = [plain_conn ''c'' ''mysql'' []] \<and> w_mem w = []"
proof -
  let ?c = "plain_conn ''c'' ''mysql'' []"
  let ?w1 = "persistConnections ((window_start [])\<lparr>w_mem := [?c]\<rparr>)"
  let ?w2 = "?w1\<lparr>w_read := Some (w_rev ?w1, None)\<rparr>"
  let ?w3 = "?w2\<lparr>w_read := Some (w_rev ?w1, Some (w_disk ?w2))\<rparr>"
  let ?w4 = "?w3\<lparr>w_mem := snd (refreshSavedConnections (w_rev ?w1) (w_rev ?w3) (Some (w_disk ?w2)) (w_mem ?w3)), w_read := None\<rparr>"
  let ?w5 = "?w4\<lparr>w_disk := [?c], w_writes := []\<rparr>"
  note defs = persistConnections_def window_start_def
  have "window_reach False (window_start []) ?w1" by (rule reach_step [OF reach_refl edit])
  then have "window_reach False (window_start []) ?w2"
    by (rule reach_step [OF _ read_start]) (simp_all add: defs)
  then have "window_reach False (window_start []) ?w3"
    by (rule reach_step [OF _ read_served]) simp
  then have "window_reach False (window_start []) ?w4"
    by (rule reach_step [OF _ read_done]) simp
  then have r: "window_reach False (window_start []) ?w5"
    by (rule reach_step [OF _ lands]) (simp add: defs)
  have "w_mem ?w5 = []" by (simp add: defs refreshSavedConnections_def)
  with r show ?thesis by (intro exI [of _ ?w5]) simp
qed

end
