(* ===== verification/Json.thy ===== *)
theory Json
  imports JsValue
begin

text \<open>
  \<open>JSON.parse\<close> and the indented \<open>JSON.stringify\<close>. The parser reads the JSON grammar over
  the values of the model: numbers (rounded to doubles), strings with every escape whose code unit is
  below 256, arrays, objects (a repeated member keeps its first position and its last
  value, as in JavaScript). It is a recursive descent with a fuel that bounds the number
  of nested and successive values; \<open>parse_json\<close> gives it the length of the text.

  The main lemma is the round trip: a value of doubles, without \<open>undefined\<close>, NaN, infinities
  and repeated members, printed compactly or indented, parses back to itself.
\<close>

section \<open>Printing with indentation\<close>

text \<open>\<open>JSON.stringify(v, null, ind)\<close>; \<open>ind = 0\<close> is the compact form, \<open>d\<close> the depth.\<close>

definition json_nl :: "nat \<Rightarrow> nat \<Rightarrow> string" where
  "json_nl ind d = (if ind = 0 then [] else CHR 0x0A # replicate (ind * d) (CHR '' ''))"

definition json_colon :: "nat \<Rightarrow> string" where
  "json_colon ind = (if ind = 0 then '':'' else '': '')"

definition json_block :: "nat \<Rightarrow> nat \<Rightarrow> char \<Rightarrow> string list \<Rightarrow> char \<Rightarrow> string" where
  "json_block ind d a parts b =
     (if parts = [] then [a, b]
      else a # json_nl ind (Suc d) @ js_join ('','' @ json_nl ind (Suc d)) parts @ json_nl ind d @ [b])"

fun json_fmt :: "nat \<Rightarrow> nat \<Rightarrow> jsval \<Rightarrow> string"
  and json_fmt_elems :: "nat \<Rightarrow> nat \<Rightarrow> jsval list \<Rightarrow> string list"
  and json_fmt_members :: "nat \<Rightarrow> nat \<Rightarrow> (string \<times> jsval) list \<Rightarrow> string list" where
  "json_fmt ind d VUndef = ''null''"
| "json_fmt ind d VNull = ''null''"
| "json_fmt ind d (VBool b) = (if b then ''true'' else ''false'')"
| "json_fmt ind d (VNum n) = json_num n"
| "json_fmt ind d (VStr s) = json_quote s"
| "json_fmt ind d (VArr vs) = json_block ind d (CHR ''['') (json_fmt_elems ind (Suc d) vs) (CHR '']'')"
| "json_fmt ind d (VObj ps) = json_block ind d (CHR ''{'') (json_fmt_members ind (Suc d) ps) (CHR ''}'')"
| "json_fmt_elems ind d [] = []"
| "json_fmt_elems ind d (v # vs) = json_fmt ind d v # json_fmt_elems ind d vs"
| "json_fmt_members ind d [] = []"
| "json_fmt_members ind d ((k, v) # ps) =
     (if v = VUndef then json_fmt_members ind d ps
      else (json_quote k @ json_colon ind @ json_fmt ind d v) # json_fmt_members ind d ps)"

lemma json_fmt_compact:
  "json_fmt 0 d v = json_text v"
  "json_fmt_elems 0 d vs = json_elems vs"
  "json_fmt_members 0 d ps = json_members ps"
proof (induction v and vs and ps arbitrary: d and d and d rule: json_text_json_elems_json_members.induct)
  case (6 vs)
  then show ?case by (cases vs) (auto simp: json_block_def json_nl_def)
next
  case (7 ps)
  then show ?case by (auto simp: json_block_def json_nl_def)
qed (simp_all add: json_colon_def)

section \<open>Parsing\<close>

definition json_space :: "char \<Rightarrow> bool" where
  "json_space c = (c = CHR '' '' \<or> c = CHR 0x0A \<or> c = CHR 0x0D \<or> c = CHR 0x09)"

definition skip_space :: "string \<Rightarrow> string" where
  "skip_space s = dropWhile json_space s"

definition hex_digit_val :: "char \<Rightarrow> nat option" where
  "hex_digit_val c = (let n = of_char c in
     if 48 \<le> n \<and> n \<le> 57 then Some (n - 48)
     else if 97 \<le> n \<and> n \<le> 102 then Some (n - 87)
     else if 65 \<le> n \<and> n \<le> 70 then Some (n - 55) else None)"

definition hex4 :: "char \<Rightarrow> char \<Rightarrow> char \<Rightarrow> char \<Rightarrow> char option" where
  "hex4 a b c d = (case (hex_digit_val a, hex_digit_val b, hex_digit_val c, hex_digit_val d) of
       (Some w, Some x, Some y, Some z) \<Rightarrow>
         if w = 0 \<and> x = 0 then Some (char_of (16 * y + z)) else None
     | _ \<Rightarrow> None)"

definition simple_escape :: "char \<Rightarrow> char option" where
  "simple_escape e =
     (if e = CHR 0x22 then Some (CHR 0x22) else if e = CHR 0x5C then Some (CHR 0x5C)
      else if e = CHR ''/'' then Some (CHR ''/'') else if e = CHR ''b'' then Some (CHR 0x08)
      else if e = CHR ''f'' then Some (CHR 0x0C) else if e = CHR ''n'' then Some (CHR 0x0A)
      else if e = CHR ''r'' then Some (CHR 0x0D) else if e = CHR ''t'' then Some (CHR 0x09) else None)"

text \<open>The characters of a string up to its closing quote; a raw control character is an error.\<close>

fun parse_chars :: "string \<Rightarrow> (string \<times> string) option" where
  "parse_chars [] = None"
| "parse_chars (c # s) =
     (if c = CHR 0x22 then Some ([], s)
      else if c = CHR 0x5C then (case s of
          [] \<Rightarrow> None
        | e # s1 \<Rightarrow>
            if e = CHR ''u'' then (case s1 of
                w # x # y # z # s2 \<Rightarrow> (case hex4 w x y z of
                    None \<Rightarrow> None
                  | Some h \<Rightarrow> map_option (\<lambda>(t, r). (h # t, r)) (parse_chars s2))
              | _ \<Rightarrow> None)
            else (case simple_escape e of
                None \<Rightarrow> None
              | Some h \<Rightarrow> map_option (\<lambda>(t, r). (h # t, r)) (parse_chars s1)))
      else if (of_char c :: nat) < 32 then None
      else map_option (\<lambda>(t, r). (c # t, r)) (parse_chars s))"

text \<open>No leading zeros, and digits after a point.\<close>

definition parse_number :: "string \<Rightarrow> (jsval \<times> string) option" where
  "parse_number s =
     (let neg = (s \<noteq> [] \<and> hd s = CHR ''-''); body = (if neg then tl s else s) in
      case scan_number body of (ip, fp, e, r) \<Rightarrow>
        if plain_number ip fp (dropWhile is_digit_c body)
        then Some (VNum ((if neg then neg_num else id) (round_pos (decimal_frac ip fp e))), r)
        else None)"

fun parse_value :: "nat \<Rightarrow> string \<Rightarrow> (jsval \<times> string) option"
  and parse_elems :: "nat \<Rightarrow> string \<Rightarrow> (jsval list \<times> string) option"
  and parse_members :: "nat \<Rightarrow> (string, jsval) omap \<Rightarrow> string \<Rightarrow> ((string, jsval) omap \<times> string) option" where
  "parse_value 0 s = None"
| "parse_value (Suc n) s = (case skip_space s of
       [] \<Rightarrow> None
     | c # r \<Rightarrow>
         if c = CHR 0x22 then map_option (\<lambda>(t, r'). (VStr t, r')) (parse_chars r)
         else if c = CHR ''['' then
           (case skip_space r of
              [] \<Rightarrow> None
            | d # r' \<Rightarrow> if d = CHR '']'' then Some (VArr [], r')
                else map_option (\<lambda>(vs, r'). (VArr vs, r')) (parse_elems n (d # r')))
         else if c = CHR ''{'' then
           (case skip_space r of
              [] \<Rightarrow> None
            | d # r' \<Rightarrow> if d = CHR ''}'' then Some (VObj [], r')
                else map_option (\<lambda>(ps, r'). (VObj ps, r')) (parse_members n [] (d # r')))
         else if startsWith (c # r) ''null'' then Some (VNull, drop 4 (c # r))
         else if startsWith (c # r) ''true'' then Some (VBool True, drop 4 (c # r))
         else if startsWith (c # r) ''false'' then Some (VBool False, drop 5 (c # r))
         else parse_number (c # r))"
| "parse_elems 0 s = None"
| "parse_elems (Suc n) s = (case parse_value n s of
       None \<Rightarrow> None
     | Some (v, r) \<Rightarrow> (case skip_space r of
           [] \<Rightarrow> None
         | c # r' \<Rightarrow>
             if c = CHR '']'' then Some ([v], r')
             else if c = CHR '','' then map_option (\<lambda>(vs, r'). (v # vs, r')) (parse_elems n r')
             else None))"
| "parse_members 0 m s = None"
| "parse_members (Suc n) m s = (case skip_space s of
       [] \<Rightarrow> None
     | c # r \<Rightarrow>
         if c \<noteq> CHR 0x22 then None
         else (case parse_chars r of
             None \<Rightarrow> None
           | Some (k, r1) \<Rightarrow> (case skip_space r1 of
                 [] \<Rightarrow> None
               | c1 # r2 \<Rightarrow>
                   if c1 \<noteq> CHR '':'' then None
                   else (case parse_value n r2 of
                       None \<Rightarrow> None
                     | Some (v, r3) \<Rightarrow> (case skip_space r3 of
                           [] \<Rightarrow> None
                         | c3 # r4 \<Rightarrow>
                             if c3 = CHR ''}'' then Some (omap_set m k v, r4)
                             else if c3 = CHR '','' then parse_members n (omap_set m k v) r4
                             else None)))))"

definition parse_json :: "string \<Rightarrow> jsval option" where
  "parse_json s = (case parse_value (Suc (length s)) s of
       None \<Rightarrow> None
     | Some (v, r) \<Rightarrow> if skip_space r = [] then Some v else None)"

section \<open>Round trip\<close>

lemma skip_space_append: "\<forall>c\<in>set w. json_space c \<Longrightarrow> skip_space (w @ r) = skip_space r"
  by (induction w) (auto simp: skip_space_def)

lemma skip_space_Cons: "\<not> json_space c \<Longrightarrow> skip_space (c # r) = c # r"
  by (simp add: skip_space_def)

lemma json_nl_space: "\<forall>c\<in>set (json_nl ind d). json_space c"
  by (auto simp: json_nl_def json_space_def)

lemma skip_nl [simp]: "skip_space (json_nl ind d @ r) = skip_space r"
  by (rule skip_space_append) (rule json_nl_space)

lemma hex_digit_inv: "n < 16 \<Longrightarrow> hex_digit_val (hex_digit n) = Some n"
proof -
  assume "n < 16"
  then have "n \<in> set [0..<16]" by simp
  then show ?thesis by (auto simp: hex_digit_def hex_digit_val_def upt_conv_Cons)
qed

lemma parse_escape: "parse_chars (json_escape_c c @ s) = map_option (\<lambda>(t, r). (c # t, r)) (parse_chars s)"
proof -
  have h: "hex4 (CHR ''0'') (CHR ''0'') (hex_digit (of_char c div 16)) (hex_digit (of_char c mod 16)) = Some c"
    if "(of_char c :: nat) < 32"
  proof -
    have "hex_digit_val (CHR ''0'') = Some 0" by (simp add: hex_digit_val_def)
    moreover have "(of_char c :: nat) div 16 < 16" using that by auto
    moreover have "16 * (of_char c div 16) + of_char c mod 16 = (of_char c :: nat)" by simp
    ultimately show ?thesis using hex_digit_inv by (simp add: hex4_def del: mult_div_mod_eq)
  qed
  show ?thesis
    by (auto simp: json_escape_c_def simple_escape_def h)
qed

lemma parse_chars_quote: "parse_chars (concat (map json_escape_c s) @ CHR 0x22 # r) = Some (s, r)"
  by (induction s) (simp_all add: parse_escape)

lemma quote_Cons: "json_quote s @ r = CHR 0x22 # concat (map json_escape_c s) @ CHR 0x22 # r"
  by (simp add: json_quote_def)

lemma parse_number_text:
  assumes "is_finite n" "is_double n" "num_ends r"
  shows "parse_number (num_to_string n @ r) = Some (VNum n, r)"
proof (cases "fst (num_frac n) < 0")
  case False
  obtain c w where c: "abs_text n = c # w" "is_digit_c c" using abs_text_start [OF assms(1)] False by auto
  then have "c \<noteq> CHR ''-''" by (auto simp: is_digit_c_code)
  with c False scan_abs_text [OF assms(1) _ assms(3)] is_double_abs(1) [OF assms(2,1)] show ?thesis
    by (auto simp: parse_number_def Let_def num_to_string_abs [OF assms(1)])
next
  case True
  from True scan_abs_text [of "neg_num n", OF _ _ assms(3)] is_double_abs(2) [OF assms(2,1)] neg_frac [OF assms(1)] assms(1)
  show ?thesis
    by (auto simp: parse_number_def Let_def num_to_string_abs [OF assms(1)])
qed

text \<open>The values JSON can carry, and the fuel reading one takes.\<close>

fun json_plain :: "jsval \<Rightarrow> bool"
  and json_plain_elems :: "jsval list \<Rightarrow> bool"
  and json_plain_members :: "(string \<times> jsval) list \<Rightarrow> bool" where
  "json_plain VUndef = False"
| "json_plain VNull = True"
| "json_plain (VBool b) = True"
| "json_plain (VNum n) = (is_finite n \<and> is_double n)"
| "json_plain (VStr s) = True"
| "json_plain (VArr vs) = json_plain_elems vs"
| "json_plain (VObj ps) = (distinct (map fst ps) \<and> json_plain_members ps)"
| "json_plain_elems [] = True"
| "json_plain_elems (v # vs) = (json_plain v \<and> json_plain_elems vs)"
| "json_plain_members [] = True"
| "json_plain_members ((k, v) # ps) = (json_plain v \<and> json_plain_members ps)"

fun json_fuel :: "jsval \<Rightarrow> nat"
  and elems_fuel :: "jsval list \<Rightarrow> nat"
  and members_fuel :: "(string \<times> jsval) list \<Rightarrow> nat" where
  "json_fuel (VArr vs) = Suc (elems_fuel vs)"
| "json_fuel (VObj ps) = Suc (members_fuel ps)"
| "json_fuel v = 1"
| "elems_fuel [] = 0"
| "elems_fuel (v # vs) = Suc (max (json_fuel v) (elems_fuel vs))"
| "members_fuel [] = 0"
| "members_fuel ((k, v) # ps) = Suc (max (json_fuel v) (members_fuel ps))"

lemma parse_skip [simp]:
  "parse_value n (json_nl ind d @ s) = parse_value n s"
  "parse_elems n (json_nl ind d @ s) = parse_elems n s"
  "parse_members n m (json_nl ind d @ s) = parse_members n m s"
proof -
  show v: "parse_value n (json_nl ind d @ s) = parse_value n s" for n by (cases n) simp_all
  show "parse_elems n (json_nl ind d @ s) = parse_elems n s" by (cases n) (simp_all add: v)
  show "parse_members n m (json_nl ind d @ s) = parse_members n m s" by (cases n) simp_all
qed

definition json_start :: "char \<Rightarrow> bool" where
  "json_start c = (\<not> json_space c \<and> c \<noteq> CHR '']'' \<and> c \<noteq> CHR ''}'')"

lemma num_start:
  assumes "is_finite n"
  shows "\<exists>c s. num_to_string n = c # s \<and> json_start c \<and> c \<notin> set [CHR 0x22, CHR ''['', CHR ''{'', CHR ''n'', CHR ''t'', CHR ''f'']"
proof (cases "fst (num_frac n) < 0")
  case True
  then show ?thesis by (simp add: num_to_string_abs [OF assms] json_start_def json_space_def)
next
  case False
  then show ?thesis
    using abs_text_start [OF assms] by (auto simp: num_to_string_abs [OF assms] json_start_def json_space_def is_digit_c_code)
qed

lemma json_fmt_start: "json_plain v \<Longrightarrow> \<exists>c s. json_fmt ind d v = c # s \<and> json_start c"
proof (cases v)
  case (VNum n)
  moreover assume "json_plain v"
  ultimately show ?thesis using num_start [of n] by (auto simp: json_num_def)
qed (auto simp: json_start_def json_space_def json_quote_def json_block_def)

lemma skip_start: "json_start c \<Longrightarrow> skip_space (c # s) = c # s"
  by (simp add: skip_space_Cons json_start_def)

lemma skip_delims [simp]:
  "skip_space (CHR '']'' # s) = CHR '']'' # s" "skip_space (CHR ''}'' # s) = CHR ''}'' # s"
  "skip_space (CHR '','' # s) = CHR '','' # s" "skip_space (CHR 0x22 # s) = CHR 0x22 # s"
  "skip_space (CHR '':'' # s) = CHR '':'' # s" "skip_space (CHR ''['' # s) = CHR ''['' # s"
  "skip_space (CHR ''{'' # s) = CHR ''{'' # s"
  by (simp_all add: skip_space_Cons json_space_def)

lemma num_ends_delims [simp]:
  "num_ends (json_nl ind d @ CHR '']'' # s)" "num_ends (json_nl ind d @ CHR ''}'' # s)"
  "num_ends (CHR '','' # s)" "num_ends []"
  by (auto simp: num_ends_def json_nl_def is_digit_c_def)

lemma parse_colon [simp]:
  "skip_space (json_colon ind @ s) = json_colon ind @ s"
  "hd (json_colon ind @ s) = CHR '':''"
  by (auto simp: json_colon_def skip_space_Cons json_space_def)

lemma parse_after_colon: "\<exists>r2. json_colon ind @ s = CHR '':'' # r2 \<and> parse_value n r2 = parse_value n s"
proof (cases "ind = 0")
  case False
  have "parse_value n (CHR '' '' # s) = parse_value n s"
    by (cases n) (simp_all add: skip_space_def json_space_def)
  with False show ?thesis by (simp add: json_colon_def)
qed (simp add: json_colon_def)

lemma js_join_Cons: "xs \<noteq> [] \<Longrightarrow> js_join sep (x # xs) = x @ sep @ js_join sep xs"
  by (cases xs) simp_all

lemma fmt_elems_Nil_iff: "json_fmt_elems ind d vs = [] \<longleftrightarrow> vs = []"
  by (cases vs) simp_all

lemma fmt_members_Nil_iff: "json_plain_members ps \<Longrightarrow> json_fmt_members ind d ps = [] \<longleftrightarrow> ps = []"
  by (cases ps rule: json_plain_members.cases) auto

lemma omap_set_new: "k \<notin> fst ` set m \<Longrightarrow> omap_set m k v = m @ [(k, v)]"
  by (induction m k v rule: omap_set.induct) auto

lemma parse_fmt:
  "json_plain v \<Longrightarrow> num_ends r \<Longrightarrow> json_fuel v \<le> n \<Longrightarrow> parse_value n (json_fmt ind d v @ r) = Some (v, r)"
  "json_plain_elems vs \<Longrightarrow> vs \<noteq> [] \<Longrightarrow> elems_fuel vs \<le> n \<Longrightarrow>
     parse_elems n (js_join ('','' @ json_nl ind d) (json_fmt_elems ind d vs) @ json_nl ind d' @ CHR '']'' # r) = Some (vs, r)"
  "json_plain_members ps \<Longrightarrow> ps \<noteq> [] \<Longrightarrow> members_fuel ps \<le> n \<Longrightarrow> distinct (map fst (m @ ps)) \<Longrightarrow>
     parse_members n m (js_join ('','' @ json_nl ind d) (json_fmt_members ind d ps) @ json_nl ind d' @ CHR ''}'' # r) = Some (m @ ps, r)"
proof (induction v and vs and ps arbitrary: n d r and n d d' r and n d d' r m
    rule: json_plain_json_plain_elems_json_plain_members.induct)
  case 2
  then show ?case by (cases n) (simp_all add: skip_space_Cons json_space_def)
next
  case (3 b)
  then show ?case by (cases n) (simp_all add: skip_space_Cons json_space_def)
next
  case (4 x)
  then obtain k where "n = Suc k" "is_finite x" "is_double x" by (cases n) auto
  moreover obtain c s where "num_to_string x = c # s" "json_start c"
    "c \<notin> set [CHR 0x22, CHR ''['', CHR ''{'', CHR ''n'', CHR ''t'', CHR ''f'']"
    using num_start \<open>is_finite x\<close> by blast
  ultimately show ?case using parse_number_text [OF _ _ "4.prems"(2), of x] by (simp add: skip_start json_num_def)
next
  case (5 s)
  then show ?case by (cases n) (simp_all add: quote_Cons parse_chars_quote)
next
  case (6 vs)
  then obtain k where n: "n = Suc k" by (cases n) auto
  show ?case
  proof (cases vs)
    case Nil
    with n show ?thesis by (simp add: json_block_def)
  next
    case (Cons v vs')
    let ?body = "js_join ('','' @ json_nl ind (Suc d)) (json_fmt_elems ind (Suc d) vs) @ json_nl ind d @ CHR '']'' # r"
    from Cons "6.prems"(1) obtain c s where "json_fmt ind (Suc d) v = c # s" "json_start c"
      using json_fmt_start [of v ind "Suc d"] by auto
    then obtain s' where b: "?body = c # s'" "json_start c" using Cons by (cases vs') auto
    have "parse_elems k ?body = Some (vs, r)"
      using "6.IH" [of k "Suc d" d r] "6.prems" n Cons by simp
    then show ?thesis
      using b n Cons by (simp add: json_block_def skip_start) (simp add: json_start_def)
  qed
next
  case (7 ps)
  then obtain k where n: "n = Suc k" by (cases n) auto
  show ?case
  proof (cases ps)
    case Nil
    with n show ?thesis by (simp add: json_block_def)
  next
    case (Cons p ps')
    obtain key v where "p = (key, v)" by (cases p)
    note 2 = Cons [unfolded this]
    let ?body = "js_join ('','' @ json_nl ind (Suc d)) (json_fmt_members ind (Suc d) ps) @ json_nl ind d @ CHR ''}'' # r"
    have ne: "v \<noteq> VUndef" using 2 "7.prems"(1) by auto
    obtain s' where b: "?body = CHR 0x22 # s'"
      using 2 ne by (cases "json_fmt_members ind (Suc d) ps'") (auto simp: json_quote_def)
    have "parse_members k [] ?body = Some ([] @ ps, r)"
      by (rule "7.IH") (use "7.prems" n 2 in simp_all)
    then show ?thesis
      using b n 2 ne fmt_members_Nil_iff [of ps ind "Suc d"] "7.prems"(1) by (simp add: json_block_def)
  qed
next
  case (9 v vs)
  then obtain k where n: "n = Suc k" by (cases n) auto
  show ?case
  proof (cases vs)
    case Nil
    then show ?thesis using "9.IH"(1) [of "json_nl ind d' @ CHR '']'' # r" k d] "9.prems" n by simp
  next
    case (Cons v' vs')
    let ?rest = "js_join ('','' @ json_nl ind d) (json_fmt_elems ind d vs) @ json_nl ind d' @ CHR '']'' # r"
    have whole: "js_join ('','' @ json_nl ind d) (json_fmt_elems ind d (v # vs)) @ json_nl ind d' @ CHR '']'' # r =
        json_fmt ind d v @ CHR '','' # json_nl ind d @ ?rest"
      using Cons by (simp add: js_join_Cons fmt_elems_Nil_iff)
    have "parse_value k (json_fmt ind d v @ CHR '','' # json_nl ind d @ ?rest) = Some (v, CHR '','' # json_nl ind d @ ?rest)"
      using "9.IH"(1) [of "CHR '','' # json_nl ind d @ ?rest" k d] "9.prems" n by simp
    moreover have "parse_elems k ?rest = Some (vs, r)"
      using "9.IH"(2) [of k d d' r] "9.prems" n Cons by simp
    ultimately show ?thesis unfolding whole n by simp
  qed
next
  case (11 key v ps)
  then obtain k where n: "n = Suc k" by (cases n) auto
  have ne: "v \<noteq> VUndef" using "11.prems"(1) by auto
  have new: "omap_set m key v = m @ [(key, v)]" using "11.prems"(4) by (intro omap_set_new) auto
  show ?case
  proof (cases ps)
    case Nil
    let ?rest = "json_nl ind d' @ CHR ''}'' # r"
    obtain r2 where r2: "json_colon ind @ json_fmt ind d v @ ?rest = CHR '':'' # r2"
      "parse_value k r2 = parse_value k (json_fmt ind d v @ ?rest)" using parse_after_colon by blast
    have "parse_value k (json_fmt ind d v @ ?rest) = Some (v, ?rest)"
      using "11.IH"(1) [of ?rest k d] "11.prems" n by simp
    with r2 n Nil ne new show ?thesis
      by (simp add: quote_Cons parse_chars_quote)
  next
    case (Cons p ps')
    let ?rest = "js_join ('','' @ json_nl ind d) (json_fmt_members ind d ps) @ json_nl ind d' @ CHR ''}'' # r"
    have pl: "json_plain_members ps" using "11.prems"(1) by simp
    have whole: "js_join ('','' @ json_nl ind d) (json_fmt_members ind d ((key, v) # ps)) @ json_nl ind d' @ CHR ''}'' # r =
        json_quote key @ json_colon ind @ json_fmt ind d v @ CHR '','' # json_nl ind d @ ?rest"
      using Cons ne fmt_members_Nil_iff [OF pl, of ind d] by (simp add: js_join_Cons)
    obtain r2 where r2: "json_colon ind @ json_fmt ind d v @ CHR '','' # json_nl ind d @ ?rest = CHR '':'' # r2"
      "parse_value k r2 = parse_value k (json_fmt ind d v @ CHR '','' # json_nl ind d @ ?rest)"
      using parse_after_colon by blast
    have "parse_value k (json_fmt ind d v @ CHR '','' # json_nl ind d @ ?rest) = Some (v, CHR '','' # json_nl ind d @ ?rest)"
      using "11.IH"(1) [of "CHR '','' # json_nl ind d @ ?rest" k d] "11.prems" n by simp
    moreover have "parse_members k (m @ [(key, v)]) ?rest = Some ((m @ [(key, v)]) @ ps, r)"
      by (rule "11.IH"(2)) (use "11.prems" n Cons in simp_all)
    ultimately show ?thesis
      unfolding whole n using r2 new by (simp add: quote_Cons parse_chars_quote)
  qed
qed simp_all

lemma js_join_part_length: "x \<in> set xs \<Longrightarrow> length x \<le> length (js_join sep xs)"
  by (induction sep xs rule: js_join.induct) auto

lemma fuel_length:
  "json_plain v \<Longrightarrow> json_fuel v \<le> length (json_fmt ind d v)"
  "json_plain_elems vs \<Longrightarrow> vs \<noteq> [] \<Longrightarrow> elems_fuel vs \<le> Suc (length (js_join ('','' @ json_nl ind d) (json_fmt_elems ind d vs)))"
  "json_plain_members ps \<Longrightarrow> ps \<noteq> [] \<Longrightarrow> members_fuel ps \<le> Suc (length (js_join ('','' @ json_nl ind d) (json_fmt_members ind d ps)))"
proof (induction v and vs and ps arbitrary: d and d and d
    rule: json_plain_json_plain_elems_json_plain_members.induct)
  case (4 n)
  then show ?case using num_start [of n] by (auto simp: Suc_le_eq json_num_def)
next
  case (6 vs)
  show ?case
  proof (cases "vs = []")
    case False
    then have "elems_fuel vs \<le> Suc (length (js_join ('','' @ json_nl ind (Suc d)) (json_fmt_elems ind (Suc d) vs)))"
      using 6 by simp
    with False show ?thesis by (simp add: json_block_def fmt_elems_Nil_iff)
  qed (simp add: json_block_def)
next
  case (7 ps)
  show ?case
  proof (cases "ps = []")
    case False
    then have "members_fuel ps \<le> Suc (length (js_join ('','' @ json_nl ind (Suc d)) (json_fmt_members ind (Suc d) ps)))"
      using 7 by simp
    moreover have "json_fmt_members ind (Suc d) ps \<noteq> []"
      using False "7.prems" fmt_members_Nil_iff by simp
    ultimately show ?thesis by (simp add: json_block_def)
  qed (simp add: json_block_def)
next
  case (9 v vs)
  have v: "json_fuel v \<le> length (json_fmt ind d v)" using 9 by simp
  show ?case
  proof (cases "vs = []")
    case False
    then have "elems_fuel vs \<le> Suc (length (js_join ('','' @ json_nl ind d) (json_fmt_elems ind d vs)))"
      using 9 by simp
    with v False show ?thesis by (simp add: js_join_Cons fmt_elems_Nil_iff)
  qed (use v in simp)
next
  case (11 k v ps)
  then have ne: "v \<noteq> VUndef" by auto
  have v: "json_fuel v \<le> length (json_fmt ind d v)" using 11 by simp
  show ?case
  proof (cases "ps = []")
    case False
    then have "members_fuel ps \<le> Suc (length (js_join ('','' @ json_nl ind d) (json_fmt_members ind d ps)))"
      using 11 by simp
    moreover have "json_fmt_members ind d ps \<noteq> []" using False "11.prems" fmt_members_Nil_iff by simp
    ultimately show ?thesis using v ne by (simp add: js_join_Cons json_quote_def)
  qed (use v ne in \<open>simp add: json_quote_def\<close>)
qed (auto simp: json_quote_def)

lemma parse_json_fmt: "json_plain v \<Longrightarrow> parse_json (json_fmt ind 0 v) = Some v"
  using parse_fmt(1) [of v "[]" "Suc (length (json_fmt ind 0 v))" ind 0] fuel_length(1) [of v ind 0]
  by (simp add: parse_json_def skip_space_def)

lemma parse_json_text: "json_plain v \<Longrightarrow> parse_json (json_text v) = Some v"
  using parse_json_fmt [of v 0] by (simp add: json_fmt_compact)

end
