(* ===== verification/Backup.thy ===== *)
theory Backup
  imports Store Json
begin

text \<open>
  \<open>src/src/connections/backup.js\<close>: the encrypted export and the import of connections.
  A connection travels as a JSON object, its password in a sealed block; sealing and
  opening run in the host and are arguments (\<open>seal\<close>, and \<open>opener\<close> which answers \<open>None\<close> when
  the host refuses). An import validates every record, decrypts before it touches the
  store, and merges by id.
\<close>

section \<open>Validation\<close>

definition BACKUP_KIND :: string where
  "BACKUP_KIND = ''tedi-sql-connections''"

definition BACKUP_VERSION :: int where
  "BACKUP_VERSION = 1"

definition json_str :: "jsval \<Rightarrow> string" where
  "json_str v = (case v of VStr s \<Rightarrow> s | _ \<Rightarrow> [])"

definition json_bool :: "jsval \<Rightarrow> bool" where
  "json_bool v = (v = VBool True)"

text \<open>\<open>None\<close> stands for the fallback.\<close>

definition num_in :: "jsval \<Rightarrow> int \<Rightarrow> int \<Rightarrow> int option" where
  "num_in v lo hi =
     (let n = (case v of VNum n \<Rightarrow> n | _ \<Rightarrow> js_parseInt (if is_nullish v then [] else js_String v)) in
      if is_finite n \<and> lo * snd (num_frac n) \<le> fst (num_frac n) \<and> fst (num_frac n) \<le> hi * snd (num_frac n)
      then Some (fst (num_frac n) div snd (num_frac n)) else None)"

definition num_or :: "jsval \<Rightarrow> int \<Rightarrow> int \<Rightarrow> int \<Rightarrow> jsnum" where
  "num_or v lo hi fallback = NInt (case num_in v lo hi of Some i \<Rightarrow> i | None \<Rightarrow> fallback)"

definition VALID_SSL :: "string list" where
  "VALID_SSL = [''none'', ''preferred'', ''required'', ''verify_ca'', ''verify_full'']"

definition trimmed_field :: "jsval \<Rightarrow> string \<Rightarrow> string" where
  "trimmed_field raw key = js_trim (json_str (jget raw key))"

text \<open>The record that is returned once the checks have passed.\<close>

definition sanitized_fields :: "jsval \<Rightarrow> conn" where
  "sanitized_fields raw =
     (let isFile = (trimmed_field raw ''kind'' = ''sqlite'');
          path = trimmed_field raw ''sqlitePath'';
          host = trimmed_field raw ''host'';
          name = trimmed_field raw ''name'';
          sslMode = json_str (jget raw ''sslMode'')
      in \<lparr> c_id = trimmed_field raw ''id'',
           c_name = (if name \<noteq> [] then name else if host \<noteq> [] then host else path),
           c_kind = trimmed_field raw ''kind'',
           c_host = (if isFile then [] else host),
           c_port = (if isFile then [] else
              (case num_in (jget raw ''port'') 1 65535 of Some n \<Rightarrow> int_to_string n | None \<Rightarrow> [])),
           c_user = (if isFile then [] else json_str (jget raw ''user'')),
           c_database = (if isFile then [] else json_str (jget raw ''database'')),
           c_sqlitePath = (if isFile then path else []),
           c_sqliteReadOnly = json_bool (jget raw ''sqliteReadOnly''),
           c_allow_writes = json_bool (jget raw ''allow_writes''),
           c_sslMode = (if sslMode \<in> set VALID_SSL then sslMode else ''none''),
           c_sshTunnel = json_str (jget raw ''sshTunnel''),
           c_query_timeout_ms = num_or (jget raw ''query_timeout_ms'') 0 (24 * 60 * 60 * 1000) 30000,
           c_row_limit = num_or (jget raw ''row_limit'') 0 10000000 10000 \<rparr>)"

definition sanitizeConnection :: "jsval \<Rightarrow> string list \<Rightarrow> conn option" where
  "sanitizeConnection raw validKinds =
     (if \<not> is_obj raw then None
      else if trimmed_field raw ''id'' = [] \<or> trimmed_field raw ''kind'' \<notin> set validKinds then None
      else if (if trimmed_field raw ''kind'' = ''sqlite'' then trimmed_field raw ''sqlitePath'' = []
               else trimmed_field raw ''host'' = []) then None
      else Some (sanitized_fields raw))"

definition valid_kinds :: "string list" where
  "valid_kinds = map d_id listDialects"

text \<open>The record as it is stored and exported.\<close>

definition conn_json :: "conn \<Rightarrow> jsval" where
  "conn_json c = VObj [
     (''id'', VStr (c_id c)), (''kind'', VStr (c_kind c)), (''name'', VStr (c_name c)),
     (''host'', VStr (c_host c)), (''port'', VStr (c_port c)), (''user'', VStr (c_user c)),
     (''database'', VStr (c_database c)), (''sqlitePath'', VStr (c_sqlitePath c)),
     (''sqliteReadOnly'', VBool (c_sqliteReadOnly c)), (''allow_writes'', VBool (c_allow_writes c)),
     (''sslMode'', VStr (c_sslMode c)), (''sshTunnel'', VStr (c_sshTunnel c)),
     (''query_timeout_ms'', VNum (c_query_timeout_ms c)),
     (''row_limit'', VNum (c_row_limit c))]"

definition port_ok :: "string \<Rightarrow> bool" where
  "port_ok p = (p = [] \<or> (case js_parseInt p of
       NInt n \<Rightarrow> 1 \<le> n \<and> n \<le> 65535 \<and> p = int_to_string n | _ \<Rightarrow> False))"

definition plain_field :: "string \<Rightarrow> bool" where
  "plain_field s = (s \<noteq> [] \<and> trimmed s)"

definition limit_ok :: "int \<Rightarrow> jsnum \<Rightarrow> bool" where
  "limit_ok hi n = (case n of NInt i \<Rightarrow> 0 \<le> i \<and> i \<le> hi | _ \<Rightarrow> False)"

definition conn_ok :: "conn \<Rightarrow> bool" where
  "conn_ok c =
     (plain_field (c_id c) \<and> plain_field (c_name c) \<and> c_kind c \<in> set valid_kinds \<and>
      (if c_kind c = ''sqlite''
       then plain_field (c_sqlitePath c) \<and> c_host c = [] \<and> c_port c = [] \<and> c_user c = [] \<and> c_database c = []
       else plain_field (c_host c) \<and> c_sqlitePath c = [] \<and> port_ok (c_port c)) \<and>
      c_sslMode c \<in> set VALID_SSL \<and>
      limit_ok (24 * 60 * 60 * 1000) (c_query_timeout_ms c) \<and> limit_ok 10000000 (c_row_limit c))"

lemma num_in_range: "num_in v lo hi = Some i \<Longrightarrow> lo \<le> i \<and> i \<le> hi"
proof -
  assume "num_in v lo hi = Some i"
  then obtain n where n: "is_finite n" "lo * snd (num_frac n) \<le> fst (num_frac n)"
    "fst (num_frac n) \<le> hi * snd (num_frac n)" "i = fst (num_frac n) div snd (num_frac n)"
    by (auto simp: num_in_def Let_def split: if_splits)
  let ?q = "snd (num_frac n)"
  have q: "?q > 0" by (cases n) simp_all
  have "lo * ?q div ?q \<le> i" "i \<le> hi * ?q div ?q" unfolding n(4) using n(2,3) q by (simp_all only: zdiv_mono1)
  with q show ?thesis by simp
qed

lemma num_in_int: "num_in (VNum (NInt i)) lo hi = (if lo \<le> i \<and> i \<le> hi then Some i else None)"
  by (simp add: num_in_def Let_def)

lemma parseInt_port: "1 \<le> i \<Longrightarrow> i \<le> 2 ^ 53 \<Longrightarrow> js_parseInt (int_to_string i) = NInt i"
  using parseInt_nat_to_string [of "nat i"] by (simp add: int_to_string_def)

lemma valid_kinds_eq: "valid_kinds = [''mysql'', ''postgres'', ''sqlite'']"
  by (simp add: valid_kinds_def listDialects_def DIALECTS_def dialect_defs)

lemma num_in_port: "port_ok p \<Longrightarrow> (case num_in (VStr p) 1 65535 of Some n \<Rightarrow> int_to_string n | None \<Rightarrow> []) = p"
proof (cases "p = []")
  case True
  then show ?thesis by (simp add: num_in_def js_parseInt_def trim_start_def)
next
  case False
  assume "port_ok p"
  with False show ?thesis by (auto simp: port_ok_def num_in_def split: jsnum.splits)
qed

lemma port_ok_num: "port_ok (case num_in v 1 65535 of Some n \<Rightarrow> int_to_string n | None \<Rightarrow> [])"
  using num_in_range [of v 1 65535] parseInt_port by (auto simp: port_ok_def split: option.splits)

lemma num_or_range: "0 \<le> fallback \<Longrightarrow> fallback \<le> hi \<Longrightarrow> limit_ok hi (num_or v 0 hi fallback)"
  using num_in_range [of v 0 hi] by (auto simp: num_or_def limit_ok_def split: option.splits)

lemma num_or_same: "limit_ok hi n \<Longrightarrow> num_or (VNum n) 0 hi fallback = n"
  by (cases n) (auto simp: num_or_def limit_ok_def num_in_int)

lemma plain_trim: "plain_field (js_trim s) \<longleftrightarrow> js_trim s \<noteq> []"
  by (simp add: plain_field_def)

lemma plain_trimmed_field: "plain_field (trimmed_field raw k) \<longleftrightarrow> trimmed_field raw k \<noteq> []"
  by (simp add: trimmed_field_def plain_trim)

lemma ssl_valid: "(if m \<in> set VALID_SSL then m else ''none'') \<in> set VALID_SSL"
  by (simp add: VALID_SSL_def)

lemma sanitized_fields_ok:
  assumes "trimmed_field raw ''id'' \<noteq> []" "trimmed_field raw ''kind'' \<in> set valid_kinds"
    "if trimmed_field raw ''kind'' = ''sqlite'' then trimmed_field raw ''sqlitePath'' \<noteq> [] else trimmed_field raw ''host'' \<noteq> []"
  shows "conn_ok (sanitized_fields raw)"
proof -
  have nums: "limit_ok (24 * 60 * 60 * 1000) (c_query_timeout_ms (sanitized_fields raw))"
    "limit_ok 10000000 (c_row_limit (sanitized_fields raw))"
    by (simp_all add: sanitized_fields_def Let_def num_or_range del: mult_numeral_1 numeral_times_numeral)
  have "c_sslMode (sanitized_fields raw) \<in> set VALID_SSL"
    by (simp add: sanitized_fields_def Let_def ssl_valid)
  moreover have "plain_field (c_name (sanitized_fields raw))"
    using assms(3) by (auto simp: sanitized_fields_def Let_def plain_trimmed_field split: if_splits)
  moreover have "plain_field (c_id (sanitized_fields raw))"
    using assms(1) by (simp add: sanitized_fields_def Let_def plain_trimmed_field)
  moreover have "c_kind (sanitized_fields raw) = trimmed_field raw ''kind''"
    by (simp add: sanitized_fields_def Let_def)
  moreover have "if trimmed_field raw ''kind'' = ''sqlite''
       then plain_field (c_sqlitePath (sanitized_fields raw)) \<and> c_host (sanitized_fields raw) = [] \<and>
         c_port (sanitized_fields raw) = [] \<and> c_user (sanitized_fields raw) = [] \<and> c_database (sanitized_fields raw) = []
       else plain_field (c_host (sanitized_fields raw)) \<and> c_sqlitePath (sanitized_fields raw) = [] \<and>
         port_ok (c_port (sanitized_fields raw))"
    using assms(3) by (simp add: sanitized_fields_def Let_def port_ok_num plain_trimmed_field)
  ultimately show ?thesis using nums assms(2) unfolding conn_ok_def by presburger
qed

lemma sanitize_ok: "sanitizeConnection raw valid_kinds = Some c \<Longrightarrow> conn_ok c"
  using sanitized_fields_ok [of raw] by (auto simp: sanitizeConnection_def split: if_split_asm)

lemma trim_plain: "plain_field s \<Longrightarrow> js_trim s = s"
  by (simp add: plain_field_def trimmed_js_trim)

lemma sanitize_conn_json: "conn_ok c \<Longrightarrow> sanitizeConnection (conn_json c) valid_kinds = Some c"
proof -
  assume c: "conn_ok c"
  let ?raw = "conn_json c"
  have get: "json_str (jget ?raw ''id'') = c_id c" "json_str (jget ?raw ''kind'') = c_kind c"
    "json_str (jget ?raw ''name'') = c_name c" "json_str (jget ?raw ''host'') = c_host c"
    "jget ?raw ''port'' = VStr (c_port c)" "json_str (jget ?raw ''user'') = c_user c"
    "json_str (jget ?raw ''database'') = c_database c" "json_str (jget ?raw ''sqlitePath'') = c_sqlitePath c"
    "json_bool (jget ?raw ''sqliteReadOnly'') = c_sqliteReadOnly c"
    "json_bool (jget ?raw ''allow_writes'') = c_allow_writes c" "json_str (jget ?raw ''sslMode'') = c_sslMode c"
    "json_str (jget ?raw ''sshTunnel'') = c_sshTunnel c"
    "num_or (jget ?raw ''query_timeout_ms'') 0 (24 * 60 * 60 * 1000) 30000 = c_query_timeout_ms c"
    "num_or (jget ?raw ''row_limit'') 0 10000000 10000 = c_row_limit c"
    using c by (simp_all add: conn_json_def json_str_def json_bool_def conn_ok_def num_or_same del: numeral_times_numeral)
  have kinds: "list_all (\<lambda>k. js_trim k = k) valid_kinds" unfolding valid_kinds_eq by code_simp
  have n0: "js_trim [] = []" by (simp add: js_trim_def trim_end_def trim_start_def)
  have addr: "js_trim (c_host c) = c_host c" "js_trim (c_sqlitePath c) = c_sqlitePath c"
    using c n0 by (auto simp: conn_ok_def trim_plain split: if_splits)
  have fields: "trimmed_field ?raw ''id'' = c_id c" "trimmed_field ?raw ''kind'' = c_kind c"
    "trimmed_field ?raw ''name'' = c_name c" "trimmed_field ?raw ''host'' = c_host c"
    "trimmed_field ?raw ''sqlitePath'' = c_sqlitePath c"
    using c kinds addr by (auto simp: trimmed_field_def get conn_ok_def trim_plain list_all_iff)
  have ne: "c_id c \<noteq> []" "c_name c \<noteq> []" "c_sslMode c \<in> set VALID_SSL" "c_kind c \<in> set valid_kinds"
    "if c_kind c = ''sqlite'' then c_sqlitePath c \<noteq> [] else c_host c \<noteq> []"
    using c by (auto simp: conn_ok_def plain_field_def)
  have shape: "c_kind c = ''sqlite'' \<Longrightarrow> c_host c = [] \<and> c_port c = [] \<and> c_user c = [] \<and> c_database c = []"
    "c_kind c \<noteq> ''sqlite'' \<Longrightarrow> c_sqlitePath c = [] \<and> (case num_in (VStr (c_port c)) 1 65535 of Some n \<Rightarrow> int_to_string n | None \<Rightarrow> []) = c_port c"
    using c num_in_port [of "c_port c"] by (auto simp: conn_ok_def)
  have "sanitized_fields ?raw = c"
    by (rule conn.equality)
       (use ne shape in \<open>simp_all add: sanitized_fields_def Let_def fields get del: numeral_times_numeral\<close>)
  moreover have "is_obj ?raw" by (simp add: conn_json_def)
  ultimately show ?thesis using ne by (simp add: sanitizeConnection_def fields)
qed

text \<open>
  C39: whatever record a file contains, what the import accepts is a well-formed
  connection of a known engine (non-empty trimmed id, name and address, a port in range
  or blank, a known TLS mode, limits in range), and checking an accepted connection a
  second time changes nothing.
\<close>

theorem sanitizeConnection_wf:
  assumes "sanitizeConnection raw valid_kinds = Some c"
  shows "conn_ok c \<and> sanitizeConnection (conn_json c) valid_kinds = Some c"
  using sanitize_ok [OF assms] sanitize_conn_json by blast

definition demo_raw :: jsval where
  "demo_raw = VObj [(''id'', VStr '' c1 ''), (''kind'', VStr ''mysql''), (''host'', VStr ''db.local''),
     (''port'', VNum (NInt 70000)), (''sslMode'', VStr ''bogus''), (''row_limit'', VStr ''50'')]"

lemma sanitizeConnection_wf_witness:
  "map_option c_port (sanitizeConnection demo_raw valid_kinds) = Some [] \<and>
   map_option c_row_limit (sanitizeConnection demo_raw valid_kinds) = Some (NInt 50) \<and>
   map_option conn_ok (sanitizeConnection demo_raw valid_kinds) = Some True"
proof -
  have e: "map_option c_port (sanitizeConnection demo_raw valid_kinds) = Some []"
    "map_option c_row_limit (sanitizeConnection demo_raw valid_kinds) = Some (NInt 50)" by code_simp+
  then obtain c where "sanitizeConnection demo_raw valid_kinds = Some c" by auto
  with sanitizeConnection_wf [OF this] e show ?thesis by simp
qed

section \<open>The file\<close>

definition parse_records :: "jsval list \<Rightarrow> conn list \<times> nat" where
  "parse_records es =
     (let cleans = map (\<lambda>e. sanitizeConnection e valid_kinds) es
      in (map the (filter (\<lambda>x. x \<noteq> None) cleans), length (filter (\<lambda>x. x = None) cleans)))"

definition too_new :: "jsval \<Rightarrow> int \<Rightarrow> bool" where
  "too_new v limit = (case v of
       VNum n \<Rightarrow> n = PosInf \<or> is_finite n \<and> fst (num_frac n) > limit * snd (num_frac n)
     | _ \<Rightarrow> True)"

definition parseBackupFile :: "jsval \<Rightarrow> string + (conn list \<times> jsval \<times> nat)" where
  "parseBackupFile raw =
     (if \<not> is_obj raw then Inl ''That file is not a connection backup.''
      else if jget raw ''kind'' \<noteq> VStr BACKUP_KIND then Inl ''That file is not a SQL Explorer connection backup.''
      else if too_new (jget raw ''version'') BACKUP_VERSION then Inl ''That backup was written by a newer SQL Explorer.''
      else if \<not> is_obj (jget raw ''secrets'') then Inl ''The backup has no encrypted block.''
      else let entries = (case jget raw ''connections'' of VArr es \<Rightarrow> es | _ \<Rightarrow> []);
               (connections, skipped) = parse_records entries
           in if connections = [] then Inl ''The backup holds no usable connections.''
              else Inr (connections, jget raw ''secrets'', skipped))"

fun sanitizeSecrets :: "jsval \<Rightarrow> (string, string) omap" where
  "sanitizeSecrets (VObj ps) =
     foldl (\<lambda>m (i, e). if is_obj e then (case jget e ''password'' of VStr p \<Rightarrow> if p \<noteq> [] then omap_set m i p else m | _ \<Rightarrow> m)
                       else m) [] ps"
| "sanitizeSecrets v = []"

definition secrets_json :: "keychain \<Rightarrow> conn list \<Rightarrow> jsval" where
  "secrets_json k cs = VObj (concat (map (\<lambda>c.
     if c_kind c = ''sqlite'' then []
     else (case getSecret (c_id c) k of
         None \<Rightarrow> []
       | Some p \<Rightarrow> if p = [] then [] else [(c_id c, VObj [(''password'', VStr p)])])) cs))"

definition backup_json :: "int \<Rightarrow> conn list \<Rightarrow> jsval \<Rightarrow> jsval" where
  "backup_json now cs sealed = VObj [(''kind'', VStr BACKUP_KIND), (''version'', VNum (NInt BACKUP_VERSION)),
     (''exportedAt'', VNum (NInt now)), (''connections'', VArr (map conn_json cs)), (''secrets'', sealed)]"

definition buildBackup ::
  "(string \<Rightarrow> string \<Rightarrow> jsval) \<Rightarrow> int \<Rightarrow> keychain \<Rightarrow> conn list \<Rightarrow> string \<Rightarrow> string + (string \<times> nat)" where
  "buildBackup seal now k cs passphrase =
     (if passphrase = [] then Inl ''A passphrase is required.''
      else if cs = [] then Inl ''There are no saved connections to export.''
      else let sealed = seal (json_text (secrets_json k cs)) passphrase
           in Inr (json_fmt 2 0 (backup_json now cs sealed), length cs))"

section \<open>Merging\<close>

record counts =
  n_added :: nat
  n_replaced :: nat
  n_skipped :: nat
  n_withoutSecrets :: nat
  n_tunnelsDropped :: nat

record store =
  st_conns :: "conn list"
  st_keys :: keychain

text \<open>One round of the import loop. \<open>existing\<close> are the ids before the import.\<close>

definition merge_one ::
  "bool \<Rightarrow> string list \<Rightarrow> (string, string) omap \<Rightarrow> string list \<Rightarrow> conn \<Rightarrow> store \<times> counts \<Rightarrow> store \<times> counts" where
  "merge_one can_delete knownSsh secrets existing c0 sn =
     (case sn of (st, n) \<Rightarrow>
       (let dropped = (c_sshTunnel c0 \<noteq> [] \<and> c_sshTunnel c0 \<notin> set knownSsh);
            c = (if dropped then c0\<lparr>c_sshTunnel := []\<rparr> else c0);
            password = omap_get secrets (c_id c);
            known = (c_id c \<in> set existing);
            conns = (if known then map (\<lambda>d. if c_id d = c_id c then c else d) (st_conns st) else st_conns st @ [c]);
            keys = (case password of
                Some p \<Rightarrow> setSecret (c_id c) (Some p) (st_keys st)
              | None \<Rightarrow> if c_kind c \<noteq> ''sqlite'' \<and> known then deleteSecret can_delete (c_id c) (st_keys st) else st_keys st)
        in (\<lparr>st_conns = conns, st_keys = keys\<rparr>,
            n\<lparr>n_tunnelsDropped := n_tunnelsDropped n + (if dropped then 1 else 0),
              n_withoutSecrets := n_withoutSecrets n + (if c_kind c \<noteq> ''sqlite'' \<and> password = None then 1 else 0),
              n_replaced := n_replaced n + (if known then 1 else 0),
              n_added := n_added n + (if known then 0 else 1)\<rparr>)))"

definition applyBackup ::
  "(jsval \<Rightarrow> string \<Rightarrow> string option) \<Rightarrow> bool \<Rightarrow> string list \<Rightarrow> string \<Rightarrow> string \<Rightarrow> store \<Rightarrow> (string + counts) \<times> store" where
  "applyBackup opener can_delete knownSsh text passphrase st =
     (if passphrase = [] then (Inl ''A passphrase is required.'', st)
      else (case parse_json text of
          None \<Rightarrow> (Inl ''That file is not valid JSON.'', st)
        | Some raw \<Rightarrow> (case parseBackupFile raw of
            Inl e \<Rightarrow> (Inl e, st)
          | Inr (connections, sealed, skipped) \<Rightarrow> (case opener sealed passphrase of
              None \<Rightarrow> (Inl ''backup_open failed'', st)
            | Some plain \<Rightarrow> (case parse_json plain of
                None \<Rightarrow> (Inl ''The encrypted block did not contain readable credentials.'', st)
              | Some blob \<Rightarrow>
                  (let secrets = sanitizeSecrets blob;
                       existing = map c_id (st_conns st);
                       (st', n) = fold (merge_one can_delete knownSsh secrets existing) connections
                          (st, \<lparr>n_added = 0, n_replaced = 0, n_skipped = skipped, n_withoutSecrets = 0, n_tunnelsDropped = 0\<rparr>)
                   in (Inr n, st')))))))"

lemma merge_one_ids:
  "map c_id (st_conns (fst (merge_one cd ssh sec ex c sn))) =
     map c_id (st_conns (fst sn)) @ (if c_id c \<in> set ex then [] else [c_id c])"
  by (cases sn) (auto simp: merge_one_def Let_def comp_def)

lemma merge_one_others:
  "d \<in> set (st_conns (fst sn)) \<Longrightarrow> c_id d \<noteq> c_id c \<Longrightarrow> d \<in> set (st_conns (fst (merge_one cd ssh sec ex c sn)))"
  by (cases sn) (auto simp: merge_one_def Let_def image_iff)

lemma merge_fold_ids:
  "map c_id (st_conns (fst (fold (merge_one cd ssh sec ex) cs sn))) =
     map c_id (st_conns (fst sn)) @ filter (\<lambda>i. i \<notin> set ex) (map c_id cs)"
  by (induction cs arbitrary: sn) (auto simp: merge_one_ids)

lemma merge_fold_others:
  "d \<in> set (st_conns (fst sn)) \<Longrightarrow> c_id d \<notin> c_id ` set cs \<Longrightarrow>
     d \<in> set (st_conns (fst (fold (merge_one cd ssh sec ex) cs sn)))"
proof (induction cs arbitrary: sn)
  case (Cons c cs)
  then have "d \<in> set (st_conns (fst (merge_one cd ssh sec ex c sn)))" by (intro merge_one_others) auto
  with Cons show ?case by simp
qed simp

lemma merge_fold_counts:
  "n_added (snd (fold (merge_one cd ssh sec ex) cs sn)) + n_replaced (snd (fold (merge_one cd ssh sec ex) cs sn)) =
     n_added (snd sn) + n_replaced (snd sn) + length cs \<and>
   n_skipped (snd (fold (merge_one cd ssh sec ex) cs sn)) = n_skipped (snd sn)"
proof (induction cs arbitrary: sn)
  case (Cons c cs)
  have "n_added (snd (merge_one cd ssh sec ex c sn)) + n_replaced (snd (merge_one cd ssh sec ex c sn)) =
      Suc (n_added (snd sn) + n_replaced (snd sn)) \<and>
    n_skipped (snd (merge_one cd ssh sec ex c sn)) = n_skipped (snd sn)"
    by (cases sn) (simp add: merge_one_def Let_def)
  with Cons [of "merge_one cd ssh sec ex c sn"] show ?case by simp
qed simp

text \<open>The connections a file offers, and the records the import writes for them.\<close>

definition file_conns :: "string \<Rightarrow> conn list" where
  "file_conns text = (case parse_json text of None \<Rightarrow> []
     | Some raw \<Rightarrow> (case parseBackupFile raw of Inl e \<Rightarrow> [] | Inr (cs, sealed, skipped) \<Rightarrow> cs))"

definition resolve_tunnel :: "string list \<Rightarrow> conn \<Rightarrow> conn" where
  "resolve_tunnel knownSsh c = (if c_sshTunnel c \<noteq> [] \<and> c_sshTunnel c \<notin> set knownSsh then c\<lparr>c_sshTunnel := []\<rparr> else c)"

lemma resolve_tunnel_id [simp]: "c_id (resolve_tunnel ssh c) = c_id c"
  by (simp add: resolve_tunnel_def)

lemma merge_one_conns:
  "st_conns (fst (merge_one cd ssh sec ex c sn)) =
     (if c_id c \<in> set ex then map (\<lambda>d. if c_id d = c_id c then resolve_tunnel ssh c else d) (st_conns (fst sn))
      else st_conns (fst sn) @ [resolve_tunnel ssh c])"
  by (cases sn) (auto simp: merge_one_def Let_def resolve_tunnel_def)

lemma merge_one_present:
  "set ex \<subseteq> c_id ` set (st_conns (fst sn)) \<Longrightarrow>
     resolve_tunnel ssh c \<in> set (st_conns (fst (merge_one cd ssh sec ex c sn)))"
  by (force simp: merge_one_conns image_iff)

lemma merge_fold_present:
  "distinct (map c_id cs) \<Longrightarrow> set ex \<subseteq> c_id ` set (st_conns (fst sn)) \<Longrightarrow> c \<in> set cs \<Longrightarrow>
     resolve_tunnel ssh c \<in> set (st_conns (fst (fold (merge_one cd ssh sec ex) cs sn)))"
proof (induction cs arbitrary: sn)
  case (Cons d cs)
  have ids: "set ex \<subseteq> c_id ` set (st_conns (fst (merge_one cd ssh sec ex d sn)))"
    using Cons.prems(2) arg_cong [OF merge_one_ids [of cd ssh sec ex d sn], of set] by auto
  show ?case
  proof (cases "c = d")
    case True
    have "resolve_tunnel ssh d \<in> set (st_conns (fst (merge_one cd ssh sec ex d sn)))"
      by (rule merge_one_present [OF Cons.prems(2)])
    moreover have "c_id (resolve_tunnel ssh d) \<notin> c_id ` set cs" using Cons.prems(1) by simp
    ultimately show ?thesis using True merge_fold_others by simp
  next
    case False
    with Cons.IH [of "merge_one cd ssh sec ex d sn"] Cons.prems ids show ?thesis by simp
  qed
qed simp

lemma parse_records_ok: "list_all conn_ok (fst (parse_records es))"
  unfolding parse_records_def Let_def list_all_iff by (auto dest: sanitize_ok)

lemma file_conns_ok: "list_all conn_ok (file_conns text)"
proof -
  have "list_all conn_ok cs" if "parseBackupFile raw = Inr (cs, sealed, skipped)" for raw cs sealed skipped
  proof -
    from that obtain es where "cs = fst (parse_records es)"
      by (auto simp: parseBackupFile_def Let_def split: if_splits prod.splits) (metis fst_conv)
    with parse_records_ok show ?thesis by simp
  qed
  then show ?thesis by (auto simp: file_conns_def split: option.splits sum.splits)
qed

lemma applyBackup_cases:
  assumes "applyBackup opener cd ssh text pass st = (res, st')"
  obtains e where "res = Inl e" "st' = st"
  | n sec n0 where "res = Inr n"
      "fold (merge_one cd ssh sec (map c_id (st_conns st))) (file_conns text) (st, n0) = (st', n)"
      "n_added n0 = 0" "n_replaced n0 = 0"
proof (cases res)
  case (Inl e)
  with assms have "st' = st"
    by (auto simp: applyBackup_def Let_def split: if_splits option.splits sum.splits prod.splits)
  with Inl that(1) show thesis by blast
next
  case (Inr n)
  let ?n0 = "\<lambda>s. \<lparr>n_added = 0, n_replaced = 0, n_skipped = s, n_withoutSecrets = 0, n_tunnelsDropped = 0\<rparr>"
  from assms Inr obtain sec s where
    "fold (merge_one cd ssh sec (map c_id (st_conns st))) (file_conns text) (st, ?n0 s) = (st', n)"
    by (auto simp: applyBackup_def file_conns_def Let_def split: if_splits option.splits sum.splits prod.splits)
  with Inr that(2) [of n sec "?n0 s"] show thesis by simp
qed


definition demo_file :: "string list \<Rightarrow> string" where
  "demo_file ids = json_fmt 2 0 (backup_json 0 (map (\<lambda>i. plain_conn i ''mysql'' []\<lparr>c_sslMode := ''none''\<rparr>) ids) (VObj []))"

definition demo_open :: "jsval \<Rightarrow> string \<Rightarrow> string option" where
  "demo_open b p = Some ''{}''"

lemma limit_plain: "limit_ok hi n \<Longrightarrow> hi \<le> 2 ^ 53 \<Longrightarrow> is_finite n \<and> is_double n"
  by (cases n) (auto simp: limit_ok_def intro: double_int)

lemma conn_json_plain: "conn_ok c \<Longrightarrow> json_plain (conn_json c)"
  using limit_plain [of "24 * 60 * 60 * 1000" "c_query_timeout_ms c"] limit_plain [of 10000000 "c_row_limit c"]
  by (simp add: conn_json_def conn_ok_def)

lemma json_plain_map: "list_all conn_ok cs \<Longrightarrow> json_plain_elems (map conn_json cs)"
  by (induction cs) (simp_all add: conn_json_plain)

text \<open>The clock shows fewer than \<open>2 ^ 53\<close> milliseconds.\<close>

lemma backup_json_plain:
  "json_plain sealed \<Longrightarrow> list_all conn_ok cs \<Longrightarrow> abs now \<le> 2 ^ 53 \<Longrightarrow> json_plain (backup_json now cs sealed)"
  by (simp add: backup_json_def json_plain_map double_int BACKUP_VERSION_def)

lemma demo_parse:
  "parse_json (demo_file ids) =
     Some (backup_json 0 (map (\<lambda>i. plain_conn i ''mysql'' []\<lparr>c_sslMode := ''none''\<rparr>) ids) (VObj []))"
proof -
  have "json_plain (conn_json (plain_conn i ''mysql'' []\<lparr>c_sslMode := ''none''\<rparr>))" for i
    by (simp add: conn_json_def plain_conn_def double_int)
  then have "json_plain_elems (map conn_json (map (\<lambda>i. plain_conn i ''mysql'' []\<lparr>c_sslMode := ''none''\<rparr>) ids))"
    by (induction ids) simp_all
  then show ?thesis
    unfolding demo_file_def by (intro parse_json_fmt) (simp add: backup_json_def double_int BACKUP_VERSION_def)
qed

lemma demo_apply:
  "ids \<noteq> [] \<Longrightarrow> list_all plain_field ids \<Longrightarrow>
     applyBackup demo_open cd [] (demo_file ids) ''pw'' st =
       (case fold (merge_one cd [] [] (map c_id (st_conns st))) (map (\<lambda>i. plain_conn i ''mysql'' []\<lparr>c_sslMode := ''none''\<rparr>) ids)
          (st, \<lparr>n_added = 0, n_replaced = 0, n_skipped = 0, n_withoutSecrets = 0, n_tunnelsDropped = 0\<rparr>)
        of (st', n) \<Rightarrow> (Inr n, st'))"
proof -
  assume ids: "ids \<noteq> []" "list_all plain_field ids"
  let ?c = "\<lambda>i. plain_conn i ''mysql'' []\<lparr>c_sslMode := ''none''\<rparr>"
  have ok: "plain_field i \<Longrightarrow> sanitizeConnection (conn_json (?c i)) valid_kinds = Some (?c i)" for i
    by (rule sanitize_conn_json)
       (simp add: conn_ok_def limit_ok_def plain_conn_def valid_kinds_eq port_ok_def VALID_SSL_def, simp add: plain_field_def trimmed_def is_space_c_code)
  have "list_all plain_field is \<Longrightarrow> parse_records (map (\<lambda>x. conn_json (?c x)) is) = (map ?c is, 0)" for "is"
    by (induction "is") (auto simp: parse_records_def ok)
  with ids have p: "parseBackupFile (backup_json 0 (map ?c ids) (VObj [])) = Inr (map ?c ids, VObj [], 0)"
    by (simp add: parseBackupFile_def backup_json_def too_new_def BACKUP_VERSION_def comp_def)
  have "parse_json ''{}'' = Some (VObj [])" by code_simp
  then show ?thesis
    by (simp add: applyBackup_def demo_parse p demo_open_def split: prod.splits)
qed


text \<open>
  Ids are compared with the store as it was before the import only, so a file that
  names a new id twice leaves two connections with one id, which later lookups, edits and
  deletions take for one.
\<close>

theorem applyBackup_duplicates:
  "map c_id (st_conns (snd (applyBackup demo_open True [] (demo_file [''c'', ''c'']) ''pw''
      \<lparr>st_conns = [], st_keys = []\<rparr>))) = [''c'', ''c'']"
proof -
  have "plain_field ''c''" by (simp add: plain_field_def trimmed_def is_space_c_code)
  then show ?thesis
    by (simp add: demo_apply merge_one_def Let_def plain_conn_def split: prod.splits)
qed

section \<open>Export, then import\<close>

definition saved_password :: "keychain \<Rightarrow> conn \<Rightarrow> string option" where
  "saved_password k c = (if c_kind c = ''sqlite'' then None
     else (case getSecret (c_id c) k of None \<Rightarrow> None | Some p \<Rightarrow> if p = [] then None else Some p))"

definition secret_members :: "keychain \<Rightarrow> conn list \<Rightarrow> (string \<times> jsval) list" where
  "secret_members k cs = concat (map (\<lambda>c. case saved_password k c of None \<Rightarrow> []
     | Some p \<Rightarrow> [(c_id c, VObj [(''password'', VStr p)])]) cs)"

lemma secrets_json_members: "secrets_json k cs = VObj (secret_members k cs)"
proof -
  have "(\<lambda>c. if c_kind c = ''sqlite'' then []
     else (case getSecret (c_id c) k of None \<Rightarrow> []
       | Some p \<Rightarrow> if p = [] then [] else [(c_id c, VObj [(''password'', VStr p)])])) =
    (\<lambda>c. case saved_password k c of None \<Rightarrow> [] | Some p \<Rightarrow> [(c_id c, VObj [(''password'', VStr p)])])"
    by (rule ext) (auto simp: saved_password_def split: option.splits)
  then show ?thesis by (simp add: secrets_json_def secret_members_def)
qed

lemma secret_members_ids: "fst ` set (secret_members k cs) \<subseteq> c_id ` set cs"
  by (auto simp: secret_members_def split: option.splits)

lemma secret_members_distinct: "distinct (map c_id cs) \<Longrightarrow> distinct (map fst (secret_members k cs))"
proof (induction cs)
  case (Cons c cs)
  have "secret_members k (c # cs) =
      (case saved_password k c of None \<Rightarrow> [] | Some p \<Rightarrow> [(c_id c, VObj [(''password'', VStr p)])]) @ secret_members k cs"
    by (simp add: secret_members_def)
  with Cons secret_members_ids [of k cs] show ?case by (auto split: option.splits)
qed (simp add: secret_members_def)

lemma secret_members_plain: "json_plain_members (secret_members k cs)"
proof -
  have app: "json_plain_members (xs @ ys) = (json_plain_members xs \<and> json_plain_members ys)" for xs ys
    by (induction xs) auto
  show ?thesis by (induction cs) (auto simp: secret_members_def app split: option.splits)
qed

lemma sanitizeSecrets_members:
  "distinct (map fst ps) \<Longrightarrow> (\<And>i e. (i, e) \<in> set ps \<Longrightarrow> \<exists>p. e = VObj [(''password'', VStr p)] \<and> p \<noteq> []) \<Longrightarrow>
     omap_get (sanitizeSecrets (VObj ps)) i =
       (case omap_get ps i of None \<Rightarrow> None | Some e \<Rightarrow> Some (json_str (jget e ''password'')))"
proof (induction ps rule: rev_induct)
  case (snoc x ps)
  obtain j p where x: "x = (j, VObj [(''password'', VStr p)])" "p \<noteq> []"
    using snoc.prems(2) [of "fst x" "snd x"] by (metis in_set_conv_decomp prod.collapse)
  have app: "omap_get (ps @ [(j, v)]) i = (case omap_get ps i of None \<Rightarrow> (if i = j then Some v else None) | Some w \<Rightarrow> Some w)" for v :: jsval
    by (induction ps i rule: omap_get.induct) auto
  have "j \<notin> fst ` set ps" using snoc.prems(1) x by auto
  then have new: "omap_get ps j = None" by (simp add: omap_get_None omap_keys_def)
  have IH: "omap_get (sanitizeSecrets (VObj ps)) i =
       (case omap_get ps i of None \<Rightarrow> None | Some e \<Rightarrow> Some (json_str (jget e ''password'')))"
    using snoc by auto
  have "sanitizeSecrets (VObj (ps @ [x])) = omap_set (sanitizeSecrets (VObj ps)) j p"
    using x by simp
  then show ?case using IH new x app
    by (auto simp: omap_get_set json_str_def split: option.splits)
qed simp

lemma secret_members_get:
  "distinct (map c_id cs) \<Longrightarrow> c \<in> set cs \<Longrightarrow>
     omap_get (secret_members k cs) (c_id c) = map_option (\<lambda>p. VObj [(''password'', VStr p)]) (saved_password k c)"
proof (induction cs)
  case (Cons d cs)
  have split: "secret_members k (d # cs) =
      (case saved_password k d of None \<Rightarrow> [] | Some p \<Rightarrow> [(c_id d, VObj [(''password'', VStr p)])]) @ secret_members k cs"
    by (simp add: secret_members_def)
  show ?case
  proof (cases "c = d")
    case True
    have "c_id d \<notin> fst ` set (secret_members k cs)" using Cons.prems(1) secret_members_ids [of k cs] by auto
    then have "omap_get (secret_members k cs) (c_id d) = None" by (simp add: omap_get_None omap_keys_def)
    with True split show ?thesis by (simp split: option.splits)
  next
    case False
    with Cons.prems have "c \<in> set cs" by simp
    then have "c_id c \<in> c_id ` set cs" by (rule imageI)
    with Cons.prems(1) have "c_id c \<noteq> c_id d" by auto
    with False Cons split show ?thesis by (auto split: option.splits)
  qed
qed simp

lemma secret_members_shape:
  "(i, e) \<in> set (secret_members k cs) \<Longrightarrow> \<exists>p. e = VObj [(''password'', VStr p)] \<and> p \<noteq> []"
proof -
  assume "(i, e) \<in> set (secret_members k cs)"
  then obtain c where "(i, e) \<in> set (case saved_password k c of None \<Rightarrow> []
      | Some p \<Rightarrow> [(c_id c, VObj [(''password'', VStr p)])])" by (auto simp: secret_members_def)
  then obtain p where "saved_password k c = Some p" "e = VObj [(''password'', VStr p)]"
    by (cases "saved_password k c") auto
  then show ?thesis by (auto simp: saved_password_def split: if_splits option.splits)
qed

lemma sanitized_secret:
  assumes "distinct (map c_id cs)" "c \<in> set cs"
  shows "omap_get (sanitizeSecrets (VObj (secret_members k cs))) (c_id c) = saved_password k c"
proof -
  have "omap_get (sanitizeSecrets (VObj (secret_members k cs))) (c_id c) =
      (case omap_get (secret_members k cs) (c_id c) of None \<Rightarrow> None | Some e \<Rightarrow> Some (json_str (jget e ''password'')))"
    by (rule sanitizeSecrets_members [OF secret_members_distinct [OF assms(1)]]) (rule secret_members_shape)
  also have "\<dots> = saved_password k c"
    unfolding secret_members_get [OF assms] by (cases "saved_password k c") (simp_all add: json_str_def)
  finally show ?thesis .
qed

lemma parse_records_conns: "list_all conn_ok cs \<Longrightarrow> parse_records (map conn_json cs) = (cs, 0)"
  by (induction cs) (auto simp: parse_records_def Let_def sanitize_conn_json)

lemma parse_backup_json:
  assumes "list_all conn_ok cs" "cs \<noteq> []" "is_obj sealed"
  shows "parseBackupFile (backup_json now cs sealed) = Inr (cs, sealed, 0)"
  using assms by (simp add: parseBackupFile_def backup_json_def too_new_def BACKUP_VERSION_def parse_records_conns)

lemma merge_fold_fresh:
  "st_conns (fst (fold (merge_one cd ssh sec []) cs sn)) = st_conns (fst sn) @ map (resolve_tunnel ssh) cs"
  by (induction cs arbitrary: sn) (simp_all add: merge_one_conns)

lemma secret_key_inj [simp]: "secret_key a = secret_key b \<longleftrightarrow> a = b"
  by (simp add: secret_key_def)

lemma merge_one_secret:
  "getSecret i (st_keys (fst (merge_one cd ssh sec [] c sn))) =
     (case omap_get sec (c_id c) of
        Some p \<Rightarrow> if p \<noteq> [] \<and> c_id c = i then Some p else getSecret i (st_keys (fst sn))
      | None \<Rightarrow> getSecret i (st_keys (fst sn)))"
  by (cases sn) (auto simp: merge_one_def Let_def setSecret_def getSecret_def omap_get_set split: option.splits)

lemma merge_fold_secret_none:
  "omap_get sec i = None \<Longrightarrow>
     getSecret i (st_keys (fst (fold (merge_one cd ssh sec []) cs sn))) = getSecret i (st_keys (fst sn))"
  by (induction cs arbitrary: sn) (auto simp: merge_one_secret split: option.splits)

lemma merge_fold_secret_other:
  "i \<notin> c_id ` set cs \<Longrightarrow> getSecret i (st_keys (fst (fold (merge_one cd ssh sec []) cs sn))) = getSecret i (st_keys (fst sn))"
  by (induction cs arbitrary: sn) (auto simp: merge_one_secret split: option.splits)

lemma merge_fold_secret:
  "distinct (map c_id cs) \<Longrightarrow> c \<in> set cs \<Longrightarrow> omap_get sec (c_id c) = Some p \<Longrightarrow> p \<noteq> [] \<Longrightarrow>
     getSecret (c_id c) (st_keys (fst (fold (merge_one cd ssh sec []) cs sn))) = Some p"
proof (induction cs arbitrary: sn)
  case (Cons d cs)
  show ?case
  proof (cases "c = d")
    case True
    then have "c_id c \<notin> c_id ` set cs" using Cons.prems(1) by auto
    with True Cons.prems show ?thesis by (simp add: merge_fold_secret_other merge_one_secret)
  next
    case False
    with Cons show ?thesis by simp
  qed
qed simp

lemma resolve_tunnel_kept:
  "resolve_tunnel ssh c = c \<longleftrightarrow> \<not> (c_sshTunnel c \<noteq> [] \<and> c_sshTunnel c \<notin> set ssh)"
  by (cases c) (auto simp: resolve_tunnel_def)

lemma merge_fold_tally:
  "list_all (\<lambda>c. resolve_tunnel ssh c = c) cs \<Longrightarrow>
     (let n = snd sn; m = snd (fold (merge_one cd ssh sec []) cs sn) in
      n_added m = n_added n + length cs \<and> n_replaced m = n_replaced n \<and> n_skipped m = n_skipped n \<and>
      n_tunnelsDropped m = n_tunnelsDropped n)"
proof (induction cs arbitrary: sn)
  case (Cons c cs)
  then have "\<not> (c_sshTunnel c \<noteq> [] \<and> c_sshTunnel c \<notin> set ssh)"
    using resolve_tunnel_kept [of ssh c] by simp
  then have "n_added (snd (merge_one cd ssh sec [] c sn)) = Suc (n_added (snd sn)) \<and>
      n_replaced (snd (merge_one cd ssh sec [] c sn)) = n_replaced (snd sn) \<and>
      n_skipped (snd (merge_one cd ssh sec [] c sn)) = n_skipped (snd sn) \<and>
      n_tunnelsDropped (snd (merge_one cd ssh sec [] c sn)) = n_tunnelsDropped (snd sn)"
    by (cases sn) (auto simp: merge_one_def Let_def)
  with Cons show ?case by (simp add: Let_def)
qed (simp add: Let_def)

lemma backup_survives:
  assumes host: "\<And>p. opener (seal p pass) pass = Some p" "\<And>p. is_obj (seal p pass)" "\<And>p. json_plain (seal p pass)"
    and conns: "list_all conn_ok cs" "distinct (map c_id cs)"
    and tunnels: "list_all (\<lambda>c. resolve_tunnel ssh c = c) cs"
    and clock: "abs now \<le> 2 ^ 53"
    and built: "buildBackup seal now k cs pass = Inr (text, n)"
  shows "n = length cs \<and>
    (case applyBackup opener cd ssh text pass \<lparr>st_conns = [], st_keys = []\<rparr> of (res, st) \<Rightarrow>
       (\<exists>m. res = Inr m \<and> n_added m = length cs \<and> n_replaced m = 0 \<and> n_skipped m = 0 \<and> n_tunnelsDropped m = 0) \<and> st_conns st = cs \<and>
       list_all (\<lambda>c. saved_password (st_keys st) c = saved_password k c) cs)"
proof -
  let ?plain = "json_text (secrets_json k cs)" and ?st0 = "\<lparr>st_conns = [], st_keys = []\<rparr>"
  have b: "pass \<noteq> []" "cs \<noteq> []" "n = length cs" "text = json_fmt 2 0 (backup_json now cs (seal ?plain pass))"
    using built by (auto simp: buildBackup_def Let_def split: if_splits)
  have parsed: "parse_json text = Some (backup_json now cs (seal ?plain pass))"
    unfolding b(4) by (rule parse_json_fmt) (rule backup_json_plain [OF host(3) conns(1) clock])
  have sec: "parse_json ?plain = Some (VObj (secret_members k cs))"
    unfolding secrets_json_members
    by (rule parse_json_text) (simp add: secret_members_distinct [OF conns(2)] secret_members_plain)
  let ?sec = "sanitizeSecrets (VObj (secret_members k cs))"
  let ?n0 = "\<lparr>n_added = 0, n_replaced = 0, n_skipped = 0, n_withoutSecrets = 0, n_tunnelsDropped = 0\<rparr>"
  let ?f = "fold (merge_one cd ssh ?sec []) cs (?st0, ?n0)"
  have app: "applyBackup opener cd ssh text pass ?st0 = (Inr (snd ?f), fst ?f)"
    using parsed b(1) parse_backup_json [OF conns(1) b(2) host(2)] sec host(1)
    by (simp add: applyBackup_def Let_def case_prod_beta)
  have "map (resolve_tunnel ssh) cs = cs" using tunnels by (simp add: list_all_iff map_idI)
  then have c: "st_conns (fst ?f) = cs" by (simp add: merge_fold_fresh)
  have "saved_password (st_keys (fst ?f)) c = saved_password k c" if "c \<in> set cs" for c
  proof -
    have get: "omap_get ?sec (c_id c) = saved_password k c"
      by (rule sanitized_secret [OF conns(2) that])
    show ?thesis
    proof (cases "saved_password k c")
      case None
      then show ?thesis
        using merge_fold_secret_none [OF get [unfolded None], of cd ssh cs "(?st0, ?n0)"]
        by (auto simp: saved_password_def getSecret_def split: if_splits)
    next
      case (Some p)
      then have "p \<noteq> []" "c_kind c \<noteq> ''sqlite''" by (auto simp: saved_password_def split: if_splits option.splits)
      with merge_fold_secret [OF conns(2) that get [unfolded Some], of cd ssh "(?st0, ?n0)"] Some
      show ?thesis by (simp add: saved_password_def [of "st_keys _"])
    qed
  qed
  then show ?thesis
    using b(3) app c merge_fold_tally [OF tunnels, where cd = cd and sec = ?sec and sn = "(?st0, ?n0)"]
    by (simp add: list_all_iff Let_def del: sanitizeSecrets.simps)
qed

text \<open>
  exporting the connections of one machine and importing the file on an empty one,
  with the same passphrase, gives the same connections in the same order and every
  password, provided the host opens what it sealed. (Tunnels must name hosts the other
  machine knows; they are dropped otherwise.)
\<close>

theorem backup_roundtrip:
  assumes host: "\<And>p. opener (seal p pass) pass = Some p" "\<And>p. is_obj (seal p pass)" "\<And>p. json_plain (seal p pass)"
    and conns: "list_all conn_ok cs" "distinct (map c_id cs)"
    and tunnels: "list_all (\<lambda>c. resolve_tunnel ssh c = c) cs"
    and clock: "abs now \<le> 2 ^ 53"
    and built: "buildBackup seal now k cs pass = Inr (text, n)"
  shows "n = length cs \<and>
    (case applyBackup opener cd ssh text pass \<lparr>st_conns = [], st_keys = []\<rparr> of (res, st) \<Rightarrow>
       (\<exists>m. res = Inr m) \<and> st_conns st = cs \<and>
       list_all (\<lambda>c. saved_password (st_keys st) c = saved_password k c) cs)"
  using backup_survives [where seal = seal and pass = pass and opener = opener, OF host conns tunnels clock built, where cd = cd]
  by (auto split: prod.splits)

definition demo_seal :: "string \<Rightarrow> string \<Rightarrow> jsval" where
  "demo_seal p pass = VObj [(''d'', VStr p)]"

definition demo_unseal :: "jsval \<Rightarrow> string \<Rightarrow> string option" where
  "demo_unseal b pass = Some (json_str (jget b ''d''))"

lemma backup_roundtrip_witness:
  "let cs = [plain_conn ''c'' ''mysql'' []\<lparr>c_sslMode := ''none''\<rparr>]; k = [(''conn:c'', ''pw'')];
       text = json_fmt 2 0 (backup_json 0 cs (demo_seal (json_text (secrets_json k cs)) ''x''))
   in st_conns (snd (applyBackup demo_unseal True [] text ''x'' \<lparr>st_conns = [], st_keys = []\<rparr>)) = cs"
proof -
  let ?cs = "[plain_conn ''c'' ''mysql'' []\<lparr>c_sslMode := ''none''\<rparr>]" and ?k = "[(''conn:c'', ''pw'')]"
  let ?text = "json_fmt 2 0 (backup_json 0 ?cs (demo_seal (json_text (secrets_json ?k ?cs)) ''x''))"
  have ok: "list_all conn_ok ?cs" by code_simp
  have b: "buildBackup demo_seal 0 ?k ?cs ''x'' = Inr (?text, 1)" by (simp add: buildBackup_def)
  have t: "list_all (\<lambda>c. resolve_tunnel [] c = c) ?cs" by (simp add: resolve_tunnel_def plain_conn_def)
  have "case applyBackup demo_unseal True [] ?text ''x'' \<lparr>st_conns = [], st_keys = []\<rparr> of (res, st) \<Rightarrow>
       (\<exists>m. res = Inr m) \<and> st_conns st = ?cs \<and> list_all (\<lambda>c. saved_password (st_keys st) c = saved_password ?k c) ?cs"
    using backup_roundtrip [of demo_unseal demo_seal "''x''" ?cs "[]" 0 ?k ?text 1 True, OF _ _ _ ok _ t _ b]
    by (simp add: demo_seal_def demo_unseal_def json_str_def)
  then show ?thesis by (simp add: Let_def case_prod_beta)
qed

end
