(* ===== verification/Managed.thy ===== *)
theory Managed
  imports Backup
begin

text \<open>
  \<open>src/src/connections/managed.js\<close>: the connections another extension publishes in a file,
  and the synchronisation of the saved list with them. What the host answers when the file
  is read is an argument, \<open>None\<close> when it fails or is not text.
\<close>

definition MANAGED_PREFIX :: string where
  "MANAGED_PREFIX = ''devenv:''"

definition HANDOFF_KIND :: string where
  "HANDOFF_KIND = ''tedi-dev-environment''"

definition HANDOFF_VERSION :: int where
  "HANDOFF_VERSION = 1"

definition handoffFile :: "string \<Rightarrow> string \<Rightarrow> string" where
  "handoffFile home platform =
     (let h = re_replace1 (rseq [rplus (rchar (CHR ''/'')), REol]) [] home in
      if h = [] then []
      else js_join (if platform = ''windows'' then [CHR 0x5C] else ''/'') [h, ''.tedi'', ''dev-environment.json''])"

definition managed :: "conn \<Rightarrow> bool" where
  "managed c = startsWith (c_id c) MANAGED_PREFIX"

definition offered_in :: "jsval \<Rightarrow> conn list" where
  "offered_in raw =
     (if jget raw ''kind'' \<noteq> VStr HANDOFF_KIND then []
      else if too_new (jget raw ''version'') HANDOFF_VERSION then []
      else filter managed (fst (parse_records (case jget raw ''connections'' of VArr es \<Rightarrow> es | _ \<Rightarrow> []))))"

definition readOfferedConnections :: "string \<Rightarrow> string option \<Rightarrow> conn list" where
  "readOfferedConnections path content =
     (if path = [] then []
      else (case content of
          None \<Rightarrow> []
        | Some t \<Rightarrow> (case parse_json t of None \<Rightarrow> [] | Some raw \<Rightarrow> offered_in raw)))"

text \<open>\<open>byId\<close> maps an id to its last offer; a row of an id that is not offered is dropped.\<close>

definition offer_of :: "conn list \<Rightarrow> string \<Rightarrow> conn option" where
  "offer_of offered i = omap_get (omap_of (map (\<lambda>c. (c_id c, c)) offered)) i"

definition readdress :: "conn \<Rightarrow> conn \<Rightarrow> conn" where
  "readdress c offer = c\<lparr>c_kind := c_kind offer, c_host := c_host offer, c_port := c_port offer, c_user := c_user offer\<rparr>"

definition keep_rows :: "conn list \<Rightarrow> conn list \<Rightarrow> conn list" where
  "keep_rows offered cs = concat (map (\<lambda>c.
     if \<not> managed c then [c]
     else (case offer_of offered (c_id c) of None \<Rightarrow> [] | Some o1 \<Rightarrow> [readdress c o1])) cs)"

definition seen_ids :: "conn list \<Rightarrow> conn list \<Rightarrow> string set" where
  "seen_ids offered cs = {i \<in> c_id ` set (filter managed cs). offer_of offered i \<noteq> None}"

definition syncManagedConnections :: "conn list \<Rightarrow> conn list \<Rightarrow> bool \<times> conn list" where
  "syncManagedConnections offered cs =
     (let next = keep_rows offered cs @ filter (\<lambda>c. c_id c \<notin> seen_ids offered cs) offered
      in if next = cs then (False, cs) else (True, next))"

section \<open>Properties\<close>

lemma readdress_id [simp]: "c_id (readdress c d) = c_id c"
  by (simp add: readdress_def)

lemma managed_readdress [simp]: "managed (readdress c d) = managed c"
  by (simp add: managed_def)

lemma offered_managed: "list_all managed (offered_in raw)"
  by (auto simp: offered_in_def list_all_iff)

lemma offer_of_None: "offer_of offered i = None \<longleftrightarrow> i \<notin> c_id ` set offered"
  unfolding offer_of_def omap_of_get omap_get_None by (force simp: omap_keys_def)

lemma offer_of_Some: "offer_of offered i = Some c \<Longrightarrow> c \<in> set offered \<and> c_id c = i"
  unfolding offer_of_def omap_of_get by (drule omap_get_in) auto

lemma offer_of_distinct: "distinct (map c_id offered) \<Longrightarrow> c \<in> set offered \<Longrightarrow> offer_of offered (c_id c) = Some c"
proof -
  assume d: "distinct (map c_id offered)" and c: "c \<in> set offered"
  then obtain e where "offer_of offered (c_id c) = Some e" using offer_of_None by fastforce
  moreover from offer_of_Some [OF this] d c have "e = c" by (auto simp: distinct_map inj_on_def)
  ultimately show ?thesis by simp
qed

lemma sync_list: "snd (syncManagedConnections offered cs) =
    keep_rows offered cs @ filter (\<lambda>c. c_id c \<notin> seen_ids offered cs) offered"
  by (simp add: syncManagedConnections_def Let_def)

lemma keep_rows_unmanaged:
  "filter (\<lambda>c. \<not> managed c) (keep_rows offered cs) = filter (\<lambda>c. \<not> managed c) cs"
proof (induction cs)
  case (Cons c cs)
  have "keep_rows offered (c # cs) =
      (if \<not> managed c then [c] else (case offer_of offered (c_id c) of None \<Rightarrow> [] | Some d \<Rightarrow> [readdress c d])) @ keep_rows offered cs"
    by (simp add: keep_rows_def)
  with Cons show ?case by (auto split: option.splits)
qed (simp add: keep_rows_def)

lemma keep_rows_fixed:
  "(\<And>c. c \<in> set cs \<Longrightarrow> managed c \<Longrightarrow> \<exists>d. offer_of offered (c_id c) = Some d \<and> readdress c d = c) \<Longrightarrow>
     keep_rows offered cs = cs"
proof (induction cs)
  case (Cons c cs)
  have rest: "keep_rows offered cs = cs" using Cons by simp
  show ?case
  proof (cases "managed c")
    case True
    then obtain d where "offer_of offered (c_id c) = Some d" "readdress c d = c" using Cons.prems [of c] by auto
    with True rest show ?thesis by (simp add: keep_rows_def)
  next
    case False
    with rest show ?thesis by (simp add: keep_rows_def)
  qed
qed (simp add: keep_rows_def)

lemma keep_rows_Cons:
  "keep_rows offered (c # cs) =
     (if \<not> managed c then [c]
      else (case offer_of offered (c_id c) of None \<Rightarrow> [] | Some d \<Rightarrow> [readdress c d])) @ keep_rows offered cs"
  by (simp add: keep_rows_def)

lemma keep_rows_managed:
  "c \<in> set (keep_rows offered cs) \<and> managed c \<longleftrightarrow>
     (\<exists>c0 d. c0 \<in> set cs \<and> managed c0 \<and> offer_of offered (c_id c0) = Some d \<and> c = readdress c0 d)"
proof (induction cs)
  case Nil
  then show ?case by (simp add: keep_rows_def)
next
  case (Cons a cs)
  show ?case
  proof (cases "managed a")
    case True
    show ?thesis
    proof (cases "offer_of offered (c_id a)")
      case None
      then have "keep_rows offered (a # cs) = keep_rows offered cs" using True by (simp add: keep_rows_Cons)
      with Cons None show ?thesis by auto
    next
      case (Some d)
      then have "keep_rows offered (a # cs) = readdress a d # keep_rows offered cs"
        using True by (simp add: keep_rows_Cons)
      with Cons Some True show ?thesis by auto
    qed
  next
    case False
    with Cons show ?thesis by (simp add: keep_rows_Cons) blast
  qed
qed

text \<open>The list a synchronisation arrives at, and its managed rows.\<close>

abbreviation synced :: "conn list \<Rightarrow> conn list \<Rightarrow> conn list" where
  "synced offered cs \<equiv> keep_rows offered cs @ filter (\<lambda>c. c_id c \<notin> seen_ids offered cs) offered"

lemma synced_user:
  "list_all managed offered \<Longrightarrow> filter (\<lambda>c. \<not> managed c) (synced offered cs) = filter (\<lambda>c. \<not> managed c) cs"
proof -
  assume "list_all managed offered"
  then have "filter (\<lambda>c. \<not> managed c \<and> c_id c \<notin> seen_ids offered cs) offered = []"
    by (auto simp: filter_empty_conv list_all_iff)
  then show ?thesis using keep_rows_unmanaged [of offered cs] by (simp add: filter_filter conj_commute)
qed

lemma synced_rows:
  "list_all managed offered \<Longrightarrow> c \<in> set (synced offered cs) \<and> managed c \<longleftrightarrow>
     (\<exists>c0 d. c0 \<in> set cs \<and> managed c0 \<and> offer_of offered (c_id c0) = Some d \<and> c = readdress c0 d) \<or>
     (c \<in> set offered \<and> c_id c \<notin> seen_ids offered cs)"
  using keep_rows_managed [of c offered cs] by (auto simp: list_all_iff)

lemma synced_ids_offered:
  assumes "list_all managed offered" "c \<in> set (synced offered cs)" "managed c"
  shows "c_id c \<in> c_id ` set offered"
proof -
  from synced_rows [OF assms(1), of c cs] assms consider
      (row) c0 d where "offer_of offered (c_id c0) = Some d" "c = readdress c0 d" | (offer) "c \<in> set offered" by auto
  then show ?thesis
  proof cases
    case row
    from offer_of_Some [OF row(1)] have "d \<in> set offered" "c_id d = c_id c" using row(2) by auto
    then show ?thesis by (metis imageI)
  qed blast
qed

lemma offered_ids_synced:
  assumes "list_all managed offered" "d \<in> set offered"
  shows "\<exists>c. c \<in> set (synced offered cs) \<and> managed c \<and> c_id c = c_id d"
proof (cases "c_id d \<in> seen_ids offered cs")
  case True
  then obtain c0 e where "c0 \<in> set cs" "managed c0" "c_id c0 = c_id d" "offer_of offered (c_id d) = Some e"
    by (auto simp: seen_ids_def)
  then show ?thesis
    using synced_rows [OF assms(1), of "readdress c0 e" cs] by (intro exI [of _ "readdress c0 e"]) auto
next
  case False
  then show ?thesis using synced_rows [OF assms(1), of d cs] assms(2) by blast
qed

lemma synced_ids:
  assumes "list_all managed offered"
  shows "c_id ` set (filter managed (synced offered cs)) = c_id ` set offered"
proof (intro equalityI subsetI)
  fix i assume "i \<in> c_id ` set offered"
  then obtain d where d: "d \<in> set offered" "i = c_id d" by auto
  then obtain c where "c \<in> set (synced offered cs)" "managed c" "c_id c = i" using offered_ids_synced [OF assms] by metis
  then show "i \<in> c_id ` set (filter managed (synced offered cs))" by (auto intro!: image_eqI [of _ _ c])
qed (use synced_ids_offered [OF assms] in auto)

lemma synced_again:
  assumes "list_all managed offered" "distinct (map c_id offered)"
  shows "fst (syncManagedConnections offered (synced offered cs)) = False"
proof -
  let ?next = "synced offered cs"
  have "\<exists>d. offer_of offered (c_id c) = Some d \<and> readdress c d = c" if "c \<in> set ?next" "managed c" for c
    using synced_rows [OF assms(1), of c cs] that offer_of_distinct [OF assms(2)] by (auto simp: readdress_def)
  then have "keep_rows offered ?next = ?next" by (rule keep_rows_fixed)
  moreover have "c_id c \<in> seen_ids offered ?next" if "c \<in> set offered" for c
    using that synced_ids [OF assms(1), of cs] offer_of_None [of offered "c_id c"] unfolding seen_ids_def by blast
  then have "filter (\<lambda>c. c_id c \<notin> seen_ids offered ?next) offered = []" by (simp add: filter_empty_conv)
  ultimately show ?thesis by (simp add: syncManagedConnections_def Let_def)
qed



end
