(* ===== verification/Host.thy ===== *)
theory Host
  imports Store History
begin

text \<open>
  What the handlers of the extension do to the world outside its own state: requests to the
  helper process, calls of the host's API, messages to the user. A handler is a function
  from the state and the answers it receives to the new state, which carries the effects in
  the order they happen. A failing call is an \<open>Inl\<close> with its message.

  The theory also holds the per-connection status (\<open>tree/connState.js\<close>) and the tab title
  (\<open>render/tabState.js\<close>), which almost every handler touches.
\<close>

datatype effect =
    Fetch string string jsval
  | OpenForward string string jsnum
  | CloseForward string string jsnum
  | Persist "conn list"
  | SaveWorkbench workbench
  | Confirm string string "string option"
  | Toast string string
  | TabState "conn_status option" string
  | SyncSidebar
  | Rerender
  | Sleep int
  | Clipboard string string
  | ReadSecret string
  | Ui string

record world =
  wd_app :: app
  wd_keys :: keychain
  wd_hist :: hist
  wd_trace :: "effect list"

definition emit :: "effect \<Rightarrow> world \<Rightarrow> world" where
  "emit e w = w\<lparr>wd_trace := wd_trace w @ [e]\<rparr>"

definition upd_app :: "(app \<Rightarrow> app) \<Rightarrow> world \<Rightarrow> world" where
  "upd_app f w = w\<lparr>wd_app := f (wd_app w)\<rparr>"

lemma emit_simps [simp]:
  "wd_app (emit e w) = wd_app w" "wd_keys (emit e w) = wd_keys w" "wd_hist (emit e w) = wd_hist w"
  "wd_trace (emit e w) = wd_trace w @ [e]"
  by (simp_all add: emit_def)

lemma upd_app_simps [simp]:
  "wd_app (upd_app f w) = f (wd_app w)" "wd_keys (upd_app f w) = wd_keys w"
  "wd_hist (upd_app f w) = wd_hist w" "wd_trace (upd_app f w) = wd_trace w"
  by (simp_all add: upd_app_def)

section \<open>Tab title and status\<close>

definition title_of :: "string \<Rightarrow> string" where
  "title_of detail = (if detail = [] then ''SQL Explorer'' else ''SQL Explorer '' @ [CHR 0xB7, CHR '' ''] @ detail)"

definition or_str :: "string \<Rightarrow> string \<Rightarrow> string" where
  "or_str a b = (if a = [] then b else a)"

definition currentPaneTitle :: "app \<Rightarrow> string" where
  "currentPaneTitle a = (case a_active a of
       None \<Rightarrow> ''SQL Explorer''
     | Some i \<Rightarrow>
        if i = [] then ''SQL Explorer''
        else
          (let session = omap_get (a_sessions a) i;
               c = find_conn (a_connections a) i
           in case Option.bind session s_activeTable of
                Some t \<Rightarrow> title_of (if t_database t = [] then t_table t else t_database t @ ''.'' @ t_table t)
              | None \<Rightarrow> title_of
                  (or_str (case Option.bind session s_currentDatabase of Some d \<Rightarrow> d | None \<Rightarrow> [])
                    (case c of None \<Rightarrow> [] | Some c \<Rightarrow> or_str (c_database c) (c_name c)))))"

definition setTabState :: "conn_status option \<Rightarrow> world \<Rightarrow> world" where
  "setTabState st w = emit (TabState st (currentPaneTitle (wd_app w))) w"

text \<open>\<open>None\<close> is the cleared status (\<open>null\<close> or \<open>"idle"\<close>).\<close>

definition setConnState :: "string \<Rightarrow> conn_status option \<Rightarrow> world \<Rightarrow> world" where
  "setConnState i st w =
     (let w1 = upd_app (\<lambda>a. a\<lparr>a_connStatus := (case st of
                  None \<Rightarrow> omap_delete (a_connStatus a) i
                | Some v \<Rightarrow> omap_set (a_connStatus a) i v)\<rparr>) w;
          w2 = (if a_active (wd_app w1) = Some i then setTabState st w1 else w1)
      in emit SyncSidebar w2)"

definition sidebarToneFor :: "app \<Rightarrow> string \<Rightarrow> string" where
  "sidebarToneFor a i = (case omap_get (a_connStatus a) i of
       Some Connecting \<Rightarrow> ''connecting''
     | Some Reconnecting \<Rightarrow> ''connecting''
     | Some Connected \<Rightarrow> ''connected''
     | Some StError \<Rightarrow> ''error''
     | _ \<Rightarrow> ''default'')"

lemma setTabState_simps [simp]:
  "wd_app (setTabState st w) = wd_app w" "wd_keys (setTabState st w) = wd_keys w"
  "wd_hist (setTabState st w) = wd_hist w"
  "wd_trace (setTabState st w) = wd_trace w @ [TabState st (currentPaneTitle (wd_app w))]"
  by (simp_all add: setTabState_def)

lemma setConnState_simps [simp]:
  "a_connections (wd_app (setConnState i st w)) = a_connections (wd_app w)"
  "a_sessions (wd_app (setConnState i st w)) = a_sessions (wd_app w)"
  "a_active (wd_app (setConnState i st w)) = a_active (wd_app w)"
  "wd_keys (setConnState i st w) = wd_keys w" "wd_hist (setConnState i st w) = wd_hist w"
  by (simp_all add: setConnState_def Let_def)

lemma setConnState_status:
  "omap_get (a_connStatus (wd_app (setConnState i st w))) j =
     (if j = i then st else omap_get (a_connStatus (wd_app w)) j)"
  by (simp add: setConnState_def Let_def omap_get_set omap_get_delete split: option.splits)

text \<open>The part of a trace a property looks at: the requests, in order.\<close>

definition requests :: "effect list \<Rightarrow> (string \<times> jsval) list" where
  "requests tr = concat (map (\<lambda>e. case e of Fetch p m b \<Rightarrow> [(p, b)] | _ \<Rightarrow> []) tr)"

definition toasts :: "effect list \<Rightarrow> string list" where
  "toasts tr = concat (map (\<lambda>e. case e of Toast m l \<Rightarrow> [m] | _ \<Rightarrow> []) tr)"

lemma requests_append [simp]: "requests (a @ b) = requests a @ requests b"
  by (simp add: requests_def)

lemma toasts_append [simp]: "toasts (a @ b) = toasts a @ toasts b"
  by (simp add: toasts_def)

lemma requests_simps [simp]:
  "requests [] = []" "requests (Fetch p m b # tr) = (p, b) # requests tr"
  "requests (TabState st s # tr) = requests tr" "requests (SyncSidebar # tr) = requests tr"
  "requests (Rerender # tr) = requests tr" "requests (Sleep n # tr) = requests tr"
  "requests (Toast m l # tr) = requests tr" "requests (Persist cs # tr) = requests tr"
  "requests (OpenForward h p lp # tr) = requests tr" "requests (CloseForward h p lp # tr) = requests tr"
  "requests (SaveWorkbench wb # tr) = requests tr" "requests (Confirm q r v # tr) = requests tr"
  "requests (Clipboard q r # tr) = requests tr" "requests (ReadSecret i # tr) = requests tr"
  "requests (Ui u # tr) = requests tr"
  by (simp_all add: requests_def)

lemma toasts_simps [simp]:
  "toasts [] = []" "toasts (Fetch p m b # tr) = toasts tr"
  "toasts (TabState st s # tr) = toasts tr" "toasts (SyncSidebar # tr) = toasts tr"
  "toasts (Rerender # tr) = toasts tr" "toasts (Sleep n # tr) = toasts tr"
  "toasts (Toast m l # tr) = m # toasts tr" "toasts (Persist cs # tr) = toasts tr"
  "toasts (OpenForward h p lp # tr) = toasts tr" "toasts (CloseForward h p lp # tr) = toasts tr"
  "toasts (SaveWorkbench wb # tr) = toasts tr" "toasts (Confirm q r v # tr) = toasts tr"
  "toasts (Clipboard q r # tr) = toasts tr" "toasts (ReadSecret i # tr) = toasts tr"
  "toasts (Ui u # tr) = toasts tr"
  by (simp_all add: toasts_def)

lemma setConnState_quiet [simp]:
  "requests (wd_trace (setConnState i st w)) = requests (wd_trace w)"
  "toasts (wd_trace (setConnState i st w)) = toasts (wd_trace w)"
  by (simp_all add: setConnState_def Let_def)

section \<open>Confirmed actions\<close>

text \<open>
  The contract of every destructive action: asked and refused, it sends nothing to the helper
  and leaves the list of connections, the keychain and the history alone.
\<close>

definition same_data :: "world \<Rightarrow> world \<Rightarrow> bool" where
  "same_data w w' \<longleftrightarrow> requests (wd_trace w') = requests (wd_trace w) \<and>
     a_connections (wd_app w') = a_connections (wd_app w) \<and> wd_keys w' = wd_keys w \<and> wd_hist w' = wd_hist w"

lemma same_data_refl [simp]: "same_data w w"
  by (simp add: same_data_def)

lemma same_data_trans: "same_data u v \<Longrightarrow> same_data v w \<Longrightarrow> same_data u w"
  by (simp add: same_data_def)

lemma same_data_quiet [simp]: "same_data w (emit (Confirm a b v) w)" "same_data w (emit (Toast a b) w)"
  by (simp_all add: same_data_def requests_def)

locale confirmed_action =
  fixes act :: "bool \<Rightarrow> world \<Rightarrow> world"
  assumes refused: "same_data w (act False w)"
begin

lemma changes_only_if_confirmed: "\<not> same_data w (act yes w) \<Longrightarrow> yes"
  using refused [of w] by (cases yes) auto

lemma refused_often: "same_data w ((act False ^^ n) w)"
  by (induction n) (auto intro: same_data_trans refused)

end

end
