(* ===== verification/Tunnel.thy ===== *)
theory Tunnel
  imports Host
begin

text \<open>
  \<open>src/src/connections/tunnel.js\<close>: reaching a database through an SSH forward the host
  opens. What the host's \<open>ctx.ssh\<close> offers is a record of flags, what it answers an argument.
\<close>

record ssh_api =
  can_open :: bool
  can_close :: bool
  can_list :: bool

record target =
  tg_host :: string
  tg_port :: jsnum

definition num_or_else :: "jsnum \<Rightarrow> jsnum \<Rightarrow> jsnum" where
  "num_or_else a b = (if truthy (VNum a) then a else b)"

definition tunnelTarget :: "'a conn_scheme \<Rightarrow> target" where
  "tunnelTarget c =
     \<lparr> tg_host = js_trim (c_host c),
       tg_port = num_or_else (js_Number (c_port c))
                   (num_or_else (js_Number (d_defaultPort (getDialect (Some (c_kind c))))) (NInt 0)) \<rparr>"

definition usesTunnel :: "'a conn_scheme \<Rightarrow> bool" where
  "usesTunnel c = (c_sshTunnel c \<noteq> [] \<and> \<not> d_fileBased (getDialect (Some (c_kind c))))"

text \<open>\<open>forward\<close>: what \<open>openForward\<close> answers, the local port or a failure.\<close>

definition resolveEndpoint ::
  "ssh_api \<Rightarrow> (string + jsnum) \<Rightarrow> 'a conn_scheme \<Rightarrow> world \<Rightarrow> (string + (string \<times> string)) \<times> world" where
  "resolveEndpoint ssh forward f w =
     (if \<not> usesTunnel f then (Inr (c_host f, c_port f), w)
      else if \<not> can_open ssh then (Inl ''SSH tunnels need a newer TEDI (ctx.ssh.openForward).'', w)
      else let t = tunnelTarget f in
        if tg_host t = [] \<or> \<not> truthy (VNum (tg_port t))
        then (Inl ''SSH tunnel needs the database host and port.'', w)
        else let w1 = emit (OpenForward (c_sshTunnel f) (tg_host t) (tg_port t)) w in
          (case forward of
             Inl e \<Rightarrow> (Inl e, w1)
           | Inr localPort \<Rightarrow> (Inr (''127.0.0.1'', num_to_string localPort), w1)))"

text \<open>A failing \<open>closeForward\<close> is logged and dropped, so its answer does not matter.\<close>

definition releaseTunnel :: "ssh_api \<Rightarrow> 'a conn_scheme \<Rightarrow> world \<Rightarrow> world" where
  "releaseTunnel ssh c w =
     (if \<not> usesTunnel c \<or> \<not> can_close ssh then w
      else let t = tunnelTarget c in emit (CloseForward (c_sshTunnel c) (tg_host t) (tg_port t)) w)"

text \<open>A saved SSH host of the user's list.\<close>

record ssh_host =
  sh_id :: string
  sh_host :: string
  sh_user :: string
  sh_port :: int

definition listSshHosts :: "ssh_api \<Rightarrow> ssh_host list option \<Rightarrow> ssh_host list" where
  "listSshHosts ssh answer =
     (if \<not> can_list ssh \<or> \<not> can_open ssh then []
      else (case answer of Some hs \<Rightarrow> hs | None \<Rightarrow> []))"

definition tunnelsSupported :: "ssh_api \<Rightarrow> bool" where
  "tunnelsSupported ssh = can_open ssh"

section \<open>Properties\<close>

text \<open>The forwards a trace opens and closes.\<close>

definition opened :: "effect list \<Rightarrow> (string \<times> string \<times> jsnum) list" where
  "opened tr = concat (map (\<lambda>e. case e of OpenForward a b c \<Rightarrow> [(a, b, c)] | _ \<Rightarrow> []) tr)"

definition closed :: "effect list \<Rightarrow> (string \<times> string \<times> jsnum) list" where
  "closed tr = concat (map (\<lambda>e. case e of CloseForward a b c \<Rightarrow> [(a, b, c)] | _ \<Rightarrow> []) tr)"

lemma opened_append [simp]: "opened (a @ b) = opened a @ opened b"
  by (simp add: opened_def)

lemma closed_append [simp]: "closed (a @ b) = closed a @ closed b"
  by (simp add: closed_def)

lemma resolveEndpoint_frame [simp]:
  "wd_app (snd (resolveEndpoint ssh fw f w)) = wd_app w"
  "wd_keys (snd (resolveEndpoint ssh fw f w)) = wd_keys w"
  "wd_hist (snd (resolveEndpoint ssh fw f w)) = wd_hist w"
  "requests (wd_trace (snd (resolveEndpoint ssh fw f w))) = requests (wd_trace w)"
  "toasts (wd_trace (snd (resolveEndpoint ssh fw f w))) = toasts (wd_trace w)"
  by (auto simp: resolveEndpoint_def Let_def split: sum.splits)

lemma releaseTunnel_frame [simp]:
  "wd_app (releaseTunnel ssh c w) = wd_app w" "wd_keys (releaseTunnel ssh c w) = wd_keys w"
  "wd_hist (releaseTunnel ssh c w) = wd_hist w"
  "requests (wd_trace (releaseTunnel ssh c w)) = requests (wd_trace w)"
  by (auto simp: releaseTunnel_def Let_def)

lemma persistable_tunnel [simp]:
  "usesTunnel (formToPersistable f) = usesTunnel f"
  "usesTunnel f \<Longrightarrow> tunnelTarget (formToPersistable f) = tunnelTarget f"
  "c_sshTunnel (formToPersistable f) = c_sshTunnel f"
  by (auto simp: usesTunnel_def tunnelTarget_def formToPersistable_def conn.defs getDialect_fileBased Let_def)


definition tunnel_form :: form where
  "tunnel_form = \<lparr> c_id = ''a'', c_name = ''a'', c_kind = ''postgres'', c_host = '' db.internal'', c_port = ''33'',
     c_user = [], c_database = [], c_sqlitePath = [], c_sqliteReadOnly = False, c_allow_writes = True,
     c_sslMode = [], c_sshTunnel = ''bastion'', c_query_timeout_ms = NInt 0, c_row_limit = NInt 0, f_password = [] \<rparr>"

definition empty_world :: world where
  "empty_world = \<lparr>wd_app = \<lparr>a_connections = [], a_active = None, a_sessions = [], a_connStatus = []\<rparr>,
     wd_keys = [], wd_hist = [], wd_trace = []\<rparr>"


end
