(* ===== verification/Lifecycle.thy ===== *)
theory Lifecycle
  imports Tunnel Managed
begin

text \<open>
  \<open>src/src/connections/lifecycle.js\<close>: opening, testing, saving, deleting and selecting a
  connection. The answers of the host and of the helper process are arguments: for each
  connect attempt whether the helper could be started, what the SSH forward answered and
  what \<open>/connect\<close> answered. Each handler returns its result (an error is \<open>Inl\<close>) and the
  world with the effects it had.
\<close>

record answers =
  an_sidecar :: "string + unit"
  an_forward :: "string + jsnum"
  an_connect :: "string + unit"

definition connect_id :: "bool \<Rightarrow> 'a conn_scheme \<Rightarrow> string" where
  "connect_id test f = (if test then ''__test_'' @ c_id f else c_id f)"

definition opt_json :: "string option \<Rightarrow> jsval" where
  "opt_json v = (case v of None \<Rightarrow> VNull | Some s \<Rightarrow> VStr s)"

definition connect_body :: "form \<Rightarrow> string \<times> string \<Rightarrow> bool \<Rightarrow> jsval" where
  "connect_body f ep test = VObj [
     (''id'', VStr (connect_id test f)),
     (''kind'', VStr (c_kind f)),
     (''url'', VStr (buildConnectionUrl (getDialect (Some (c_kind f))) (f\<lparr>c_host := fst ep, c_port := snd ep\<rparr>))),
     (''allow_writes'', VBool (c_allow_writes f)),
     (''query_timeout_ms'', VNum (num_or_else (c_query_timeout_ms f) (NInt 30000))),
     (''row_limit'', VNum (num_or_else (c_row_limit f) (NInt 10000))),
     (''default_database'', opt_json (connectTargetDatabase (conn.truncate f))),
     (''sqlite_read_only'', VBool (c_sqliteReadOnly f))]"

definition end_transaction :: "string \<Rightarrow> app \<Rightarrow> app" where
  "end_transaction i a = (case omap_get (a_sessions a) i of
       None \<Rightarrow> a
     | Some s \<Rightarrow> a\<lparr>a_sessions := omap_set (a_sessions a) i (s\<lparr>s_inTransaction := False\<rparr>)\<rparr>)"

definition connectFromForm ::
  "ssh_api \<Rightarrow> answers \<Rightarrow> form \<Rightarrow> bool \<Rightarrow> world \<Rightarrow> (string + unit) \<times> world" where
  "connectFromForm ssh an f test w = (case an_sidecar an of
       Inl e \<Rightarrow> (Inl e, w)
     | Inr _ \<Rightarrow> (case resolveEndpoint ssh (an_forward an) f w of
         (Inl e, w1) \<Rightarrow> (Inl e, w1)
       | (Inr ep, w1) \<Rightarrow>
          (let w2 = emit (Fetch ''/connect'' ''POST'' (connect_body f ep test)) w1 in
           case an_connect an of
             Inl e \<Rightarrow> (Inl e, w2)
           | Inr _ \<Rightarrow>
              (Inr (),
               if test then emit (Fetch ''/disconnect'' ''POST'' (VObj [(''id'', VStr (connect_id test f))])) w2
               else upd_app (end_transaction (c_id f)) w2))))"

definition put_conn :: "conn \<Rightarrow> conn list \<Rightarrow> conn list" where
  "put_conn c cs = (case find_index (\<lambda>d. c_id d = c_id c) cs of
       Some k \<Rightarrow> cs[k := c] | None \<Rightarrow> cs @ [c])"

definition persist :: "world \<Rightarrow> world" where
  "persist w = emit (Persist (a_connections (wd_app w))) w"

definition saveAndConnect :: "ssh_api \<Rightarrow> answers \<Rightarrow> form \<Rightarrow> world \<Rightarrow> (string + unit) \<times> world" where
  "saveAndConnect ssh an f w = (case validateForm (conn.truncate f) of
       Inl e \<Rightarrow> (Inl e, w)
     | Inr _ \<Rightarrow>
        (let w1 = persist (upd_app (\<lambda>a. a\<lparr>a_connections := put_conn (formToPersistable f) (a_connections a)\<rparr>) w);
             w2 = (if c_kind f \<noteq> ''sqlite''
                   then w1\<lparr>wd_keys := setSecret (c_id f) (Some (f_password f)) (wd_keys w1)\<rparr> else w1)
         in case connectFromForm ssh an f False w2 of
              (Inl e, w3) \<Rightarrow> (Inl e, w3)
            | (Inr _, w3) \<Rightarrow>
               (Inr (), emit Rerender (emit SyncSidebar
                  (setConnState (c_id f) (Some Connected) (upd_app (\<lambda>a. a\<lparr>a_active := Some (c_id f)\<rparr>) w3))))))"

definition deleteConnection :: "ssh_api \<Rightarrow> bool \<Rightarrow> string \<Rightarrow> world \<Rightarrow> world" where
  "deleteConnection ssh can_delete i w =
     (let found = find_conn (a_connections (wd_app w)) i;
          w1 = persist (upd_app (\<lambda>a. a\<lparr>a_connections := filter (\<lambda>c. c_id c \<noteq> i) (a_connections a)\<rparr>) w);
          w2 = (case found of
                  Some c \<Rightarrow> if c_kind c \<noteq> ''sqlite'' then w1\<lparr>wd_keys := deleteSecret can_delete i (wd_keys w1)\<rparr> else w1
                | None \<Rightarrow> w1);
          w3 = w2\<lparr>wd_hist := forgetConnection i (wd_hist w2)\<rparr>;
          w4 = emit (Fetch ''/disconnect'' ''POST'' (VObj [(''id'', VStr i)])) w3;
          w5 = (case found of Some c \<Rightarrow> releaseTunnel ssh c w4 | None \<Rightarrow> w4);
          w6 = (if a_active (wd_app w5) = Some i
                then setTabState (Some Disconnected) (upd_app (\<lambda>a. a\<lparr>a_active := None\<rparr>) w5) else w5);
          w7 = upd_app (\<lambda>a. a\<lparr>a_connStatus := omap_delete (a_connStatus a) i,
                             a_sessions := omap_delete (a_sessions a) i\<rparr>) w6
      in emit Rerender (emit SyncSidebar w7))"

definition delete_message :: "conn \<Rightarrow> string" where
  "delete_message c =
     (let label = or_str (c_name c) (c_id c) in
      if c_kind c = ''sqlite'' then CHR 0x22 # label @ CHR 0x22 # '' will be removed from the connection list.''
      else CHR 0x22 # label @ CHR 0x22 # '' will be removed and its stored password wiped from the keychain.'')"

definition confirmAndDeleteConnection ::
  "ssh_api \<Rightarrow> bool \<Rightarrow> bool \<Rightarrow> conn \<Rightarrow> world \<Rightarrow> world" where
  "confirmAndDeleteConnection ssh can_delete ok c w =
     (let w1 = emit (Confirm ''Delete connection?'' (delete_message c) None) w in
      if \<not> ok then w1 else deleteConnection ssh can_delete (c_id c) w1)"

definition MAX_CONNECT_ATTEMPTS :: nat where
  "MAX_CONNECT_ATTEMPTS = 3"

text \<open>
  The retry loop from a given attempt on, with \<open>left\<close> attempts to make. \<open>envs\<close> gives the
  answers of each attempt; the result is \<open>None\<close> on success, else the last failure.
\<close>

fun retry_loop ::
  "ssh_api \<Rightarrow> (nat \<Rightarrow> answers) \<Rightarrow> form \<Rightarrow> nat \<Rightarrow> nat \<Rightarrow> string \<Rightarrow> world \<Rightarrow> string option \<times> world" where
  "retry_loop ssh envs f attempt 0 lastErr w = (Some lastErr, w)"
| "retry_loop ssh envs f attempt (Suc left) lastErr w =
     (let w1 = setConnState (c_id f) (Some (if attempt = 1 then Connecting else Reconnecting)) w in
      case connectFromForm ssh (envs attempt) f False w1 of
        (Inr _, w2) \<Rightarrow> (None, setConnState (c_id f) (Some Connected) w2)
      | (Inl e, w2) \<Rightarrow>
          retry_loop ssh envs f (Suc attempt) left e
            (if attempt < MAX_CONNECT_ATTEMPTS then emit (Sleep (400 * int attempt)) w2 else w2))"

definition retry_form :: "keychain \<Rightarrow> conn \<Rightarrow> form" where
  "retry_form k c = conn.extend c
     \<lparr> f_password = (if c_kind c = ''sqlite'' then [] else (case getSecret (c_id c) k of Some p \<Rightarrow> p | None \<Rightarrow> [])) \<rparr>
     \<lparr> c_sqlitePath := or_str (c_sqlitePath c) (or_str (c_host c) (c_database c)) \<rparr>"

definition connectWithRetry ::
  "ssh_api \<Rightarrow> (nat \<Rightarrow> answers) \<Rightarrow> string \<Rightarrow> world \<Rightarrow> (string + unit) \<times> world" where
  "connectWithRetry ssh envs connId w = (case find_conn (a_connections (wd_app w)) connId of
       None \<Rightarrow> (Inl ''connection not found'', w)
     | Some c \<Rightarrow> (case retry_loop ssh envs (retry_form (wd_keys w) c) 1 MAX_CONNECT_ATTEMPTS ''null'' w of
         (None, w1) \<Rightarrow> (Inr (), w1)
       | (Some e, w1) \<Rightarrow>
          (let n = nat_to_string MAX_CONNECT_ATTEMPTS;
               w2 = setConnState connId (Some StError) w1
           in (Inl (''connect failed after '' @ n @ '' attempts: '' @ e),
               emit (Toast (''Failed to connect to '' @ CHR 0x22 # or_str (c_name c) connId @ CHR 0x22 #
                      '' after '' @ n @ '' attempts: '' @ e) ''error'') w2))))"

text \<open>\<open>conns\<close>: the ids \<open>/connections\<close> reports open, \<open>None\<close> when the request fails.\<close>

definition selectConnection ::
  "ssh_api \<Rightarrow> (string + unit) \<Rightarrow> string list option \<Rightarrow> (nat \<Rightarrow> answers) \<Rightarrow> string \<Rightarrow> world \<Rightarrow> (string + unit) \<times> world" where
  "selectConnection ssh sidecar conns envs i w =
     (let w1 = upd_app (\<lambda>a. a\<lparr>a_active := Some i\<rparr>) w;
          w2 = emit (SaveWorkbench (saveWorkbenchSession (wd_app w1))) w1
      in case sidecar of
           Inl e \<Rightarrow> (Inl e, w2)
         | Inr _ \<Rightarrow>
            if find_conn (a_connections (wd_app w2)) i = None
            then (Inr (), setConnState i (Some Disconnected) w2)
            else
              (let w3 = emit (Fetch ''/connections'' ''GET'' VUndef) w2;
                   isopen = (case conns of Some ids \<Rightarrow> i \<in> set ids | None \<Rightarrow> False)
               in if isopen
                  then (Inr (), emit Rerender (upd_app (ensureSession i) (setConnState i (Some Connected) w3)))
                  else (case connectWithRetry ssh envs i w3 of
                      (Inl _, w4) \<Rightarrow> (Inr (), w4)
                    | (Inr _, w4) \<Rightarrow> (Inr (), emit Rerender (upd_app (ensureSession i) w4)))))"

section \<open>One attempt\<close>

definition is_inr :: "'a + 'b \<Rightarrow> bool" where
  "is_inr r = (case r of Inl _ \<Rightarrow> False | Inr _ \<Rightarrow> True)"

text \<open>When an attempt succeeds, read off the answers.\<close>

definition attempt_ok :: "ssh_api \<Rightarrow> answers \<Rightarrow> form \<Rightarrow> bool" where
  "attempt_ok ssh an f =
     (is_inr (an_sidecar an) \<and> is_inr (an_connect an) \<and>
      (usesTunnel f \<longrightarrow> can_open ssh \<and> tg_host (tunnelTarget f) \<noteq> [] \<and>
         truthy (VNum (tg_port (tunnelTarget f))) \<and> is_inr (an_forward an)))"

lemma resolveEndpoint_ok:
  "is_inr (fst (resolveEndpoint ssh fw f w)) \<longleftrightarrow>
     (usesTunnel f \<longrightarrow> can_open ssh \<and> tg_host (tunnelTarget f) \<noteq> [] \<and>
        truthy (VNum (tg_port (tunnelTarget f))) \<and> is_inr fw)"
  by (auto simp: resolveEndpoint_def is_inr_def Let_def split: sum.splits)

lemma connectFromForm_ok: "is_inr (fst (connectFromForm ssh an f t w)) \<longleftrightarrow> attempt_ok ssh an f"
  unfolding attempt_ok_def resolveEndpoint_ok [of ssh "an_forward an" f w, symmetric]
  by (auto simp: connectFromForm_def is_inr_def Let_def split: sum.splits prod.splits)

lemma resolveEndpoint_world:
  "resolveEndpoint ssh fw f w = (r, w1) \<Longrightarrow>
     wd_app w1 = wd_app w \<and> wd_keys w1 = wd_keys w \<and> wd_hist w1 = wd_hist w \<and>
     requests (wd_trace w1) = requests (wd_trace w) \<and> toasts (wd_trace w1) = toasts (wd_trace w)"
  using resolveEndpoint_frame [of ssh fw f w] by simp

lemma end_transaction_frame [simp]:
  "a_connections (end_transaction i a) = a_connections a" "a_active (end_transaction i a) = a_active a"
  "a_connStatus (end_transaction i a) = a_connStatus a"
  by (auto simp: end_transaction_def split: option.splits)

lemma connectFromForm_frame:
  assumes "connectFromForm ssh an f t w = (r, w1)"
  shows "a_connections (wd_app w1) = a_connections (wd_app w) \<and> a_active (wd_app w1) = a_active (wd_app w) \<and>
    a_connStatus (wd_app w1) = a_connStatus (wd_app w) \<and> wd_keys w1 = wd_keys w \<and>
    wd_hist w1 = wd_hist w \<and> toasts (wd_trace w1) = toasts (wd_trace w)"
  using assms
  by (auto simp: connectFromForm_def Let_def dest!: resolveEndpoint_world split: sum.splits prod.splits if_splits)

lemma connectFromForm_requests:
  "connectFromForm ssh an f False w = (r, w1) \<Longrightarrow>
     length (requests (wd_trace w1)) \<le> length (requests (wd_trace w)) + 1"
  by (auto simp: connectFromForm_def Let_def dest!: resolveEndpoint_world split: sum.splits prod.splits if_splits)

section \<open>Retrying\<close>

definition status_in :: "world \<Rightarrow> string \<Rightarrow> conn_status option" where
  "status_in w i = omap_get (a_connStatus (wd_app w)) i"

lemma status_in_simps [simp]:
  "status_in (emit e w) i = status_in w i"
  "status_in (setConnState j st w) i = (if i = j then st else status_in w i)"
  by (simp_all add: status_in_def setConnState_status)

lemma retry_loop_spec:
  "retry_loop ssh envs f a n e w = (r, w') \<Longrightarrow>
     (r = None \<longleftrightarrow> list_ex (\<lambda>k. attempt_ok ssh (envs k) f) [a..<a + n]) \<and>
     (r = None \<longrightarrow> status_in w' (c_id f) = Some Connected) \<and>
     toasts (wd_trace w') = toasts (wd_trace w) \<and>
     length (requests (wd_trace w')) \<le> length (requests (wd_trace w)) + n"
proof (induction n arbitrary: a e w)
  case (Suc n)
  let ?w1 = "setConnState (c_id f) (Some (if a = 1 then Connecting else Reconnecting)) w"
  obtain q w2 where c: "connectFromForm ssh (envs a) f False ?w1 = (q, w2)" by fastforce
  note frame = connectFromForm_frame [OF c]
  have req: "length (requests (wd_trace w2)) \<le> length (requests (wd_trace w)) + 1"
    using connectFromForm_requests [OF c] by simp
  have ok: "is_inr q \<longleftrightarrow> attempt_ok ssh (envs a) f" using connectFromForm_ok [of ssh "envs a" f False ?w1] c by simp
  have range: "[a..<a + Suc n] = a # [Suc a..<Suc a + n]" by (simp add: upt_conv_Cons)
  show ?case
  proof (cases q)
    case (Inr u)
    then have "r = None" "w' = setConnState (c_id f) (Some Connected) w2"
      using Suc.prems c by auto
    with frame req ok Inr range show ?thesis by (simp add: is_inr_def)
  next
    case (Inl m)
    let ?w3 = "if a < MAX_CONNECT_ATTEMPTS then emit (Sleep (400 * int a)) w2 else w2"
    have rec: "retry_loop ssh envs f (Suc a) n m ?w3 = (r, w')" using Suc.prems c Inl by simp
    have "toasts (wd_trace ?w3) = toasts (wd_trace w)" "requests (wd_trace ?w3) = requests (wd_trace w2)"
      using frame by simp_all
    moreover have "\<not> attempt_ok ssh (envs a) f" using ok Inl by (simp add: is_inr_def)
    ultimately show ?thesis using Suc.IH [OF rec] req unfolding range by simp
  qed
qed auto

lemma retry_form_id [simp]: "c_id (retry_form k c) = c_id c"
  by (simp add: retry_form_def conn.defs)

definition connect_succeeds :: "ssh_api \<Rightarrow> (nat \<Rightarrow> answers) \<Rightarrow> form \<Rightarrow> bool" where
  "connect_succeeds ssh envs f = list_ex (\<lambda>k. attempt_ok ssh (envs k) f) [1..<4]"

text \<open>
  C18: connecting makes at most three attempts and reports their outcome faithfully: if
  one of the first three succeeds the call returns, the connection is shown as connected
  and nothing is toasted; otherwise it fails, the row is shown in the error state, and
  exactly one message is shown, whatever the failures were.
\<close>

theorem connectWithRetry_outcome:
  assumes "find_conn (a_connections (wd_app w)) i = Some c"
  shows "(let (r, w') = connectWithRetry ssh envs i w in
    is_inr r = connect_succeeds ssh envs (retry_form (wd_keys w) c) \<and>
    status_in w' i = Some (if is_inr r then Connected else StError) \<and>
    length (toasts (wd_trace w')) = length (toasts (wd_trace w)) + (if is_inr r then 0 else 1) \<and>
    length (requests (wd_trace w')) \<le> length (requests (wd_trace w)) + 3)"
proof -
  have i: "c_id c = i" using find_conn_Some [OF assms] by simp
  let ?f = "retry_form (wd_keys w) c"
  obtain q w1 where l: "retry_loop ssh envs ?f 1 MAX_CONNECT_ATTEMPTS ''null'' w = (q, w1)" by fastforce
  have "[1..<1 + MAX_CONNECT_ATTEMPTS] = [1..<4]" by (simp add: MAX_CONNECT_ATTEMPTS_def)
  with retry_loop_spec [OF l] i
  have spec: "(q = None \<longleftrightarrow> connect_succeeds ssh envs ?f)" "q = None \<Longrightarrow> status_in w1 i = Some Connected"
    "toasts (wd_trace w1) = toasts (wd_trace w)"
    "length (requests (wd_trace w1)) \<le> length (requests (wd_trace w)) + 3"
    by (simp_all add: connect_succeeds_def MAX_CONNECT_ATTEMPTS_def)
  show ?thesis
    using assms l spec
    by (cases q) (auto simp: connectWithRetry_def is_inr_def Let_def)
qed

definition down :: answers where
  "down = \<lparr>an_sidecar = Inr (), an_forward = Inl [], an_connect = Inl ''refused''\<rparr>"

definition up :: answers where
  "up = \<lparr>an_sidecar = Inr (), an_forward = Inl [], an_connect = Inr ()\<rparr>"

definition one_conn_world :: world where
  "one_conn_world = \<lparr>wd_app = \<lparr>a_connections = [plain_conn ''c'' ''mysql'' []], a_active = Some ''c'',
       a_sessions = [], a_connStatus = []\<rparr>, wd_keys = [(''conn:c'', ''pw'')], wd_hist = [], wd_trace = []\<rparr>"

lemma connectWithRetry_outcome_witness:
  "status_in (snd (connectWithRetry \<lparr>can_open = False, can_close = False, can_list = False\<rparr>
      (\<lambda>k. if k = 3 then up else down) ''c'' one_conn_world)) ''c'' = Some Connected"
proof -
  let ?ssh = "\<lparr>can_open = False, can_close = False, can_list = False\<rparr>"
  let ?envs = "\<lambda>k::nat. if k = 3 then up else down"
  have f: "find_conn (a_connections (wd_app one_conn_world)) ''c'' = Some (plain_conn ''c'' ''mysql'' [])"
    by (simp add: one_conn_world_def find_conn_def plain_conn_def)
  have "connect_succeeds ?ssh ?envs (retry_form (wd_keys one_conn_world) (plain_conn ''c'' ''mysql'' []))"
    by (simp add: connect_succeeds_def upt_conv_Cons attempt_ok_def is_inr_def up_def usesTunnel_def
        retry_form_def conn.defs plain_conn_def)
  with connectWithRetry_outcome [OF f, of ?ssh ?envs] show ?thesis
    by (auto simp: Let_def split: prod.splits)
qed

section \<open>Deleting\<close>

lemma setTabState_seq [simp]: "status_in (setTabState st w) i = status_in w i"
  by (simp add: status_in_def)



text \<open>
  a password outlives its connection when the engine was switched to SQLite in
  between. The delete handler skips the keychain for a SQLite record on the ground that
  one never has a password, but saving the switched record leaves the old one in place.
\<close>

theorem engine_switch_keeps_password:
  "let f = conn.extend (plain_conn ''c'' ''mysql'' []) \<lparr>f_password = ''pw''\<rparr>;
       g = f\<lparr>c_kind := ''sqlite'', c_sqlitePath := ''/tmp/a.db''\<rparr>;
       w1 = snd (saveAndConnect ssh up f empty_world);
       w2 = snd (saveAndConnect ssh up g w1);
       w3 = deleteConnection ssh True ''c'' w2
   in a_connections (wd_app w3) = [] \<and> getSecret ''c'' (wd_keys w3) = Some ''pw''"
proof -
  let ?f = "conn.extend (plain_conn ''c'' ''mysql'' []) \<lparr>f_password = ''pw''\<rparr>"
  let ?g = "?f\<lparr>c_kind := ''sqlite'', c_sqlitePath := ''/tmp/a.db''\<rparr>"
  have 1: "a_connections (wd_app (snd (saveAndConnect ssh up ?f empty_world))) = [formToPersistable ?f] \<and>
      wd_keys (snd (saveAndConnect ssh up ?f empty_world)) = [(''conn:c'', ''pw'')]"
    by (simp add: saveAndConnect_def validateForm_def connectFromForm_def up_def resolveEndpoint_def usesTunnel_def
        conn.defs plain_conn_def empty_world_def persist_def put_conn_def setSecret_def secret_key_def Let_def)
  have 2: "a_connections (wd_app (snd (saveAndConnect ssh up ?g w))) = [formToPersistable ?g] \<and>
      wd_keys (snd (saveAndConnect ssh up ?g w)) = [(''conn:c'', ''pw'')]"
    if "a_connections (wd_app w) = [formToPersistable ?f] \<and> wd_keys w = [(''conn:c'', ''pw'')]" for w
    using that
    by (simp add: saveAndConnect_def validateForm_def connectFromForm_def up_def resolveEndpoint_def usesTunnel_def
        conn.defs plain_conn_def persist_def put_conn_def formToPersistable_def Let_def)
  have 3: "a_connections (wd_app (deleteConnection ssh True ''c'' w)) = [] \<and>
      wd_keys (deleteConnection ssh True ''c'' w) = wd_keys w"
    if "a_connections (wd_app w) = [formToPersistable ?g]" for w
    using that
    by (simp add: deleteConnection_def persist_def find_conn_def conn.defs plain_conn_def formToPersistable_def Let_def)
  from 1 2 3 show ?thesis
    by (simp add: Let_def getSecret_def secret_key_def)
qed

section \<open>The confirmation\<close>

interpretation drop_gate: confirmed_action "\<lambda>ok w. confirmAndDeleteConnection ssh can_delete ok c w" for ssh can_delete c
  by unfold_locales (auto simp: confirmAndDeleteConnection_def Let_def)

end
