(* ===== verification/CopyInfo.thy ===== *)
theory CopyInfo
  imports Tunnel
begin

text \<open>
  \<open>src/src/connections/copyInfo.js\<close>: the details of a connection as text, with a URL and a
  command line. \<open>password\<close> is \<open>None\<close> when it is left out on purpose, \<open>Some []\<close> when none
  is saved. Database and schema are options; an empty text counts as missing, as in the code.
\<close>

definition LOCAL_TUNNEL_PORT :: int where
  "LOCAL_TUNNEL_PORT = 15432"

definition is_set :: "string option \<Rightarrow> bool" where
  "is_set v = (v \<noteq> None \<and> v \<noteq> Some [])"

definition cliCommand :: "string \<Rightarrow> form \<Rightarrow> string option \<Rightarrow> string" where
  "cliCommand kind f password =
     (let db = (if c_database f \<noteq> [] then '' '' @ shellQuote (c_database f) else []);
          pw = (case password of Some p \<Rightarrow> p | None \<Rightarrow> [])
      in if kind = ''postgres'' then
           (if is_set password then ''PGPASSWORD='' @ shellQuote pw @ '' '' else []) @
           ''psql -h '' @ c_host f @ '' -p '' @ c_port f @
           (if c_user f \<noteq> [] then '' -U '' @ shellQuote (c_user f) else []) @
           (if db \<noteq> [] then '' -d'' @ db else [])
         else
           ''mysql -h '' @ c_host f @ '' -P '' @ c_port f @
           (if c_user f \<noteq> [] then '' -u '' @ shellQuote (c_user f) else []) @
           (if is_set password then '' -p'' @ shellQuote pw else if password = None then '' -p'' else []) @
           (if db \<noteq> [] then '' -D'' @ db else []))"

definition ssh_via :: "ssh_host option \<Rightarrow> string" where
  "ssh_via h = (case h of
       None \<Rightarrow> ''(the SSH host saved in TEDI)''
     | Some s \<Rightarrow> (if sh_user s \<noteq> [] then sh_user s @ ''@'' else []) @ sh_host s @
         (if sh_port s \<noteq> 0 \<and> sh_port s \<noteq> 22 then '' -p '' @ int_to_string (sh_port s) else []))"

definition info_form :: "conn \<Rightarrow> string \<Rightarrow> string option \<Rightarrow> string option \<Rightarrow> form" where
  "info_form c port database password =
     conn.extend (c\<lparr>c_port := port, c_database := (case database of Some d \<Rightarrow> d | None \<Rightarrow> [])\<rparr>)
       \<lparr> f_password = (case password of Some p \<Rightarrow> p | None \<Rightarrow> []) \<rparr>"

definition file_lines :: "conn \<Rightarrow> string list" where
  "file_lines c =
     (let path = or_str (c_sqlitePath c) (or_str (c_host c) (c_database c)) in
      [''File: '' @ path] @
      (if c_sqliteReadOnly c \<or> \<not> c_allow_writes c then [''Access: read-only in TEDI''] else []) @
      [''CLI: sqlite3 '' @ shellQuote path])"

definition server_lines ::
  "conn \<Rightarrow> dialect \<Rightarrow> string option \<Rightarrow> string option \<Rightarrow> string option \<Rightarrow> string list" where
  "server_lines c d password database schema =
     (let port = or_str (c_port c) (d_defaultPort d);
          db = (if is_set database then database else None);
          f = info_form c port db password
      in [''Host: '' @ c_host c, ''Port: '' @ port, ''User: '' @ or_str (c_user c) ''(none)''] @
         [case password of None \<Rightarrow> ''Password: (not included)'' | Some p \<Rightarrow> ''Password: '' @ or_str p ''(none saved)''] @
         (case db of Some n \<Rightarrow> [''Database: '' @ n] | None \<Rightarrow> []) @
         (if is_set schema \<and> schema \<noteq> db then (case schema of Some s \<Rightarrow> [''Schema: '' @ s] | None \<Rightarrow> []) else []) @
         (if c_sslMode c \<noteq> [] \<and> c_sslMode c \<noteq> ''none'' then [''SSL: '' @ c_sslMode c] else []) @
         (if \<not> c_allow_writes c then [''Access: read-only in TEDI (the server account may still allow writes)''] else []) @
         [''URL: '' @ buildConnectionUrl d f, ''CLI: '' @ cliCommand (c_kind c) f password])"

definition tunnel_lines :: "conn \<Rightarrow> dialect \<Rightarrow> ssh_host option \<Rightarrow> string list" where
  "tunnel_lines c d sshHost =
     (if c_sshTunnel c = [] then []
      else let via = ssh_via sshHost; lp = int_to_string LOCAL_TUNNEL_PORT in
        [''SSH: only reachable through '' @ via @ ''. Open a tunnel first:'',
         ''     ssh -N -L '' @ lp @ '':'' @ c_host c @ '':'' @ or_str (c_port c) (d_defaultPort d) @ '' '' @ via,
         ''     then connect to 127.0.0.1:'' @ lp @ '' instead of the host and port above.''])"

definition connectionInfoText ::
  "conn \<Rightarrow> string option \<Rightarrow> string option \<Rightarrow> string option \<Rightarrow> ssh_host option \<Rightarrow> string" where
  "connectionInfoText c password database schema sshHost =
     (let d = getDialect (Some (c_kind c));
          header = [''Database connection '' @ [CHR 0x22] @ or_str (c_name c) (c_id c) @ [CHR 0x22] @ '' (from TEDI SQL Explorer)'',
                    ''Engine: '' @ d_label d]
      in js_join [CHR 0x0A]
           (if d_fileBased d then header @ file_lines c
            else header @ server_lines c d password database schema @ tunnel_lines c d sshHost))"

text \<open>
  The handler behind the menu entries. \<open>database\<close> and \<open>schema\<close> are the scope the menu
  passes; \<open>hosts\<close> is what the host's SSH list answers.
\<close>

definition or_else :: "'a option \<Rightarrow> 'a option \<Rightarrow> 'a option" where
  "or_else a b = (case a of Some x \<Rightarrow> Some x | None \<Rightarrow> b)"

definition copyConnectionInfo ::
  "ssh_api \<Rightarrow> ssh_host list option \<Rightarrow> conn \<Rightarrow> bool \<Rightarrow> string option \<Rightarrow> string option \<Rightarrow> world \<Rightarrow> world" where
  "copyConnectionInfo ssh hosts c withPassword database schema w =
     (let session = omap_get (a_sessions (wd_app w)) (c_id c);
          db = or_else database (or_else (Option.bind session s_currentDatabase) (connectTargetDatabase c));
          sc = or_else schema (if is_set database then None else Option.bind session s_currentSchema);
          password = (if withPassword \<and> c_kind c \<noteq> ''sqlite''
                      then Some (case getSecret (c_id c) (wd_keys w) of Some p \<Rightarrow> p | None \<Rightarrow> []) else None);
          w1 = (if withPassword \<and> c_kind c \<noteq> ''sqlite'' then emit (ReadSecret (c_id c)) w else w);
          sshHost = (if c_sshTunnel c \<noteq> [] then find_first (\<lambda>h. sh_id h = c_sshTunnel c) (listSshHosts ssh hosts) else None)
      in emit (Clipboard (connectionInfoText c password db sc sshHost)
                (if is_set password then ''Connection info copied (includes the password)'' else ''Connection info copied'')) w1)"

text \<open>The two menu entries: a label, an icon and whether the password goes along.\<close>

definition copyConnectionMenuItems :: "(string \<times> string \<times> bool) list" where
  "copyConnectionMenuItems =
     [(''Copy connection info'', ''Copy01Icon'', True),
      (''Copy connection info without password'', ''Copy01Icon'', False)]"

section \<open>The command line read as a shell reads it\<close>

definition sh_plain :: "string \<Rightarrow> bool" where
  "sh_plain s = (s \<noteq> [] \<and> list_all (\<lambda>c. is_word_c c \<or> c \<in> set ''.-:=/'') s)"

definition sh_reads :: "string \<Rightarrow> string \<Rightarrow> bool" where
  "sh_reads text word = (\<forall>r. sh_word_ends r \<longrightarrow> read_sh False (text @ r) = Some (word, r))"

lemma sh_plain_char:
  "is_word_c c \<or> c \<in> set ''.-:=/'' \<Longrightarrow> c \<noteq> CHR 0x27 \<and> c \<noteq> CHR 0x5C \<and> \<not> is_space_c c"
  by (cases c) (auto simp: is_word_c_code is_space_c_code split: if_splits)

lemma read_sh_plain:
  "list_all (\<lambda>c. is_word_c c \<or> c \<in> set ''.-:=/'') p \<Longrightarrow>
     read_sh False (p @ s) = map_option (\<lambda>(a, r). (p @ a, r)) (read_sh False s)"
proof (induction p)
  case Nil
  show ?case by (cases "read_sh False s") auto
next
  case (Cons c p)
  then have "is_word_c c \<or> c \<in> set ''.-:=/''" by simp
  from sh_plain_char [OF this] Cons show ?case
    by (cases "read_sh False s") auto
qed

lemma sh_reads_plain: "sh_plain s \<Longrightarrow> sh_reads s s"
proof -
  have e: "read_sh False r = Some ([], r)" if "sh_word_ends r" for r
    using that by (cases r) (auto simp: sh_word_ends_def is_space_c_def)
  assume "sh_plain s"
  then show ?thesis by (simp add: sh_reads_def sh_plain_def read_sh_plain e)
qed

lemma sh_reads_quoted:
  "list_all (\<lambda>c. is_word_c c \<or> c \<in> set ''.-:=/'') p \<Longrightarrow> sh_reads (p @ shellQuote s) (p @ s)"
  by (simp add: sh_reads_def read_sh_plain shell_word.reader_quote)

lemma read_words:
  "list_all2 sh_reads ts vs \<Longrightarrow> ts \<noteq> [] \<Longrightarrow> length ts \<le> n \<Longrightarrow>
     read_many (read_sh False) n '' '' (js_join '' '' ts) = Some (vs, [])"
proof (induction ts arbitrary: vs n rule: induct_list012)
  case (2 t)
  then obtain v m where "vs = [v]" "n = Suc m" "sh_reads t v" by (cases n) (auto simp: list_all2_Cons1)
  moreover from this(3) have "sh_word_ends [] \<longrightarrow> read_sh False (t @ []) = Some (v, [])"
    unfolding sh_reads_def by blast
  ultimately show ?case by (simp add: sh_word_ends_def)
next
  case (3 t u ts)
  then obtain v vs' m where v: "vs = v # vs'" "list_all2 sh_reads (u # ts) vs'" "sh_reads t v" "n = Suc m"
    by (cases n) (auto simp: list_all2_Cons1)
  then have "read_sh False (t @ '' '' @ js_join '' '' (u # ts)) = Some (v, '' '' @ js_join '' '' (u # ts))"
    unfolding sh_reads_def by (auto simp: sh_word_ends_def is_space_c_def)
  moreover have "read_many (read_sh False) m '' '' (js_join '' '' (u # ts)) = Some (vs', [])"
    using "3.IH"(2) [OF v(2)] "3.prems"(3) v(4) by simp
  ultimately show ?case using v by simp
qed simp

lemma js_join_append:
  "a \<noteq> [] \<Longrightarrow> js_join sep (a @ b) = js_join sep a @ concat (map (\<lambda>x. sep @ x) b)"
proof (induction a rule: induct_list012)
  case (2 x)
  then show ?case
  proof (induction b arbitrary: x)
    case (Cons y b)
    from Cons.IH [of y] show ?case by simp
  qed simp
qed simp_all

text \<open>The words the command is meant to have, and their spelling.\<close>

definition cli_words :: "string \<Rightarrow> form \<Rightarrow> string option \<Rightarrow> (string \<times> string) list" where
  "cli_words kind f password =
     (let q = (\<lambda>p s. (p @ shellQuote s, p @ s));
          plain = (\<lambda>s. (s, s));
          pw = (case password of Some p \<Rightarrow> p | None \<Rightarrow> []);
          flag = (\<lambda>name s. if s = [] then [] else [plain name, q [] s])
      in if kind = ''postgres'' then
           (if is_set password then [q ''PGPASSWORD='' pw] else []) @
           [plain ''psql'', plain ''-h'', plain (c_host f), plain ''-p'', plain (c_port f)] @
           flag ''-U'' (c_user f) @ flag ''-d'' (c_database f)
         else
           [plain ''mysql'', plain ''-h'', plain (c_host f), plain ''-P'', plain (c_port f)] @
           flag ''-u'' (c_user f) @
           (if is_set password then [q ''-p'' pw] else if password = None then [plain ''-p''] else []) @
           flag ''-D'' (c_database f))"

definition cli_argv :: "string \<Rightarrow> form \<Rightarrow> string option \<Rightarrow> string list" where
  "cli_argv kind f password =
     (let pw = (case password of Some p \<Rightarrow> p | None \<Rightarrow> []);
          flag = (\<lambda>name s. if s = [] then [] else [name, s])
      in if kind = ''postgres'' then
           (if is_set password then [''PGPASSWORD='' @ pw] else []) @
           [''psql'', ''-h'', c_host f, ''-p'', c_port f] @ flag ''-U'' (c_user f) @ flag ''-d'' (c_database f)
         else
           [''mysql'', ''-h'', c_host f, ''-P'', c_port f] @ flag ''-u'' (c_user f) @
           (if is_set password then [''-p'' @ pw] else if password = None then [''-p''] else []) @
           flag ''-D'' (c_database f))"

lemma cli_argv_words: "cli_argv kind f password = map snd (cli_words kind f password)"
  by (simp add: cli_argv_def cli_words_def Let_def)

lemma shellQuote_not_Nil [simp]: "shellQuote s \<noteq> []"
  by (simp add: shellQuote_def)

lemma cliCommand_words: "cliCommand kind f password = js_join '' '' (map fst (cli_words kind f password))"
  by (simp add: cliCommand_def cli_words_def Let_def)

lemma cli_words_read:
  assumes "sh_plain (c_host f)" "sh_plain (c_port f)"
  shows "list_all (\<lambda>(t, v). sh_reads t v) (cli_words kind f password)"
proof -
  have lits: "sh_plain s" if "s \<in> {''psql'', ''mysql'', ''-h'', ''-p'', ''-P'', ''-U'', ''-u'', ''-d'', ''-D''}" for s
    using that by (elim insertE emptyE) (simp_all add: sh_plain_def is_word_c_def)
  have pre: "list_all (\<lambda>c. is_word_c c \<or> c \<in> set ''.-:=/'') p" if "p \<in> {[], ''PGPASSWORD='', ''-p''}" for p
    using that by (elim insertE emptyE) (simp_all add: is_word_c_def)
  note quoted = sh_reads_quoted [OF pre]
  have "sh_reads (shellQuote s) s" "sh_reads (''PGPASSWORD='' @ shellQuote s) (''PGPASSWORD='' @ s)"
    "sh_reads (''-p'' @ shellQuote s) (''-p'' @ s)" for s
    using quoted [of "[]" s] quoted [of "''PGPASSWORD=''" s] quoted [of "''-p''" s] by simp_all
  note q = this
  note p = sh_reads_plain [OF lits] sh_reads_plain [OF assms(1)] sh_reads_plain [OF assms(2)]
  show ?thesis
    using q p by (simp add: cli_words_def Let_def)
qed

text \<open>
  the copied command line means what it says. When host and port are plain words, a
  POSIX shell splits the line into exactly the intended arguments, for any user,
  password and database, with quotes, blanks or backslashes in them.
\<close>

theorem cliCommand_argv:
  assumes "sh_plain (c_host f)" "sh_plain (c_port f)"
  shows "read_many (read_sh False) 12 '' '' (cliCommand kind f password) = Some (cli_argv kind f password, [])"
proof -
  let ?ws = "cli_words kind f password"
  have "list_all2 sh_reads (map fst ?ws) (map snd ?ws)"
    using cli_words_read [OF assms, of kind password]
    by (simp add: list_all2_map1 list_all2_map2 list.rel_refl_strong list_all_iff case_prod_beta)
  moreover have "?ws \<noteq> []" "length ?ws \<le> 12" by (simp_all add: cli_words_def Let_def)
  ultimately show ?thesis
    unfolding cliCommand_words cli_argv_words by (intro read_words) auto
qed

lemma cliCommand_argv_witness:
  "cliCommand ''mysql'' (tunnel_form\<lparr>c_host := ''db'', c_user := ''o'' @ [CHR 0x27] @ ''b''\<rparr>) None =
     ''mysql -h db -P 33 -u '' @ [CHR 0x27] @ ''o'' @ [CHR 0x27, CHR 0x5C, CHR 0x27, CHR 0x27] @ ''b'' @ [CHR 0x27] @ '' -p'' \<and>
   read_many (read_sh False) 12 '' ''
     (cliCommand ''mysql'' (tunnel_form\<lparr>c_host := ''db'', c_user := ''o'' @ [CHR 0x27] @ ''b''\<rparr>) None) =
     Some ([''mysql'', ''-h'', ''db'', ''-P'', ''33'', ''-u'', ''o'' @ [CHR 0x27] @ ''b'', ''-p''], [])"
proof -
  let ?f = "tunnel_form\<lparr>c_host := ''db'', c_user := ''o'' @ [CHR 0x27] @ ''b''\<rparr>"
  have "sh_plain (c_host ?f)" "sh_plain (c_port ?f)"
    by (simp_all add: sh_plain_def is_word_c_def tunnel_form_def)
  from cliCommand_argv [OF this, of "''mysql''" None]
  have "read_many (read_sh False) 12 '' '' (cliCommand ''mysql'' ?f None) =
      Some ([''mysql'', ''-h'', ''db'', ''-P'', ''33'', ''-u'', ''o'' @ [CHR 0x27] @ ''b'', ''-p''], [])"
    by (simp add: cli_argv_def tunnel_form_def is_set_def)
  moreover have "cliCommand ''mysql'' ?f None =
     ''mysql -h db -P 33 -u '' @ [CHR 0x27] @ ''o'' @ [CHR 0x27, CHR 0x5C, CHR 0x27, CHR 0x27] @ ''b'' @ [CHR 0x27] @ '' -p''"
    by (simp add: cliCommand_def shellQuote_def rchar_def re_replace_cls tunnel_form_def is_set_def)
  ultimately show ?thesis by blast
qed

end
