(* ===== verification/Sidecar.thy ===== *)
theory Sidecar
  imports Backup
begin

text \<open>
  \<open>src/src/sidecar.js\<close>: finding and booting the helper process, sharing one helper between
  windows, and the request loop with its one respawn and one reconnect. Everything outside
  (the shell, the storage, the network) answers through arguments. Booting and requesting
  are first modelled as sequential functions over lists of answers; the last section models
  the callers of \<open>ensureSidecar\<close> that overlap as a step relation.
\<close>

section \<open>Locating the helper\<close>

definition READY_TIMEOUT_MS :: int where
  "READY_TIMEOUT_MS = 12000"

definition READY_POLL_MS :: int where
  "READY_POLL_MS = 80"

record os_info =
  os_platform :: string
  os_arch :: "string option"

definition arch_of :: "os_info option \<Rightarrow> string" where
  "arch_of os = (case Option.bind os os_arch of None \<Rightarrow> ''x86_64'' | Some a \<Rightarrow> if a = [] then ''x86_64'' else a)"

definition platformDir :: "os_info option \<Rightarrow> string option" where
  "platformDir os =
     (let arch = arch_of os in
      case os of
        None \<Rightarrow> None
      | Some v \<Rightarrow>
          if os_platform v = ''windows'' then (if arch = ''aarch64'' then None else Some ''windows-x86_64'')
          else if os_platform v = ''macos'' then (if arch = ''aarch64'' then Some ''macos-aarch64'' else Some ''macos-x86_64'')
          else if os_platform v = ''linux'' then (if arch = ''aarch64'' then None else Some ''linux-x86_64'')
          else None)"

definition helperPath :: "string \<Rightarrow> os_info option \<Rightarrow> string option" where
  "helperPath installPath os =
     (case os of
        None \<Rightarrow> None
      | Some v \<Rightarrow>
          if installPath = [] then None
          else (case platformDir os of
              None \<Rightarrow> None
            | Some dir \<Rightarrow>
                (let exe = (if os_platform v = ''windows'' then ''tedi-sql-helper.exe'' else ''tedi-sql-helper'')
                 in Some (re_replace (rchar (CHR 0x5C)) ''/'' installPath @ ''/sidecar/'' @ dir @ ''/'' @ exe))))"

section \<open>The endpoint\<close>

record endpoint =
  sc_handle :: jsval
  sc_port :: jsval
  sc_token :: jsval
  sc_baseUrl :: string

definition base_url :: "jsval \<Rightarrow> string" where
  "base_url port = ''http://127.0.0.1:'' @ js_String port"

text \<open>\<open>saved\<close>: the published record, \<open>None\<close> when the storage fails; \<open>probe\<close>: whether
  \<open>/healthz\<close> answers OK at an address with a token.\<close>

definition adoptRunningSidecar :: "jsval option \<Rightarrow> (string \<Rightarrow> jsval \<Rightarrow> bool) \<Rightarrow> endpoint option" where
  "adoptRunningSidecar saved probe = (case saved of
       None \<Rightarrow> None
     | Some v \<Rightarrow>
         (let port = jget v ''port''; token = jget v ''token''; base = base_url port in
          if \<not> truthy port \<or> \<not> truthy token then None
          else if \<not> probe base token then None
          else Some \<lparr> sc_handle = (if is_nullish (jget v ''handle'') then VNull else jget v ''handle''),
                      sc_port = port, sc_token = token, sc_baseUrl = base \<rparr>))"

definition extractReady :: "string \<Rightarrow> jsval option" where
  "extractReady buf = (case indexOf buf ''READY '' of
       None \<Rightarrow> None
     | Some idx \<Rightarrow> (case indexOf (drop idx buf) [CHR 0x0A] of
         None \<Rightarrow> None
       | Some k \<Rightarrow> parse_json (js_trim (slice buf (idx + 6) (idx + k)))))"

section \<open>Booting\<close>

record log_answer =
  la_bytes :: string
  la_next :: "int option"
  la_exited :: bool
  la_code :: "int option"

text \<open>One turn of the poll loop: the clock when it starts, and what \<open>shell_bg_logs\<close> answers.\<close>

record tick =
  tk_now :: int
  tk_answer :: "string + log_answer"

datatype boot_event = Spawn string | AskLogs int | KillHelper jsval | Publish jsval jsval jsval | Pause int

datatype boot_result = Booted endpoint | BootError string | Waiting

definition endpoint_of :: "jsval \<Rightarrow> jsval \<Rightarrow> endpoint" where
  "endpoint_of handle line = \<lparr> sc_handle = handle, sc_port = jget line ''port'',
     sc_token = jget line ''token'', sc_baseUrl = base_url (jget line ''port'') \<rparr>"

definition exit_text :: "int option \<Rightarrow> string" where
  "exit_text code = (case code of Some c \<Rightarrow> int_to_string c | None \<Rightarrow> ''?'')"

fun boot_loop :: "jsval \<Rightarrow> int \<Rightarrow> int \<Rightarrow> string \<Rightarrow> tick list \<Rightarrow> boot_result \<times> boot_event list" where
  "boot_loop handle deadline offset buf [] = (Waiting, [])"
| "boot_loop handle deadline offset buf (t # ts) =
     (if tk_now t > deadline then (BootError ''sidecar handshake timed out'', [KillHelper handle])
      else (case tk_answer t of
          Inl e \<Rightarrow> (BootError e, [AskLogs offset])
        | Inr a \<Rightarrow>
           (let buf' = buf @ la_bytes a;
                offset' = (case la_next a of Some n \<Rightarrow> n | None \<Rightarrow> offset)
            in if la_exited a then
                 (BootError (''sidecar exited before READY (exit '' @ exit_text (la_code a) @ '')''), [AskLogs offset])
               else (case extractReady buf' of
                   Some line \<Rightarrow>
                     if truthy line then
                       (Booted (endpoint_of handle line),
                        [AskLogs offset, Publish handle (jget line ''port'') (jget line ''token'')])
                     else (let (r, ev) = boot_loop handle deadline offset' buf' ts
                           in (r, [AskLogs offset, Pause READY_POLL_MS] @ ev))
                 | None \<Rightarrow>
                     (let (r, ev) = boot_loop handle deadline offset' buf' ts
                      in (r, [AskLogs offset, Pause READY_POLL_MS] @ ev))))))"

definition missing_binary :: "string \<Rightarrow> bool" where
  "missing_binary msg =
     (let m = toLowerCase msg in
      js_includes m ''os error 2'' \<or> js_includes m ''no such file'' \<or> js_includes m ''cannot find'')"

definition os_names :: "os_info option \<Rightarrow> string \<Rightarrow> string" where
  "os_names os sep =
     (case os of None \<Rightarrow> ''undefined'' @ sep @ ''undefined''
      | Some v \<Rightarrow> os_platform v @ sep @ (case os_arch v of Some a \<Rightarrow> a | None \<Rightarrow> ''undefined''))"

text \<open>\<open>start\<close> is the clock after the spawn, \<open>spawned\<close> its answer.\<close>

definition bootSidecar ::
  "string \<Rightarrow> os_info option \<Rightarrow> (string + jsval) \<Rightarrow> int \<Rightarrow> tick list \<Rightarrow> boot_result \<times> boot_event list" where
  "bootSidecar installPath os spawned start ticks = (case helperPath installPath os of
       None \<Rightarrow> (BootError (''unsupported platform '' @ os_names os ''/''), [])
     | Some program \<Rightarrow> (case spawned of
         Inl msg \<Rightarrow>
           (BootError
             (if missing_binary msg
              then ''Sidecar binary missing for '' @ os_names os ''-'' @
                   ''. Reinstall the extension to repopulate sidecar/. ('' @ msg @ '')''
              else ''spawn failed: '' @ msg), [Spawn program])
       | Inr handle \<Rightarrow>
           (let (r, ev) = boot_loop handle (start + READY_TIMEOUT_MS) 0 [] ticks in (r, Spawn program # ev))))"

text \<open>Answers of one call of \<open>ensureSidecar\<close>: the storage, the probe, the boot.\<close>

record boot_env =
  be_install :: string
  be_os :: "os_info option"
  be_saved :: "jsval option"
  be_probe :: "string \<Rightarrow> jsval \<Rightarrow> bool"
  be_spawned :: "string + jsval"
  be_start :: int
  be_ticks :: "tick list"

definition ensureSidecar :: "boot_env \<Rightarrow> endpoint option \<Rightarrow> boot_result \<times> boot_event list" where
  "ensureSidecar env sidecar = (case sidecar of
       Some e \<Rightarrow> (Booted e, [])
     | None \<Rightarrow> (case adoptRunningSidecar (be_saved env) (be_probe env) of
         Some e \<Rightarrow> (Booted e, [])
       | None \<Rightarrow> bootSidecar (be_install env) (be_os env) (be_spawned env) (be_start env) (be_ticks env)))"

definition respawnSidecar :: "boot_env \<Rightarrow> endpoint option \<Rightarrow> boot_result \<times> boot_event list" where
  "respawnSidecar env dead = (case adoptRunningSidecar (be_saved env) (be_probe env) of
       Some e \<Rightarrow> (Booted e, [])
     | None \<Rightarrow>
        (let kill = (case dead of Some e \<Rightarrow> if is_nullish (sc_handle e) then [] else [KillHelper (sc_handle e)] | None \<Rightarrow> []);
             (r, ev) = ensureSidecar env None
         in (r, kill @ ev)))"

section \<open>Requests\<close>

datatype http = NetFail string | Http int string

text \<open>The parameter \<open>key\<close> of the query string of \<open>path\<close>, as \<open>URLSearchParams\<close> reads it.\<close>

definition plus_to_space :: "string \<Rightarrow> string" where
  "plus_to_space s = map (\<lambda>c. if c = CHR ''+'' then CHR '' '' else c) s"

definition url_decode :: "string \<Rightarrow> string" where
  "url_decode s = (case decodeURI (plus_to_space s) of Some t \<Rightarrow> t | None \<Rightarrow> plus_to_space s)"

definition query_param :: "string \<Rightarrow> string \<Rightarrow> string option" where
  "query_param path key =
     (case nth_opt (split_char (CHR ''?'') path) 1 of
        None \<Rightarrow> None
      | Some q \<Rightarrow> map_option snd (find_first (\<lambda>(k, v). k = key)
          (map (\<lambda>part. case split_first (CHR ''='') part of
              (k, None) \<Rightarrow> (url_decode k, []) | (k, Some v) \<Rightarrow> (url_decode k, url_decode v))
            (filter (\<lambda>p. p \<noteq> []) (split_char (CHR ''&'') q)))))"

definition request_conn :: "string \<Rightarrow> jsval \<Rightarrow> string" where
  "request_conn path body =
     (if is_nullish (jget body ''conn'')
      then (case query_param path ''conn'' of Some c \<Rightarrow> c | None \<Rightarrow> [])
      else js_String (jget body ''conn''))"

definition error_message :: "int \<Rightarrow> string \<Rightarrow> string" where
  "error_message status body =
     (let json = (if body = [] then VNull else (case parse_json body of Some v \<Rightarrow> v | None \<Rightarrow> VNull));
          m = jget (jget json ''error'') ''message''
      in if is_nullish m then (if body \<noteq> [] then body else ''HTTP '' @ int_to_string status) else js_String m)"

definition http_ok :: "int \<Rightarrow> bool" where
  "http_ok status = (200 \<le> status \<and> status \<le> 299)"

definition needs_reconnect :: "int \<Rightarrow> string \<Rightarrow> string \<Rightarrow> bool \<Rightarrow> bool" where
  "needs_reconnect status msg connId registered =
     (status = 404 \<and> startsWith msg ''not found: connection '' \<and> connId \<noteq> [] \<and> registered)"

text \<open>
  The answers of a request: one per fetch, and what the respawn and the registered
  reconnect handler answer (\<open>rq_reconnect = None\<close> when none is registered). \<open>NoAnswer\<close> is
  a request whose answer has not come.
\<close>

record req_env =
  rq_aborted :: bool
  rq_respawn :: "string + unit"
  rq_reconnect :: "(string \<Rightarrow> string + unit) option"

datatype req_event = Sent string string jsval | Respawned | Reconnected string

datatype req_result = Body string | Failed string | NoAnswer

function (sequential) request ::
  "req_env \<Rightarrow> string \<Rightarrow> string \<Rightarrow> jsval \<Rightarrow> bool \<Rightarrow> bool \<Rightarrow> http list \<Rightarrow> req_result \<times> req_event list" where
  "request env path verb body allowRespawn allowReconnect [] = (NoAnswer, [Sent path verb body])"
| "request env path verb body allowRespawn allowReconnect (NetFail e # hs) =
     (if allowRespawn \<and> \<not> rq_aborted env then
        (case rq_respawn env of
           Inl e' \<Rightarrow> (Failed e', [Sent path verb body, Respawned])
         | Inr _ \<Rightarrow> (let (r, ev) = request env path verb body False allowReconnect hs
                    in (r, [Sent path verb body, Respawned] @ ev)))
      else (Failed e, [Sent path verb body]))"
| "request env path verb body allowRespawn allowReconnect (Http status text # hs) =
     (if http_ok status then (Body text, [Sent path verb body])
      else
        (let msg = error_message status text; connId = request_conn path body in
         case rq_reconnect env of
           None \<Rightarrow> (Failed msg, [Sent path verb body])
         | Some reconnect \<Rightarrow>
             if needs_reconnect status msg connId True \<and> allowReconnect then
               (case reconnect connId of
                  Inl e' \<Rightarrow> (Failed e', [Sent path verb body, Reconnected connId])
                | Inr _ \<Rightarrow> (let (r, ev) = request env path verb body allowRespawn False hs
                           in (r, [Sent path verb body, Reconnected connId] @ ev)))
             else (Failed msg, [Sent path verb body])))"
  by pat_completeness auto
termination
  by (relation "measure (\<lambda>(env, path, verb, body, a, b, hs). length hs)") auto

text \<open>\<open>fetchJson\<close>: a body that is empty or not JSON reads as \<open>null\<close>.\<close>

definition fetchJson ::
  "req_env \<Rightarrow> string \<Rightarrow> string \<Rightarrow> jsval \<Rightarrow> http list \<Rightarrow> (string + jsval) option" where
  "fetchJson env path verb body hs = (case fst (request env path verb body True True hs) of
       NoAnswer \<Rightarrow> None
     | Failed e \<Rightarrow> Some (Inl e)
     | Body text \<Rightarrow> Some (Inr (if text = [] then VNull else (case parse_json text of Some v \<Rightarrow> v | None \<Rightarrow> VNull))))"

section \<open>Booting is independent of how the output is cut into chunks\<close>

lemma startsWith_extend: "startsWith s p \<Longrightarrow> startsWith (s @ x) p"
  by (auto simp: startsWith_iff)

lemma indexOf_Some:
  "indexOf s p = Some k \<Longrightarrow> startsWith (drop k s) p \<and> k \<le> length s"
  by (induction s arbitrary: k) (auto split: if_splits)

lemma startsWith_shrink: "startsWith (s @ x) p \<Longrightarrow> length p \<le> length s \<Longrightarrow> startsWith s p"
  by (simp add: startsWith_take)

lemma indexOf_extend: "indexOf s p = Some i \<Longrightarrow> p \<noteq> [] \<Longrightarrow> indexOf (s @ x) p = Some i"
proof (induction s arbitrary: i)
  case (Cons c s)
  show ?case
  proof (cases "startsWith (c # s) p")
    case True
    then have "startsWith (c # s @ x) p" using startsWith_extend [of "c # s" p x] by simp
    with True Cons.prems show ?thesis by simp
  next
    case False
    with Cons.prems obtain k where k: "indexOf s p = Some k" "i = Suc k" by auto
    from indexOf_Some [OF k(1)] obtain r where "drop k s = p @ r" by (auto simp: startsWith_iff)
    then have "length p \<le> length (drop k s)" by simp
    then have len: "length p \<le> length (c # s)" by simp
    have "\<not> startsWith (c # s @ x) p"
      using False startsWith_shrink [of "c # s" x p] len by auto
    with k Cons show ?thesis by simp
  qed
qed simp

lemma indexOf_less: "indexOf s p = Some k \<Longrightarrow> p \<noteq> [] \<Longrightarrow> k + length p \<le> length s"
proof -
  assume "indexOf s p = Some k" "p \<noteq> []"
  from indexOf_Some [OF this(1)] obtain r where "drop k s = p @ r" "k \<le> length s" by (auto simp: startsWith_iff)
  then have "length (drop k s) = length p + length r" by simp
  with \<open>k \<le> length s\<close> show ?thesis by simp
qed

lemma extractReady_extend: "extractReady buf = Some v \<Longrightarrow> extractReady (buf @ x) = Some v"
proof -
  assume a: "extractReady buf = Some v"
  then obtain idx k where i: "indexOf buf ''READY '' = Some idx" "indexOf (drop idx buf) [CHR 0x0A] = Some k"
    and v: "parse_json (js_trim (slice buf (idx + 6) (idx + k))) = Some v"
    by (auto simp: extractReady_def split: option.splits)
  have idx: "idx \<le> length buf" using indexOf_Some [OF i(1)] by simp
  have "drop idx (buf @ x) = drop idx buf @ x" using idx by simp
  with indexOf_extend [OF i(2)] have k: "indexOf (drop idx (buf @ x)) [CHR 0x0A] = Some k" by simp
  have "idx + 6 \<le> length buf" using indexOf_less [OF i(1)] by simp
  moreover have "idx + k \<le> length buf" using indexOf_less [OF i(2)] idx by simp
  ultimately have "slice (buf @ x) (idx + 6) (idx + k) = slice buf (idx + 6) (idx + k)"
    by (simp add: slice_def)
  with v k indexOf_extend [OF i(1)] show ?thesis by (simp add: extractReady_def)
qed

text \<open>A run of the poll loop in which every call answers in time and the helper lives.\<close>

definition calm_tick :: "int \<Rightarrow> tick \<Rightarrow> bool" where
  "calm_tick deadline t = (tk_now t \<le> deadline \<and>
     (case tk_answer t of Inl _ \<Rightarrow> False | Inr a \<Rightarrow> \<not> la_exited a))"

definition tick_bytes :: "tick \<Rightarrow> string" where
  "tick_bytes t = (case tk_answer t of Inl _ \<Rightarrow> [] | Inr a \<Rightarrow> la_bytes a)"

lemma boot_loop_ready:
  "list_all (calm_tick deadline) ts \<Longrightarrow> extractReady buf = None \<Longrightarrow>
     extractReady (buf @ concat (map tick_bytes ts)) = Some line \<Longrightarrow> truthy line \<Longrightarrow>
     fst (boot_loop handle deadline offset buf ts) = Booted (endpoint_of handle line)"
proof (induction ts arbitrary: offset buf)
  case (Cons t ts)
  obtain a where a: "tk_answer t = Inr a" "\<not> la_exited a" "tk_now t \<le> deadline"
    using Cons.prems(1) by (auto simp: calm_tick_def split: sum.splits)
  let ?buf = "buf @ la_bytes a"
  have full: "extractReady (?buf @ concat (map tick_bytes ts)) = Some line"
  proof -
    have "tick_bytes t = la_bytes a" using a(1) by (simp add: tick_bytes_def)
    with Cons.prems(3) show ?thesis by simp
  qed
  show ?case
  proof (cases "extractReady ?buf")
    case None
    with Cons.IH [of ?buf] Cons.prems full a show ?thesis
      by (simp add: Let_def case_prod_beta)
  next
    case (Some l)
    with extractReady_extend [OF Some, of "concat (map tick_bytes ts)"] full have "l = line" by simp
    with Some a Cons.prems(4) show ?thesis by (simp add: Let_def)
  qed
qed simp

text \<open>
  C17: the handshake finds the endpoint however the helper's output is cut into chunks: if
  every poll answers before the deadline, the helper does not exit, and the output as a
  whole carries a READY line, booting returns exactly the port and token of that line.
\<close>

theorem boot_finds_endpoint:
  assumes "helperPath install os = Some program"
    and "list_all (calm_tick (start + READY_TIMEOUT_MS)) ticks"
    and "extractReady (concat (map tick_bytes ticks)) = Some line" "truthy line"
  shows "fst (bootSidecar install os (Inr handle) start ticks) = Booted (endpoint_of handle line)"
proof -
  have "extractReady [] = None" by (simp add: extractReady_def)
  with boot_loop_ready [OF assms(2) this, of line handle 0] assms(3,4)
  have "fst (boot_loop handle (start + READY_TIMEOUT_MS) 0 [] ticks) = Booted (endpoint_of handle line)" by simp
  with assms(1) show ?thesis by (simp add: bootSidecar_def case_prod_beta)
qed

definition demo_ticks :: "tick list" where
  "demo_ticks = map (\<lambda>b. \<lparr>tk_now = 5, tk_answer = Inr \<lparr>la_bytes = b, la_next = None, la_exited = False, la_code = None\<rparr>\<rparr>)
     [''warn'' @ [CHR 0x0A] @ ''REA'', ''DY {'' @ [CHR 0x22] @ ''port'' @ [CHR 0x22], '':7}'', [CHR 0x0A]]"

lemma boot_finds_endpoint_witness:
  "fst (bootSidecar ''/ext'' (Some \<lparr>os_platform = ''linux'', os_arch = None\<rparr>) (Inr VNull) 0 demo_ticks) =
     Booted (endpoint_of VNull (VObj [(''port'', VNum (NInt 7))]))"
proof (rule boot_finds_endpoint)
  show "helperPath ''/ext'' (Some \<lparr>os_platform = ''linux'', os_arch = None\<rparr>) = Some ''/ext/sidecar/linux-x86_64/tedi-sql-helper''"
    by code_simp
  show "list_all (calm_tick (0 + READY_TIMEOUT_MS)) demo_ticks"
    by (simp add: demo_ticks_def calm_tick_def READY_TIMEOUT_MS_def)
  show "extractReady (concat (map tick_bytes demo_ticks)) = Some (VObj [(''port'', VNum (NInt 7))])"
    by code_simp
qed simp

section \<open>Requests are retried a bounded number of times\<close>

definition sent :: "req_event list \<Rightarrow> (string \<times> string \<times> jsval) list" where
  "sent ev = concat (map (\<lambda>e. case e of Sent p m b \<Rightarrow> [(p, m, b)] | _ \<Rightarrow> []) ev)"

definition respawns :: "req_event list \<Rightarrow> nat" where
  "respawns ev = length (filter (\<lambda>e. e = Respawned) ev)"

definition reconnects :: "req_event list \<Rightarrow> string list" where
  "reconnects ev = concat (map (\<lambda>e. case e of Reconnected c \<Rightarrow> [c] | _ \<Rightarrow> []) ev)"

lemma ev_append [simp]:
  "sent (a @ b) = sent a @ sent b" "respawns (a @ b) = respawns a + respawns b"
  "reconnects (a @ b) = reconnects a @ reconnects b"
  by (simp_all add: sent_def respawns_def reconnects_def)

lemma ev_Cons [simp]:
  "sent [] = []" "sent (Sent p m b # ev) = (p, m, b) # sent ev" "sent (Respawned # ev) = sent ev"
  "sent (Reconnected c # ev) = sent ev"
  "respawns [] = 0" "respawns (Sent p m b # ev) = respawns ev" "respawns (Respawned # ev) = Suc (respawns ev)"
  "respawns (Reconnected c # ev) = respawns ev"
  "reconnects [] = []" "reconnects (Sent p m b # ev) = reconnects ev" "reconnects (Respawned # ev) = reconnects ev"
  "reconnects (Reconnected c # ev) = c # reconnects ev"
  by (simp_all add: sent_def respawns_def reconnects_def)

definition flags :: "bool \<Rightarrow> bool \<Rightarrow> nat" where
  "flags a b = (if a then 1 else 0) + (if b then 1 else 0)"

lemma flags_simps [simp]:
  "flags True b = Suc (flags False b)" "flags a True = Suc (flags a False)" "flags False False = 0"
  by (simp_all add: flags_def)

lemma request_bounded:
  "request env path verb body a b hs = (r, ev) \<Longrightarrow>
     list_all (\<lambda>s. s = (path, verb, body)) (sent ev) \<and>
     length (sent ev) \<le> 1 + flags a b \<and>
     respawns ev \<le> flags a False \<and> length (reconnects ev) \<le> flags b False \<and>
     (length hs > flags a b \<longrightarrow> r \<noteq> NoAnswer)"
proof (induction env path verb body a b hs arbitrary: r ev rule: request.induct)
  case (2 env path verb body a b e hs)
  note prem = 2(2)
  show ?case
  proof (cases "a \<and> \<not> rq_aborted env")
    case True
    show ?thesis
    proof (cases "rq_respawn env")
      case (Inl e')
      with True prem show ?thesis by auto
    next
      case (Inr u)
      obtain r1 ev1 where rec: "request env path verb body False b hs = (r1, ev1)" by fastforce
      from 2(1) [OF True Inr rec] prem True Inr rec show ?thesis by auto
    qed
  next
    case False
    with prem show ?thesis by auto
  qed
next
  case (3 env path verb body a b status reply hs)
  note prem = 3(2)
  let ?msg = "error_message status reply" and ?c = "request_conn path body"
  consider (ok) "http_ok status"
    | (plain) "\<not> http_ok status" "rq_reconnect env = None \<or> \<not> (needs_reconnect status ?msg ?c True \<and> b)"
    | (again) f where "\<not> http_ok status" "rq_reconnect env = Some f" "needs_reconnect status ?msg ?c True \<and> b"
    by (cases "rq_reconnect env") auto
  then show ?case
  proof cases
    case ok
    with prem show ?thesis by auto
  next
    case plain
    then have "r = Failed ?msg \<and> ev = [Sent path verb body]"
      using prem by (auto simp: Let_def split: option.splits)
    then show ?thesis by simp
  next
    case again
    show ?thesis
    proof (cases "f ?c")
      case (Inl e')
      with again prem show ?thesis by (auto simp: Let_def)
    next
      case (Inr u)
      obtain r1 ev1 where rec: "request env path verb body a False hs = (r1, ev1)" by fastforce
      from 3(1) [OF again(1) refl refl again(2,3) Inr rec] prem again Inr rec show ?thesis
        by (auto simp: Let_def)
    qed
  qed
qed auto

text \<open>
  C16: a request ends after at most three fetches, at most one respawn and at most one
  reconnect, every fetch carries the same path, method and body, and three answers are
  always enough for it to return or fail.
\<close>

theorem request_retries_bounded:
  "let (r, ev) = request env path verb body True True hs in
     length (sent ev) \<le> 3 \<and> list_all (\<lambda>s. s = (path, verb, body)) (sent ev) \<and>
     respawns ev \<le> 1 \<and> length (reconnects ev) \<le> 1 \<and> (length hs \<ge> 3 \<longrightarrow> r \<noteq> NoAnswer)"
  using request_bounded [of env path verb body True True hs]
  by (cases "request env path verb body True True hs") auto

lemma request_retries_bounded_witness:
  "let hs = [NetFail ''refused'', Http 404 ''not found: connection c'', Http 200 ''ok''];
       env = \<lparr>rq_aborted = False, rq_respawn = Inr (), rq_reconnect = Some (\<lambda>c. Inr ())\<rparr>
   in fst (request env ''/query'' ''POST'' (VObj [(''conn'', VStr ''c'')]) True True hs) \<noteq> NoAnswer"
  using request_retries_bounded [of "\<lparr>rq_aborted = False, rq_respawn = Inr (), rq_reconnect = Some (\<lambda>c. Inr ())\<rparr>"
      "''/query''" "''POST''" "VObj [(''conn'', VStr ''c'')]"
      "[NetFail ''refused'', Http 404 ''not found: connection c'', Http 200 ''ok'']"]
  by (auto simp: Let_def case_prod_beta simp del: request.simps)

section \<open>Overlapping callers share one boot\<close>

text \<open>
  \<open>fl_boot\<close> is \<open>bootInFlight\<close>, \<open>fl_running\<close> the number of adopt-or-boot procedures that are
  running, \<open>fl_waiting\<close> the callers awaiting one. A procedure sets \<open>sidecar\<close> before its
  promise settles, and a respawn may clear it at any moment.
\<close>

record flight =
  fl_sidecar :: "endpoint option"
  fl_boot :: bool
  fl_running :: nat
  fl_waiting :: nat

inductive flight_step :: "flight \<Rightarrow> flight \<Rightarrow> bool" where
  call_join: "fl_sidecar s = None \<Longrightarrow> fl_boot s \<Longrightarrow> flight_step s (s\<lparr>fl_waiting := fl_waiting s + 1\<rparr>)"
| call_start: "fl_sidecar s = None \<Longrightarrow> \<not> fl_boot s \<Longrightarrow>
    flight_step s (s\<lparr>fl_boot := True, fl_running := fl_running s + 1, fl_waiting := fl_waiting s + 1\<rparr>)"
| boot_sets: "fl_running s > 0 \<Longrightarrow> flight_step s (s\<lparr>fl_sidecar := Some e\<rparr>)"
| boot_settles: "fl_running s > 0 \<Longrightarrow>
    flight_step s (s\<lparr>fl_boot := False, fl_running := fl_running s - 1, fl_waiting := 0\<rparr>)"
| cleared: "flight_step s (s\<lparr>fl_sidecar := None\<rparr>)"

inductive flight_reach :: "flight \<Rightarrow> bool" where
  flight_start: "flight_reach \<lparr>fl_sidecar = None, fl_boot = False, fl_running = 0, fl_waiting = 0\<rparr>"
| flight_more: "flight_reach s \<Longrightarrow> flight_step s t \<Longrightarrow> flight_reach t"

inductive_cases flight_stepE: "flight_step s t"

lemma flight_inv: "flight_reach s \<Longrightarrow> fl_running s = (if fl_boot s then 1 else 0)"
  by (induction rule: flight_reach.induct) (auto elim!: flight_stepE split: if_splits)

end
