(* ===== verification/Cells.thy ===== *)
theory Cells
  imports SqlText
begin

text \<open>
  \<open>src/src/grid/cells.js\<close> and the cell text of \<open>dom/feedback.js\<close>: how a value is shown, what
  its tooltip says and what the copy menu offers. A rendered cell is a value of
  \<open>cell_view\<close> instead of a DOM node.
\<close>

datatype cell_view = CvNull | CvBool string | CvText string | CvBytes string | CvUnsupported string

definition marker :: "string \<Rightarrow> jsval \<Rightarrow> bool" where
  "marker kind v = (is_object_type v \<and> jget v ''__type'' = VStr kind)"

definition or_val :: "jsval \<Rightarrow> jsval \<Rightarrow> jsval" where
  "or_val a b = (if is_nullish a then b else a)"

fun renderCellContent :: "jsval \<Rightarrow> cell_view" where
  "renderCellContent VUndef = CvNull"
| "renderCellContent VNull = CvNull"
| "renderCellContent (VBool b) = CvBool (if b then ''true'' else ''false'')"
| "renderCellContent (VNum n) = CvText (num_to_string n)"
| "renderCellContent (VStr s) = CvText s"
| "renderCellContent v =
     (if marker ''bytes'' v
      then CvBytes ('' '' @ js_String (or_val (jget v ''size'') (VStr ''?'')) @ '' bytes'')
      else if marker ''unsupported'' v
      then CvUnsupported ('' '' @ toLowerCase (js_String (or_val (jget v ''pg_type'') (VStr ''value''))))
      else CvText (json_text v))"

definition cellTooltip :: "jsval \<Rightarrow> string" where
  "cellTooltip v =
     (if marker ''bytes'' v
      then ''Binary value: '' @ js_String (jget v ''size'') @ '' bytes (double-click to inspect base64)''
      else if marker ''unsupported'' v
      then ''A '' @ js_String (jget v ''pg_type'') @
           '' value is stored here. The helper can'' @ [CHR 0x27] @
           ''t render this type yet; cast it in a query (e.g. SELECT col::text) to read it.''
      else if is_object_type v then json_text v
      else if is_nullish v then ''NULL'' else js_String v)"

text \<open>A table cell: its content and its tooltip.\<close>

definition renderCellTd :: "jsval \<Rightarrow> cell_view \<times> string" where
  "renderCellTd v = (renderCellContent v, cellTooltip v)"

definition cellText :: "jsval \<Rightarrow> string" where
  "cellText v =
     (if is_nullish v then []
      else if is_object_type v
        then (if marker ''bytes'' v \<or> marker ''unsupported'' v then [] else json_text v)
      else js_String v)"

text \<open>A menu entry: label, icon, and the text and message it hands to the clipboard.\<close>

record copy_item =
  cp_label :: string
  cp_icon :: string
  cp_text :: string
  cp_toast :: string

definition row_values :: "string list \<Rightarrow> jsval list \<Rightarrow> (string, jsval) omap" where
  "row_values columns row =
     foldl (\<lambda>m (i, c). omap_set m c (case nth_opt row i of Some v \<Rightarrow> v | None \<Rightarrow> VUndef)) []
       (enumerate 0 columns)"

definition gridCopyMenuItems ::
  "conn list \<Rightarrow> string list \<Rightarrow> jsval list \<Rightarrow> jsval \<Rightarrow> string \<Rightarrow> table_ref option \<Rightarrow> copy_item list" where
  "gridCopyMenuItems cs columns row value connId tgt =
     [\<lparr>cp_label = ''Copy cell'', cp_icon = ''Copy01Icon'', cp_text = cellText value, cp_toast = ''Cell copied''\<rparr>,
      \<lparr>cp_label = ''Copy row'', cp_icon = ''Copy01Icon'', cp_text = js_join [CHR 0x09] (map cellText row), cp_toast = ''Row copied''\<rparr>] @
     (case tgt of
        None \<Rightarrow> []
      | Some t \<Rightarrow> [\<lparr>cp_label = ''Copy row as INSERT'', cp_icon = ''Database01Icon'',
          cp_text = buildInsertSql cs connId t (row_values columns row), cp_toast = ''INSERT copied''\<rparr>])"

lemma cellText_null [simp]: "cellText VNull = []" "cellText VUndef = []"
  by (simp_all add: cellText_def)

lemma cellText_str [simp]: "cellText (VStr s) = s"
  by (simp add: cellText_def)

end
