(* ===== verification/ResultGrid.thy ===== *)
theory ResultGrid
  imports Cells EditContext "HOL-Library.Multiset"
begin

text \<open>
  \<open>src/src/grid/resultGrid.js\<close>: the grid of a query result, with a client-side search, a
  client-side sort cycled by header clicks, and paging. The state is the record the code
  keeps; a redraw is the view it produces. \<open>collate\<close> is \<open>localeCompare\<close> of the user's
  locale with numeric collation, \<open>fmt\<close> the locale's integer format. \<open>Array.sort\<close> is a
  stable sort; for a comparison that is not a consistent ordering (mixed cell types under
  an exotic locale) the language leaves the order open, the model takes insertion order.
\<close>

datatype sort_dir = Asc | Desc

record rgrid =
  g_query :: string
  g_page :: nat
  g_filtered :: "jsval list list"
  g_sortCol :: "nat option"
  g_sortDir :: sort_dir

section \<open>Filter and sort\<close>

definition cell_matches :: "string \<Rightarrow> jsval \<Rightarrow> bool" where
  "cell_matches needle cell =
     (if is_nullish cell then False
      else if marker ''bytes'' cell \<or> marker ''unsupported'' cell then False
      else js_includes (toLowerCase (if is_object_type cell then json_text cell else js_String cell)) needle)"

definition rowMatches :: "jsval list \<Rightarrow> string \<Rightarrow> bool" where
  "rowMatches row needle = list_ex (cell_matches needle) row"

text \<open>The difference of two numbers, with its sign.\<close>

fun num_diff :: "jsnum \<Rightarrow> jsnum \<Rightarrow> int" where
  "num_diff PosInf PosInf = 0"
| "num_diff NegInf NegInf = 0"
| "num_diff NaN b = 0"
| "num_diff a NaN = 0"
| "num_diff PosInf b = 1"
| "num_diff a PosInf = -1"
| "num_diff NegInf b = -1"
| "num_diff a NegInf = 1"
| "num_diff a b = fst (num_frac a) * snd (num_frac b) - fst (num_frac b) * snd (num_frac a)"

definition cell_order_text :: "jsval \<Rightarrow> string" where
  "cell_order_text v = (if is_object_type v then json_text v else js_String v)"

definition compareCells :: "(string \<Rightarrow> string \<Rightarrow> int) \<Rightarrow> jsval \<Rightarrow> jsval \<Rightarrow> int" where
  "compareCells collate a b =
     (if is_nullish a \<or> is_nullish b then (if is_nullish a then (if is_nullish b then 0 else 1) else -1)
      else (case (a, b) of
          (VNum m, VNum n) \<Rightarrow> num_diff m n
        | _ \<Rightarrow> collate (cell_order_text a) (cell_order_text b)))"

fun insert_by :: "('a \<Rightarrow> 'a \<Rightarrow> int) \<Rightarrow> 'a \<Rightarrow> 'a list \<Rightarrow> 'a list" where
  "insert_by cmp x [] = [x]"
| "insert_by cmp x (y # ys) = (if cmp x y \<le> 0 then x # y # ys else y # insert_by cmp x ys)"

definition sort_by :: "('a \<Rightarrow> 'a \<Rightarrow> int) \<Rightarrow> 'a list \<Rightarrow> 'a list" where
  "sort_by cmp xs = foldr (insert_by cmp) xs []"

definition cell_at :: "jsval list \<Rightarrow> nat \<Rightarrow> jsval" where
  "cell_at row ci = (case nth_opt row ci of Some v \<Rightarrow> v | None \<Rightarrow> VUndef)"

definition applySort :: "(string \<Rightarrow> string \<Rightarrow> int) \<Rightarrow> rgrid \<Rightarrow> rgrid" where
  "applySort collate g = (case g_sortCol g of
       None \<Rightarrow> g
     | Some ci \<Rightarrow>
        (let sign = (if g_sortDir g = Desc then -1 else 1)
         in g\<lparr>g_filtered := sort_by (\<lambda>a b. sign * compareCells collate (cell_at a ci) (cell_at b ci)) (g_filtered g)\<rparr>))"

text \<open>The page is clamped by the redraw that ends each of these handlers.\<close>

definition total_pages :: "nat \<Rightarrow> nat \<Rightarrow> nat" where
  "total_pages pageSize tot = max 1 ((tot + pageSize - 1) div pageSize)"

definition clamp_page :: "nat \<Rightarrow> rgrid \<Rightarrow> rgrid" where
  "clamp_page pageSize g =
     (let n = total_pages pageSize (length (g_filtered g))
      in if g_page g \<ge> n then g\<lparr>g_page := n - 1\<rparr> else g)"

definition applyFilter :: "(string \<Rightarrow> string \<Rightarrow> int) \<Rightarrow> nat \<Rightarrow> jsval list list \<Rightarrow> string \<Rightarrow> rgrid \<Rightarrow> rgrid" where
  "applyFilter collate pageSize rows q g =
     clamp_page pageSize (applySort collate (g\<lparr>g_query := q, g_page := 0,
       g_filtered := (if q = [] then rows else filter (\<lambda>row. rowMatches row (toLowerCase q)) rows)\<rparr>))"

definition toggleSort :: "(string \<Rightarrow> string \<Rightarrow> int) \<Rightarrow> nat \<Rightarrow> jsval list list \<Rightarrow> nat \<Rightarrow> rgrid \<Rightarrow> rgrid" where
  "toggleSort collate pageSize rows ci g =
     applyFilter collate pageSize rows (g_query g)
       (if g_sortCol g \<noteq> Some ci then g\<lparr>g_sortCol := Some ci, g_sortDir := Asc\<rparr>
        else if g_sortDir g = Asc then g\<lparr>g_sortDir := Desc\<rparr>
        else g\<lparr>g_sortCol := None\<rparr>)"

definition initial_grid :: "jsval list list \<Rightarrow> rgrid" where
  "initial_grid rows = \<lparr>g_query = [], g_page = 0, g_filtered = rows, g_sortCol = None, g_sortDir = Asc\<rparr>"

section \<open>The view of a redraw\<close>

datatype arrow = NoArrow | ArrowUp | ArrowDown

record header =
  hd_name :: string
  hd_class :: string
  hd_arrow :: arrow

record body_cell =
  bc_content :: "cell_view \<times> string"
  bc_editable :: bool

record grid_view =
  gv_info :: string
  gv_truncated :: "string option"
  gv_editable :: "string option"
  gv_headers :: "header list"
  gv_body :: "body_cell list list"
  gv_prev :: bool
  gv_next :: bool
  gv_label :: string

definition page_rows :: "nat \<Rightarrow> rgrid \<Rightarrow> nat \<Rightarrow> jsval list list" where
  "page_rows pageSize g p = take pageSize (drop (p * pageSize) (g_filtered g))"

definition buildGridTable ::
  "string list \<Rightarrow> jsval list list \<Rightarrow> edit_ctx option \<Rightarrow> rgrid \<Rightarrow> header list \<times> body_cell list list" where
  "buildGridTable columns rows ec g =
     (map (\<lambda>(ci, col).
        (let sorted = (g_sortCol g = Some ci) in
         \<lparr> hd_name = col,
           hd_class = ''tsql-grid-th tedi-glass-solid'' @
             (if sorted then '' is-sort-'' @ (if g_sortDir g = Asc then ''asc'' else ''desc'') else []),
           hd_arrow = (if sorted then (if g_sortDir g = Asc then ArrowUp else ArrowDown) else NoArrow) \<rparr>))
        (enumerate 0 columns),
      map (\<lambda>row. map (\<lambda>(ci, cell).
        \<lparr> bc_content = renderCellTd cell,
          bc_editable = (case ec of None \<Rightarrow> False | Some x \<Rightarrow> ci \<in> set (x_editableColIdx x)) \<rparr>)
        (enumerate 0 row)) rows)"

definition redraw ::
  "(nat \<Rightarrow> string) \<Rightarrow> nat \<Rightarrow> string list \<Rightarrow> jsval list list \<Rightarrow> bool \<Rightarrow> bool \<Rightarrow> int \<Rightarrow> edit_ctx option \<Rightarrow> rgrid \<Rightarrow> rgrid \<times> grid_view" where
  "redraw fmt pageSize columns rows truncated bySize elapsed ec g0 =
     (let g = clamp_page pageSize g0;
          tot = length (g_filtered g);
          n = total_pages pageSize tot;
          tbl = buildGridTable columns (page_rows pageSize g (g_page g)) ec g;
          base = (if g_query g \<noteq> [] then fmt tot @ '' of '' @ fmt (length rows) @ '' rows match''
                  else fmt (length rows) @ '' rows'')
      in (g, \<lparr> gv_info = base @ '' '' @ [CHR 0xB7] @ '' '' @ int_to_string elapsed @ '' ms'',
           gv_truncated = (if truncated \<and> g_query g = []
             then Some (if bySize
               then ''Stopped at the 32 MB result budget before the row limit. Narrow the columns or add a LIMIT to see the rest.''
               else ''Stopped at the connection'' @ [CHR 0x27] @ ''s row limit. Add a LIMIT / WHERE, or raise the limit in the connection settings.'')
             else None),
           gv_editable = map_option (\<lambda>x. ''Double-click a cell to edit. Changes write to '' @ x_table x @ ''.'') ec,
           gv_headers = fst tbl, gv_body = snd tbl,
           gv_prev = (g_page g > 0), gv_next = (g_page g < n - 1),
           gv_label = ''Page '' @ nat_to_string (g_page g + 1) @ '' / '' @ nat_to_string n \<rparr>))"

text \<open>The two pager buttons.\<close>

definition prevPage :: "nat \<Rightarrow> rgrid \<Rightarrow> rgrid" where
  "prevPage pageSize g = (if g_page g > 0 then clamp_page pageSize (g\<lparr>g_page := g_page g - 1\<rparr>) else g)"

definition nextPage :: "nat \<Rightarrow> rgrid \<Rightarrow> rgrid" where
  "nextPage pageSize g =
     (if g_page g < total_pages pageSize (length (g_filtered g)) - 1
      then clamp_page pageSize (g\<lparr>g_page := g_page g + 1\<rparr>) else g)"

text \<open>
  What a double click and a right click on a body cell reach: the backing row at that
  position of the page.
\<close>

definition cellAt :: "jsval list list \<Rightarrow> nat \<Rightarrow> nat \<Rightarrow> (jsval list \<times> nat) option" where
  "cellAt rows ri ci = map_option (\<lambda>row. (row, ci)) (nth_opt rows ri)"

definition dblclick_edits :: "jsval list list \<Rightarrow> edit_ctx option \<Rightarrow> nat \<Rightarrow> nat \<Rightarrow> (edit_ctx \<times> jsval list \<times> nat) option" where
  "dblclick_edits rows ec ri ci = (case (cellAt rows ri ci, ec) of
       (Some (row, c), Some x) \<Rightarrow> if c \<in> set (x_editableColIdx x) then Some (x, row, c) else None
     | _ \<Rightarrow> None)"

section \<open>Invariant of the grid\<close>

lemma mset_insert_by [simp]: "mset (insert_by cmp x xs) = add_mset x (mset xs)"
  by (induction xs) auto

lemma mset_sort_by [simp]: "mset (sort_by cmp xs) = mset xs"
  unfolding sort_by_def by (induction xs) auto

definition visible :: "jsval list list \<Rightarrow> string \<Rightarrow> jsval list list" where
  "visible rows q = (if q = [] then rows else filter (\<lambda>row. rowMatches row (toLowerCase q)) rows)"

definition grid_ok :: "nat \<Rightarrow> jsval list list \<Rightarrow> rgrid \<Rightarrow> bool" where
  "grid_ok pageSize rows g =
     (mset (g_filtered g) = mset (visible rows (g_query g)) \<and>
      (g_sortCol g = None \<longrightarrow> g_filtered g = visible rows (g_query g)) \<and>
      g_page g < total_pages pageSize (length (g_filtered g)))"

inductive grid_step ::
  "(string \<Rightarrow> string \<Rightarrow> int) \<Rightarrow> nat \<Rightarrow> jsval list list \<Rightarrow> rgrid \<Rightarrow> rgrid \<Rightarrow> bool"
  for collate pageSize rows where
  search: "grid_step collate pageSize rows g (applyFilter collate pageSize rows (js_trim q) g)"
| header_click: "grid_step collate pageSize rows g (toggleSort collate pageSize rows ci g)"
| prev: "grid_step collate pageSize rows g (prevPage pageSize g)"
| more: "grid_step collate pageSize rows g (nextPage pageSize g)"

inductive grid_reach ::
  "(string \<Rightarrow> string \<Rightarrow> int) \<Rightarrow> nat \<Rightarrow> jsval list list \<Rightarrow> rgrid \<Rightarrow> bool"
  for collate pageSize rows where
  grid_start: "grid_reach collate pageSize rows (initial_grid rows)"
| grid_next: "grid_reach collate pageSize rows g \<Longrightarrow> grid_step collate pageSize rows g h \<Longrightarrow>
    grid_reach collate pageSize rows h"

inductive_cases grid_stepE: "grid_step collate pageSize rows g h"

lemma total_pages_pos [simp]: "0 < total_pages ps n"
  by (simp add: total_pages_def)

lemma clamp_page_simps [simp]:
  "g_filtered (clamp_page ps g) = g_filtered g" "g_query (clamp_page ps g) = g_query g"
  "g_sortCol (clamp_page ps g) = g_sortCol g" "g_sortDir (clamp_page ps g) = g_sortDir g"
  "g_page (clamp_page ps g) < total_pages ps (length (g_filtered g))"
  by (auto simp: clamp_page_def Let_def)

lemma applySort_simps [simp]:
  "g_query (applySort c g) = g_query g" "g_sortCol (applySort c g) = g_sortCol g"
  "g_sortDir (applySort c g) = g_sortDir g" "g_page (applySort c g) = g_page g"
  "mset (g_filtered (applySort c g)) = mset (g_filtered g)"
  by (auto simp: applySort_def Let_def split: option.splits)

lemma applySort_none: "g_sortCol g = None \<Longrightarrow> applySort c g = g"
  by (simp add: applySort_def)

lemma grid_ok_filter: "grid_ok ps rows (applyFilter c ps rows q g)"
  unfolding grid_ok_def applyFilter_def
  by (auto simp: visible_def applySort_none)

lemma grid_step_ok: "grid_step c ps rows g h \<Longrightarrow> grid_ok ps rows g \<Longrightarrow> grid_ok ps rows h"
proof (erule grid_stepE)
  assume ok: "grid_ok ps rows g" and h: "h = prevPage ps g"
  show ?thesis
  proof (cases "g_page g > 0")
    case True
    have "g_page (clamp_page ps (g\<lparr>g_page := g_page g - 1\<rparr>)) < total_pages ps (length (g_filtered g))"
      using clamp_page_simps(5) [of ps "g\<lparr>g_page := g_page g - 1\<rparr>"] by simp
    with True ok h show ?thesis by (simp add: grid_ok_def prevPage_def)
  qed (use ok h in \<open>simp add: prevPage_def\<close>)
next
  assume ok: "grid_ok ps rows g" and h: "h = nextPage ps g"
  have "g_page (clamp_page ps (g\<lparr>g_page := g_page g + 1\<rparr>)) < total_pages ps (length (g_filtered g))"
    using clamp_page_simps(5) [of ps "g\<lparr>g_page := g_page g + 1\<rparr>"] by simp
  with ok h show ?thesis by (auto simp: grid_ok_def nextPage_def)
qed (auto simp: toggleSort_def grid_ok_filter)

lemma grid_reach_ok: "grid_reach c ps rows g \<Longrightarrow> grid_ok ps rows g"
proof (induction rule: grid_reach.induct)
  case grid_start
  show ?case by (simp add: grid_ok_def initial_grid_def visible_def)
qed (rule grid_step_ok)

lemma concat_pages:
  "ps > 0 \<Longrightarrow> length xs \<le> n * ps \<Longrightarrow> concat (map (\<lambda>p. take ps (drop (p * ps) xs)) [0..<n]) = xs"
proof (induction n arbitrary: xs)
  case (Suc n)
  have "concat (map (\<lambda>p. take ps (drop (p * ps) xs)) [0..<Suc n]) =
      take ps xs @ concat (map (\<lambda>p. take ps (drop (p * ps) (drop ps xs))) [0..<n])"
    by (simp only: upt_conv_Cons zero_less_Suc map_Suc_upt [symmetric] list.map concat.simps map_map)
       (simp add: comp_def add.commute)
  also have "concat (map (\<lambda>p. take ps (drop (p * ps) (drop ps xs))) [0..<n]) = drop ps xs"
    using Suc.IH [of "drop ps xs"] Suc.prems by simp
  finally show ?case by simp
qed simp

lemma total_pages_enough: "ps > 0 \<Longrightarrow> n \<le> total_pages ps n * ps"
proof -
  assume p: "ps > 0"
  have "n \<le> ((n + ps - 1) div ps) * ps"
  proof -
    have "(n + ps - 1) div ps * ps + (n + ps - 1) mod ps = n + ps - 1" by (rule div_mult_mod_eq)
    moreover have "(n + ps - 1) mod ps < ps" using p by simp
    ultimately show ?thesis using p by linarith
  qed
  also have "\<dots> \<le> total_pages ps n * ps" by (simp add: total_pages_def)
  finally show ?thesis .
qed

text \<open>
  Whatever the user searches, sorts and pages through, the result grid neither loses
  nor invents a row: the filtered rows are a permutation of the matching ones (in fetched
  order while no sort is on), the pages put together are exactly those rows, and the
  page shown is always one of them.
\<close>

theorem result_grid_shows_all_matches:
  assumes "grid_reach collate pageSize rows g" "pageSize > 0"
  shows "mset (g_filtered g) = mset (visible rows (g_query g)) \<and>
    (g_sortCol g = None \<longrightarrow> g_filtered g = visible rows (g_query g)) \<and>
    concat (map (page_rows pageSize g) [0..<total_pages pageSize (length (g_filtered g))]) = g_filtered g \<and>
    g_page g < total_pages pageSize (length (g_filtered g))"
proof -
  have "concat (map (page_rows pageSize g) [0..<total_pages pageSize (length (g_filtered g))]) = g_filtered g"
    unfolding page_rows_def using assms(2) total_pages_enough by (intro concat_pages) auto
  with grid_reach_ok [OF assms(1)] show ?thesis by (simp add: grid_ok_def)
qed

lemma result_grid_shows_all_matches_witness:
  "let rows = [[VNum (NInt 2)], [VNull], [VNum (NInt 1)]];
       g = toggleSort (\<lambda>a b. 0) 2 rows 0 (initial_grid rows)
   in g_filtered g = [[VNum (NInt 1)], [VNum (NInt 2)], [VNull]] \<and>
      concat (map (page_rows 2 g) [0..<total_pages 2 (length (g_filtered g))]) = g_filtered g"
proof -
  let ?rows = "[[VNum (NInt 2)], [VNull], [VNum (NInt 1)]]"
  have "grid_reach (\<lambda>a b. 0) 2 ?rows (toggleSort (\<lambda>a b. 0) 2 ?rows 0 (initial_grid ?rows))"
    by (rule grid_next [OF grid_start header_click])
  from result_grid_shows_all_matches [OF this] show ?thesis
    by (simp add: Let_def toggleSort_def applyFilter_def applySort_def sort_by_def compareCells_def
        cell_at_def initial_grid_def)
qed

text \<open>
  In a descending sort the NULL cells come first. The comparison is documented to keep
  them last, and does so ascending, but the direction's sign is applied to the whole
  comparison: of two rows, the one with NULL moves in front of the one with a value.
\<close>

theorem descending_sort_nulls_first:
  "g_filtered (toggleSort collate ps [[VNum (NInt k)], [VNull]] 0
     (toggleSort collate ps [[VNum (NInt k)], [VNull]] 0 (initial_grid [[VNum (NInt k)], [VNull]]))) =
   [[VNull], [VNum (NInt k)]]"
  by (simp add: toggleSort_def applyFilter_def applySort_def sort_by_def compareCells_def cell_at_def
      initial_grid_def)

end
