(* ===== verification/TableData.thy ===== *)
theory TableData
  imports Columns Cells
begin

text \<open>
  \<open>src/src/grid/tableData.js\<close> and \<open>src/src/grid/tableGrid.js\<close>: opening a table, loading its
  pages from the helper, the cached row count, the debounced search, and the table grid
  with its header clicks and pager. A load is two steps, because the code awaits the
  helper in between: \<open>load_start\<close> computes the request and what it remembers, \<open>load_finish\<close>
  handles the answer on the session as it is then.
\<close>

section \<open>The request\<close>

definition invalidateRowCount :: "session \<Rightarrow> session" where
  "invalidateRowCount s = s\<lparr>s_totalKey := None, s_total := None\<rparr>"

definition setActionSql :: "string option \<Rightarrow> session \<Rightarrow> session" where
  "setActionSql sql s = s\<lparr>s_actionSql := (if sql = Some [] then None else sql)\<rparr>"

definition search_term :: "session \<Rightarrow> string" where
  "search_term s = js_trim (s_gridSearch s)"

definition totalKey :: "session \<Rightarrow> table_ref \<Rightarrow> string" where
  "totalKey s t = table_key (t_database t) (t_schema t) (t_table t) @ ''|'' @ search_term s @ ''|'' @ s_gridSearchCol s"

definition reuseTotal :: "session \<Rightarrow> table_ref \<Rightarrow> int option" where
  "reuseTotal s t = (if s_totalKey s = Some (totalKey s t) then s_total s else None)"

definition order_fields :: "session \<Rightarrow> (string \<times> jsval) list" where
  "order_fields s = (case s_orderBy s of
       None \<Rightarrow> []
     | Some c \<Rightarrow> if c = [] then [] else
         [(''order_by'', VStr c), (''order_dir'', VStr (if s_orderDir s = ''desc'' then ''desc'' else ''asc''))])"

definition search_fields :: "session \<Rightarrow> (string \<times> jsval) list" where
  "search_fields s =
     (let term = search_term s in
      if term = [] then []
      else (''search'', VStr term) #
        (if s_gridSearchCol s \<noteq> [] then [(''search_column'', VStr (s_gridSearchCol s))]
         else (case s_tableSnapshot s of
             None \<Rightarrow> []
           | Some sn \<Rightarrow> if sn_columns sn = [] then [] else [(''search_columns'', VArr (map VStr (sn_columns sn)))])))"

definition rows_body :: "session \<Rightarrow> table_ref \<Rightarrow> int \<Rightarrow> jsval" where
  "rows_body s t page = VObj
     ([(''conn'', VStr (s_connId s)), (''database'', VStr (t_database t)), (''schema'', VStr (t_schema t)),
       (''table'', VStr (t_table t)), (''page'', VNum (NInt page)), (''page_size'', VNum (NInt (pageSizeFor s)))] @
      order_fields s @ search_fields s @ [(''want_total'', VBool (reuseTotal s t = None))])"

section \<open>Loading\<close>

record pending =
  pd_body :: jsval
  pd_key :: string
  pd_reuse :: "int option"

definition load_start :: "session \<Rightarrow> int \<Rightarrow> pending option" where
  "load_start s page = map_option (\<lambda>t.
     \<lparr> pd_body = rows_body s t page, pd_key = totalKey s t, pd_reuse = reuseTotal s t \<rparr>) (s_activeTable s)"

text \<open>The helper's \<open>result\<close>; \<open>None\<close> stands for a missing one.\<close>

definition store_snapshot :: "pending \<Rightarrow> snapshot option \<Rightarrow> int \<Rightarrow> session \<Rightarrow> session" where
  "store_snapshot p result elapsed s = (case result of
       None \<Rightarrow> s\<lparr>s_tableSnapshot := None\<rparr>
     | Some r \<Rightarrow>
        (let r1 = r\<lparr>sn_elapsed_ms := elapsed\<rparr> in
         case pd_reuse p of
           Some n \<Rightarrow> s\<lparr>s_tableSnapshot := Some (r1\<lparr>sn_total := Some n, sn_total_estimated := s_totalEstimated s\<rparr>),
                       s_totalKey := Some (pd_key p)\<rparr>
         | None \<Rightarrow> s\<lparr>s_tableSnapshot := Some r1, s_total := sn_total r, s_totalEstimated := sn_total_estimated r,
                     s_totalKey := Some (pd_key p)\<rparr>))"

definition learn_columns :: "snapshot option \<Rightarrow> table_ref \<Rightarrow> session \<Rightarrow> session" where
  "learn_columns result t s = (case result of
       None \<Rightarrow> s
     | Some r \<Rightarrow> if sn_columns r = [] then s else
        (let key = table_key (t_database t) (t_schema t) (t_table t);
             kind = (case omap_get (s_schemaCache s) key of Some e \<Rightarrow> e_kind e | None \<Rightarrow> ''table'')
         in s\<lparr>s_schemaCache := omap_set (s_schemaCache s) key
              \<lparr>e_database = t_database t, e_schema = t_schema t, e_table = t_table t, e_kind = kind,
               e_columns = sn_columns r\<rparr>\<rparr>))"

text \<open>
  Finishing a load. When the table was closed meanwhile, reading it throws and the error
  is shown; the snapshot has been stored by then. \<open>columns\<close> is the helper's answer for
  column metadata, \<open>None\<close> when that request fails.
\<close>

definition load_finish ::
  "conn list \<Rightarrow> (string \<Rightarrow> col_info list) option \<Rightarrow> pending \<Rightarrow> string + snapshot option \<Rightarrow> int \<Rightarrow> session \<Rightarrow>
     string option \<times> session" where
  "load_finish cs columns p answer elapsed s = (case answer of
       Inl e \<Rightarrow> (Some (''Failed to load table: '' @ e), s)
     | Inr result \<Rightarrow>
        (let s1 = store_snapshot p result elapsed s in
         case s_activeTable s1 of
           None \<Rightarrow> (Some (''Failed to load table: '' @ null_read
               (case result of Some r \<Rightarrow> if sn_columns r \<noteq> [] then ''database'' else ''schema'' | None \<Rightarrow> ''schema'')), s1)
         | Some t \<Rightarrow>
            (let s2 = learn_columns result t s1;
                 s3 = setActionSql (Some (buildSelectSql cs s2 t)) s2;
                 s4 = (case columns of None \<Rightarrow> s3 | Some fetch \<Rightarrow> snd (ensurePkColumns fetch s3 t))
             in (None, s4))))"

text \<open>\<open>openTable\<close> up to its load.\<close>

definition openTable :: "conn list \<Rightarrow> table_ref \<Rightarrow> session \<Rightarrow> session \<times> pending option" where
  "openTable cs t s =
     (let s1 = invalidateRowCount (s\<lparr>s_activeTable := Some t, s_currentDatabase := Some (t_database t),
                 s_currentSchema := Some (t_schema t), s_tableSnapshot := None, s_orderBy := None,
                 s_orderDir := ''asc'', s_gridSearch := [], s_gridSearchCol := []\<rparr>);
          s2 = s1\<lparr>s_actionSql := Some (buildSelectSql cs s1 t)\<rparr>
      in (s2, load_start s2 0))"

section \<open>The debounced search\<close>

text \<open>The live timer of a connection, with the moment it is due.\<close>

type_synonym timers = "(string, int) omap"

definition scheduleGridSearch :: "int \<Rightarrow> session \<Rightarrow> timers \<Rightarrow> timers" where
  "scheduleGridSearch now s ts = omap_set ts (s_connId s) (now + 240)"

text \<open>At a moment, the timer of a connection fires when it is due: it is removed and page 0 loaded.\<close>

definition search_due :: "int \<Rightarrow> session \<Rightarrow> timers \<Rightarrow> timers \<times> pending option" where
  "search_due now s ts = (case omap_get ts (s_connId s) of
       Some d \<Rightarrow> if now \<ge> d then (omap_delete ts (s_connId s), load_start s 0) else (ts, None)
     | None \<Rightarrow> (ts, None))"

section \<open>The table grid\<close>

definition header_click :: "string \<Rightarrow> session \<Rightarrow> session \<times> pending option" where
  "header_click col s =
     (let s1 = (if s_orderBy s = Some col
                then (if s_orderDir s = ''asc'' then s\<lparr>s_orderDir := ''desc''\<rparr>
                      else s\<lparr>s_orderBy := None, s_orderDir := ''asc''\<rparr>)
                else s\<lparr>s_orderBy := Some col, s_orderDir := ''asc''\<rparr>)
      in (s1, load_start s1 0))"

definition choose_column :: "string \<Rightarrow> session \<Rightarrow> session \<times> pending option" where
  "choose_column col s = (let s1 = s\<lparr>s_gridSearchCol := col\<rparr> in (s1, load_start s1 0))"

definition choose_page_size :: "int \<Rightarrow> session \<Rightarrow> session \<times> pending option" where
  "choose_page_size n s =
     (if n = pageSizeFor s then (s, None)
      else let s1 = s\<lparr>s_pageSize := Some n\<rparr> in (s1, load_start s1 0))"

definition close_table :: "session \<Rightarrow> session" where
  "close_table s = s\<lparr>s_activeTable := None, s_tableSnapshot := None\<rparr>"

datatype arrow_mark = NoMark | MarkUp | MarkDown

record table_header =
  th_class :: string
  th_title :: string
  th_pk :: bool
  th_name :: string
  th_arrow :: arrow_mark
  th_type :: string

record table_view =
  tv_label :: string
  tv_rows :: string
  tv_elapsed :: string
  tv_can_insert :: bool
  tv_headers :: "table_header list"
  tv_cells :: "(cell_view \<times> string \<times> bool) list list"
  tv_can_delete :: bool

definition header_view :: "session \<Rightarrow> string \<Rightarrow> table_header" where
  "header_view s col =
     (let isSorted = (s_orderBy s = Some col);
          dir = (if s_orderDir s = ''desc'' then ''desc'' else ''asc'');
          meta = omap_get (omap_of (map (\<lambda>c. (ci_name c, c)) (case s_pkCache s of Some c \<Rightarrow> pk_columns c | None \<Rightarrow> []))) col
      in \<lparr> th_class = ''tsql-grid-th tedi-glass-solid'' @ (if isSorted then '' is-sort-'' @ dir else []),
           th_title = columnHeaderTooltip col meta,
           th_pk = (case meta of Some c \<Rightarrow> ci_is_primary c | None \<Rightarrow> False),
           th_name = col,
           th_arrow = (if isSorted then (if dir = ''asc'' then MarkUp else MarkDown) else NoMark),
           th_type = shortTypeLabel meta \<rparr>)"

text \<open>\<open>None\<close> is the loading message. \<open>fmt\<close> is the locale's integer format.\<close>

definition renderTableGrid :: "(int \<Rightarrow> string) \<Rightarrow> conn list \<Rightarrow> session \<Rightarrow> table_ref \<Rightarrow> table_view option" where
  "renderTableGrid fmt cs s t =
     (let ro = isReadOnly cs (s_connId s) in
      case s_tableSnapshot s of
        None \<Rightarrow> None
      | Some sn \<Rightarrow> Some
         \<lparr> tv_label = (if t_database t = t_schema t then t_table t else t_schema t @ ''.'' @ t_table t),
           tv_rows = (case sn_total sn of
               Some n \<Rightarrow> (if sn_total_estimated sn then ''~'' else []) @ fmt n @ '' rows''
             | None \<Rightarrow> fmt (int (length (sn_rows sn))) @ '' rows''),
           tv_elapsed = '' '' @ [CHR 0xB7] @ '' '' @ int_to_string (sn_elapsed_ms sn) @ '' ms'',
           tv_can_insert = (\<not> ro),
           tv_headers = map (header_view s) (sn_columns sn),
           tv_cells = map (map (\<lambda>v. (renderCellContent v, cellTooltip v, \<not> ro))) (sn_rows sn),
           tv_can_delete = (\<not> ro) \<rparr>)"

record pager =
  pg_prev :: bool
  pg_next :: bool
  pg_label :: string

text \<open>\<open>Math.ceil(a / b)\<close> for a positive \<open>b\<close>.\<close>

definition ceil_div :: "int \<Rightarrow> int \<Rightarrow> int" where
  "ceil_div a b = - ((- a) div b)"

definition last_page :: "snapshot \<Rightarrow> int option" where
  "last_page sn = (if sn_total_estimated sn then None
     else map_option (\<lambda>n. max 0 (ceil_div n (sn_page_size sn) - 1)) (sn_total sn))"

definition renderPager :: "snapshot \<Rightarrow> pager" where
  "renderPager sn =
     \<lparr> pg_prev = (sn_page sn > 0),
       pg_next = (case last_page sn of
           None \<Rightarrow> int (length (sn_rows sn)) = sn_page_size sn
         | Some l \<Rightarrow> sn_page sn < l),
       pg_label = ''Page '' @ int_to_string (sn_page sn + 1) @
         (case last_page sn of None \<Rightarrow> [] | Some l \<Rightarrow> '' / '' @ int_to_string (l + 1)) \<rparr>"

definition pager_prev :: "session \<Rightarrow> snapshot \<Rightarrow> pending option" where
  "pager_prev s sn = (if pg_prev (renderPager sn) then load_start s (sn_page sn - 1) else None)"

definition pager_next :: "session \<Rightarrow> snapshot \<Rightarrow> pending option" where
  "pager_next s sn = (if pg_next (renderPager sn) then load_start s (sn_page sn + 1) else None)"

section \<open>Properties\<close>

lemma le_div_iff: "b > 0 \<Longrightarrow> k \<le> a div b \<longleftrightarrow> k * b \<le> (a::int)"
proof
  assume b: "b > 0" and "k \<le> a div b"
  then have "k * b \<le> a div b * b" by (simp add: mult_right_mono)
  also have "\<dots> \<le> a" using b div_mult_mod_eq [of a b] pos_mod_sign [OF b, of a] by linarith
  finally show "k * b \<le> a" .
next
  assume b: "b > 0" and le: "k * b \<le> a"
  show "k \<le> a div b"
  proof (rule ccontr)
    assume "\<not> k \<le> a div b"
    then have "(a div b + 1) * b \<le> k * b" using b by (intro mult_right_mono) auto
    moreover have "a < (a div b + 1) * b"
      unfolding distrib_right using div_mult_mod_eq [of a b] pos_mod_bound [OF b, of a] by linarith
    ultimately show False using le by linarith
  qed
qed

lemma ceil_div_less: "b > 0 \<Longrightarrow> k < ceil_div a b \<longleftrightarrow> k * b < (a::int)"
proof -
  assume b: "b > 0"
  have "k < ceil_div a b \<longleftrightarrow> \<not> (- k \<le> (- a) div b)" by (auto simp: ceil_div_def)
  also have "\<dots> \<longleftrightarrow> k * b < a" unfolding le_div_iff [OF b] by linarith
  finally show ?thesis .
qed

text \<open>
  C40: with an exact count the pager offers the next page exactly when there are rows
  beyond the current one, and the previous page exactly when it is not the first.
\<close>

theorem renderPager_exact:
  assumes "sn_total sn = Some n" "\<not> sn_total_estimated sn" "sn_page_size sn > 0" "sn_page sn \<ge> 0"
  shows "(pg_next (renderPager sn) \<longleftrightarrow> (sn_page sn + 1) * sn_page_size sn < n) \<and>
    (pg_prev (renderPager sn) \<longleftrightarrow> sn_page sn \<noteq> 0)"
proof -
  have "sn_page sn < max 0 (ceil_div n (sn_page_size sn) - 1) \<longleftrightarrow> sn_page sn + 1 < ceil_div n (sn_page_size sn)"
    using assms(4) by linarith
  with ceil_div_less [OF assms(3), of "sn_page sn + 1" n] assms show ?thesis
    by (auto simp: renderPager_def last_page_def)
qed

definition demo_snapshot :: "int \<Rightarrow> snapshot" where
  "demo_snapshot page = \<lparr>sn_columns = [''id''], sn_rows = [[VNum (NInt 1)]], sn_page = page, sn_page_size = 10,
     sn_total = Some 21, sn_total_estimated = False, sn_elapsed_ms = 0\<rparr>"

lemma renderPager_exact_witness:
  "pg_next (renderPager (demo_snapshot 1)) \<and> \<not> pg_next (renderPager (demo_snapshot 2))"
  using renderPager_exact [of "demo_snapshot 1" 21] renderPager_exact [of "demo_snapshot 2" 21]
  by (simp add: demo_snapshot_def)

lemma store_snapshot_fields [simp]:
  "s_activeTable (store_snapshot p r e s) = s_activeTable s" "s_connId (store_snapshot p r e s) = s_connId s"
  "s_gridSearch (store_snapshot p r e s) = s_gridSearch s" "s_gridSearchCol (store_snapshot p r e s) = s_gridSearchCol s"
  "s_schemaCache (store_snapshot p r e s) = s_schemaCache s"
  by (auto simp: store_snapshot_def Let_def split: option.splits)

lemma learn_columns_fields [simp]:
  "s_activeTable (learn_columns r t s) = s_activeTable s" "s_connId (learn_columns r t s) = s_connId s"
  "s_gridSearch (learn_columns r t s) = s_gridSearch s" "s_gridSearchCol (learn_columns r t s) = s_gridSearchCol s"
  "s_tableSnapshot (learn_columns r t s) = s_tableSnapshot s" "s_total (learn_columns r t s) = s_total s"
  "s_totalKey (learn_columns r t s) = s_totalKey s" "s_totalEstimated (learn_columns r t s) = s_totalEstimated s"
  by (auto simp: learn_columns_def Let_def split: option.splits)

lemma setActionSql_fields [simp]:
  "s_activeTable (setActionSql q s) = s_activeTable s" "s_connId (setActionSql q s) = s_connId s"
  "s_gridSearch (setActionSql q s) = s_gridSearch s" "s_gridSearchCol (setActionSql q s) = s_gridSearchCol s"
  "s_tableSnapshot (setActionSql q s) = s_tableSnapshot s" "s_total (setActionSql q s) = s_total s"
  "s_totalKey (setActionSql q s) = s_totalKey s" "s_totalEstimated (setActionSql q s) = s_totalEstimated s"
  "s_schemaCache (setActionSql q s) = s_schemaCache s"
  by (simp_all add: setActionSql_def)

lemma ensurePk_fields [simp]:
  "s_activeTable (snd (ensurePkColumns f s t)) = s_activeTable s" "s_connId (snd (ensurePkColumns f s t)) = s_connId s"
  "s_gridSearch (snd (ensurePkColumns f s t)) = s_gridSearch s" "s_gridSearchCol (snd (ensurePkColumns f s t)) = s_gridSearchCol s"
  "s_tableSnapshot (snd (ensurePkColumns f s t)) = s_tableSnapshot s" "s_total (snd (ensurePkColumns f s t)) = s_total s"
  "s_totalKey (snd (ensurePkColumns f s t)) = s_totalKey s" "s_totalEstimated (snd (ensurePkColumns f s t)) = s_totalEstimated s"
  "s_schemaCache (snd (ensurePkColumns f s t)) = s_schemaCache s"
  by (auto simp: ensurePkColumns_def Let_def split: option.splits)

text \<open>A load with an answer, on the session as the request left it.\<close>

definition load_page ::
  "conn list \<Rightarrow> (string \<Rightarrow> col_info list) option \<Rightarrow> int \<Rightarrow> snapshot \<Rightarrow> int \<Rightarrow> session \<Rightarrow> session" where
  "load_page cs columns page answer elapsed s = (case load_start s page of
       None \<Rightarrow> s | Some p \<Rightarrow> snd (load_finish cs columns p (Inr (Some answer)) elapsed s))"

lemma load_page_fields:
  assumes t: "s_activeTable s = Some t"
  shows "s_activeTable (load_page cs columns page r e s) = Some t \<and>
    totalKey (load_page cs columns page r e s) t = totalKey s t \<and>
    s_totalKey (load_page cs columns page r e s) = Some (totalKey s t) \<and>
    s_total (load_page cs columns page r e s) = (case reuseTotal s t of Some n \<Rightarrow> Some n | None \<Rightarrow> sn_total r) \<and>
    map_option sn_total (s_tableSnapshot (load_page cs columns page r e s)) =
      Some (case reuseTotal s t of Some n \<Rightarrow> Some n | None \<Rightarrow> sn_total r)"
proof -
  let ?p = "\<lparr> pd_body = rows_body s t page, pd_key = totalKey s t, pd_reuse = reuseTotal s t \<rparr>"
  let ?s1 = "store_snapshot ?p (Some r) e s"
  have r: "reuseTotal s t = Some n \<Longrightarrow> s_total s = Some n" for n
    by (auto simp: reuseTotal_def split: if_splits)
  have s1: "s_totalKey ?s1 = Some (totalKey s t)"
    "s_total ?s1 = (case reuseTotal s t of Some n \<Rightarrow> Some n | None \<Rightarrow> sn_total r)"
    "map_option sn_total (s_tableSnapshot ?s1) = Some (case reuseTotal s t of Some n \<Rightarrow> Some n | None \<Rightarrow> sn_total r)"
    using r by (auto simp: store_snapshot_def Let_def split: option.splits)
  have key: "totalKey x t = totalKey s t"
    if "s_gridSearch x = s_gridSearch s" "s_gridSearchCol x = s_gridSearchCol s" for x
    using that by (simp add: totalKey_def search_term_def)
  let ?s3 = "setActionSql (Some (buildSelectSql cs (learn_columns (Some r) t ?s1) t)) (learn_columns (Some r) t ?s1)"
  define final where "final = load_page cs columns page r e s"
  have f: "final = (case columns of None \<Rightarrow> ?s3 | Some fetch \<Rightarrow> snd (ensurePkColumns fetch ?s3 t))"
    using t by (simp add: final_def load_page_def load_start_def load_finish_def Let_def)
  have fields: "s_activeTable final = Some t" "s_gridSearch final = s_gridSearch s"
    "s_gridSearchCol final = s_gridSearchCol s" "s_totalKey final = s_totalKey ?s1" "s_total final = s_total ?s1"
    "s_tableSnapshot final = s_tableSnapshot ?s1"
    unfolding f using t by (cases columns; simp)+
  show ?thesis
    using fields s1 key [OF fields(2,3)] unfolding final_def [symmetric] by simp
qed

definition want_total :: "session \<Rightarrow> bool" where
  "want_total s = (case load_start s 0 of None \<Rightarrow> False | Some p \<Rightarrow> jget (pd_body p) ''want_total'' = VBool True)"

lemma omap_get_append: "omap_get (a @ b) k = (case omap_get a k of Some v \<Rightarrow> Some v | None \<Rightarrow> omap_get b k)"
  by (induction a) auto

lemma want_total_iff: "s_activeTable s = Some t \<Longrightarrow> want_total s \<longleftrightarrow> reuseTotal s t = None"
  by (auto simp: want_total_def load_start_def rows_body_def order_fields_def search_fields_def Let_def
      omap_get_append split: option.splits)

text \<open>
  A table is counted once. After a load that brought a count, further pages are
  requested without one and show the remembered number, whatever the helper then
  answers; a load after an insert or a delete (which forget the count), or one whose
  count failed, asks again.
\<close>

theorem row_count_is_reused:
  assumes "s_activeTable s = Some t" "want_total s" "sn_total r = Some n"
  shows "\<not> want_total (load_page cs columns page r e s) \<and>
    map_option sn_total (s_tableSnapshot (load_page cs columns q r' e' (load_page cs columns page r e s))) = Some (Some n) \<and>
    want_total (invalidateRowCount (load_page cs columns page r e s)) \<and>
    want_total (load_page cs columns page (r\<lparr>sn_total := None\<rparr>) e s)"
proof -
  have fresh: "reuseTotal s t = None" using assms(1,2) by (simp add: want_total_iff)
  let ?s = "load_page cs columns page r e s" and ?f = "load_page cs columns page (r\<lparr>sn_total := None\<rparr>) e s"
  note one = load_page_fields [OF assms(1), of cs columns page r e] and
    failed = load_page_fields [OF assms(1), of cs columns page "r\<lparr>sn_total := None\<rparr>" e]
  have "reuseTotal ?s t = Some n" using one fresh assms(3) by (simp add: reuseTotal_def)
  moreover from this load_page_fields [of ?s t cs columns q r' e'] one
  have "map_option sn_total (s_tableSnapshot (load_page cs columns q r' e' ?s)) = Some (Some n)" by simp
  moreover have "reuseTotal (invalidateRowCount ?s) t = None" "s_activeTable (invalidateRowCount ?s) = Some t"
    using one by (simp_all add: reuseTotal_def invalidateRowCount_def)
  moreover have "reuseTotal ?f t = None" using failed fresh by (simp add: reuseTotal_def)
  ultimately show ?thesis
    using one failed by (simp add: want_total_iff)
qed

definition demo_table :: "string \<Rightarrow> table_ref" where
  "demo_table n = \<lparr>t_database = ''app'', t_schema = ''app'', t_table = n, t_kind = ''table''\<rparr>"

lemma row_count_is_reused_witness:
  "\<not> want_total (load_page [] None 0 (demo_snapshot 0) 0 (fst (openTable [] (demo_table ''users'') (new_session ''c''))))"
proof -
  let ?s = "fst (openTable [] (demo_table ''users'') (new_session ''c''))"
  have t: "s_activeTable ?s = Some (demo_table ''users'')"
    by (simp add: openTable_def invalidateRowCount_def Let_def)
  moreover have "want_total ?s"
    using t by (simp add: want_total_iff reuseTotal_def openTable_def invalidateRowCount_def Let_def)
  ultimately show ?thesis
    using row_count_is_reused [of ?s "demo_table ''users''" "demo_snapshot 0" 21 "[]" None 0 0] by (simp add: demo_snapshot_def)
qed

text \<open>
  answers are not matched to the table that is open. When a second table is opened
  while the first one's rows are still on their way, the late answer is stored as the
  second table's snapshot, and its columns are entered in the completion cache under the
  second table's name.
\<close>

theorem late_answer_shown_under_other_table:
  "let (s1, p1) = openTable cs (demo_table ''orders'') s;
       (s2, p2) = openTable cs (demo_table ''users'') s1;
       s3 = snd (load_finish cs None (the p1) (Inr (Some (demo_snapshot 0))) e s2)
   in p1 \<noteq> None \<and> s_activeTable s3 = Some (demo_table ''users'') \<and>
      map_option sn_rows (s_tableSnapshot s3) = Some (sn_rows (demo_snapshot 0)) \<and>
      map_option e_columns (omap_get (s_schemaCache s3) ''app.app.users'') = Some [''id'']"
proof -
  let ?s1 = "fst (openTable cs (demo_table ''orders'') s)" and ?p1 = "the (snd (openTable cs (demo_table ''orders'') s))"
  let ?s2 = "fst (openTable cs (demo_table ''users'') ?s1)"
  have a: "s_activeTable ?s2 = Some (demo_table ''users'')" for s
    by (simp add: openTable_def invalidateRowCount_def Let_def)
  have p: "snd (openTable cs (demo_table ''orders'') s) \<noteq> None"
    by (simp add: openTable_def load_start_def invalidateRowCount_def Let_def)
  have key: "table_key (t_database (demo_table ''users'')) (t_schema (demo_table ''users'')) (t_table (demo_table ''users'')) = ''app.app.users''"
    by (simp add: demo_table_def table_key_def)
  let ?s3 = "snd (load_finish cs None ?p1 (Inr (Some (demo_snapshot 0))) e ?s2)"
  have "?s3 = setActionSql (Some (buildSelectSql cs (learn_columns (Some (demo_snapshot 0)) (demo_table ''users'')
        (store_snapshot ?p1 (Some (demo_snapshot 0)) e ?s2)) (demo_table ''users'')))
      (learn_columns (Some (demo_snapshot 0)) (demo_table ''users'') (store_snapshot ?p1 (Some (demo_snapshot 0)) e ?s2))"
    using a by (simp add: load_finish_def Let_def)
  moreover have "map_option sn_rows (s_tableSnapshot (store_snapshot ?p1 (Some (demo_snapshot 0)) e ?s2)) = Some (sn_rows (demo_snapshot 0))"
    by (simp add: store_snapshot_def Let_def split: option.splits)
  ultimately show ?thesis
    using a p key by (auto simp: case_prod_beta Let_def learn_columns_def demo_snapshot_def omap_get_set)
qed

end
