(* ===== verification/QueryRun.thy ===== *)
theory QueryRun
  imports Host SqlText SqlCheck Cells
begin

text \<open>
  \<open>src/src/query/run.js\<close> and \<open>src/src/query/results.js\<close>: running, explaining, cancelling
  and ending transactions, and the tabs of a result. A run is two steps around the awaited
  request: \<open>run_start\<close> with the answers it needs before (the selection, the confirmation,
  the helper's start), \<open>run_finish\<close> with the helper's answer, on the session as it is then.
\<close>

definition activeSql :: "string option \<Rightarrow> session \<Rightarrow> string" where
  "activeSql selection s =
     (let selected = js_trim (case selection of Some t \<Rightarrow> t | None \<Rightarrow> [])
      in if selected \<noteq> [] then selected else s_sql s)"

definition re_more_statements :: re where
  "re_more_statements = rseq [rchar (CHR '';''), rstar rspace, RCls (\<lambda>c. \<not> is_space_c c)]"

definition hasMultipleStatements :: "string \<Rightarrow> bool" where
  "hasMultipleStatements sql = re_test re_more_statements (js_trim sql)"

definition re_last_semicolon :: re where
  "re_last_semicolon = rseq [rchar (CHR '';''), rstar rspace, REol]"

definition explain_sql :: "conn list \<Rightarrow> string \<Rightarrow> string \<Rightarrow> string" where
  "explain_sql cs connId sql =
     d_explainPrefix (getDialect (sqlConnKind cs connId)) @ re_replace1 re_last_semicolon [] sql"

record run_env =
  rn_explain :: bool
  rn_selection :: "string option"
  rn_confirm :: bool
  rn_sidecar :: "string + unit"
  rn_request :: string

text \<open>A run in flight: what was sent, and whether it was an Explain.\<close>

record running =
  rr_conn :: string
  rr_sql :: string
  rr_explain :: bool
  rr_request :: string

definition opt_field_json :: "string \<Rightarrow> string option \<Rightarrow> (string \<times> jsval) list" where
  "opt_field_json k v = (case v of None \<Rightarrow> [] | Some s \<Rightarrow> [(k, VStr s)])"

definition query_body :: "session \<Rightarrow> string \<Rightarrow> string option \<Rightarrow> jsval" where
  "query_body s sql requestId = VObj
     ([(''conn'', VStr (s_connId s)), (''sql'', VStr sql)] @ opt_field_json ''request_id'' requestId @
      opt_field_json ''database'' (s_currentDatabase s) @ opt_field_json ''schema'' (s_currentSchema s) @
      [(''session'', VBool True)])"

definition run_send :: "run_env \<Rightarrow> string \<Rightarrow> string \<Rightarrow> world \<Rightarrow> running option \<times> world" where
  "run_send env i sql w = (case rn_sidecar env of
       Inl e \<Rightarrow> (None, w)
     | Inr _ \<Rightarrow>
        (let w1 = upd_app (update_session i (\<lambda>s. s\<lparr>s_requestId := Some (rn_request env), s_activeTable := None,
                      s_result := None, s_actionSql := (if rn_explain env then Some sql else None)\<rparr>)) w;
             s1 = session_of (wd_app w1) i
         in (Some \<lparr>rr_conn = i, rr_sql = sql, rr_explain = rn_explain env, rr_request = rn_request env\<rparr>,
             emit (Fetch ''/query'' ''POST'' (query_body s1 sql (Some (rn_request env)))) w1)))"

text \<open>\<open>runActiveQuery\<close> up to its request.\<close>

definition run_start :: "run_env \<Rightarrow> world \<Rightarrow> running option \<times> world" where
  "run_start env w = (case a_active (wd_app w) of
       None \<Rightarrow> (None, w)
     | Some i \<Rightarrow>
        if i = [] then (None, w) else
        (let w0 = upd_app (ensureSession i) w;
             s = session_of (wd_app w0) i;
             sql = js_trim (activeSql (rn_selection env) s)
         in if sql = [] then (None, w0)
            else if rn_explain env then
              (if hasMultipleStatements sql
               then (None, emit (Toast ''Select a single statement to explain.'' ''warning'') w0)
               else run_send env i (explain_sql (a_connections (wd_app w0)) (s_connId s) sql) w0)
            else (case destructiveReason sql of
                None \<Rightarrow> run_send env i sql w0
              | Some reason \<Rightarrow>
                  (let w1 = emit (Confirm ''Run this statement?'' reason (Some sql)) w0
                   in if rn_confirm env then run_send env i sql w1 else (None, w1)))))"

text \<open>The helper's answer to a query.\<close>

record query_answer =
  qa_statements :: "stmt_result list"
  qa_in_transaction :: bool
  qa_notice :: string

definition applySessionState :: "string \<Rightarrow> query_answer \<Rightarrow> world \<Rightarrow> world" where
  "applySessionState i r w =
     (let w1 = upd_app (update_session i (\<lambda>s. s\<lparr>s_inTransaction := qa_in_transaction r\<rparr>)) w
      in if qa_notice r \<noteq> [] then emit (Toast (qa_notice r) ''warning'') w1 else w1)"

definition run_finish :: "running \<Rightarrow> string + query_answer \<Rightarrow> int \<Rightarrow> world \<Rightarrow> world" where
  "run_finish r answer now w =
     (let i = rr_conn r;
          w1 = (case answer of
              Inr a \<Rightarrow>
                (let w2 = applySessionState i a
                       (upd_app (update_session i (\<lambda>s. s\<lparr>s_result := Some (qa_statements a)\<rparr>)) w)
                 in if rr_explain r then w2 else w2\<lparr>wd_hist := record_sql now i (rr_sql r) (wd_hist w2)\<rparr>)
            | Inl e \<Rightarrow> upd_app (update_session i (\<lambda>s. s\<lparr>s_result := Some [SError (rr_sql r) e 0]\<rparr>)) w)
      in upd_app (update_session i (\<lambda>s. s\<lparr>s_requestId := None\<rparr>)) w1)"

definition is_error_stmt :: "stmt_result \<Rightarrow> bool" where
  "is_error_stmt st = (case st of SError _ _ _ \<Rightarrow> True | _ \<Rightarrow> False)"

definition error_of :: "stmt_result \<Rightarrow> string" where
  "error_of st = (case st of SError _ e _ \<Rightarrow> e | _ \<Rightarrow> [])"

definition endTransaction :: "string \<Rightarrow> string + query_answer \<Rightarrow> world \<Rightarrow> world" where
  "endTransaction action answer w =
     (case Option.bind (a_active (wd_app w)) (omap_get (a_sessions (wd_app w))) of
        None \<Rightarrow> w
      | Some s \<Rightarrow>
         (let i = s_connId s;
              w1 = emit (Fetch ''/query'' ''POST'' (query_body s action None)) w
          in case answer of
               Inl e \<Rightarrow> emit (Toast (action @ '' failed: '' @ e) ''error'') w1
             | Inr a \<Rightarrow>
                (let w2 = applySessionState i a w1
                 in case find_first is_error_stmt (qa_statements a) of
                      Some st \<Rightarrow> emit (Toast (action @ '' failed: '' @ error_of st) ''error'') w2
                    | None \<Rightarrow> emit (Toast (if action = ''COMMIT'' then ''Transaction committed''
                                else ''Transaction rolled back'') ''success'') w2)))"

text \<open>The answer of \<open>/cancel\<close>: cancelled by the helper, and by the server too.\<close>

definition cancelActiveQuery :: "string + bool \<times> bool \<Rightarrow> world \<Rightarrow> world" where
  "cancelActiveQuery answer w =
     (case Option.bind (a_active (wd_app w)) (omap_get (a_sessions (wd_app w))) of
        None \<Rightarrow> w
      | Some s \<Rightarrow> (case s_requestId s of
          None \<Rightarrow> w
        | Some rid \<Rightarrow>
            if rid = [] then w else
            (let w1 = emit (Fetch ''/cancel'' ''POST'' (VObj [(''request_id'', VStr rid)])) w
             in case answer of
                  Inl e \<Rightarrow> emit (Toast (''Cancel failed: '' @ e) ''error'') w1
                | Inr (canceled, server_canceled) \<Rightarrow>
                    if canceled \<and> \<not> server_canceled
                    then emit (Toast ''Stopped waiting, but the server may still be running the statement.'' ''warning'') w1
                    else w1)))"

section \<open>Results\<close>

definition dot_ms :: "int \<Rightarrow> string" where
  "dot_ms ms = '' '' @ [CHR 0xB7] @ '' '' @ int_to_string ms @ '' ms''"

definition tabLabel :: "stmt_result \<Rightarrow> string" where
  "tabLabel st = (case st of
       SRows _ _ rows _ _ ms \<Rightarrow> nat_to_string (length rows) @ '' rows'' @ dot_ms ms
     | SExec _ n ms \<Rightarrow> int_to_string n @ '' affected'' @ dot_ms ms
     | SError _ _ ms \<Rightarrow> ''error'' @ dot_ms ms)"

text \<open>What is shown of a statement: a grid, a line with the statement, or an error with it.\<close>

datatype detail =
    DGrid string "string list" "jsval list list" bool bool int
  | DExec string string
  | DError string string string

definition renderStatementDetail :: "stmt_result \<Rightarrow> detail" where
  "renderStatementDetail st = (case st of
       SRows sql cols rows truncated bySize ms \<Rightarrow> DGrid sql cols rows truncated bySize ms
     | SExec sql n ms \<Rightarrow> DExec (int_to_string n @ '' affected'' @ dot_ms ms) sql
     | SError sql e ms \<Rightarrow> DError (''Error'' @ dot_ms ms) e sql)"

record result_view =
  rv_tabs :: "(string \<times> bool) list"
  rv_detail :: detail

text \<open>\<open>None\<close> is the message that no statement ran; \<open>tab\<close> is the tab clicked last.\<close>

definition renderQueryResult :: "session \<Rightarrow> nat \<Rightarrow> result_view option" where
  "renderQueryResult s tab = (case s_result s of
       None \<Rightarrow> None
     | Some [] \<Rightarrow> None
     | Some (st # sts) \<Rightarrow>
        (let all = st # sts in Some
          \<lparr> rv_tabs = (if sts = [] then [] else map (\<lambda>(k, x). (tabLabel x, k = tab)) (enumerate 0 all)),
            rv_detail = renderStatementDetail (case nth_opt all tab of Some x \<Rightarrow> x | None \<Rightarrow> st) \<rparr>))"

section \<open>Properties\<close>

definition query_texts :: "effect list \<Rightarrow> jsval list" where
  "query_texts tr = map (\<lambda>(p, b). jget b ''sql'') (filter (\<lambda>(p, b). p = ''/query'') (requests tr))"

lemma query_texts_append [simp]: "query_texts (a @ b) = query_texts a @ query_texts b"
  by (simp add: query_texts_def)

lemma query_body_sql [simp]: "jget (query_body s sql r) ''sql'' = VStr sql"
  by (simp add: query_body_def)

lemma update_session_frame [simp]:
  "a_connections (update_session i f a) = a_connections a" "a_active (update_session i f a) = a_active a"
  by (simp_all add: update_session_def)

lemma ensureSession_frame [simp]:
  "a_connections (ensureSession i a) = a_connections a" "a_active (ensureSession i a) = a_active a"
  by (simp_all add: ensureSession_def)

lemma run_send_sends:
  "query_texts (wd_trace (snd (run_send env i sql w))) =
     query_texts (wd_trace w) @ (if fst (run_send env i sql w) = None then [] else [VStr sql])"
  by (auto simp: run_send_def Let_def query_texts_def split: sum.splits)

text \<open>
  C5: a Run sends at most one statement, exactly the selected (or whole) text, and a
  statement with a destructive reason only after the confirmation that shows that
  reason: declined, nothing is sent.
\<close>

theorem run_confirms_destructive:
  assumes "a_active (wd_app w) = Some i" "i \<noteq> []" "\<not> rn_explain env"
    and sql: "sql = js_trim (activeSql (rn_selection env) (session_of (ensureSession i (wd_app w)) i))"
  shows "query_texts (wd_trace (snd (run_start env w))) = query_texts (wd_trace w) @
      (if sql = [] \<or> rn_sidecar env \<noteq> Inr () \<or> (destructiveReason sql \<noteq> None \<and> \<not> rn_confirm env)
       then [] else [VStr sql]) \<and>
    (case destructiveReason sql of None \<Rightarrow> True | Some reason \<Rightarrow>
       sql = [] \<or> take 1 (drop (length (wd_trace w)) (wd_trace (snd (run_start env w)))) =
         [Confirm ''Run this statement?'' reason (Some sql)])"
proof -
  let ?w0 = "upd_app (ensureSession i) w"
  have start: "run_start env w = (if sql = [] then (None, ?w0) else
      (case destructiveReason sql of
         None \<Rightarrow> run_send env i sql ?w0
       | Some reason \<Rightarrow>
           if rn_confirm env then run_send env i sql (emit (Confirm ''Run this statement?'' reason (Some sql)) ?w0)
           else (None, emit (Confirm ''Run this statement?'' reason (Some sql)) ?w0)))"
    using assms by (simp add: run_start_def Let_def split: option.splits)
  have send: "query_texts (wd_trace (snd (run_send env i sql x))) =
      query_texts (wd_trace x) @ (if rn_sidecar env \<noteq> Inr () then [] else [VStr sql])" for x
    using run_send_sends [of env i sql x] by (auto simp: run_send_def Let_def split: sum.splits)
  have kept: "\<exists>tr. wd_trace (snd (run_send env i sql x)) = wd_trace x @ tr" for x
    by (auto simp: run_send_def Let_def split: sum.splits)
  have conf: "query_texts [Confirm a b v] = []" for a b v by (simp add: query_texts_def)
  show ?thesis
  proof (cases "destructiveReason sql")
    case None
    then show ?thesis unfolding start using send by (simp add: query_texts_def)
  next
    case (Some reason)
    have "take 1 (drop (length (wd_trace w)) (wd_trace (snd (run_send env i sql (emit (Confirm ''Run this statement?'' reason (Some sql)) ?w0))))) =
        [Confirm ''Run this statement?'' reason (Some sql)]"
      using kept [of "emit (Confirm ''Run this statement?'' reason (Some sql)) ?w0"] by auto
    with Some show ?thesis unfolding start using send by (auto simp: conf)
  qed
qed

definition run_world :: "string \<Rightarrow> world" where
  "run_world sql = \<lparr>wd_app = \<lparr>a_connections = [plain_conn ''c'' ''postgres'' []], a_active = Some ''c'',
      a_sessions = [(''c'', new_session ''c''\<lparr>s_sql := sql\<rparr>)], a_connStatus = []\<rparr>,
     wd_keys = [], wd_hist = [], wd_trace = []\<rparr>"

definition run_env0 :: "bool \<Rightarrow> bool \<Rightarrow> run_env" where
  "run_env0 explain confirm = \<lparr>rn_explain = explain, rn_selection = None, rn_confirm = confirm,
     rn_sidecar = Inr (), rn_request = ''r''\<rparr>"

lemma run_confirms_destructive_witness:
  "query_texts (wd_trace (snd (run_start (run_env0 False False) (run_world ''drop table t'')))) = []"
proof -
  have a: "js_trim (activeSql (rn_selection (run_env0 False False))
      (session_of (ensureSession ''c'' (wd_app (run_world ''drop table t''))) ''c'')) = ''drop table t''"
    by code_simp
  have r: "destructiveReason ''drop table t'' \<noteq> None" by code_simp
  from run_confirms_destructive [of "run_world ''drop table t''" "''c''" "run_env0 False False", OF _ _ _ a [symmetric]] r
  show ?thesis by (simp add: run_world_def run_env0_def query_texts_def)
qed

section \<open>Explain sends a single statement\<close>

lemma re_search_at:
  "re_search r p s = Some (pre, q, rest, c) \<Longrightarrow>
     \<exists>b. s = pre @ b \<and> (q, rest) \<in> re_ends r (last_opt p pre, b)"
proof (induction s arbitrary: p pre)
  case Nil
  from Nil.prems show ?case
  proof (cases rule: re_search_cases)
    case (here ms)
    then have "(q, rest, c) \<in> set (re_matches r (p, [], []))" by simp
    then show ?thesis using here(1) by (force simp: re_ends_def)
  qed simp
next
  case (Cons x xs)
  from Cons.prems show ?case
  proof (cases rule: re_search_cases)
    case (here ms)
    then have "(q, rest, c) \<in> set (re_matches r (p, x # xs, []))" by simp
    then show ?thesis using here(1) by (force simp: re_ends_def)
  next
    case (later y ys pre')
    with Cons.IH [of "Some x" pre'] obtain b where "xs = pre' @ b" "(q, rest) \<in> re_ends r (last_opt (Some x) pre', b)"
      by auto
    moreover have "last_opt (Some x) pre' = last_opt p (x # pre')" by (simp add: last_opt_def)
    ultimately show ?thesis using later by auto
  qed
qed

lemma spans_more_statements:
  "spans re_more_statements (\<lambda>w. \<exists>ws c. w = CHR '';'' # ws @ [c] \<and> (\<forall>d\<in>set ws. is_space_c d) \<and> \<not> is_space_c c)"
  unfolding re_more_statements_def rseq.simps rstar_def rspace_def rchar_def
  by (rule spans_cong [OF spans_seq [OF spans_cls spans_seq [OF spans_star_cls spans_cls]]]) auto

lemma multiple_statements_iff:
  "hasMultipleStatements s \<longleftrightarrow> (\<exists>a ws c b. js_trim s = a @ CHR '';'' # ws @ c # b \<and> (\<forall>d\<in>set ws. is_space_c d) \<and> \<not> is_space_c c)"
  (is "_ \<longleftrightarrow> ?r")
proof
  assume "hasMultipleStatements s"
  then obtain a b w r where "js_trim s = a @ b" "b = w @ r"
    "\<exists>ws c. w = CHR '';'' # ws @ [c] \<and> (\<forall>d\<in>set ws. is_space_c d) \<and> \<not> is_space_c c"
    unfolding hasMultipleStatements_def re_test_ends spansD [OF spans_more_statements] by blast
  then obtain ws c where "js_trim s = a @ CHR '';'' # ws @ c # r" "\<forall>d\<in>set ws. is_space_c d" "\<not> is_space_c c"
    by auto
  then show ?r by blast
next
  assume ?r
  then obtain a ws c b where h: "js_trim s = a @ ((CHR '';'' # ws @ [c]) @ b)" "\<forall>d\<in>set ws. is_space_c d" "\<not> is_space_c c"
    by auto
  then show "hasMultipleStatements s"
    unfolding hasMultipleStatements_def re_test_ends spansD [OF spans_more_statements] by blast
qed

lemma single_statement_end:
  assumes "\<not> hasMultipleStatements s" "trimmed s" "s = a @ CHR '';'' # b"
  shows "b = []"
proof (rule ccontr)
  assume ne: "b \<noteq> []"
  have tr: "js_trim s = s" using assms(2) by (rule trimmed_js_trim)
  have "\<not> is_space_c (last b)" using assms(2,3) ne by (auto simp: trimmed_def)
  then have "\<not> (\<forall>d\<in>set b. is_space_c d)" using ne by auto
  then have "dropWhile is_space_c b \<noteq> []" by (simp add: dropWhile_eq_Nil_conv)
  then obtain c r where d: "dropWhile is_space_c b = c # r" by (cases "dropWhile is_space_c b") auto
  then have "\<not> is_space_c c" using dropWhile_hd [of is_space_c b] by simp
  moreover have "b = takeWhile is_space_c b @ c # r" using d takeWhile_dropWhile_id [of is_space_c b] by simp
  moreover have "\<forall>d\<in>set (takeWhile is_space_c b). is_space_c d" by (auto dest: set_takeWhileD)
  ultimately have "hasMultipleStatements s"
    unfolding multiple_statements_iff tr using assms(3) by metis
  with assms(1) show False by simp
qed

lemma re_ends_last_semicolon:
  "(q, rest) \<in> re_ends re_last_semicolon (p, b) \<Longrightarrow> rest = [] \<and> (\<exists>ws. b = CHR '';'' # ws)"
proof -
  have c: "spans (rchar (CHR '';'')) (\<lambda>w. \<exists>c. w = [c] \<and> c = CHR '';'')"
    unfolding rchar_def by (rule spans_cls)
  assume "(q, rest) \<in> re_ends re_last_semicolon (p, b)"
  then show ?thesis
    unfolding re_last_semicolon_def rseq.simps rstar_def rspace_def re_ends_Seq spansD [OF c]
      spansD [OF spans_star_cls] by (auto simp: spansD [OF spans_star_cls] split: if_splits)
qed

lemma explain_body_single:
  assumes "\<not> hasMultipleStatements s" "trimmed s"
  shows "CHR '';'' \<notin> set (re_replace1 re_last_semicolon [] s)"
proof (cases "re_search re_last_semicolon None s")
  case None
  show ?thesis
  proof
    assume "CHR '';'' \<in> set (re_replace1 re_last_semicolon [] s)"
    with None obtain a b where s: "s = a @ CHR '';'' # b" by (auto simp: re_replace1_def dest: split_list)
    from single_statement_end [OF assms s] s have "s = a @ '';''" by simp
    moreover have "re_matches re_last_semicolon (last_opt None a, '';'', []) \<noteq> []"
      by (simp add: re_last_semicolon_def rchar_def rstar_def rspace_def re_matches.simps(5) is_space_c_def)
    ultimately show False using None unfolding re_search_None_iff by blast
  qed
next
  case (Some m)
  obtain pre q rest c where m: "m = (pre, q, rest, c)" by (cases m)
  from re_search_at [OF Some [unfolded m]] re_ends_last_semicolon
  obtain ws where s: "s = pre @ CHR '';'' # ws" "rest = []" by blast
  have "CHR '';'' \<notin> set pre"
  proof
    assume "CHR '';'' \<in> set pre"
    then obtain u v where "pre = u @ CHR '';'' # v" by (auto dest: split_list)
    with s single_statement_end [OF assms, of u "v @ CHR '';'' # ws"] show False by simp
  qed
  with Some m s show ?thesis by (simp add: re_replace1_def)
qed

text \<open>
  an Explain sends nothing but the engine's EXPLAIN prefix and one statement: the text
  it prefixes contains no semicolon, so no second statement of the editor runs with it.
\<close>

theorem explain_sends_single_statement:
  assumes "a_active (wd_app w) = Some i" "i \<noteq> []" "rn_explain env"
  shows "\<exists>new. query_texts (wd_trace (snd (run_start env w))) = query_texts (wd_trace w) @ new \<and>
    (new = [] \<or> (\<exists>body. CHR '';'' \<notin> set body \<and>
       new = [VStr (d_explainPrefix (getDialect (sqlConnKind (a_connections (wd_app w))
         (s_connId (session_of (ensureSession i (wd_app w)) i)))) @ body)]))"
proof -
  let ?w0 = "upd_app (ensureSession i) w"
  let ?s = "session_of (ensureSession i (wd_app w)) i"
  let ?sql = "js_trim (activeSql (rn_selection env) ?s)"
  let ?text = "explain_sql (a_connections (wd_app w)) (s_connId ?s) ?sql"
  have start: "run_start env w = (if ?sql = [] then (None, ?w0)
      else if hasMultipleStatements ?sql then (None, emit (Toast ''Select a single statement to explain.'' ''warning'') ?w0)
      else run_send env i ?text ?w0)"
    using assms by (simp add: run_start_def Let_def)
  consider (none) "?sql = [] \<or> hasMultipleStatements ?sql" | (sent) "?sql \<noteq> []" "\<not> hasMultipleStatements ?sql" by blast
  then show ?thesis
  proof cases
    case none
    then have "query_texts (wd_trace (snd (run_start env w))) = query_texts (wd_trace w)"
      unfolding start by (auto simp: query_texts_def)
    then show ?thesis by simp
  next
    case sent
    have "CHR '';'' \<notin> set (re_replace1 re_last_semicolon [] ?sql)"
      using sent(2) by (rule explain_body_single) simp
    with sent show ?thesis
      unfolding start using run_send_sends [of env i ?text ?w0]
      by (auto simp: explain_sql_def intro!: exI [of _ "re_replace1 re_last_semicolon [] ?sql"])
  qed
qed

lemma explain_sends_single_statement_witness:
  "query_texts (wd_trace (snd (run_start (run_env0 True False) (run_world ''select 1; '')))) = [VStr ''EXPLAIN select 1''] \<and>
   (\<exists>new. query_texts (wd_trace (snd (run_start (run_env0 True False) (run_world ''select 1; '')))) = [] @ new)"
proof -
  have "\<exists>new. query_texts (wd_trace (snd (run_start (run_env0 True False) (run_world ''select 1; '')))) = [] @ new"
    using explain_sends_single_statement [of "run_world ''select 1; ''" "''c''" "run_env0 True False"]
    by (auto simp: run_world_def run_env0_def query_texts_def)
  moreover have "query_texts (wd_trace (snd (run_start (run_env0 True False) (run_world ''select 1; '')))) = [VStr ''EXPLAIN select 1'']"
    by code_simp
  ultimately show ?thesis by blast
qed

section \<open>Overlapping runs\<close>

text \<open>
  the session remembers one request, and the end of any run forgets it. When a second
  run is started before the first one's answer arrives, that answer clears the second
  run's request: cancelling then does nothing although the second statement is running,
  and the first statement's result is shown.
\<close>

theorem overlapping_runs_cannot_be_cancelled:
  "let (r1, w1) = run_start ((run_env0 False False)\<lparr>rn_request := ''r1''\<rparr>) (run_world ''select 1'');
       (r2, w2) = run_start ((run_env0 False False)\<lparr>rn_request := ''r2''\<rparr>) w1;
       w3 = run_finish (the r1) (Inr \<lparr>qa_statements = [SExec ''select 1'' 0 1], qa_in_transaction = False, qa_notice = []\<rparr>) 0 w2
   in r2 \<noteq> None \<and> cancelActiveQuery answer w3 = w3 \<and> cancelActiveQuery answer w2 \<noteq> w2 \<and>
      s_result (session_of (wd_app w3) ''c'') = Some [SExec ''select 1'' 0 1]"
proof -
  have d: "destructiveReason ''select 1'' = None" by code_simp
  have t: "js_trim ''select 1'' = ''select 1''" "js_trim [] = []" by code_simp+
  show ?thesis
    by (simp add: run_start_def run_send_def run_env0_def run_world_def activeSql_def t d Let_def
        session_of_def ensureSession_def update_session_def omap_has_def upd_app_def run_finish_def
        applySessionState_def cancelActiveQuery_def new_session_def emit_def split: sum.splits prod.splits)
qed

section \<open>The confirmation\<close>

text \<open>A run of a statement that the check calls destructive.\<close>

definition run_asks :: "run_env \<Rightarrow> world \<Rightarrow> bool" where
  "run_asks env w = (case a_active (wd_app w) of
       None \<Rightarrow> False
     | Some i \<Rightarrow> \<not> rn_explain env \<and>
         destructiveReason (js_trim (activeSql (rn_selection env) (session_of (ensureSession i (wd_app w)) i))) \<noteq> None)"

interpretation run_gate: confirmed_action
  "\<lambda>ok w. if run_asks env w then snd (run_start (env\<lparr>rn_confirm := ok\<rparr>) w) else w" for env
proof
  fix w
  show "same_data w (if run_asks env w then snd (run_start (env\<lparr>rn_confirm := False\<rparr>) w) else w)"
    by (auto simp: run_asks_def run_start_def Let_def same_data_def requests_def ensureSession_def split: option.splits)
qed

end
