(* ===== verification/TreeData.thy ===== *)
theory TreeData
  imports Lifecycle SqlText TableData
begin

text \<open>
  \<open>src/src/tree/data.js\<close>, \<open>items.js\<close>, \<open>view.js\<close> and \<open>menu.js\<close>: the lazy connection tree
  of the sidebar. A node is named by its path, encoded in one text; the expanded and loading
  sets and the loaded children are the state. A toggle that loads is two steps around the
  awaited request. DOM rows are the \<open>item\<close> values handed to the host.
\<close>

section \<open>Node names\<close>

definition TREE_SEP :: char where
  "TREE_SEP = CHR 0x01"

definition nid :: "string \<Rightarrow> string \<Rightarrow> string \<Rightarrow> string \<Rightarrow> string \<Rightarrow> string" where
  "nid kind connId db schema tbl = js_join [TREE_SEP] [kind, connId, db, schema, tbl]"

record node =
  n_kind :: string
  n_conn :: string
  n_db :: string
  n_schema :: string
  n_table :: string

definition node_part :: "string list \<Rightarrow> nat \<Rightarrow> string" where
  "node_part ps k = (case nth_opt ps k of Some s \<Rightarrow> s | None \<Rightarrow> [])"

definition parseNid :: "string \<Rightarrow> node" where
  "parseNid i = (let ps = split_char TREE_SEP i in
     \<lparr> n_kind = node_part ps 0, n_conn = node_part ps 1, n_db = node_part ps 2, n_schema = node_part ps 3, n_table = node_part ps 4 \<rparr>)"

section \<open>State\<close>

datatype kid = KDb string | KSchema string | KTable string string string

record tree =
  tr_expanded :: "string set"
  tr_loading :: "string set"
  tr_children :: "(string, kid list) omap"

section \<open>Loading\<close>

text \<open>An error knows whether it was already shown to the user (\<open>err.handled\<close>).\<close>

datatype tree_error = TreeErr (te_handled: bool) (te_message: string)

record tree_answers =
  ta_sidecar :: "string + unit"
  ta_conns :: "string list option"
  ta_envs :: "nat \<Rightarrow> answers"
  ta_databases :: "string + string list"
  ta_schemas :: "string + string list"
  ta_tables :: "string \<Rightarrow> string \<Rightarrow> string + (string \<times> string) list"

definition ensureConnected ::
  "ssh_api \<Rightarrow> tree_answers \<Rightarrow> string \<Rightarrow> world \<Rightarrow> (tree_error + unit) \<times> world" where
  "ensureConnected ssh ans connId w = (case ta_sidecar ans of
       Inl e \<Rightarrow> (Inl (TreeErr False e), w)
     | Inr _ \<Rightarrow>
        if find_conn (a_connections (wd_app w)) connId = None then (Inl (TreeErr False ''connection not found''), w)
        else if status_in w connId = Some Connected then (Inr (), upd_app (ensureSession connId) w)
        else
          (let w1 = emit (Fetch ''/connections'' ''GET'' VUndef) w;
               isopen = (case ta_conns ans of Some ids \<Rightarrow> connId \<in> set ids | None \<Rightarrow> False)
           in if isopen then (Inr (), upd_app (ensureSession connId) w1)
              else (case connectWithRetry ssh (ta_envs ans) connId w1 of
                  (Inl e, w2) \<Rightarrow> (Inl (TreeErr True e), w2)
                | (Inr _, w2) \<Rightarrow> (Inr (), upd_app (ensureSession connId) w2))))"

definition databases_path :: "string \<Rightarrow> string" where
  "databases_path connId = ''/databases?conn='' @ encodeURIComponent connId"

definition database_kids :: "conn list \<Rightarrow> string \<Rightarrow> string list \<Rightarrow> kid list" where
  "database_kids cs connId names =
     (let scope = (case find_conn cs connId of Some c \<Rightarrow> scopedDatabases c | None \<Rightarrow> [])
      in map KDb (if scope \<noteq> [] then filter (\<lambda>d. d \<in> set scope) names else names))"

definition treeLoadDatabases ::
  "string + string list \<Rightarrow> string \<Rightarrow> world \<Rightarrow> (tree_error + kid list) \<times> world" where
  "treeLoadDatabases answer connId w =
     (let w1 = emit (Fetch (databases_path connId) ''GET'' VUndef) w
      in case answer of
           Inl e \<Rightarrow> (Inl (TreeErr False e), w1)
         | Inr names \<Rightarrow> (Inr (database_kids (a_connections (wd_app w1)) connId names), w1))"

definition tables_path :: "string \<Rightarrow> string \<Rightarrow> string \<Rightarrow> string" where
  "tables_path connId db schema =
     ''/tables?conn='' @ encodeURIComponent connId @ ''&database='' @ encodeURIComponent db @
     ''&schema='' @ encodeURIComponent schema"

text \<open>Each table of the answer, a name and a kind, is entered in the session's cache.\<close>

definition seed_table :: "string \<Rightarrow> string \<Rightarrow> string \<times> string \<Rightarrow> (string, cache_entry) omap \<Rightarrow> (string, cache_entry) omap" where
  "seed_table db schema t cache =
     (let key = table_key db schema (fst t);
          cols = (case omap_get cache key of Some e \<Rightarrow> e_columns e | None \<Rightarrow> [])
      in omap_set cache key \<lparr>e_database = db, e_schema = schema, e_table = fst t, e_kind = snd t, e_columns = cols\<rparr>)"

definition seed_cache :: "string \<Rightarrow> string \<Rightarrow> string \<Rightarrow> (string \<times> string) list \<Rightarrow> app \<Rightarrow> app" where
  "seed_cache connId db schema tables a = (case omap_get (a_sessions a) connId of
       None \<Rightarrow> a
     | Some s \<Rightarrow> a\<lparr>a_sessions := omap_set (a_sessions a) connId
         (s\<lparr>s_schemaCache := fold (seed_table db schema) tables (s_schemaCache s)\<rparr>)\<rparr>)"

definition treeLoadTables ::
  "(string \<Rightarrow> string \<Rightarrow> string + (string \<times> string) list) \<Rightarrow> string \<Rightarrow> string \<Rightarrow> string \<Rightarrow> world \<Rightarrow>
   (tree_error + kid list) \<times> world" where
  "treeLoadTables answer connId db schema w =
     (let w1 = emit (Fetch (tables_path connId db schema) ''GET'' VUndef) w
      in case answer db schema of
           Inl e \<Rightarrow> (Inl (TreeErr False e), w1)
         | Inr tables \<Rightarrow> (Inr (map (\<lambda>t. KTable (fst t) (snd t) schema) tables),
             upd_app (seed_cache connId db schema tables) w1))"

definition schemas_path :: "string \<Rightarrow> string \<Rightarrow> string" where
  "schemas_path connId db =
     ''/schemas?conn='' @ encodeURIComponent connId @ ''&database='' @ encodeURIComponent db"

definition treeLoadDbChildren ::
  "tree_answers \<Rightarrow> string \<Rightarrow> string \<Rightarrow> world \<Rightarrow> (tree_error + kid list) \<times> world" where
  "treeLoadDbChildren ans connId db w =
     (let w1 = emit (Fetch (schemas_path connId db) ''GET'' VUndef) w
      in case ta_schemas ans of
           Inl e \<Rightarrow> (Inl (TreeErr False e), w1)
         | Inr schemas \<Rightarrow> if schemas = [db] then treeLoadTables (ta_tables ans) connId db db w1
             else (Inr (map KSchema schemas), w1))"

text \<open>What a toggle awaits, by the kind of the node.\<close>

definition load_children :: "ssh_api \<Rightarrow> tree_answers \<Rightarrow> node \<Rightarrow> world \<Rightarrow> (tree_error + kid list) \<times> world" where
  "load_children ssh ans m w =
     (if n_kind m = ''conn'' then
        (case ensureConnected ssh ans (n_conn m) w of
           (Inl e, w1) \<Rightarrow> (Inl e, w1)
         | (Inr _, w1) \<Rightarrow> treeLoadDatabases (ta_databases ans) (n_conn m) w1)
      else if n_kind m = ''db'' then treeLoadDbChildren ans (n_conn m) (n_db m) w
      else if n_kind m = ''schema'' then treeLoadTables (ta_tables ans) (n_conn m) (n_db m) (n_schema m) w
      else (Inr [], w))"

section \<open>Toggling\<close>

datatype toggle_result = ToggleDone | ToggleLoad node

definition toggle_start :: "string \<Rightarrow> tree \<Rightarrow> toggle_result \<times> tree" where
  "toggle_start i t =
     (if i \<in> tr_expanded t then (ToggleDone, t\<lparr>tr_expanded := tr_expanded t - {i}\<rparr>)
      else let t1 = t\<lparr>tr_expanded := insert i (tr_expanded t)\<rparr> in
        if omap_has (tr_children t1) i then (ToggleDone, t1)
        else (ToggleLoad (parseNid i), t1\<lparr>tr_loading := insert i (tr_loading t1)\<rparr>))"

definition toggle_finish :: "string \<Rightarrow> tree_error + kid list \<Rightarrow> tree \<Rightarrow> tree" where
  "toggle_finish i answer t =
     (let t1 = (case answer of
          Inr kids \<Rightarrow> t\<lparr>tr_children := omap_set (tr_children t) i kids\<rparr>
        | Inl e \<Rightarrow> t\<lparr>tr_expanded := tr_expanded t - {i}\<rparr>)
      in t1\<lparr>tr_loading := tr_loading t1 - {i}\<rparr>)"

definition load_failed :: "tree_error + kid list \<Rightarrow> world \<Rightarrow> world" where
  "load_failed answer w = emit SyncSidebar (case answer of
       Inl e \<Rightarrow> if te_handled e then w else emit (Toast (''Load failed: '' @ te_message e) ''error'') w
     | Inr _ \<Rightarrow> w)"

text \<open>A whole toggle when nothing else runs between its two steps.\<close>

definition onTreeToggle :: "ssh_api \<Rightarrow> tree_answers \<Rightarrow> string \<Rightarrow> tree \<Rightarrow> world \<Rightarrow> tree \<times> world" where
  "onTreeToggle ssh ans i t w = (case toggle_start i t of
       (ToggleDone, t1) \<Rightarrow> (t1, emit SyncSidebar w)
     | (ToggleLoad m, t1) \<Rightarrow>
        (let (answer, w1) = load_children ssh ans m (emit SyncSidebar w)
         in (toggle_finish i answer t1, load_failed answer w1)))"

definition reloadTree :: "tree \<Rightarrow> tree" where
  "reloadTree t = \<lparr>tr_expanded = {}, tr_loading = {}, tr_children = []\<rparr>"

definition refreshNode :: "string \<Rightarrow> tree \<Rightarrow> toggle_result \<times> tree" where
  "refreshNode i t =
     (let t1 = t\<lparr>tr_children := omap_delete (tr_children t) i\<rparr>
      in if i \<notin> tr_expanded t1 then (ToggleDone, t1)
         else toggle_start i (t1\<lparr>tr_expanded := tr_expanded t1 - {i}\<rparr>))"

definition refreshTableParent :: "node \<Rightarrow> tree \<Rightarrow> toggle_result \<times> tree" where
  "refreshTableParent m t =
     (let schemaId = nid ''schema'' (n_conn m) (n_db m) (n_schema m) [];
          dbId = nid ''db'' (n_conn m) (n_db m) [] []
      in refreshNode (if omap_has (tr_children t) schemaId then schemaId else dbId) t)"

section \<open>Items\<close>

datatype item = Item (it_id: string) (it_label: string) (it_icon: string) (it_active: bool)
  (it_expandable: bool) (it_expanded: bool) (it_loading: bool) (it_children: "item list")

definition table_active :: "app \<Rightarrow> string \<Rightarrow> string \<Rightarrow> string \<Rightarrow> string \<Rightarrow> bool" where
  "table_active a connId db schema name =
     (if a_active a = Some connId
      then (case Option.bind (omap_get (a_sessions a) connId) s_activeTable of
          Some at \<Rightarrow> t_database at = db \<and> t_schema at = schema \<and> t_table at = name | None \<Rightarrow> False)
      else False)"

text \<open>
  The children of a node. \<open>depth\<close> bounds the levels below it: databases, schemas and
  tables are the only ones, so three are enough from a connection.
\<close>

fun treeChildItems :: "nat \<Rightarrow> app \<Rightarrow> tree \<Rightarrow> string \<Rightarrow> string \<Rightarrow> item list" where
  "treeChildItems 0 a t parentId connId = []"
| "treeChildItems (Suc depth) a t parentId connId =
     (let parent = parseNid parentId;
          branch = (\<lambda>i label icon. Item i label icon False True (i \<in> tr_expanded t) (i \<in> tr_loading t)
             (if i \<in> tr_expanded t then treeChildItems depth a t i connId else []))
      in case omap_get (tr_children t) parentId of
           None \<Rightarrow> []
         | Some kids \<Rightarrow> map (\<lambda>k. case k of
             KDb name \<Rightarrow> branch (nid ''db'' connId name [] []) name ''fileicon:database''
           | KSchema name \<Rightarrow> branch (nid ''schema'' connId (n_db parent) name []) name ''fileicon:folder''
           | KTable name kind schema \<Rightarrow>
               Item (nid ''table'' connId (n_db parent) schema name) name ''fileicon:csv''
                 (table_active a connId (n_db parent) schema name) False False False []) kids)"

definition connSubtitle :: "conn \<Rightarrow> string" where
  "connSubtitle c =
     (let d = getDialect (Some (c_kind c));
          dot = '' '' @ [CHR 0xB7] @ '' '';
          user = (if c_user c \<noteq> [] then c_user c @ ''@'' else []);
          port = (if c_port c \<noteq> [] then '':'' @ c_port c else []);
          db = (if c_database c \<noteq> [] then ''/'' @ c_database c else []);
          tail = user @ c_host c @ port @ db
      in if d_fileBased d
         then d_shortLabel d @ dot @ or_str (c_sqlitePath c) (or_str (c_host c) (or_str (c_database c) ''file''))
         else if tail \<noteq> [] then d_shortLabel d @ dot @ tail else d_shortLabel d)"

record conn_row =
  cr_item :: item
  cr_sublabel :: string
  cr_badge :: string
  cr_tone :: string
  cr_actions :: "string list"

definition buildTreeItems :: "app \<Rightarrow> tree \<Rightarrow> conn_row list" where
  "buildTreeItems a t = map (\<lambda>c.
     (let i = nid ''conn'' (c_id c) [] [] [] in
      \<lparr> cr_item = Item i (or_str (c_name c) (c_id c)) ''fileicon:folder-database'' (a_active a = Some (c_id c))
          True (i \<in> tr_expanded t) (i \<in> tr_loading t)
          (if i \<in> tr_expanded t then treeChildItems 3 a t i (c_id c) else []),
        cr_sublabel = connSubtitle c,
        cr_badge = d_shortLabel (getDialect (Some (c_kind c))),
        cr_tone = sidebarToneFor a (c_id c),
        cr_actions = [''refresh'', ''edit'', ''delete''] \<rparr>)) (a_connections a)"

section \<open>Clicks\<close>

datatype click = OpenConnection string bool | Toggle string | OpenTable node | NoClick

text \<open>What a click on a node does; opening a connection also expands it when it is collapsed.\<close>

definition onTreeClick :: "string \<Rightarrow> tree \<Rightarrow> click" where
  "onTreeClick i t =
     (let m = parseNid i in
      if n_kind m = ''conn'' then OpenConnection (n_conn m) (i \<notin> tr_expanded t)
      else if n_kind m = ''db'' \<or> n_kind m = ''schema'' then Toggle i
      else if n_kind m = ''table'' then OpenTable m
      else NoClick)"

definition openWorkbenchTab :: "world \<Rightarrow> world" where
  "openWorkbenchTab w = emit (Ui ''workbench'') w"

text \<open>A parsed node carries no table kind, so the kind is always the default.\<close>

definition openTableFromTree ::
  "ssh_api \<Rightarrow> tree_answers \<Rightarrow> node \<Rightarrow> world \<Rightarrow> world \<times> pending option" where
  "openTableFromTree ssh ans m w =
     (let w1 = openWorkbenchTab (upd_app (\<lambda>a. a\<lparr>a_active := Some (n_conn m)\<rparr>) w) in
      case ensureConnected ssh ans (n_conn m) w1 of
        (Inl e, w2) \<Rightarrow>
          (if te_handled e then w2
           else setConnState (n_conn m) (Some StError) (emit (Toast (''Connect failed: '' @ te_message e) ''error'') w2), None)
      | (Inr _, w2) \<Rightarrow>
          (let w3 = upd_app (ensureSession (n_conn m)) (setConnState (n_conn m) (Some Connected) w2);
               tbl = \<lparr>t_database = n_db m, t_schema = n_schema m, t_table = n_table m, t_kind = ''table''\<rparr>;
               (s, p) = openTable (a_connections (wd_app w3)) tbl (session_of (wd_app w3) (n_conn m));
               w4 = upd_app (update_session (n_conn m) (\<lambda>_. s)) w3
           in (setTabState (Some Connected) w4, p)))"

text \<open>A failure that was not shown yet is shown; \<open>selectConnection\<close> may answer \<open>Inl\<close>.\<close>

definition openConnection ::
  "ssh_api \<Rightarrow> tree_answers \<Rightarrow> string \<Rightarrow> world \<Rightarrow> world" where
  "openConnection ssh ans connId w =
     (let w1 = openWorkbenchTab (upd_app (\<lambda>a. a\<lparr>a_active := Some connId\<rparr>) w) in
      case selectConnection ssh (ta_sidecar ans) (ta_conns ans) (ta_envs ans) connId w1 of
        (Inl e, w2) \<Rightarrow> setConnState connId (Some StError) (emit (Toast (''Connect failed: '' @ e) ''error'') w2)
      | (Inr _, w2) \<Rightarrow> w2)"

text \<open>The connection row's own action, on a connection that exists.\<close>

datatype row_action = RefreshRow | EditRow conn | DeleteRow conn | NoAction

definition onItemAction :: "conn list \<Rightarrow> string \<Rightarrow> string \<Rightarrow> row_action" where
  "onItemAction cs i action = (case find_conn cs (n_conn (parseNid i)) of
       None \<Rightarrow> NoAction
     | Some c \<Rightarrow> if action = ''refresh'' then RefreshRow
         else if action = ''edit'' then EditRow c
         else if action = ''delete'' then DeleteRow c else NoAction)"

section \<open>The node menu\<close>

definition node_table :: "node \<Rightarrow> table_ref" where
  "node_table m = \<lparr>t_database = n_db m, t_schema = n_schema m, t_table = n_table m, t_kind = []\<rparr>"

definition loadIntoEditor :: "string \<Rightarrow> string \<Rightarrow> world \<Rightarrow> world" where
  "loadIntoEditor connId sql w =
     emit (Ui ''main'') (emit (Ui ''editor'') (openWorkbenchTab
       (upd_app (\<lambda>a. update_session connId (\<lambda>s. s\<lparr>s_sql := sql, s_activeTable := None, s_result := None\<rparr>)
           (ensureSession connId (a\<lparr>a_active := Some connId\<rparr>))) w)))"

definition ddl_body :: "node \<Rightarrow> string \<Rightarrow> jsval" where
  "ddl_body m sql = VObj [(''conn'', VStr (n_conn m)), (''sql'', VStr sql),
     (''database'', VStr (n_db m)), (''schema'', VStr (n_schema m))]"

text \<open>The helper's answer: the message of the first failed statement, if any.\<close>

definition runDdl :: "node \<Rightarrow> string \<Rightarrow> string + string option \<Rightarrow> world \<Rightarrow> (string + unit) \<times> world" where
  "runDdl m sql answer w =
     (let w1 = emit (Fetch ''/query'' ''POST'' (ddl_body m sql)) w
      in case answer of Inl e \<Rightarrow> (Inl e, w1) | Inr (Some e) \<Rightarrow> (Inl e, w1) | Inr None \<Rightarrow> (Inr (), w1))"

record ddl =
  dd_verb :: string
  dd_label :: string
  dd_past :: string
  dd_message :: string

definition ddl_truncate :: ddl where
  "ddl_truncate = \<lparr>dd_verb = ''TRUNCATE TABLE'', dd_label = ''Truncate'', dd_past = ''Truncated'',
     dd_message = ''Every row is removed. This can'' @ [CHR 0x27] @ ''t be undone.''\<rparr>"

definition ddl_drop :: ddl where
  "ddl_drop = \<lparr>dd_verb = ''DROP TABLE'', dd_label = ''Drop'', dd_past = ''Dropped'',
     dd_message = ''The table and all of its rows are removed. This can'' @ [CHR 0x27] @ ''t be undone.''\<rparr>"

definition forget_open_table :: "node \<Rightarrow> app \<Rightarrow> app" where
  "forget_open_table m a = (case omap_get (a_sessions a) (n_conn m) of
       None \<Rightarrow> a
     | Some s \<Rightarrow> (case s_activeTable s of
         None \<Rightarrow> a
       | Some t \<Rightarrow> if t_database t = n_db m \<and> t_schema t = n_schema m \<and> t_table t = n_table m
           then a\<lparr>a_sessions := omap_set (a_sessions a) (n_conn m) (s\<lparr>s_activeTable := None, s_tableSnapshot := None\<rparr>)\<rparr>
           else a))"

definition confirmAndRun ::
  "node \<Rightarrow> ddl \<Rightarrow> bool \<Rightarrow> string + string option \<Rightarrow> world \<Rightarrow> tree \<Rightarrow> world \<times> toggle_result \<times> tree" where
  "confirmAndRun m d ok answer w t =
     (let sql = dd_verb d @ '' '' @ qualifiedTableName (a_connections (wd_app w)) (n_conn m) (node_table m) @ '';'';
          w1 = emit (Confirm (dd_label d @ '' '' @ n_table m @ ''?'') (dd_message d) (Some sql)) w
      in if \<not> ok then (w1, ToggleDone, t)
         else (case runDdl m sql answer w1 of
             (Inl e, w2) \<Rightarrow> (emit (Toast (dd_label d @ '' failed: '' @ e) ''error'') w2, ToggleDone, t)
           | (Inr _, w2) \<Rightarrow>
               (upd_app (forget_open_table m) (emit (Toast (dd_past d @ '' '' @ n_table m) ''success'') w2),
                refreshTableParent m t)))"

datatype menu_entry =
    MOpen | MCopyName string | MSeparator | MSelectInEditor string | MStructure | MTruncate | MDrop
  | MRefresh | MEditConn | MCopyInfo bool "string option" "string option" | MDeleteConn | MUse string

definition tableItems :: "conn list \<Rightarrow> node \<Rightarrow> menu_entry list" where
  "tableItems cs m =
     (let q = qualifiedTableName cs (n_conn m) (node_table m) in
      [MOpen, MCopyName q, MSeparator,
       MSelectInEditor (''SELECT *'' @ [CHR 0x0A] @ ''FROM '' @ q @ [CHR 0x0A] @ ''LIMIT 100;''), MStructure] @
      (if isReadOnly cs (n_conn m) then [] else [MSeparator, MTruncate, MDrop]))"

definition copy_entries :: "string option \<Rightarrow> string option \<Rightarrow> menu_entry list" where
  "copy_entries db schema = [MCopyInfo True db schema, MCopyInfo False db schema]"

definition menuItemsFor :: "conn list \<Rightarrow> node \<Rightarrow> menu_entry list option" where
  "menuItemsFor cs m =
     (if n_kind m = ''conn'' then
        (if find_conn cs (n_conn m) = None then None
         else Some ([MRefresh, MEditConn] @ copy_entries None None @ [MSeparator, MDeleteConn]))
      else if n_kind m = ''db'' \<or> n_kind m = ''schema'' then
        Some ([MRefresh, MUse (if n_kind m = ''schema'' then n_schema m else n_db m)] @
          (if find_conn cs (n_conn m) = None then []
           else copy_entries (Some (n_db m)) (if n_kind m = ''schema'' then Some (n_schema m) else None)))
      else if n_kind m = ''table'' then Some (tableItems cs m)
      else None)"

definition use_names :: "node \<Rightarrow> world \<Rightarrow> world" where
  "use_names m w =
     (let scope = (if n_kind m = ''schema'' then n_schema m else n_db m)
      in emit (Toast (''Unqualified names now resolve in '' @ scope) ''info'')
           (upd_app (\<lambda>a. update_session (n_conn m)
               (\<lambda>s. s\<lparr>s_currentDatabase := Some (n_db m), s_currentSchema := Some scope\<rparr>) (ensureSession (n_conn m) a)) w))"

end
