(* ===== verification/TreeCheck.thy ===== *)
theory TreeCheck
  imports TreeData SqlReader "HOL-Library.Multiset"
begin

text \<open>
  The sidebar tree's properties: node names read back, the tree as a state machine whose
  loads finish in any order, and the statements of the node menu read back.
\<close>

section \<open>Node names\<close>

lemma parseNid_nid:
  assumes "TREE_SEP \<notin> set kind" "TREE_SEP \<notin> set c" "TREE_SEP \<notin> set db" "TREE_SEP \<notin> set sch" "TREE_SEP \<notin> set tbl"
  shows "parseNid (nid kind c db sch tbl) =
    \<lparr>n_kind = kind, n_conn = c, n_db = db, n_schema = sch, n_table = tbl\<rparr>"
proof -
  have "split_char TREE_SEP (js_join [TREE_SEP] [kind, c, db, sch, tbl]) = [kind, c, db, sch, tbl]"
    using assms by (intro split_char_of_join) auto
  then show ?thesis by (simp add: parseNid_def nid_def node_part_def Let_def nth_opt_conv numeral_eq_Suc)
qed

section \<open>The tree as a state machine\<close>

text \<open>The second component counts the loads in flight, by node.\<close>

type_synonym tree_state = "tree \<times> string multiset"

definition sent_load :: "string \<Rightarrow> toggle_result \<Rightarrow> string multiset" where
  "sent_load i r = (case r of ToggleDone \<Rightarrow> {#} | ToggleLoad _ \<Rightarrow> {#i#})"

inductive tree_step :: "tree_state \<Rightarrow> tree_state \<Rightarrow> bool" where
  toggled: "toggle_start i t = (r, t') \<Longrightarrow> tree_step (t, fl) (t', fl + sent_load i r)"
| finished: "i \<in># fl \<Longrightarrow> tree_step (t, fl) (toggle_finish i answer t, fl - {#i#})"
| reloaded: "tree_step (t, fl) (reloadTree t, fl)"
| refreshed: "refreshNode i t = (r, t') \<Longrightarrow> tree_step (t, fl) (t', fl + sent_load i r)"

definition tree_start :: tree_state where
  "tree_start = (\<lparr>tr_expanded = {}, tr_loading = {}, tr_children = []\<rparr>, {#})"

inductive tree_reach :: "tree_state \<Rightarrow> bool" where
  tree_init: "tree_reach tree_start"
| tree_next: "tree_reach s \<Longrightarrow> tree_step s s' \<Longrightarrow> tree_reach s'"

definition tree_inv :: "tree_state \<Rightarrow> bool" where
  "tree_inv s = (case s of (t, fl) \<Rightarrow>
     (\<forall>i \<in> tr_expanded t. omap_has (tr_children t) i \<or> i \<in> tr_loading t) \<and> tr_loading t \<subseteq> set_mset fl)"

lemma omap_has_set [simp]: "omap_has (omap_set m k v) j \<longleftrightarrow> j = k \<or> omap_has m j"
  by (simp add: omap_has_def omap_get_set)

lemma omap_has_delete [simp]: "omap_has (omap_delete m k) j \<longleftrightarrow> j \<noteq> k \<and> omap_has m j"
  by (simp add: omap_has_def omap_get_delete)

lemma toggle_start_inv:
  "toggle_start i t = (r, t') \<Longrightarrow> tree_inv (t, fl) \<Longrightarrow> tree_inv (t', fl + sent_load i r)"
  by (auto simp: toggle_start_def tree_inv_def sent_load_def Let_def split: if_splits)

lemma tree_step_inv: "tree_step s s' \<Longrightarrow> tree_inv s \<Longrightarrow> tree_inv s'"
proof (induction rule: tree_step.induct)
  case (toggled i t r t' fl)
  then show ?case using toggle_start_inv by blast
next
  case (finished i fl t answer)
  have "j \<in># fl - {#i#}" if "j \<in># fl" "j \<noteq> i" for j
    using that by (simp add: in_diff_count)
  with finished show ?case
    by (cases answer) (auto simp: toggle_finish_def tree_inv_def Let_def subset_eq)
next
  case (reloaded t fl)
  then show ?case by (simp add: reloadTree_def tree_inv_def)
next
  case (refreshed i t r t' fl)
  let ?t1 = "t\<lparr>tr_children := omap_delete (tr_children t) i, tr_expanded := tr_expanded t - {i}\<rparr>"
  have "tree_inv (?t1, fl)" using refreshed.prems by (auto simp: tree_inv_def)
  moreover have "r = ToggleDone \<and> t' = t\<lparr>tr_children := omap_delete (tr_children t) i\<rparr> \<and> i \<notin> tr_expanded t \<or>
      toggle_start i ?t1 = (r, t')"
    using refreshed.hyps by (auto simp: refreshNode_def Let_def split: if_splits)
  ultimately show ?case
    using toggle_start_inv [of i ?t1 r t' fl] refreshed.prems
    by (auto simp: tree_inv_def sent_load_def)
qed

lemma tree_reach_inv: "tree_reach s \<Longrightarrow> tree_inv s"
proof (induction rule: tree_reach.induct)
  case tree_init
  then show ?case by (simp add: tree_start_def tree_inv_def)
qed (rule tree_step_inv)

text \<open>
  C23: however toggles, refreshes, reloads and late answers overlap, an expanded node has
  its children loaded or shows its spinner, and a spinner is shown only while a load of
  that node is in flight: once every load has answered, no spinner is left.
\<close>

theorem tree_never_stuck:
  assumes "tree_reach (t, fl)"
  shows "(\<forall>i \<in> tr_expanded t. omap_has (tr_children t) i \<or> i \<in> tr_loading t) \<and>
    tr_loading t \<subseteq> set_mset fl \<and> (fl = {#} \<longrightarrow> tr_loading t = {})"
  using tree_reach_inv [OF assms] by (auto simp: tree_inv_def)

text \<open>A load that fails after the node was collapsed and opened again.\<close>

lemma tree_never_stuck_witness:
  "\<exists>t. tree_reach (t, {#''n''#}) \<and> tr_expanded t = {} \<and> tr_loading t = {}"
proof -
  define t1 where "t1 = snd (toggle_start ''n'' (fst tree_start))"
  define t2 where "t2 = snd (toggle_start ''n'' t1)"
  define t3 where "t3 = snd (toggle_start ''n'' t2)"
  define t4 where "t4 = toggle_finish ''n'' (Inl (TreeErr False ''gone'')) t3"
  note defs = t1_def t2_def t3_def tree_start_def toggle_start_def Let_def omap_has_def
  have "tree_reach (t1, {#''n''#})"
    using tree_next [OF tree_init, of "(t1, {#''n''#})"]
      toggled [of "''n''" "fst tree_start" "fst (toggle_start ''n'' (fst tree_start))" t1 "{#}"]
    by (simp add: defs sent_load_def)
  then have "tree_reach (t2, {#''n''#})"
    by (rule tree_next) (use toggled [of "''n''" t1 ToggleDone t2 "{#''n''#}"] in \<open>simp add: defs sent_load_def\<close>)
  then have "tree_reach (t3, {#''n'', ''n''#})"
    by (rule tree_next) (use toggled [of "''n''" t2 "ToggleLoad (parseNid ''n'')" t3 "{#''n''#}"] in \<open>simp add: defs sent_load_def\<close>)
  then have r4: "tree_reach (t4, {#''n''#})"
    by (rule tree_next) (use finished [of "''n''" "{#''n'', ''n''#}" t3] in \<open>simp add: t4_def\<close>)
  have "tr_expanded t4 = {}" by (simp add: t4_def toggle_finish_def defs)
  moreover have "tr_loading t4 = {}" by (simp add: t4_def toggle_finish_def defs)
  ultimately show ?thesis using r4 tree_never_stuck [OF r4] by blast
qed

section \<open>Loading\<close>

text \<open>Listing a schema's tables keeps every column already known.\<close>

lemma seed_table_keeps:
  "omap_get cache k = Some e \<Longrightarrow>
     \<exists>e'. omap_get (seed_table db sch x cache) k = Some e' \<and> e_columns e' = e_columns e"
  by (cases "k = table_key db sch (fst x)") (simp_all add: seed_table_def Let_def omap_get_set)

lemma seed_cache_keeps:
  "omap_get cache k = Some e \<Longrightarrow>
     \<exists>e'. omap_get (fold (seed_table db sch) ts cache) k = Some e' \<and> e_columns e' = e_columns e"
proof (induction ts arbitrary: cache e)
  case (Cons x ts)
  obtain e1 where e1: "omap_get (seed_table db sch x cache) k = Some e1" "e_columns e1 = e_columns e"
    using seed_table_keeps [OF Cons.prems, of db sch x] by blast
  from Cons.IH [OF e1(1)] e1(2) show ?case by simp
qed auto

section \<open>The node menu\<close>

lemma menu_gate:
  "MDrop \<in> set (tableItems cs m) \<longleftrightarrow> \<not> isReadOnly cs (n_conn m)"
  "MTruncate \<in> set (tableItems cs m) \<longleftrightarrow> \<not> isReadOnly cs (n_conn m)"
  by (auto simp: tableItems_def Let_def)

definition ddl_sql :: "conn list \<Rightarrow> node \<Rightarrow> ddl \<Rightarrow> string" where
  "ddl_sql cs m d = dd_verb d @ '' '' @ qualifiedTableName cs (n_conn m) (node_table m) @ '';''"

lemma ddl_sql_reads_back:
  "Option.bind (skip (dd_verb d @ '' '') (ddl_sql cs m d)) (read_name (sqlConnKind cs (n_conn m))) =
     Some (name_parts (node_table m), '';'')"
  using read_name_qualName [of "sqlConnKind cs (n_conn m)" cs "n_conn m" "'';''" "node_table m"]
    skip_append [of "dd_verb d @ '' ''"]
  by (simp add: ddl_sql_def qualifiedTableName_def del: skip_append)

lemma forget_open_other:
  "i \<noteq> n_conn m \<Longrightarrow> omap_get (a_sessions (forget_open_table m a)) i = omap_get (a_sessions a) i"
  by (auto simp: forget_open_table_def omap_get_set split: option.splits)

lemma confirmAndRun_requests:
  "requests (wd_trace (fst (confirmAndRun m d ok answer w t))) = requests (wd_trace w) @
     (if ok then [(''/query'', ddl_body m (ddl_sql (a_connections (wd_app w)) m d))] else [])"
  by (auto simp: confirmAndRun_def runDdl_def ddl_sql_def Let_def split: sum.splits option.splits)

lemma confirmAndRun_sessions:
  "i \<noteq> n_conn m \<Longrightarrow>
     omap_get (a_sessions (wd_app (fst (confirmAndRun m d ok answer w t)))) i = omap_get (a_sessions (wd_app w)) i"
  by (auto simp: confirmAndRun_def runDdl_def Let_def forget_open_other split: sum.splits option.splits)

text \<open>
  C12: Truncate and Drop from the tree send nothing unless confirmed, and then one
  statement, which reads back as the verb and exactly the clicked table, to the clicked
  node's connection, database and schema, whatever table the pane has open; no other
  connection's session changes.
\<close>

theorem tree_ddl_hits_clicked_node:
  assumes "out = confirmAndRun m d ok answer w t" "k = sqlConnKind (a_connections (wd_app w)) (n_conn m)"
  shows "\<exists>sql. requests (wd_trace (fst out)) = requests (wd_trace w) @
      (if ok then [(''/query'', VObj [(''conn'', VStr (n_conn m)), (''sql'', VStr sql),
         (''database'', VStr (n_db m)), (''schema'', VStr (n_schema m))])] else []) \<and>
    Option.bind (skip (dd_verb d @ '' '') sql) (read_name k) = Some (name_parts (node_table m), '';'') \<and>
    (\<forall>i. i \<noteq> n_conn m \<longrightarrow> omap_get (a_sessions (wd_app (fst out))) i = omap_get (a_sessions (wd_app w)) i)"
  unfolding assms
  using confirmAndRun_requests [of m d ok answer w t, unfolded ddl_body_def] ddl_sql_reads_back confirmAndRun_sessions
  by metis

lemma tree_ddl_hits_clicked_node_witness:
  "\<exists>sql. requests (wd_trace (fst (confirmAndRun
        \<lparr>n_kind = ''table'', n_conn = ''c'', n_db = ''d'', n_schema = ''s'', n_table = ''t''\<rparr> ddl_drop True
        (Inr None) one_conn_world (fst tree_start)))) =
      [(''/query'', VObj [(''conn'', VStr ''c''), (''sql'', VStr sql), (''database'', VStr ''d''), (''schema'', VStr ''s'')])] \<and>
    Option.bind (skip ''DROP TABLE '' sql) (read_name (Some ''mysql'')) = Some ([''s'', ''t''], '';'')"
proof -
  have "sqlConnKind (a_connections (wd_app one_conn_world)) ''c'' = Some ''mysql''"
    by (simp add: sqlConnKind_def find_conn_def one_conn_world_def plain_conn_def)
  moreover have "requests (wd_trace one_conn_world) = []" by (simp add: one_conn_world_def)
  ultimately show ?thesis
    using tree_ddl_hits_clicked_node [OF refl refl,
        of "\<lparr>n_kind = ''table'', n_conn = ''c'', n_db = ''d'', n_schema = ''s'', n_table = ''t''\<rparr>" ddl_drop True
           "Inr None" one_conn_world "fst tree_start"]
    by (auto simp: ddl_drop_def node_table_def name_parts_def)
qed

section \<open>The confirmation\<close>

interpretation ddl_gate: confirmed_action "\<lambda>ok w. fst (confirmAndRun m d ok answer w t)" for m d answer t
  by unfold_locales (auto simp: confirmAndRun_def Let_def)

end
