(* ===== verification/SavedMap.thy ===== *)
theory SavedMap
  imports Lifecycle
begin

text \<open>
  The saved list as an abstract map from ids to connections: saving, deleting and selecting
  connections, in any order and with any answers of the helper, do to the list and to the
  copy handed to the host what the map specification says.
\<close>

definition persisted :: "effect list \<Rightarrow> conn list list" where
  "persisted tr = concat (map (\<lambda>e. case e of Persist cs \<Rightarrow> [cs] | _ \<Rightarrow> []) tr)"

lemma persisted_append [simp]: "persisted (a @ b) = persisted a @ persisted b"
  by (simp add: persisted_def)

lemma persisted_simps [simp]:
  "persisted [] = []" "persisted (Persist cs # tr) = cs # persisted tr"
  "persisted (Fetch p m b # tr) = persisted tr" "persisted (TabState st s # tr) = persisted tr"
  "persisted (SyncSidebar # tr) = persisted tr" "persisted (Rerender # tr) = persisted tr"
  "persisted (Sleep n # tr) = persisted tr" "persisted (Toast m l # tr) = persisted tr"
  "persisted (OpenForward h p lp # tr) = persisted tr" "persisted (CloseForward h p lp # tr) = persisted tr"
  "persisted (SaveWorkbench wb # tr) = persisted tr"
  by (simp_all add: persisted_def)

text \<open>What a handler leaves alone: the list and what was stored of it.\<close>

definition same_list :: "world \<Rightarrow> world \<Rightarrow> bool" where
  "same_list w w' = (a_connections (wd_app w') = a_connections (wd_app w) \<and>
     persisted (wd_trace w') = persisted (wd_trace w))"

lemma same_list_trans: "same_list u v \<Longrightarrow> same_list v w \<Longrightarrow> same_list u w"
  by (simp add: same_list_def)

lemma same_list_simps [simp]:
  "same_list w w" "same_list w (setConnState i st w) "
  "same_list w (emit (Toast m l) w)" "same_list w (emit (Sleep n) w)" "same_list w (emit (Fetch p v b) w)"
  by (simp_all add: same_list_def setConnState_def Let_def)

lemma resolveEndpoint_list: "resolveEndpoint ssh fw f w = (r, w1) \<Longrightarrow> same_list w w1"
  by (auto simp: same_list_def resolveEndpoint_def Let_def split: sum.splits if_splits)

lemma connectFromForm_list: "connectFromForm ssh an f t w = (r, w1) \<Longrightarrow> same_list w w1"
  using resolveEndpoint_list [of ssh "an_forward an" f w]
  by (auto simp: connectFromForm_def Let_def same_list_def split: sum.splits prod.splits if_splits)

lemma retry_loop_list: "retry_loop ssh envs f a n e w = (r, w') \<Longrightarrow> same_list w w'"
proof (induction n arbitrary: a e w)
  case (Suc n)
  let ?w1 = "setConnState (c_id f) (Some (if a = 1 then Connecting else Reconnecting)) w"
  obtain q w2 where c: "connectFromForm ssh (envs a) f False ?w1 = (q, w2)" by fastforce
  have w2: "same_list w w2"
    using same_list_trans [OF _ connectFromForm_list [OF c]] by simp
  show ?case
  proof (cases q)
    case (Inr u)
    then have "w' = setConnState (c_id f) (Some Connected) w2" using Suc.prems c by auto
    then show ?thesis using same_list_trans [OF w2] by simp
  next
    case (Inl m)
    let ?w3 = "if a < MAX_CONNECT_ATTEMPTS then emit (Sleep (400 * int a)) w2 else w2"
    have "retry_loop ssh envs f (Suc a) n m ?w3 = (r, w')" using Suc.prems c Inl by simp
    from Suc.IH [OF this] show ?thesis using same_list_trans [OF w2] by (simp add: same_list_def split: if_splits)
  qed
qed simp

lemma connectWithRetry_list: "connectWithRetry ssh envs i w = (r, w') \<Longrightarrow> same_list w w'"
  by (auto simp: connectWithRetry_def Let_def same_list_def setConnState_def
      dest!: retry_loop_list split: option.splits prod.splits)

lemma selectConnection_list: "same_list w (snd (selectConnection ssh sidecar conns envs i w))"
  by (auto simp: selectConnection_def Let_def same_list_def setConnState_def ensureSession_def
      dest!: connectWithRetry_list split: option.splits prod.splits sum.splits)

section \<open>The map\<close>

definition saved_map :: "world \<Rightarrow> string \<Rightarrow> conn option" where
  "saved_map w = find_conn (a_connections (wd_app w))"

text \<open>The host holds the list in memory, once anything was stored.\<close>

definition stored_in_step :: "world \<Rightarrow> bool" where
  "stored_in_step w = (let ps = persisted (wd_trace w) in ps = [] \<or> last ps = a_connections (wd_app w))"

datatype saved_op =
    OpSave answers form
  | OpDelete bool string
  | OpSelect "string + unit" "string list option" "nat \<Rightarrow> answers" string

fun run_op :: "ssh_api \<Rightarrow> saved_op \<Rightarrow> world \<Rightarrow> world" where
  "run_op ssh (OpSave an f) w = snd (saveAndConnect ssh an f w)"
| "run_op ssh (OpDelete can i) w = deleteConnection ssh can i w"
| "run_op ssh (OpSelect sc conns envs i) w = snd (selectConnection ssh sc conns envs i w)"

fun spec_op :: "saved_op \<Rightarrow> (string \<Rightarrow> conn option) \<Rightarrow> string \<Rightarrow> conn option" where
  "spec_op (OpSave an f) m =
     (if validateForm (conn.truncate f) = Inr () then m(c_id f \<mapsto> formToPersistable f) else m)"
| "spec_op (OpDelete can i) m = m(i := None)"
| "spec_op (OpSelect sc conns envs i) m = m"

lemma find_conn_list_update:
  "find_index (\<lambda>d. c_id d = c_id c) cs = Some k \<Longrightarrow>
     find_conn (cs[k := c]) = (find_conn cs)(c_id c \<mapsto> c)"
proof (induction cs arbitrary: k)
  case (Cons d cs)
  show ?case
  proof (cases "c_id d = c_id c")
    case False
    with Cons.prems obtain j where "find_index (\<lambda>d. c_id d = c_id c) cs = Some j" "k = Suc j" by auto
    with Cons.IH False show ?thesis by (auto simp: fun_eq_iff find_conn_def)
  qed (use Cons.prems in \<open>auto simp: fun_eq_iff find_conn_def\<close>)
qed simp

lemma find_conn_put: "find_conn (put_conn c cs) = (find_conn cs)(c_id c \<mapsto> c)"
proof (cases "find_index (\<lambda>d. c_id d = c_id c) cs")
  case None
  then have "\<forall>d\<in>set cs. c_id d \<noteq> c_id c" by (simp add: find_index_None)
  then have "find_conn cs (c_id c) = None" by (auto simp: find_conn_None)
  then show ?thesis
    using None by (auto simp: fun_eq_iff put_conn_def find_conn_def find_first_append split: option.splits)
next
  case (Some k)
  then show ?thesis by (simp add: put_conn_def find_conn_list_update)
qed

lemma find_conn_filter: "find_conn (filter (\<lambda>c. c_id c \<noteq> i) cs) = (find_conn cs)(i := None)"
  by (induction cs) (auto simp: fun_eq_iff find_conn_def)

lemma formToPersistable_id [simp]: "c_id (formToPersistable f) = c_id f"
  by (simp add: formToPersistable_def Let_def conn.defs)

lemma saveAndConnect_list:
  assumes "validateForm (conn.truncate f) = Inr ()"
  shows "a_connections (wd_app (snd (saveAndConnect ssh an f w))) =
      put_conn (formToPersistable f) (a_connections (wd_app w)) \<and>
    persisted (wd_trace (snd (saveAndConnect ssh an f w))) =
      persisted (wd_trace w) @ [put_conn (formToPersistable f) (a_connections (wd_app w))]"
  using assms
  by (auto simp: saveAndConnect_def persist_def same_list_def setConnState_def Let_def
      dest!: connectFromForm_list split: sum.splits prod.splits if_splits)

lemma deleteConnection_list:
  "a_connections (wd_app (deleteConnection ssh can i w)) = filter (\<lambda>c. c_id c \<noteq> i) (a_connections (wd_app w)) \<and>
   persisted (wd_trace (deleteConnection ssh can i w)) =
     persisted (wd_trace w) @ [filter (\<lambda>c. c_id c \<noteq> i) (a_connections (wd_app w))]"
  by (auto simp: deleteConnection_def persist_def releaseTunnel_def setTabState_def Let_def split: option.splits if_splits sum.splits)

lemma run_op_spec: "saved_map (run_op ssh op w) = spec_op op (saved_map w)"
proof (cases op)
  case (OpSave an f)
  then show ?thesis
    using saveAndConnect_list [of f ssh an w]
    by (cases "validateForm (conn.truncate f)") (simp_all add: saved_map_def find_conn_put saveAndConnect_def)
next
  case (OpDelete can i)
  then show ?thesis using deleteConnection_list [of ssh can i w] by (simp add: saved_map_def find_conn_filter)
next
  case (OpSelect sc conns envs i)
  then show ?thesis using selectConnection_list [of w ssh sc conns envs i] by (simp add: saved_map_def same_list_def)
qed

lemma run_op_stored: "stored_in_step w \<Longrightarrow> stored_in_step (run_op ssh op w)"
proof (cases op)
  case (OpSave an f)
  then show "stored_in_step w \<Longrightarrow> ?thesis"
    using saveAndConnect_list [of f ssh an w]
    by (cases "validateForm (conn.truncate f)") (simp_all add: stored_in_step_def saveAndConnect_def)
next
  case (OpDelete can i)
  then show "stored_in_step w \<Longrightarrow> ?thesis" using deleteConnection_list [of ssh can i w] by (simp add: stored_in_step_def)
next
  case (OpSelect sc conns envs i)
  then show "stored_in_step w \<Longrightarrow> ?thesis"
    using selectConnection_list [of w ssh sc conns envs i] by (simp add: stored_in_step_def same_list_def)
qed

interpretation saved: refinement saved_map "run_op ssh" spec_op stored_in_step for ssh
  by unfold_locales (simp_all add: run_op_spec run_op_stored)

text \<open>
  C13: the saved list refines a map from ids to connections. After any sequence of saves,
  deletes and selections, whatever the host and the helper answered, a lookup finds what
  the same sequence of map updates gives (a save counts when the form is valid, also when
  its connection then fails), and the list last handed to the host is the one in memory.
\<close>

theorem saved_list_refines_map:
  assumes "stored_in_step w"
  shows "saved_map (fold (run_op ssh) ops w) = fold spec_op ops (saved_map w) \<and>
    stored_in_step (fold (run_op ssh) ops w)"
  using assms by (rule saved.runs_refine)

lemma saved_list_refines_map_witness:
  "saved_map (fold (run_op \<lparr>can_open = False, can_close = False, can_list = False\<rparr>)
     [OpSave down (conn.extend (plain_conn ''a'' ''mysql'' []) \<lparr>f_password = []\<rparr>), OpDelete True ''c''] one_conn_world)
   = [''a'' \<mapsto> plain_conn ''a'' ''mysql'' []]"
proof -
  have s: "stored_in_step one_conn_world" by (simp add: stored_in_step_def one_conn_world_def)
  have f: "validateForm (conn.truncate (conn.extend (plain_conn ''a'' ''mysql'' []) \<lparr>f_password = []\<rparr>)) = Inr ()"
    "formToPersistable (conn.extend (plain_conn ''a'' ''mysql'' []) \<lparr>f_password = []\<rparr>) = plain_conn ''a'' ''mysql'' []"
    "c_id (conn.extend (plain_conn ''a'' ''mysql'' []) \<lparr>f_password = []\<rparr>) = ''a''"
    by (simp_all add: validateForm_def formToPersistable_def conn.defs plain_conn_def)
  have m: "saved_map one_conn_world = [''c'' \<mapsto> plain_conn ''c'' ''mysql'' []]"
    by (auto simp: fun_eq_iff saved_map_def one_conn_world_def find_conn_def plain_conn_def)
  let ?ops = "[OpSave down (conn.extend (plain_conn ''a'' ''mysql'' []) \<lparr>f_password = []\<rparr>), OpDelete True ''c'']"
  have "saved_map (fold (run_op \<lparr>can_open = False, can_close = False, can_list = False\<rparr>) ?ops one_conn_world)
      = fold spec_op ?ops (saved_map one_conn_world)"
    using saved_list_refines_map [OF s] by blast
  also have "\<dots> = [''a'' \<mapsto> plain_conn ''a'' ''mysql'' []]"
    by (simp add: f m fun_eq_iff)
  finally show ?thesis .
qed

end
