(* ===== verification/CellEdit.thy ===== *)
theory CellEdit
  imports Tunnel SqlReader Columns Json EditContext Cells TableData
begin

text \<open>
  \<open>src/src/gridedit/typedEditor.js\<close> and \<open>cellEdit.js\<close>: the widget a cell's editor mounts,
  the value it resolves to, the events that commit or cancel it, and the confirmed UPDATE
  of one cell, for the table grid and for an editable query result. The user's answer to
  the confirmation and the helper's answer are arguments.
\<close>

section \<open>Widgets\<close>

datatype widget =
    WSelect "(string \<times> string) list" string
  | WPicker col_type string
  | WNumber col_type string
  | WJson string
  | WText string

definition NULL_OPTION :: string where
  "NULL_OPTION = ''__tsqlx_null__''"

definition select_options :: "col_type \<Rightarrow> bool \<Rightarrow> (string \<times> string) list" where
  "select_options type nullable = (if nullable then [(NULL_OPTION, ''(NULL)'')] else []) @
     (case type of
        TEnum opts \<Rightarrow> map (\<lambda>o'. (o', o')) opts
      | _ \<Rightarrow> [(''true'', ''true''), (''false'', ''false'')])"

definition select_initial :: "col_type \<Rightarrow> bool \<Rightarrow> jsval \<Rightarrow> string" where
  "select_initial type nullable original = (case type of
       TEnum opts \<Rightarrow>
         if is_nullish original
         then (if nullable then NULL_OPTION else (case opts of [] \<Rightarrow> [] | o' # _ \<Rightarrow> o'))
         else js_String original
     | _ \<Rightarrow>
         if is_nullish original then (if nullable then NULL_OPTION else ''false'')
         else if original = VBool True \<or> original = VNum (NInt 1) \<or> original = VStr ''1'' then ''true''
         else if original = VBool False \<or> original = VNum (NInt 0) \<or> original = VStr ''0'' then ''false''
         else if nullable then NULL_OPTION else ''false'')"

definition is_tiny :: "col_info option \<Rightarrow> bool" where
  "is_tiny colInfo = (case colInfo of None \<Rightarrow> False | Some m \<Rightarrow> toLowerCase (ci_data_type m) = ''tinyint'')"

definition resolveSel :: "col_type \<Rightarrow> col_info option \<Rightarrow> string \<Rightarrow> jsval" where
  "resolveSel type colInfo v =
     (if v = NULL_OPTION then VNull
      else if type = TBoolean then
        (if v = ''true'' then (if is_tiny colInfo then VNum (NInt 1) else VBool True)
         else if is_tiny colInfo then VNum (NInt 0) else VBool False)
      else VStr v)"

definition plain_text :: "jsval \<Rightarrow> string" where
  "plain_text v = (if is_nullish v then [] else js_String v)"

text \<open>What a number field keeps of a text set on it: anything but a number is dropped.\<close>

definition after_sign :: "char set \<Rightarrow> string \<Rightarrow> string" where
  "after_sign signs s = (case s of [] \<Rightarrow> [] | c # r \<Rightarrow> if c \<in> signs then r else s)"

definition valid_exponent :: "string \<Rightarrow> bool" where
  "valid_exponent s = (case s of [] \<Rightarrow> True
     | c # r \<Rightarrow> c \<in> {CHR ''e'', CHR ''E''} \<and>
         (let ds = after_sign {CHR ''+'', CHR ''-''} r in ds \<noteq> [] \<and> list_all is_digit_c ds))"

definition valid_float :: "string \<Rightarrow> bool" where
  "valid_float s =
     (let r = after_sign {CHR ''-''} s;
          whole = takeWhile is_digit_c r;
          r1 = dropWhile is_digit_c r
      in case r1 of
           [] \<Rightarrow> whole \<noteq> []
         | c # r2 \<Rightarrow>
             if c = CHR ''.'' then takeWhile is_digit_c r2 \<noteq> [] \<and> valid_exponent (dropWhile is_digit_c r2)
             else whole \<noteq> [] \<and> valid_exponent r1)"

definition number_field_value :: "string \<Rightarrow> string" where
  "number_field_value s = (if valid_float s then s else [])"

definition editor_widget :: "col_type \<Rightarrow> bool \<Rightarrow> jsval \<Rightarrow> widget" where
  "editor_widget type nullable original = (case type of
       TBoolean \<Rightarrow> WSelect (select_options type nullable) (select_initial type nullable original)
     | TEnum opts \<Rightarrow> WSelect (select_options type nullable) (select_initial type nullable original)
     | TDate \<Rightarrow> WPicker type (isoToInputValue type original)
     | TTime \<Rightarrow> WPicker type (isoToInputValue type original)
     | TDatetime \<Rightarrow> WPicker type (isoToInputValue type original)
     | TInteger \<Rightarrow> WNumber type (number_field_value (plain_text original))
     | TNumber \<Rightarrow> WNumber type (number_field_value (plain_text original))
     | TJson \<Rightarrow> WJson (if is_nullish original then [] else if is_object_type original then json_fmt 2 0 original
                      else js_String original)
     | _ \<Rightarrow> WText (if is_nullish original then [] else if is_object_type original then json_text original
                      else js_String original))"

text \<open>The value of a number field: an integer column keeps the whole part.\<close>

definition number_value :: "col_type \<Rightarrow> string \<Rightarrow> jsval" where
  "number_value type held = (let n = js_Number held in
     if n = NaN then VStr held
     else if type = TInteger \<and> is_safe n then VNum (num_trunc n) else VNum n)"

text \<open>\<open>resolveValue()\<close> with the text the field holds at that moment.\<close>

definition resolveValue :: "widget \<Rightarrow> string \<Rightarrow> jsval" where
  "resolveValue wd held = (case wd of
       WNumber type _ \<Rightarrow> if held = [] then VNull else number_value type held
     | WJson _ \<Rightarrow> if held = [] then VNull else (case parse_json held of Some v \<Rightarrow> v | None \<Rightarrow> VStr held)
     | WPicker type _ \<Rightarrow> inputValueToIso (js_trim held)
     | _ \<Rightarrow> if held = [] then VNull else VStr held)"

section \<open>Events\<close>

datatype editor_event =
    Pick string | Dismiss
  | Blur string | Enter bool string | Escape
  | Armed | ClickAway string | FocusOut string | PickerCommit string | PickerCancel

datatype outcome = Commit jsval | Cancel

text \<open>
  \<open>ed_done\<close> is \<open>done\<close> of a dropdown and \<open>committedOnChange\<close> of a field; \<open>ed_armed\<close> is
  \<open>docArmed\<close> of the picker's click-away listener.
\<close>

record editor =
  ed_widget :: widget
  ed_type :: col_type
  ed_colInfo :: "col_info option"
  ed_done :: bool
  ed_armed :: bool

definition select_event :: "editor \<Rightarrow> editor_event \<Rightarrow> editor \<times> outcome option" where
  "select_event ed ev = (case ev of
       Pick v \<Rightarrow> if ed_done ed then (ed, None)
                 else (ed\<lparr>ed_done := True\<rparr>, Some (Commit (resolveSel (ed_type ed) (ed_colInfo ed) v)))
     | Dismiss \<Rightarrow> if ed_done ed then (ed, None) else (ed\<lparr>ed_done := True\<rparr>, Some Cancel)
     | _ \<Rightarrow> (ed, None))"

definition on_picker :: "editor \<Rightarrow> editor_event \<Rightarrow> editor \<times> outcome option" where
  "on_picker ed ev = (case ev of
       Armed \<Rightarrow> (ed\<lparr>ed_armed := True\<rparr>, None)
     | ClickAway v \<Rightarrow> if ed_armed ed then (ed\<lparr>ed_armed := False\<rparr>, Some (Commit (resolveValue (ed_widget ed) v)))
                      else (ed, None)
     | FocusOut v \<Rightarrow> if ed_armed ed then (ed\<lparr>ed_armed := False\<rparr>, Some (Commit (resolveValue (ed_widget ed) v)))
                     else (ed, None)
     | PickerCommit v \<Rightarrow> (ed\<lparr>ed_armed := False\<rparr>, Some (Commit (inputValueToIso v)))
     | PickerCancel \<Rightarrow> (ed\<lparr>ed_armed := False\<rparr>, Some Cancel)
     | _ \<Rightarrow> (ed, None))"

definition field_event :: "editor \<Rightarrow> editor_event \<Rightarrow> editor \<times> outcome option" where
  "field_event ed ev = (case ev of
       Blur v \<Rightarrow> if ed_done ed then (ed, None)
                 else (ed\<lparr>ed_done := True\<rparr>, Some (Commit (resolveValue (ed_widget ed) v)))
     | Enter shift v \<Rightarrow>
         if shift \<and> (case ed_widget ed of WJson _ \<Rightarrow> True | _ \<Rightarrow> False) then (ed, None)
         else (ed\<lparr>ed_done := True\<rparr>, Some (Commit (resolveValue (ed_widget ed) v)))
     | Escape \<Rightarrow> (ed\<lparr>ed_done := True\<rparr>, Some Cancel)
     | _ \<Rightarrow> (ed, None))"

definition on_editor_event :: "editor \<Rightarrow> editor_event \<Rightarrow> editor \<times> outcome option" where
  "on_editor_event ed ev = (case ed_widget ed of
       WSelect _ _ \<Rightarrow> select_event ed ev
     | WPicker _ _ \<Rightarrow> on_picker ed ev
     | _ \<Rightarrow> field_event ed ev)"

definition mountTypedEditor :: "col_type \<Rightarrow> bool \<Rightarrow> jsval \<Rightarrow> col_info option \<Rightarrow> editor" where
  "mountTypedEditor type nullable original colInfo =
     \<lparr>ed_widget = editor_widget type nullable original, ed_type = type, ed_colInfo = colInfo,
      ed_done = False, ed_armed = False\<rparr>"

section \<open>The edit of one cell\<close>

record edit_spec =
  es_original :: jsval
  es_colInfo :: "col_info option"
  es_colName :: string
  es_table :: table_ref
  es_connId :: string

definition es_type :: "edit_spec \<Rightarrow> col_type" where
  "es_type spec = classifyColumnType (es_colInfo spec)"

text \<open>Opening the editor: a marker cell is refused with a message.\<close>

definition editCell :: "edit_spec \<Rightarrow> world \<Rightarrow> editor option \<times> world" where
  "editCell spec w =
     (if isBytesCell (es_original spec) then
        (let what = (if jget (es_original spec) ''__type'' = VStr ''unsupported''
                     then js_String (jget (es_original spec) ''pg_type'') @ '' values'' else ''Binary cells'')
         in (None, emit (Toast (what @ '' aren'' @ [CHR 0x27] @ ''t editable inline yet.'') ''warning'') w))
      else (Some (mountTypedEditor (es_type spec)
                    (case es_colInfo spec of None \<Rightarrow> True | Some m \<Rightarrow> ci_nullable m)
                    (es_original spec) (es_colInfo spec)), w))"

definition baseline :: "edit_spec \<Rightarrow> jsval" where
  "baseline spec = (if es_type spec \<in> {TDate, TTime, TDatetime}
     then inputValueToIso (isoToInputValue (es_type spec) (es_original spec))
     else es_original spec)"

datatype edit_result = Reverted | Saved jsval

definition update_body :: "edit_spec \<Rightarrow> (string, jsval) omap \<Rightarrow> jsval \<Rightarrow> jsval" where
  "update_body spec pkMap v = VObj [
     (''conn'', VStr (es_connId spec)), (''database'', VStr (t_database (es_table spec))),
     (''schema'', VStr (t_schema (es_table spec))), (''table'', VStr (t_table (es_table spec))),
     (''pk'', VObj pkMap), (''values'', VObj [(es_colName spec, v)])]"

text \<open>
  \<open>commit(next)\<close>. \<open>pk\<close> is what \<open>resolvePkMap\<close> answers, \<open>Inl\<close> the key column it misses;
  \<open>answer\<close> is the helper's, with the number of rows it reports, if it does.
\<close>

definition edit_commit ::
  "edit_spec \<Rightarrow> string + (string, jsval) omap \<Rightarrow> bool \<Rightarrow> string + int option \<Rightarrow> jsval \<Rightarrow> world \<Rightarrow> edit_result \<times> world" where
  "edit_commit spec pk ok answer v w =
     (if deepEqual v (baseline spec) then (Reverted, w)
      else (case pk of
          Inl k \<Rightarrow> (Reverted, emit (Toast (''Primary key '' @ k @ '' not in current grid; refresh first.'') ''warning'') w)
        | Inr pkMap \<Rightarrow>
           (let sql = buildUpdateSql (a_connections (wd_app w)) (es_connId spec) (es_table spec) pkMap [(es_colName spec, v)];
                w1 = emit (Confirm ''Apply update?'' (''Update 1 row in '' @ t_table (es_table spec) @ ''.'') (Some sql)) w
            in if \<not> ok then (Reverted, w1)
               else (let w2 = emit (Fetch ''/table-update'' ''POST'' (update_body spec pkMap v)) w1 in
                 case answer of
                   Inl e \<Rightarrow> (Reverted, emit (Toast (''Update failed: '' @ e) ''error'') w2)
                 | Inr affected \<Rightarrow>
                     if affected = Some 0
                     then (Reverted, emit (Toast ''No row matched (it may have changed). Reload the table.'' ''warning'') w2)
                     else (Saved v, upd_app (update_session (es_connId spec) (setActionSql (Some sql))) w2)))))"

section \<open>The two callers\<close>

definition cell_at :: "jsval list \<Rightarrow> nat \<Rightarrow> jsval" where
  "cell_at row k = (case nth_opt row k of Some v \<Rightarrow> v | None \<Rightarrow> VUndef)"

text \<open>The backing row of a position; the callers open an edit only where there is one.\<close>

definition row_at :: "jsval list list \<Rightarrow> nat \<Rightarrow> jsval list" where
  "row_at rows k = (case nth_opt rows k of Some row \<Rightarrow> row | None \<Rightarrow> [])"

definition set_cell :: "nat \<Rightarrow> nat \<Rightarrow> jsval \<Rightarrow> jsval list list \<Rightarrow> jsval list list" where
  "set_cell rowIdx colIdx v rows = (case nth_opt rows rowIdx of
       None \<Rightarrow> rows | Some row \<Rightarrow> rows[rowIdx := row[colIdx := v]])"

definition query_spec :: "edit_ctx \<Rightarrow> jsval list \<Rightarrow> nat \<Rightarrow> edit_spec option" where
  "query_spec ctx row colIdx = map_option (\<lambda>info.
     \<lparr>es_original = cell_at row colIdx, es_colInfo = Some info, es_colName = ci_name info,
      es_table = \<lparr>t_database = x_database ctx, t_schema = x_schema ctx, t_table = x_table ctx, t_kind = []\<rparr>,
      es_connId = x_connId ctx\<rparr>) (omap_get (x_colByIdx ctx) colIdx)"

definition query_pk_map :: "edit_ctx \<Rightarrow> jsval list \<Rightarrow> (string, jsval) omap" where
  "query_pk_map ctx row = foldl (\<lambda>m pk. omap_set m pk
     (case omap_get (x_pkResultIdx ctx) pk of Some k \<Rightarrow> cell_at row k | None \<Rightarrow> VUndef)) [] (x_pks ctx)"

definition beginQueryCellEdit :: "edit_ctx \<Rightarrow> jsval list \<Rightarrow> nat \<Rightarrow> world \<Rightarrow> editor option \<times> world" where
  "beginQueryCellEdit ctx row colIdx w = (case query_spec ctx row colIdx of
       None \<Rightarrow> (None, w) | Some spec \<Rightarrow> editCell spec w)"

text \<open>The backing row after the commit.\<close>

definition commitQueryCellEdit ::
  "edit_ctx \<Rightarrow> jsval list \<Rightarrow> nat \<Rightarrow> bool \<Rightarrow> string + int option \<Rightarrow> jsval \<Rightarrow> world \<Rightarrow> jsval list \<times> world" where
  "commitQueryCellEdit ctx row colIdx ok answer v w = (case query_spec ctx row colIdx of
       None \<Rightarrow> (row, w)
     | Some spec \<Rightarrow> (case edit_commit spec (Inr (query_pk_map ctx row)) ok answer v w of
         (Reverted, w1) \<Rightarrow> (row, w1)
       | (Saved u, w1) \<Rightarrow> (row[colIdx := u], w1)))"

fun table_pk_map :: "string list \<Rightarrow> jsval list \<Rightarrow> string list \<Rightarrow> (string, jsval) omap \<Rightarrow> string + (string, jsval) omap" where
  "table_pk_map columns row [] m = Inr m"
| "table_pk_map columns row (pk # pks) m = (case index_of columns pk of
       None \<Rightarrow> Inl pk
     | Some k \<Rightarrow> table_pk_map columns row pks (omap_set m pk (cell_at row k)))"

text \<open>An open edit of the table grid: the grid it was opened on, and what was read then.\<close>

record table_edit =
  te_snap :: snapshot
  te_row :: nat
  te_col :: nat
  te_pks :: "string list"
  te_spec :: edit_spec

text \<open>
  After the key columns arrived: the grid is the one seen at the double click, the table is
  the one active by now. (With no active table left the widget opens, but its commit throws;
  the model opens none. A position outside the grid throws at its row, and has an undefined
  column name where only the column is missing.)
\<close>

definition cell_edit_of :: "nat \<Rightarrow> nat \<Rightarrow> snapshot \<Rightarrow> string list \<Rightarrow> session \<Rightarrow> (string + table_edit) option" where
  "cell_edit_of rowIdx colIdx snap pks s =
     (if pks = [] then Some (Inl ''Cannot edit: table has no primary key.'')
      else (case s_activeTable s of
          None \<Rightarrow> None
        | Some t \<Rightarrow>
           (let col = nth_opt (sn_columns snap) colIdx;
                cols = (case s_pkCache s of Some c \<Rightarrow> pk_columns c | None \<Rightarrow> [])
            in map_option (\<lambda>row. Inr \<lparr>te_snap = snap, te_row = rowIdx, te_col = colIdx, te_pks = pks,
                  te_spec = \<lparr>es_original = cell_at row colIdx,
                    es_colInfo = find_first (\<lambda>c. Some (ci_name c) = col) cols,
                    es_colName = (case col of Some n \<Rightarrow> n | None \<Rightarrow> ''undefined''),
                    es_table = t, es_connId = s_connId s\<rparr>\<rparr>) (nth_opt (sn_rows snap) rowIdx))))"

text \<open>The whole of it, when nothing happens while the key columns are fetched.\<close>

definition beginCellEdit ::
  "(string \<Rightarrow> col_info list) \<Rightarrow> nat \<Rightarrow> nat \<Rightarrow> session \<Rightarrow> (string + table_edit) option \<times> session" where
  "beginCellEdit fetch rowIdx colIdx s = (case (s_tableSnapshot s, s_activeTable s) of
       (Some snap, Some t) \<Rightarrow>
        (let (pks, s1) = ensurePkColumns fetch s t in (cell_edit_of rowIdx colIdx snap pks s1, s1))
     | _ \<Rightarrow> (None, s))"

text \<open>The grid's rows after the commit.\<close>

definition commitCellEdit ::
  "table_edit \<Rightarrow> bool \<Rightarrow> string + int option \<Rightarrow> jsval \<Rightarrow> world \<Rightarrow> snapshot \<times> world" where
  "commitCellEdit te ok answer v w =
     (let snap = te_snap te;
          pk = table_pk_map (sn_columns snap) (row_at (sn_rows snap) (te_row te)) (te_pks te) []
      in case edit_commit (te_spec te) pk ok answer v w of
           (Reverted, w1) \<Rightarrow> (snap, w1)
         | (Saved u, w1) \<Rightarrow> (snap\<lparr>sn_rows := set_cell (te_row te) (te_col te) u (sn_rows snap)\<rparr>, w1))"


section \<open>An untouched editor\<close>

lemma scan_exp_valid: "scan_exp r = (e, []) \<Longrightarrow> valid_exponent r"
  by (cases r) (auto simp: scan_exp_def valid_exponent_def after_sign_def Let_def list_all_iff dropWhile_eq_Nil_conv
      split: if_splits list.splits)

lemma valid_body:
  assumes "scan_number t = (ip, fp, e, [])" "plain_number ip fp (dropWhile is_digit_c t)"
    and "after_sign {CHR ''-''} s = t"
  shows "valid_float s"
proof -
  let ?r = "dropWhile is_digit_c t"
  obtain r1 where f: "scan_fraction ?r = (fp, r1)" "scan_exp r1 = (e, [])" and ip: "ip = takeWhile is_digit_c t"
    using assms(1) by (auto simp: scan_number_def split: prod.splits)
  have ne: "ip \<noteq> []" "?r \<noteq> [] \<and> hd ?r = CHR ''.'' \<longrightarrow> fp \<noteq> []" using assms(2) by (simp_all add: plain_number_def)
  show ?thesis
  proof (cases ?r)
    case Nil
    then show ?thesis unfolding valid_float_def assms(3) Let_def Nil using ne(1) ip by (simp only: list.case not_False_eq_True)
  next
    case (Cons c r2)
    then show ?thesis
      using ne ip f scan_exp_valid [OF f(2)]
      by (auto simp: valid_float_def assms(3) Let_def scan_fraction_def split: if_splits)
  qed
qed

lemma valid_float_text:
  assumes "is_finite n"
  shows "valid_float (num_to_string n)"
proof (cases "fst (num_frac n) < 0")
  case True
  with scan_abs_text [of "neg_num n" "[]"] neg_frac [OF assms] assms obtain ip fp e where
    "scan_number (abs_text (neg_num n)) = (ip, fp, e, [])" "plain_number ip fp (dropWhile is_digit_c (abs_text (neg_num n)))"
    by (auto simp: num_ends_def)
  from valid_body [OF this, of "num_to_string n"] True show ?thesis
    by (simp add: num_to_string_abs [OF assms] after_sign_def)
next
  case False
  with scan_abs_text [OF assms, of "[]"] obtain ip fp e where
    s: "scan_number (abs_text n) = (ip, fp, e, [])" "plain_number ip fp (dropWhile is_digit_c (abs_text n))"
    by (auto simp: num_ends_def)
  obtain c w where "abs_text n = c # w" "is_digit_c c" using abs_text_start [OF assms] False by auto
  then have "after_sign {CHR ''-''} (abs_text n) = abs_text n" by (auto simp: after_sign_def is_digit_c_code)
  from valid_body [OF s this] False show ?thesis by (simp add: num_to_string_abs [OF assms])
qed

lemma number_value_text:
  assumes "is_double n" "is_finite n" "ty = TInteger \<longrightarrow> (\<exists>i. n = NInt i)"
  shows "number_value ty (num_to_string n) = VNum n"
  using number_round_trip [OF assms(1)] assms(2,3) by (auto simp: number_value_def Let_def)

text \<open>The text the untouched widget of a cell holds.\<close>

fun held_text :: "widget \<Rightarrow> string" where
  "held_text (WSelect opts v) = v"
| "held_text (WPicker ty v) = v"
| "held_text (WNumber ty v) = v"
| "held_text (WJson v) = v"
| "held_text (WText v) = v"

definition untouched_value :: "edit_spec \<Rightarrow> editor \<Rightarrow> jsval" where
  "untouched_value spec ed = (case ed_widget ed of
       WSelect opts v \<Rightarrow> resolveSel (ed_type ed) (ed_colInfo ed) v
     | wd \<Rightarrow> resolveValue wd (held_text wd))"

definition nullable_col :: "edit_spec \<Rightarrow> bool" where
  "nullable_col spec = (case es_colInfo spec of None \<Rightarrow> True | Some m \<Rightarrow> ci_nullable m)"

text \<open>The cells an untouched editor is expected to leave alone.\<close>

definition plain_original :: "edit_spec \<Rightarrow> bool" where
  "plain_original spec =
     (let v = es_original spec in case es_type spec of
        TBoolean \<Rightarrow> isBoolish v \<or> v = VNull \<and> nullable_col spec
      | TEnum opts \<Rightarrow> (\<exists>s. v = VStr s \<and> s \<noteq> NULL_OPTION) \<or> v = VNull \<and> nullable_col spec
      | TDate \<Rightarrow> trimmed (isoToInputValue TDate v)
      | TTime \<Rightarrow> trimmed (isoToInputValue TTime v)
      | TDatetime \<Rightarrow> trimmed (isoToInputValue TDatetime v)
      | TInteger \<Rightarrow> v = VNull \<or> (\<exists>i. v = VNum (NInt i) \<and> is_double (NInt i))
      | TNumber \<Rightarrow> v = VNull \<or> (\<exists>n. v = VNum n \<and> is_finite n \<and> is_double n)
      | TJson \<Rightarrow> v = VNull \<or> is_object_type v \<and> json_plain v
      | _ \<Rightarrow> v = VNull \<or> (\<exists>s. v = VStr s \<and> s \<noteq> []))"

lemma deepEqual_refl: "v \<noteq> VNum NaN \<Longrightarrow> deepEqual v v"
  by (simp add: deepEqual_iff)

lemma json_fmt_not_Nil: "json_plain v \<Longrightarrow> json_fmt ind d v \<noteq> []"
  using json_fmt_start [of v ind d] by auto

lemma untouched_number:
  assumes "v = VNull \<or> (\<exists>n. v = VNum n \<and> is_finite n \<and> is_double n \<and> (ty = TInteger \<longrightarrow> (\<exists>i. n = NInt i)))"
  shows "resolveValue (WNumber ty (number_field_value (plain_text v))) (number_field_value (plain_text v)) = v"
proof (cases "v = VNull")
  case False
  then obtain n where n: "v = VNum n" "is_finite n" "is_double n" "ty = TInteger \<longrightarrow> (\<exists>i. n = NInt i)" using assms by blast
  have "num_to_string n \<noteq> []" using num_text_start [OF n(2)] by auto
  then show ?thesis
    using number_value_text [OF n(3,2,4)] valid_float_text [OF n(2)]
    by (simp add: n(1) resolveValue_def number_field_value_def plain_text_def)
qed (simp add: resolveValue_def number_field_value_def plain_text_def valid_float_def after_sign_def)

lemma untouched_picker: "trimmed s \<Longrightarrow> resolveValue (WPicker ty s) s = inputValueToIso s"
  by (simp add: resolveValue_def trimmed_js_trim)

lemma untouched_text: "resolveValue (WText s) s = (if s = [] then VNull else VStr s)"
  by (simp add: resolveValue_def)

lemma untouched_boolean:
  assumes "isBoolish v \<or> v = VNull \<and> nullable"
  shows "deepEqual (resolveSel TBoolean info (select_initial TBoolean nullable v)) v"
  using assms
  by (cases v rule: isBoolish.cases)
     (auto simp: resolveSel_def select_initial_def NULL_OPTION_def deepEqual_iff bool_value_def)

lemma untouched_enum:
  assumes "(\<exists>s. v = VStr s \<and> s \<noteq> NULL_OPTION) \<or> v = VNull \<and> nullable"
  shows "resolveSel (TEnum opts) info (select_initial (TEnum opts) nullable v) = v"
  using assms by (auto simp: resolveSel_def select_initial_def)

lemma untouched_json:
  assumes "v = VNull \<or> is_object_type v \<and> json_plain v"
    and "s = (if is_nullish v then [] else if is_object_type v then json_fmt 2 0 v else js_String v)"
  shows "resolveValue (WJson s) s = v \<and> v \<noteq> VNum NaN"
  using assms parse_json_fmt [of v 2] json_fmt_not_Nil [of v 2 0]
  by (cases v) (auto simp: resolveValue_def)



text \<open>An empty text, and a number field's text that is no number, do become NULL.\<close>

definition text_spec :: "string \<Rightarrow> jsval \<Rightarrow> edit_spec" where
  "text_spec type v = \<lparr>es_original = v, es_colInfo = Some (size_column\<lparr>ci_data_type := type, ci_full_type := type\<rparr>),
     es_colName = ''note'', es_table = demo_table ''t'', es_connId = ''c''\<rparr>"

lemma untouched_empty_text_becomes_null:
  "let spec = text_spec ''text'' (VStr []);
       ed = the (fst (editCell spec empty_world));
       sent = snd (edit_commit spec (Inr [(''id'', VNum (NInt 1))]) True (Inr (Some 1)) (untouched_value spec ed) empty_world)
   in requests (wd_trace sent) = [(''/table-update'', update_body spec [(''id'', VNum (NInt 1))] VNull)]"
  by code_simp

lemma untouched_money_becomes_null:
  "let spec = text_spec ''money'' (VStr ''$5.00'');
       ed = the (fst (editCell spec empty_world))
   in untouched_value spec ed = VNull \<and> \<not> deepEqual VNull (baseline spec)"
  by code_simp

text \<open>
  The helper sends a BIGINT beyond 53 bits and every DECIMAL as text, to keep their digits. The
  number field reads that text as a double: leaving it untouched proposes another value, and
  an integer field drops what follows the point.
\<close>

lemma untouched_bigint_is_rounded:
  "let spec = text_spec ''bigint'' (VStr ''9007199254740993'');
       ed = the (fst (editCell spec empty_world));
       sent = snd (edit_commit spec (Inr [(''id'', VNum (NInt 1))]) True (Inr (Some 1)) (untouched_value spec ed) empty_world)
   in requests (wd_trace sent) =
        [(''/table-update'', update_body spec [(''id'', VNum (NInt 1))] (VNum (NInt 9007199254740992)))]"
  by code_simp

lemma untouched_decimal_proposes_update:
  "let spec = text_spec ''decimal'' (VStr ''12.50'');
       ed = the (fst (editCell spec empty_world))
   in untouched_value spec ed = VNum (NFrac 25 1) \<and> \<not> deepEqual (VNum (NFrac 25 1)) (baseline spec)"
  by code_simp

lemma integer_field_truncates: "resolveValue (WNumber TInteger []) ''1.9'' = VNum (NInt 1)"
  by code_simp

section \<open>What an edit writes\<close>

lemma table_pk_map_spec:
  "table_pk_map columns row pks m = Inr m' \<Longrightarrow>
     set (omap_keys m') = set (omap_keys m) \<union> set pks \<and>
     (\<forall>pk. omap_get m' pk = (if pk \<in> set pks
        then map_option (cell_at row) (index_of columns pk) else omap_get m pk)) \<and>
     (\<forall>pk \<in> set pks. index_of columns pk \<noteq> None)"
proof (induction pks arbitrary: m)
  case (Cons pk pks)
  then obtain k where k: "index_of columns pk = Some k"
    "table_pk_map columns row pks (omap_set m pk (cell_at row k)) = Inr m'"
    by (auto split: option.splits)
  from Cons.IH [OF k(2)] k(1) show ?case
    by (auto simp: omap_get_set omap_keys_set split: if_splits)
qed simp

definition edit_plan :: "table_edit \<Rightarrow> jsval \<Rightarrow> (string, jsval) omap option" where
  "edit_plan te v =
     (if deepEqual v (baseline (te_spec te)) then None
      else (case table_pk_map (sn_columns (te_snap te)) (row_at (sn_rows (te_snap te)) (te_row te)) (te_pks te) [] of
          Inl _ \<Rightarrow> None | Inr m \<Rightarrow> Some m))"

lemma edit_commit_requests:
  "requests (wd_trace (snd (edit_commit spec pk ok answer v w))) = requests (wd_trace w) @
     (case pk of Inl _ \<Rightarrow> [] | Inr m \<Rightarrow>
        if ok \<and> \<not> deepEqual v (baseline spec) then [(''/table-update'', update_body spec m v)] else [])"
  by (auto simp: edit_commit_def Let_def split: sum.splits)

lemma edit_commit_saved:
  assumes "edit_commit spec pk ok answer v w = (Saved u, w')"
  shows "u = v \<and> ok \<and> \<not> deepEqual v (baseline spec) \<and> (\<exists>a. answer = Inr a \<and> a \<noteq> Some 0) \<and>
    (\<exists>m. pk = Inr m \<and> s_actionSql (session_of (wd_app w') (es_connId spec)) =
       Some (buildUpdateSql (a_connections (wd_app w)) (es_connId spec) (es_table spec) m [(es_colName spec, v)]))"
  using assms
  by (auto simp: edit_commit_def Let_def update_session_def session_of_def setActionSql_def buildUpdateSql_def
      omap_get_set split: sum.splits if_splits)

text \<open>
  C4: committing a cell of the table grid sends at most one update, only when the value
  changed, every key column is in the grid and the user confirmed; it addresses the row by
  its own key values and sets only the edited column. The grid changes in that one cell
  and only after the helper reported a matched row, and the statement then shown reads
  back as that table, that column and that key.
\<close>

theorem cell_edit_updates_its_row:
  assumes "te_pks te \<noteq> []" and "out = commitCellEdit te ok answer v w"
    and "row = row_at (sn_rows (te_snap te)) (te_row te)" and "spec = te_spec te"
  shows "requests (wd_trace (snd out)) = requests (wd_trace w) @
      (case edit_plan te v of None \<Rightarrow> [] | Some m \<Rightarrow> if ok then [(''/table-update'', update_body spec m v)] else []) \<and>
    (\<forall>m. edit_plan te v = Some m \<longrightarrow> set (omap_keys m) = set (te_pks te) \<and>
       (\<forall>pk \<in> set (te_pks te). \<exists>k. index_of (sn_columns (te_snap te)) pk = Some k \<and> omap_get m pk = Some (cell_at row k))) \<and>
    (fst out = te_snap te \<or>
       fst out = (te_snap te)\<lparr>sn_rows := set_cell (te_row te) (te_col te) v (sn_rows (te_snap te))\<rparr> \<and>
       ok \<and> (\<exists>a. answer = Inr a \<and> a \<noteq> Some 0) \<and>
       (\<exists>m sql. edit_plan te v = Some m \<and>
          s_actionSql (session_of (wd_app (snd out)) (es_connId spec)) = Some sql \<and>
          read_update (sqlConnKind (a_connections (wd_app w)) (es_connId spec)) sql =
            Some (name_parts (es_table spec), lit_values [(es_colName spec, v)], lit_values m)))"
    (is "?sends \<and> ?key \<and> ?grid")
proof (intro conjI)
  let ?pk = "table_pk_map (sn_columns (te_snap te)) row (te_pks te) []"
  obtain r w' where c: "edit_commit spec ?pk ok answer v w = (r, w')" by fastforce
  have out: "snd out = w'" "fst out = (case r of Reverted \<Rightarrow> te_snap te
      | Saved u \<Rightarrow> (te_snap te)\<lparr>sn_rows := set_cell (te_row te) (te_col te) u (sn_rows (te_snap te))\<rparr>)"
    using c unfolding assms(2-4) by (auto simp: commitCellEdit_def Let_def split: edit_result.splits)
  show ?sends
    using edit_commit_requests [of spec ?pk ok answer v w] c assms(3,4)
    by (auto simp: out edit_plan_def split: sum.splits)
  show key: ?key
    using table_pk_map_spec [of "sn_columns (te_snap te)" row "te_pks te" "[]"] assms(3)
    by (fastforce simp: edit_plan_def omap_keys_def split: sum.splits if_splits)
  show ?grid
  proof (cases r)
    case (Saved u)
    from edit_commit_saved [OF c [unfolded Saved]] obtain m where
      s: "u = v" "ok" "\<exists>a. answer = Inr a \<and> a \<noteq> Some 0" "?pk = Inr m" "\<not> deepEqual v (baseline spec)"
        "s_actionSql (session_of (wd_app w') (es_connId spec)) =
           Some (buildUpdateSql (a_connections (wd_app w)) (es_connId spec) (es_table spec) m [(es_colName spec, v)])"
      by blast
    have plan: "edit_plan te v = Some m" using s(4,5) assms(3,4) by (simp add: edit_plan_def)
    with key assms(1) have "m \<noteq> []" by (auto simp: omap_keys_def)
    from read_update_text [OF this, of "[(es_colName spec, v)]"] s plan show ?thesis
      by (simp add: out Saved)
  qed (simp add: out)
qed

definition people_grid :: snapshot where
  "people_grid = \<lparr>sn_columns = [''id'', ''name''], sn_rows = [[VNum (NInt 1), VStr ''a''], [VNum (NInt 2), VStr ''b'']],
     sn_page = 0, sn_page_size = 10, sn_total = Some 2, sn_total_estimated = False, sn_elapsed_ms = 1\<rparr>"

definition name_edit :: table_edit where
  "name_edit = \<lparr>te_snap = people_grid, te_row = 1, te_col = 1, te_pks = [''id''],
     te_spec = \<lparr>es_original = VStr ''b'', es_colInfo = None, es_colName = ''name'',
        es_table = demo_table ''people'', es_connId = ''c''\<rparr>\<rparr>"

lemma cell_edit_updates_its_row_witness:
  "requests (wd_trace (snd (commitCellEdit name_edit True (Inr (Some 1)) (VStr ''z'') empty_world))) =
     [(''/table-update'', update_body (te_spec name_edit) [(''id'', VNum (NInt 2))] (VStr ''z''))]"
proof -
  have "edit_plan name_edit (VStr ''z'') = Some [(''id'', VNum (NInt 2))]" by code_simp
  moreover have "requests (wd_trace empty_world) = []" by (simp add: empty_world_def)
  ultimately show ?thesis
    using cell_edit_updates_its_row [OF _ refl refl refl, of name_edit True "Inr (Some 1)" "VStr ''z''" empty_world]
    by (simp add: name_edit_def)
qed

text \<open>
  The table is read after the wait for the key columns. When another table was opened
  meanwhile, the edit of a row of the first one is addressed to the second.
\<close>

lemma cell_edit_after_switch:
  "let before = (new_session ''c'')\<lparr>s_activeTable := Some (demo_table ''people''), s_tableSnapshot := Some people_grid\<rparr>;
       after_wait = fst (openTable [] (demo_table ''orders'') before)
   in map_option (map_sum id (\<lambda>te. (es_table (te_spec te), te_snap te, edit_plan te (VStr ''z''))))
        (cell_edit_of 1 1 people_grid [''id''] after_wait) =
      Some (Inr (demo_table ''orders'', people_grid, Some [(''id'', VNum (NInt 2))]))"
  by code_simp

section \<open>The confirmation\<close>

interpretation edit_gate: confirmed_action "\<lambda>ok w. snd (edit_commit spec pk ok answer v w)" for spec pk answer v
  by unfold_locales (auto simp: edit_commit_def Let_def split: sum.splits)

end
