(* ===== verification/RowOps.thy ===== *)
theory RowOps
  imports CellEdit
begin

text \<open>
  \<open>src/src/gridedit/rowOps.js\<close> and \<open>structure.js\<close>: deleting a row of the table grid, the
  typed fields of the insert dialog and its submission, and the read-only structure view
  with its tabs, which load when they are shown. A request and the answer that follows are
  two steps where another handler can run in between.
\<close>

section \<open>Deleting a row\<close>

text \<open>After the key columns arrived: what is asked of the user, or the message shown instead.\<close>

record delete_plan =
  dp_table :: table_ref
  dp_pk :: "(string, jsval) omap"
  dp_sql :: string

text \<open>A row that is gone throws at the first key column the grid has; nothing is asked then.\<close>

definition delete_plan_of ::
  "conn list \<Rightarrow> nat \<Rightarrow> snapshot \<Rightarrow> string list \<Rightarrow> session \<Rightarrow> (string + delete_plan) option" where
  "delete_plan_of cs rowIdx snap pks s =
     (if pks = [] then Some (Inl ''Cannot delete: table has no primary key.'')
      else if nth_opt (sn_rows snap) rowIdx = None \<and> index_of (sn_columns snap) (hd pks) \<noteq> None then None
      else (case table_pk_map (sn_columns snap) (row_at (sn_rows snap) rowIdx) pks [] of
          Inl pk \<Rightarrow> Some (Inl (''Primary key '' @ pk @ '' not in grid; refresh first.''))
        | Inr pkMap \<Rightarrow> map_option (\<lambda>t. Inr \<lparr>dp_table = t, dp_pk = pkMap,
             dp_sql = buildDeleteSql cs (s_connId s) t pkMap\<rparr>) (s_activeTable s)))"

definition delete_body :: "string \<Rightarrow> table_ref \<Rightarrow> (string, jsval) omap \<Rightarrow> jsval" where
  "delete_body connId t pk = VObj [(''conn'', VStr connId), (''database'', VStr (t_database t)),
     (''schema'', VStr (t_schema t)), (''table'', VStr (t_table t)), (''pk'', VObj pk)]"

text \<open>The reload of the current page with its answer, as the part of the session it changes.\<close>

record reload =
  rl_columns :: "(string \<Rightarrow> col_info list) option"
  rl_answer :: "string + snapshot option"
  rl_elapsed :: int

definition reload_page :: "string \<Rightarrow> int \<Rightarrow> reload \<Rightarrow> world \<Rightarrow> world" where
  "reload_page connId page rl w =
     (case load_start (session_of (wd_app w) connId) page of
        None \<Rightarrow> w
      | Some p \<Rightarrow>
         (let w1 = emit (Fetch ''/table-rows'' ''POST'' (pd_body p)) w;
              (msg, s) = load_finish (a_connections (wd_app w1)) (rl_columns rl) p (rl_answer rl) (rl_elapsed rl)
                  (session_of (wd_app w1) connId);
              w2 = upd_app (update_session connId (\<lambda>_. s)) w1
          in case msg of None \<Rightarrow> w2 | Some m \<Rightarrow> emit (Toast m ''error'') w2))"

text \<open>
  The dialog shows the statement. Once it is answered, the request takes its key from the plan,
  but its table from the session as it is by then.
\<close>

definition delete_ask :: "delete_plan \<Rightarrow> world \<Rightarrow> world" where
  "delete_ask p w = emit (Confirm ''Delete row?''
     (''This deletes the row below and can'' @ [CHR 0x27] @ ''t be undone.'') (Some (dp_sql p))) w"

definition delete_confirmed ::
  "snapshot \<Rightarrow> delete_plan \<Rightarrow> bool \<Rightarrow> string + int option \<Rightarrow> reload \<Rightarrow> string \<Rightarrow> world \<Rightarrow> world" where
  "delete_confirmed snap p ok answer rl connId w =
     (if \<not> ok then w
      else (case s_activeTable (session_of (wd_app w) connId) of
          None \<Rightarrow> emit (Toast (''Delete failed: '' @ null_read ''database'') ''error'') w
        | Some t \<Rightarrow>
           (let w2 = emit (Fetch ''/table-delete'' ''POST'' (delete_body connId t (dp_pk p))) w in
            case answer of
              Inl e \<Rightarrow> emit (Toast (''Delete failed: '' @ e) ''error'') w2
            | Inr affected \<Rightarrow>
               (let w3 = reload_page connId (sn_page snap) rl
                      (upd_app (update_session connId invalidateRowCount) w2);
                    w4 = upd_app (update_session connId (setActionSql (Some (dp_sql p)))) w3
                in if affected = Some 0
                   then emit (Toast ''No row matched (it may already be gone).'' ''warning'') w4
                   else emit (Toast ''Row deleted'' ''success'') w4))))"

text \<open>The whole of it, when nothing happens while the dialog is open.\<close>

definition deleteRowFromGrid ::
  "nat \<Rightarrow> snapshot \<Rightarrow> string list \<Rightarrow> bool \<Rightarrow> string + int option \<Rightarrow> reload \<Rightarrow> string \<Rightarrow> world \<Rightarrow> world" where
  "deleteRowFromGrid rowIdx snap pks ok answer rl connId w =
     (case delete_plan_of (a_connections (wd_app w)) rowIdx snap pks (session_of (wd_app w) connId) of
        None \<Rightarrow> w
      | Some (Inl m) \<Rightarrow> emit (Toast m ''warning'') w
      | Some (Inr p) \<Rightarrow> delete_confirmed snap p ok answer rl connId (delete_ask p w))"

section \<open>Inserting a row\<close>

datatype insert_field =
    ISelect "(string \<times> string) list"
  | IDate col_type
  | INumber col_type
  | IText

definition DEFAULT_OPTION :: string where
  "DEFAULT_OPTION = ''__tsqlx_default__''"

definition makeInsertField :: "col_info \<Rightarrow> insert_field" where
  "makeInsertField col =
     (let type = classifyColumnType (Some col);
          head_opts = [(DEFAULT_OPTION, ''(default)'')] @ (if ci_nullable col then [(NULL_OPTION, ''(NULL)'')] else [])
      in case type of
           TBoolean \<Rightarrow> ISelect (head_opts @ [(''true'', ''true''), (''false'', ''false'')])
         | TEnum opts \<Rightarrow> ISelect (head_opts @ map (\<lambda>o'. (o', o')) opts)
         | TDate \<Rightarrow> IDate type | TTime \<Rightarrow> IDate type | TDatetime \<Rightarrow> IDate type
         | TInteger \<Rightarrow> INumber type | TNumber \<Rightarrow> INumber type
         | _ \<Rightarrow> IText)"

text \<open>What an untouched field holds.\<close>

definition field_initial :: "insert_field \<Rightarrow> string" where
  "field_initial fld = (case fld of ISelect _ \<Rightarrow> DEFAULT_OPTION | _ \<Rightarrow> [])"

text \<open>\<open>resolve()\<close>: \<open>None\<close> leaves the column out.\<close>

definition resolve_field :: "col_info \<Rightarrow> string \<Rightarrow> jsval option" where
  "resolve_field col held = (case makeInsertField col of
       ISelect _ \<Rightarrow>
         if held = DEFAULT_OPTION then None
         else if held = NULL_OPTION then Some VNull
         else if classifyColumnType (Some col) = TBoolean
         then Some (let truthy' = (held = ''true'') in
                if is_tiny (Some col) then VNum (NInt (if truthy' then 1 else 0)) else VBool truthy')
         else Some (VStr held)
     | IDate _ \<Rightarrow> let v = js_trim held in if v = [] then None else Some (inputValueToIso v)
     | INumber _ \<Rightarrow> if held = [] then None
         else Some (number_value (classifyColumnType (Some col)) held)
     | IText \<Rightarrow> if held = [] then None else Some (VStr held))"

text \<open>\<open>entries\<close> holds the dialog's entries by column name; a later column of the same name wins.\<close>

definition insert_values :: "(string, col_info \<times> string) omap \<Rightarrow> (string, jsval) omap" where
  "insert_values entries = foldl (\<lambda>vals (name, (col, held)). case resolve_field col held of
       None \<Rightarrow> vals | Some v \<Rightarrow> omap_set vals name v) [] entries"

definition insert_fields :: "col_info list \<Rightarrow> (string, col_info \<times> string) omap" where
  "insert_fields cols = omap_of (map (\<lambda>c. (ci_name c, (c, field_initial (makeInsertField c)))) cols)"

definition field_label :: "col_info \<Rightarrow> string" where
  "field_label col = ci_name col @ (if ci_is_primary col then '' (PK)'' else []) @ (if \<not> ci_nullable col then '' *'' else [])"

definition insert_body :: "string \<Rightarrow> table_ref \<Rightarrow> (string, jsval) omap \<Rightarrow> jsval" where
  "insert_body connId t vals = VObj [(''conn'', VStr connId), (''database'', VStr (t_database t)),
     (''schema'', VStr (t_schema t)), (''table'', VStr (t_table t)), (''values'', VObj vals), (''pk'', VObj [])]"

text \<open>
  Pressing Insert with the dialog's entries: \<open>Some\<close> the message left in the dialog, or
  \<open>None\<close> when it closed.
\<close>

definition submit_insert ::
  "(string, col_info \<times> string) omap \<Rightarrow> string + unit \<Rightarrow> reload \<Rightarrow> string \<Rightarrow> world \<Rightarrow> string option \<times> world" where
  "submit_insert entries answer rl connId w =
     (case s_activeTable (session_of (wd_app w) connId) of
        None \<Rightarrow> (Some (null_read ''database''), w)
      | Some t \<Rightarrow>
         (let vals = insert_values entries;
              w1 = emit (Fetch ''/table-insert'' ''POST'' (insert_body connId t vals)) w
          in case answer of
               Inl e \<Rightarrow> (Some e, w1)
             | Inr _ \<Rightarrow>
                (let s = session_of (wd_app w1) connId;
                     w2 = reload_page connId (case s_tableSnapshot s of Some n \<Rightarrow> sn_page n | None \<Rightarrow> 0) rl
                       (upd_app (update_session connId invalidateRowCount) w1);
                     w3 = upd_app (update_session connId
                       (setActionSql (Some (buildInsertSql (a_connections (wd_app w2)) connId t vals)))) w2
                 in (None, emit (Toast (''Inserted row into '' @ t_table t) ''success'') w3))))"

section \<open>The structure view\<close>

definition tableQuery :: "string \<Rightarrow> table_ref \<Rightarrow> string" where
  "tableQuery connId t = ''conn='' @ encodeURIComponent connId @ ''&database='' @ encodeURIComponent (t_database t) @
     ''&schema='' @ encodeURIComponent (t_schema t) @ ''&table='' @ encodeURIComponent (t_table t)"

definition summary_text :: "nat \<Rightarrow> string \<Rightarrow> string option \<Rightarrow> string" where
  "summary_text count singular plural = nat_to_string count @ '' '' @
     (if count = 1 then singular else (case plural of Some p \<Rightarrow> p | None \<Rightarrow> singular @ ''s''))"

text \<open>What a tab shows: a note, or a count above a table of texts, or a statement.\<close>

datatype tab_view =
    VLoading | VNote string | VTable string "string list" "string list list" | VDdl string | VFailed string

definition column_row :: "nat \<Rightarrow> int option \<times> col_info \<Rightarrow> string list" where
  "column_row i oc = (let c = snd oc in
     [case fst oc of Some n \<Rightarrow> int_to_string n | None \<Rightarrow> nat_to_string (Suc i), ci_name c,
      or_text (ci_full_type c) (ci_data_type c),
      if \<not> ci_nullable c then ''NO'' else ''YES'',
      if ci_is_primary c then ''PRI'' else [],
      if is_nullish (ci_default c) then [] else js_String (ci_default c),
      if ci_auto_increment c then ''auto_increment'' else []])"

text \<open>Each column with the ordinal the answer gives it, if any.\<close>

definition renderColumns :: "(int option \<times> col_info) list option \<Rightarrow> tab_view" where
  "renderColumns columns = (case columns of
       None \<Rightarrow> VNote ''No column metadata available.''
     | Some [] \<Rightarrow> VNote ''No column metadata available.''
     | Some cs \<Rightarrow> VTable (summary_text (length cs) ''column'' None)
         [''#'', ''Column'', ''Type'', ''Null'', ''Key'', ''Default'', ''Extra'']
         (map (\<lambda>(i, c). column_row i c) (enumerate 0 cs)))"

record index_info =
  ix_name :: string
  ix_columns :: "string list"
  ix_primary :: bool
  ix_unique :: bool
  ix_algorithm :: string

definition renderIndexes :: "index_info list \<Rightarrow> tab_view" where
  "renderIndexes ixs = (if ixs = [] then VNote ''No indexes on this table.''
     else VTable (summary_text (length ixs) ''index'' (Some ''indexes'')) [''Name'', ''Columns'', ''Kind'', ''Method'']
       (map (\<lambda>i. [ix_name i, js_join '', '' (ix_columns i),
          if ix_primary i then ''PRIMARY'' else if ix_unique i then ''UNIQUE'' else ''INDEX'', ix_algorithm i]) ixs))"

record fk_info =
  fk_name :: string
  fk_columns :: "string list"
  fk_ref_schema :: string
  fk_ref_table :: string
  fk_ref_columns :: "string list"
  fk_on_update :: string
  fk_on_delete :: string

definition renderForeignKeys :: "fk_info list \<Rightarrow> tab_view" where
  "renderForeignKeys fks = (if fks = [] then VNote ''No foreign keys on this table.''
     else VTable (summary_text (length fks) ''foreign key'' None)
       [''Name'', ''Columns'', ''References'', ''Ref columns'', ''On update'', ''On delete'']
       (map (\<lambda>f. [fk_name f, js_join '', '' (fk_columns f),
          js_join ''.'' (filter (\<lambda>x. x \<noteq> []) [fk_ref_schema f, fk_ref_table f]),
          js_join '', '' (fk_ref_columns f), fk_on_update f, fk_on_delete f]) fks))"

definition renderDdl :: "string \<Rightarrow> tab_view" where
  "renderDdl ddl = (let d = js_trim ddl in
     if d = [] then VNote ''No CREATE statement available for this object.'' else VDdl d)"

text \<open>The dialog: the tab marked active and what its body shows.\<close>

datatype tab = ColumnsTab | IndexesTab | FksTab | DdlTab

definition TABS :: "(tab \<times> string) list" where
  "TABS = [(ColumnsTab, ''Columns''), (IndexesTab, ''Indexes''), (FksTab, ''Foreign keys''), (DdlTab, ''DDL'')]"

record structure_dialog =
  sd_active :: tab
  sd_body :: tab_view

definition show_start :: "tab \<Rightarrow> structure_dialog \<Rightarrow> structure_dialog" where
  "show_start tb d = d\<lparr>sd_active := tb, sd_body := VLoading\<rparr>"

text \<open>The answer of a tab's request, rendered, replaces the shared body.\<close>

definition show_finish :: "string + tab_view \<Rightarrow> structure_dialog \<Rightarrow> structure_dialog" where
  "show_finish answer d = d\<lparr>sd_body := (case answer of Inl e \<Rightarrow> VFailed (''Failed to load: '' @ e) | Inr v \<Rightarrow> v)\<rparr>"

definition openStructureDialog :: "session \<Rightarrow> (string \<times> structure_dialog) option" where
  "openStructureDialog s = map_option (\<lambda>t. (''Structure '' @ [CHR 0xB7, CHR '' ''] @ t_table t,
     show_start ColumnsTab \<lparr>sd_active = ColumnsTab, sd_body = VLoading\<rparr>)) (s_activeTable s)"

section \<open>What a delete sends\<close>

lemma reload_requests:
  "\<exists>more. requests (wd_trace (reload_page i page rl w)) = requests (wd_trace w) @ more \<and>
     (\<forall>r \<in> set more. fst r = ''/table-rows'')"
  by (auto simp: reload_page_def Let_def split: option.splits prod.splits)

lemma reload_connections [simp]:
  "a_connections (wd_app (reload_page i page rl w)) = a_connections (wd_app w)"
  by (auto simp: reload_page_def Let_def update_session_def split: option.splits prod.splits)

lemma delete_plan_key:
  assumes "delete_plan_of cs rowIdx snap pks s = Some (Inr p)"
  shows "set (omap_keys (dp_pk p)) = set pks \<and> dp_pk p \<noteq> [] \<and> s_activeTable s = Some (dp_table p) \<and>
    dp_sql p = buildDeleteSql cs (s_connId s) (dp_table p) (dp_pk p) \<and>
    (\<forall>pk \<in> set pks. \<exists>k. index_of (sn_columns snap) pk = Some k \<and>
       omap_get (dp_pk p) pk = Some (cell_at (row_at (sn_rows snap) rowIdx) k))"
proof -
  from assms obtain m where m: "table_pk_map (sn_columns snap) (row_at (sn_rows snap) rowIdx) pks [] = Inr m"
    and p: "dp_pk p = m" "s_activeTable s = Some (dp_table p)" "pks \<noteq> []"
      "dp_sql p = buildDeleteSql cs (s_connId s) (dp_table p) m"
    by (auto simp: delete_plan_of_def split: if_splits sum.splits)
  from table_pk_map_spec [OF m] have "set (omap_keys m) = set pks"
    "\<forall>pk \<in> set pks. \<exists>k. index_of (sn_columns snap) pk = Some k \<and> omap_get m pk = Some (cell_at (row_at (sn_rows snap) rowIdx) k)"
    by (fastforce simp: omap_keys_def)+
  with p show ?thesis by (auto simp: omap_keys_def)
qed

lemma read_delete_text:
  "pk \<noteq> [] \<Longrightarrow> read_delete (sqlConnKind cs i) (buildDeleteSql cs i t pk) = Some (name_parts t, lit_values pk)"
  using read_assigns_text [of pk "'' AND ''" "'';''" cs i]
    read_name_qualName [OF refl, of "'' WHERE '' @ whereFromPk cs i pk @ '';''" cs i t]
  by (simp add: read_delete_def buildDeleteSql_def whereFromPk_def skip_def)

lemma session_of_emit [simp]: "session_of (wd_app (emit e w)) i = session_of (wd_app w) i"
  by simp

lemma delete_ask_simps [simp]:
  "wd_app (delete_ask p w) = wd_app w" "wd_keys (delete_ask p w) = wd_keys w" "wd_hist (delete_ask p w) = wd_hist w"
  "requests (wd_trace (delete_ask p w)) = requests (wd_trace w)"
  by (simp_all add: delete_ask_def)

text \<open>One delete, to the table open when the dialog was answered, then page reads.\<close>

lemma delete_confirmed_requests:
  "\<exists>more. requests (wd_trace (delete_confirmed snap p ok answer rl i w)) = requests (wd_trace w) @
      (case s_activeTable (session_of (wd_app w) i) of
         Some t \<Rightarrow> if ok then (''/table-delete'', delete_body i t (dp_pk p)) # more else [] | None \<Rightarrow> []) \<and>
    (\<forall>r \<in> set more. fst r = ''/table-rows'')"
proof (cases "s_activeTable (session_of (wd_app w) i)")
  case (Some t)
  let ?w3 = "upd_app (update_session i invalidateRowCount) (emit (Fetch ''/table-delete'' ''POST'' (delete_body i t (dp_pk p))) w)"
  obtain more where "requests (wd_trace (reload_page i (sn_page snap) rl ?w3)) = requests (wd_trace ?w3) @ more"
    "\<forall>r \<in> set more. fst r = ''/table-rows''"
    using reload_requests [of i "sn_page snap" rl ?w3] by blast
  then show ?thesis
    using Some by (intro exI [of _ "case answer of Inl e \<Rightarrow> [] | Inr a \<Rightarrow> more"])
      (auto simp: delete_confirmed_def Let_def split: sum.splits)
qed (auto simp: delete_confirmed_def intro: exI [of _ "[]"])

lemma delete_row_facts:
  assumes "delete_plan_of (a_connections (wd_app w)) rowIdx snap pks (session_of (wd_app w) i) = Some (Inr p)"
  shows "\<exists>more. requests (wd_trace (deleteRowFromGrid rowIdx snap pks ok answer rl i w)) = requests (wd_trace w) @
      (if ok then (''/table-delete'', delete_body i (dp_table p) (dp_pk p)) # more else []) \<and>
    (\<forall>r \<in> set more. fst r = ''/table-rows'')"
  using delete_confirmed_requests [of snap p ok answer rl i "delete_ask p w"] delete_plan_key [OF assms] assms
  by (simp add: deleteRowFromGrid_def)


section \<open>What an insert sends\<close>

lemma untouched_field: "resolve_field c (field_initial (makeInsertField c)) = None"
proof -
  have "js_trim [] = []" by (simp add: js_trim_def trim_start_def trim_end_def)
  then show ?thesis
    by (cases "makeInsertField c") (simp_all add: resolve_field_def field_initial_def)
qed

lemma insert_values_get:
  "omap_wf entries \<Longrightarrow> omap_get (insert_values entries) n =
     Option.bind (omap_get entries n) (\<lambda>(c, held). resolve_field c held)"
proof (induction entries rule: rev_induct)
  case Nil
  then show ?case by (simp add: insert_values_def)
next
  case (snoc e entries)
  obtain name c held where e: "e = (name, (c, held))" by (cases e) auto
  from snoc.prems have wf: "omap_wf entries" and new: "name \<notin> fst ` set entries"
    by (auto simp: omap_wf_def omap_keys_def e)
  have old: "omap_get entries name = None" using new by (simp add: omap_get_None omap_keys_def)
  show ?case
    using snoc.IH [OF wf] old
    by (auto simp: insert_values_def e omap_get_append omap_get_set split: option.splits)
qed


section \<open>Examples\<close>

definition grid_world :: world where
  "grid_world = empty_world\<lparr>wd_app := (wd_app empty_world)\<lparr>a_sessions := [(''c'', (new_session ''c'')
     \<lparr>s_activeTable := Some (demo_table ''people''), s_tableSnapshot := Some people_grid\<rparr>)]\<rparr>\<rparr>"

lemma grid_world_session:
  "session_of (wd_app grid_world) ''c'' =
     (new_session ''c'')\<lparr>s_activeTable := Some (demo_table ''people''), s_tableSnapshot := Some people_grid\<rparr>"
  by (simp add: grid_world_def session_of_def)



section \<open>What modelling showed\<close>

text \<open>
  The delete is addressed when the dialog is answered. When another table was opened meanwhile
  (a slow opening that the user started before), the statement shown names the table of the
  row, and the delete with that row's key goes to the other one.
\<close>

lemma confirmed_delete_after_switch:
  "let p = \<lparr>dp_table = demo_table ''people'', dp_pk = [(''id'', VNum (NInt 2))],
          dp_sql = buildDeleteSql [] ''c'' (demo_table ''people'') [(''id'', VNum (NInt 2))]\<rparr>;
       asked = delete_ask p grid_world;
       switched = upd_app (update_session ''c'' (\<lambda>s. fst (openTable [] (demo_table ''orders'') s))) asked;
       sent = delete_confirmed people_grid p True (Inl ''x'') \<lparr>rl_columns = None, rl_answer = Inl ''x'', rl_elapsed = 0\<rparr> ''c'' switched
   in delete_plan_of [] 1 people_grid [''id''] (session_of (wd_app grid_world) ''c'') = Some (Inr p) \<and>
      requests (wd_trace sent) = [(''/table-delete'', delete_body ''c'' (demo_table ''orders'') [(''id'', VNum (NInt 2))])]"
  by code_simp

text \<open>The answer of a structure tab left meanwhile is shown under the tab now marked active.\<close>

lemma late_tab_shown_under_other_tab:
  "let d0 = show_start ColumnsTab \<lparr>sd_active = ColumnsTab, sd_body = VLoading\<rparr>;
       d1 = show_start DdlTab d0;
       d2 = show_finish (Inr (renderDdl ''CREATE TABLE t ()'')) d1;
       d3 = show_finish (Inr (renderColumns None)) d2
   in sd_active d3 = DdlTab \<and> sd_body d3 = VNote ''No column metadata available.''"
  by code_simp

section \<open>The confirmation\<close>

interpretation delete_gate: confirmed_action "\<lambda>ok w. deleteRowFromGrid rowIdx snap pks ok answer rl i w"
  for rowIdx snap pks answer rl i
  by unfold_locales (auto simp: deleteRowFromGrid_def delete_confirmed_def delete_ask_def split: option.splits sum.splits)

end
