(* ===== verification/DatePicker.thy ===== *)
theory DatePicker
  imports DateParts
begin

text \<open>
  \<open>src/src/dom/datePicker.js\<close>: the state of the date, time and datetime picker, its events,
  and the month it draws. The text field is the value; the popup edits a working state
  that is parsed from the field each time it opens. The clock is an argument. The
  document-level listeners are taken as armed (the code arms them one frame after the
  popup opens), and placing and drawing the popup are left out.
\<close>

section \<open>Months\<close>

text \<open>\<open>new Date(y, ...)\<close> takes the years 0 to 99 as 1900 to 1999.\<close>

definition js_year :: "int \<Rightarrow> int" where
  "js_year y = (if 0 \<le> y \<and> y \<le> 99 then 1900 + y else y)"

definition leap_year :: "int \<Rightarrow> bool" where
  "leap_year y = (4 dvd y \<and> (100 dvd y \<longrightarrow> 400 dvd y))"

definition month_days :: "int \<Rightarrow> int \<Rightarrow> int" where
  "month_days y mo = (if mo \<in> {3, 5, 8, 10} then 30 else if mo = 1 then (if leap_year y then 29 else 28) else 31)"

text \<open>Days before the first of a month, counted from the first of January of year 1.\<close>

definition days_before_year :: "int \<Rightarrow> int" where
  "days_before_year y = 365 * (y - 1) + (y - 1) div 4 - (y - 1) div 100 + (y - 1) div 400"

fun days_before_month :: "int \<Rightarrow> nat \<Rightarrow> int" where
  "days_before_month y 0 = 0"
| "days_before_month y (Suc m) = days_before_month y m + month_days y (int m)"

definition weekday :: "int \<Rightarrow> int \<Rightarrow> int \<Rightarrow> int" where
  "weekday y mo d = (days_before_year y + days_before_month y (nat mo) + d) mod 7"

definition startDow :: "int \<times> int \<Rightarrow> int" where
  "startDow v = weekday (js_year (fst v)) (snd v) 1"

definition daysInMonth :: "int \<times> int \<Rightarrow> int" where
  "daysInMonth v = month_days (js_year (fst v)) (snd v)"

definition prev_month :: "int \<times> int \<Rightarrow> int \<times> int" where
  "prev_month v = (if snd v - 1 < 0 then (fst v - 1, 11) else (fst v, snd v - 1))"

definition next_month :: "int \<times> int \<Rightarrow> int \<times> int" where
  "next_month v = (if snd v + 1 > 11 then (fst v + 1, 0) else (fst v, snd v + 1))"

section \<open>State\<close>

record picker =
  pk_type :: picker_type
  pk_value :: string
  pk_open :: bool
  pk_sel :: date_state
  pk_view :: "int \<times> int"
  pk_onCommit :: bool
  pk_onCancel :: bool

datatype picker_out = OutCommit string | OutCancel

type_synonym clock = "(int \<times> int \<times> int) \<times> (int \<times> int \<times> int)"

definition getValue :: "picker \<Rightarrow> string" where
  "getValue p = js_trim (pk_value p)"

definition createDatePicker :: "clock \<Rightarrow> picker_type \<Rightarrow> string \<Rightarrow> bool \<Rightarrow> bool \<Rightarrow> picker" where
  "createDatePicker now type v commits cancels =
     (let st = parseState (fst now) type (VStr v) in
      \<lparr>pk_type = type, pk_value = v, pk_open = False, pk_sel = st, pk_view = (ds_y st, ds_mo st),
       pk_onCommit = commits, pk_onCancel = cancels\<rparr>)"

definition closePopup :: "picker \<Rightarrow> picker" where
  "closePopup p = p\<lparr>pk_open := False\<rparr>"

definition openPopup :: "clock \<Rightarrow> picker \<Rightarrow> picker" where
  "openPopup now p =
     (if pk_open p then p
      else let st = parseState (fst now) (pk_type p) (VStr (getValue p)) in
        p\<lparr>pk_sel := st, pk_view := (ds_y st, ds_mo st), pk_open := True\<rparr>)"

definition commit_value :: "string \<Rightarrow> picker \<Rightarrow> picker \<times> picker_out list" where
  "commit_value v p = (closePopup p, if pk_onCommit p then [OutCommit v] else [])"

definition dismiss :: "picker \<Rightarrow> picker \<times> picker_out list" where
  "dismiss p = (closePopup p, if pk_onCancel p then [OutCancel] else [])"

definition syncInputFromSel :: "picker \<Rightarrow> picker" where
  "syncInputFromSel p = (if pk_type p = PTime \<or> ds_hasDate (pk_sel p)
     then p\<lparr>pk_value := formatState (pk_type p) (pk_sel p)\<rparr> else p)"

definition pickDay :: "int \<Rightarrow> picker \<Rightarrow> picker \<times> picker_out list" where
  "pickDay d p =
     (let p1 = syncInputFromSel (p\<lparr>pk_sel := (pk_sel p)\<lparr>ds_y := fst (pk_view p), ds_mo := snd (pk_view p),
                 ds_d := d, ds_hasDate := True\<rparr>\<rparr>)
      in if pk_type p = PDate then commit_value (getValue p1) p1 else (p1, []))"

datatype time_part = Hours | Minutes | Seconds

fun set_part :: "time_part \<Rightarrow> int \<Rightarrow> date_state \<Rightarrow> date_state" where
  "set_part Hours n st = st\<lparr>ds_hh := n\<rparr>"
| "set_part Minutes n st = st\<lparr>ds_mi := n\<rparr>"
| "set_part Seconds n st = st\<lparr>ds_ss := n\<rparr>"

fun part_max :: "time_part \<Rightarrow> int" where
  "part_max Hours = 23"
| "part_max Minutes = 59"
| "part_max Seconds = 59"

definition setTimePart :: "time_part \<Rightarrow> int \<Rightarrow> picker \<Rightarrow> picker" where
  "setTimePart part n p =
     (let st = (set_part part n (pk_sel p))\<lparr>ds_hasTime := True\<rparr>;
          st1 = (if pk_type p = PDatetime \<and> \<not> ds_hasDate st then st\<lparr>ds_hasDate := True\<rparr> else st)
      in syncInputFromSel (p\<lparr>pk_sel := st1\<rparr>))"

text \<open>A clock field keeps two digits of what is typed, and is clamped when it changes.\<close>

definition time_field :: "string \<Rightarrow> string" where
  "time_field s = take 2 (filter is_digit_c s)"

definition changed_part :: "time_part \<Rightarrow> string \<Rightarrow> int" where
  "changed_part part s = (let w = time_field s in clamp 0 (part_max part) (int (digits_val (if w = [] then ''0'' else w))))"

definition pick_now :: "clock \<Rightarrow> picker \<Rightarrow> picker \<times> picker_out list" where
  "pick_now now p =
     (let ((y, mo, d), (hh, mi, ss)) = now;
          p1 = p\<lparr>pk_sel := \<lparr>ds_y = y, ds_mo = mo, ds_d = d, ds_hh = hh, ds_mi = mi, ds_ss = ss,
                   ds_hasDate = True, ds_hasTime = True\<rparr>, pk_view := (y, mo)\<rparr>;
          p2 = p1\<lparr>pk_value := formatState (pk_type p) (pk_sel p1)\<rparr>
      in commit_value (getValue p2) p2)"

section \<open>Events\<close>

datatype picker_event =
    Typed string | EnterKey | EscapeKey | ArrowDown | TriggerClick
  | PrevClick | NextClick | DayClick int | TimeChange time_part string
  | ClearClick | NowClick | ApplyClick | OutsideDown | CloseAll

text \<open>The popup's own controls exist only while it is open; a day is one the month has.\<close>

definition popup_event :: "clock \<Rightarrow> picker_event \<Rightarrow> picker \<Rightarrow> picker \<times> picker_out list" where
  "popup_event now ev p = (case ev of
       PrevClick \<Rightarrow> (p\<lparr>pk_view := prev_month (pk_view p)\<rparr>, [])
     | NextClick \<Rightarrow> (p\<lparr>pk_view := next_month (pk_view p)\<rparr>, [])
     | DayClick d \<Rightarrow> if pk_type p \<noteq> PTime \<and> 1 \<le> d \<and> d \<le> daysInMonth (pk_view p) then pickDay d p else (p, [])
     | TimeChange part s \<Rightarrow> if pk_type p \<noteq> PDate then (setTimePart part (changed_part part s) p, []) else (p, [])
     | ClearClick \<Rightarrow> commit_value [] (p\<lparr>pk_value := []\<rparr>)
     | NowClick \<Rightarrow> pick_now now p
     | ApplyClick \<Rightarrow> commit_value (getValue p) p
     | OutsideDown \<Rightarrow> (closePopup p, [])
     | EscapeKey \<Rightarrow> dismiss p
     | EnterKey \<Rightarrow> commit_value (getValue p) p
     | _ \<Rightarrow> (p, []))"

definition field_key :: "clock \<Rightarrow> picker_event \<Rightarrow> picker \<Rightarrow> picker \<times> picker_out list" where
  "field_key now ev p = (case ev of
       EnterKey \<Rightarrow> if pk_onCommit p then commit_value (getValue p) p else (p, [])
     | EscapeKey \<Rightarrow> (p, if pk_onCancel p then [OutCancel] else [])
     | ArrowDown \<Rightarrow> (openPopup now p, [])
     | _ \<Rightarrow> (p, []))"

definition on_picker_event :: "clock \<Rightarrow> picker_event \<Rightarrow> picker \<Rightarrow> picker \<times> picker_out list" where
  "on_picker_event now ev p = (case ev of
       Typed s \<Rightarrow> (p\<lparr>pk_value := s\<rparr>, [])
     | TriggerClick \<Rightarrow> (if pk_open p then closePopup p else openPopup now p, [])
     | CloseAll \<Rightarrow> (closePopup p, [])
     | _ \<Rightarrow> if pk_open p then popup_event now ev p else field_key now ev p)"

section \<open>The calendar\<close>

record day_cell =
  dc_day :: int
  dc_selected :: bool
  dc_today :: bool

definition month_title :: "picker \<Rightarrow> string" where
  "month_title p = MONTHS ! nat (snd (pk_view p)) @ '' '' @ int_to_string (fst (pk_view p))"

text \<open>The number of blanks before the first, and the days.\<close>

definition buildCalendar :: "clock \<Rightarrow> picker \<Rightarrow> int \<times> day_cell list" where
  "buildCalendar now p =
     (let (y, mo) = pk_view p; sel = pk_sel p in
      (startDow (pk_view p),
       map (\<lambda>d. \<lparr>dc_day = d,
          dc_selected = (ds_hasDate sel \<and> ds_y sel = y \<and> ds_mo sel = mo \<and> ds_d sel = d),
          dc_today = ((y, mo, d) = fst now)\<rparr>) [1..daysInMonth (pk_view p)]))"

definition buildTime :: "picker \<Rightarrow> string list" where
  "buildTime p = [pad2 (ds_hh (pk_sel p)), pad2 (ds_mi (pk_sel p)), pad2 (ds_ss (pk_sel p))]"

section \<open>Months follow each other\<close>

lemma month_days_pos: "1 \<le> month_days y mo \<and> month_days y mo \<le> 31"
  by (auto simp: month_days_def)

lemma prev_next: "0 \<le> snd v \<Longrightarrow> snd v \<le> 11 \<Longrightarrow> prev_month (next_month v) = v \<and> next_month (prev_month v) = v"
  by (cases v) (auto simp: prev_month_def next_month_def)

lemma div_pred: "0 < k \<Longrightarrow> y div k = (y - 1) div k + (if k dvd y then 1 else 0)" for y :: int
proof -
  assume k: "0 < k"
  show ?thesis
  proof (cases "k dvd y")
    case True
    then obtain q where q: "y = k * q" by blast
    have "(y - 1) div k = q - 1"
      by (rule int_div_pos_eq [where r = "k - 1"]) (use k q in \<open>auto simp: algebra_simps\<close>)
    with q k True show ?thesis by simp
  next
    case False
    then have "0 < y mod k" using k by (simp add: dvd_eq_mod_eq_0 order_less_le)
    moreover have "y mod k < k" using k by simp
    moreover have "y - 1 = k * (y div k) + (y mod k - 1)" by (simp add: algebra_simps)
    ultimately have "(y - 1) div k = y div k"
      by (intro int_div_pos_eq [where r = "y mod k - 1"]) auto
    with False show ?thesis by simp
  qed
qed

lemma year_length: "days_before_year (y + 1) = days_before_year y + 365 + (if leap_year y then 1 else 0)"
proof -
  have "400 dvd y \<Longrightarrow> 100 dvd y" "100 dvd y \<Longrightarrow> 4 dvd y"
    using dvd_trans [of "100::int" 400 y] dvd_trans [of "4::int" 100 y] by auto
  then have leap: "(if leap_year y then 1 else 0) = (if 4 dvd y then 1 else 0) - (if 100 dvd y then 1 else 0) +
      (if 400 dvd y then 1 else (0::int))"
    unfolding leap_year_def by (cases "4 dvd y"; cases "100 dvd y"; cases "400 dvd y") simp_all
  have sum: "d1 = 365 * y + a - b + c \<Longrightarrow> d0 = 365 * (y - 1) + a' - b' + c' \<Longrightarrow>
      a = a' + i \<Longrightarrow> b = b' + j \<Longrightarrow> c = c' + k \<Longrightarrow> l = i - j + k \<Longrightarrow> d1 = d0 + 365 + l"
    for d1 d0 a b c a' b' c' i j k l :: int by simp
  have p: "0 < (4::int)" "0 < (100::int)" "0 < (400::int)" by simp_all
  have "days_before_year (y + 1) = 365 * y + y div 4 - y div 100 + y div 400"
    by (simp add: days_before_year_def)
  from this days_before_year_def [of y] div_pred [OF p(1), of y] div_pred [OF p(2), of y] div_pred [OF p(3), of y] leap
  show ?thesis by (rule sum)
qed

lemma months_length: "days_before_month y 12 = 365 + (if leap_year y then 1 else 0)"
  by (simp add: eval_nat_numeral month_days_def)

text \<open>The first of the next month stands right after the last of this one.\<close>

lemma calendar_continues:
  assumes "0 \<le> snd v" "snd v \<le> 11" "100 \<le> fst v"
  shows "startDow (next_month v) = (startDow v + daysInMonth v) mod 7"
proof -
  obtain y mo where v: "v = (y, mo)" by (cases v)
  have js: "js_year y = y" "js_year (y + 1) = y + 1" using assms by (simp_all add: js_year_def v)
  show ?thesis
  proof (cases "mo = 11")
    case True
    have "days_before_month y (nat 11) + month_days y 11 = 365 + (if leap_year y then 1 else 0)"
      using months_length [of y] by (simp add: eval_nat_numeral)
    then have "days_before_year (y + 1) + 1 = days_before_year y + days_before_month y (nat 11) + 1 + month_days y 11"
      using year_length [of y] by simp
    then show ?thesis
      using True js by (simp add: v startDow_def daysInMonth_def next_month_def weekday_def mod_simps ac_simps)
  next
    case False
    have "nat (mo + 1) = Suc (nat mo)" using assms by (simp add: v)
    then show ?thesis
      using False assms js by (simp add: v startDow_def daysInMonth_def next_month_def weekday_def mod_simps ac_simps)
  qed
qed

section \<open>A picker session\<close>

definition clock_ok :: "clock \<Rightarrow> bool" where
  "clock_ok now = (let ((y, mo, d), (hh, mi, ss)) = now in
     0 \<le> mo \<and> mo \<le> 11 \<and> 1 \<le> d \<and> d \<le> 31 \<and> 0 \<le> hh \<and> hh \<le> 23 \<and> 0 \<le> mi \<and> mi \<le> 59 \<and> 0 \<le> ss \<and> ss \<le> 59)"

definition picker_ok :: "picker \<Rightarrow> bool" where
  "picker_ok p = (0 \<le> snd (pk_view p) \<and> snd (pk_view p) \<le> 11 \<and> fields_ok (pk_sel p))"

inductive picker_reach :: "clock \<Rightarrow> picker \<Rightarrow> bool" for now where
  opened: "picker_reach now (createDatePicker now type v commits cancels)"
| event: "picker_reach now p \<Longrightarrow> picker_reach now (fst (on_picker_event now ev p))"

lemma parse_ok: "clock_ok now \<Longrightarrow> fields_ok (parseState (fst now) type v)"
  by (cases now; cases "fst now") (auto simp: clock_ok_def intro!: parseState_bounds)

lemma fields_okD: "fields_ok st \<Longrightarrow> 0 \<le> ds_mo st \<and> ds_mo st \<le> 11"
  by (simp add: fields_ok_def)

lemma openPopup_ok: "clock_ok now \<Longrightarrow> picker_ok p \<Longrightarrow> picker_ok (openPopup now p)"
  using parse_ok [of now "pk_type p" "VStr (getValue p)"] fields_okD [OF parse_ok [of now "pk_type p" "VStr (getValue p)"]]
  by (simp add: openPopup_def picker_ok_def Let_def)

lemma closePopup_ok [simp]: "picker_ok (closePopup p) = picker_ok p"
  by (simp add: closePopup_def picker_ok_def)

lemma syncInput_ok [simp]: "picker_ok (syncInputFromSel p) = picker_ok p"
  by (simp add: syncInputFromSel_def picker_ok_def)

lemma commit_value_ok [simp]: "picker_ok (fst (commit_value v p)) = picker_ok p" "picker_ok (fst (dismiss p)) = picker_ok p"
  by (simp_all add: commit_value_def dismiss_def)

lemma pickDay_ok:
  "picker_ok p \<Longrightarrow> 1 \<le> d \<Longrightarrow> d \<le> daysInMonth (pk_view p) \<Longrightarrow> picker_ok (fst (pickDay d p))"
  using month_days_pos [of "js_year (fst (pk_view p))" "snd (pk_view p)"]
  by (auto simp: pickDay_def Let_def) (auto simp: picker_ok_def fields_ok_def daysInMonth_def)

lemma setTimePart_ok: "picker_ok p \<Longrightarrow> picker_ok (setTimePart part (changed_part part s) p)"
  by (cases part) (auto simp: setTimePart_def Let_def picker_ok_def fields_ok_def changed_part_def clamp_def syncInputFromSel_def)

lemma pick_now_ok: "clock_ok now \<Longrightarrow> picker_ok (fst (pick_now now p))"
  by (auto simp: pick_now_def clock_ok_def picker_ok_def fields_ok_def commit_value_def closePopup_def Let_def split: prod.splits)

lemma month_ok: "picker_ok p \<Longrightarrow> picker_ok (p\<lparr>pk_view := prev_month (pk_view p)\<rparr>) \<and> picker_ok (p\<lparr>pk_view := next_month (pk_view p)\<rparr>)"
  by (auto simp: picker_ok_def prev_month_def next_month_def)

lemma picker_event_ok: "clock_ok now \<Longrightarrow> picker_ok p \<Longrightarrow> picker_ok (fst (on_picker_event now ev p))"
  using month_ok [of p] pickDay_ok [of p] pick_now_ok [of now p] setTimePart_ok [of p] openPopup_ok [of now p]
  by (cases ev) (auto simp: on_picker_event_def popup_event_def field_key_def, auto simp: picker_ok_def)

lemma picker_reach_ok: "picker_reach now p \<Longrightarrow> clock_ok now \<Longrightarrow> picker_ok p"
proof (induction rule: picker_reach.induct)
  case (opened type v commits cancels)
  then show ?case
    using parse_ok [of now type "VStr v"] fields_okD [OF parse_ok [of now type "VStr v"]]
    by (simp add: createDatePicker_def picker_ok_def Let_def)
qed (simp add: picker_event_ok)

definition edits :: "picker_event \<Rightarrow> bool" where
  "edits ev = (case ev of Typed s \<Rightarrow> True | DayClick d \<Rightarrow> True | TimeChange p s \<Rightarrow> True | ClearClick \<Rightarrow> True
     | NowClick \<Rightarrow> True | _ \<Rightarrow> False)"

lemma commit_shows:
  "OutCommit x \<in> set (snd (commit_value v p)) \<Longrightarrow> v = getValue p \<Longrightarrow> x = getValue (fst (commit_value v p))"
  by (auto simp: commit_value_def getValue_def closePopup_def split: if_splits)

lemma event_shows:
  "OutCommit x \<in> set (snd (on_picker_event now ev p)) \<Longrightarrow> x = getValue (fst (on_picker_event now ev p))"
  by (cases ev) (auto simp: on_picker_event_def popup_event_def field_key_def pickDay_def pick_now_def dismiss_def Let_def
      getValue_def js_trim_def trim_start_def trim_end_def commit_value_def closePopup_def split: if_splits prod.splits)

text \<open>
  C31: in every picker, after any events, the shown month is a month of the calendar and the
  working date and clock are within their ranges; whatever is committed is exactly the
  text the field shows at that moment; and opening, browsing, applying, cancelling or
  clicking away never changes that text.
\<close>

theorem picker_commits_shown_text:
  assumes "clock_ok now" "picker_reach now p" "on_picker_event now ev p = (p', outs)"
  shows "0 \<le> snd (pk_view p') \<and> snd (pk_view p') \<le> 11 \<and> fields_ok (pk_sel p') \<and>
    (\<forall>x. OutCommit x \<in> set outs \<longrightarrow> x = getValue p') \<and>
    (\<not> edits ev \<longrightarrow> pk_value p' = pk_value p)"
proof -
  have "picker_ok p'" using picker_event_ok [OF assms(1) picker_reach_ok [OF assms(2,1)], of ev] assms(3) by simp
  moreover have "\<forall>x. OutCommit x \<in> set outs \<longrightarrow> x = getValue p'" using event_shows [of _ now ev p] assms(3) by auto
  moreover have "\<not> edits ev \<longrightarrow> pk_value p' = pk_value p"
    using assms(3) by (cases ev) (auto simp: edits_def on_picker_event_def popup_event_def field_key_def openPopup_def
        closePopup_def commit_value_def dismiss_def Let_def split: if_splits)
  ultimately show ?thesis by (simp add: picker_ok_def)
qed


definition demo_clock :: clock where
  "demo_clock = ((2025, 5, 15), (9, 30, 0))"

definition demo_picker :: picker where
  "demo_picker = fst (on_picker_event demo_clock TriggerClick (createDatePicker demo_clock PDatetime ''2024-02-01T07:05:59'' True True))"

lemma demo_picker_reach: "picker_reach demo_clock demo_picker"
  unfolding demo_picker_def by (intro picker_reach.intros)

lemma picker_commits_shown_text_witness:
  "\<exists>p' outs. on_picker_event demo_clock ApplyClick demo_picker = (p', outs) \<and> outs = [OutCommit ''2024-02-01T07:05:59''] \<and>
     pk_value p' = ''2024-02-01T07:05:59''"
proof -
  obtain p' outs where e: "on_picker_event demo_clock ApplyClick demo_picker = (p', outs)" by fastforce
  have "snd (on_picker_event demo_clock ApplyClick demo_picker) = [OutCommit ''2024-02-01T07:05:59'']" by code_simp
  then have "outs = [OutCommit ''2024-02-01T07:05:59'']" using e by simp
  moreover have "pk_value demo_picker = ''2024-02-01T07:05:59''" by code_simp
  ultimately show ?thesis
    using picker_commits_shown_text [OF _ demo_picker_reach e] e by (simp add: clock_ok_def demo_clock_def edits_def)
qed


end
