(* ===== verification/Completions.thy ===== *)
theory Completions
  imports Dialects SqlText
begin

text \<open>
  \<open>src/src/render/completions.js\<close> and the vocabulary \<open>src/src/dialects/sqlWords.js\<close>: the
  completion source of the query editor, from the session's cache of tables and columns
  and the words of the engine.
\<close>

section \<open>Vocabulary\<close>

definition COMMON_KEYWORDS :: "string list" where
  "COMMON_KEYWORDS = [
    ''SELECT'', ''FROM'', ''WHERE'', ''INSERT'', ''INTO'', ''VALUES'', ''UPDATE'', ''SET'', ''DELETE'',
    ''JOIN'', ''INNER'', ''LEFT'', ''RIGHT'', ''OUTER'', ''FULL'', ''CROSS'', ''ON'', ''USING'', ''AS'',
    ''AND'', ''OR'', ''NOT'', ''NULL'', ''IS'', ''IN'', ''BETWEEN'', ''LIKE'', ''ORDER'', ''BY'', ''GROUP'',
    ''HAVING'', ''LIMIT'', ''OFFSET'', ''DISTINCT'', ''UNION'', ''ALL'', ''EXCEPT'', ''INTERSECT'',
    ''EXISTS'', ''CREATE'', ''TABLE'', ''INDEX'', ''VIEW'', ''SCHEMA'', ''DATABASE'', ''DROP'', ''ALTER'',
    ''ADD'', ''COLUMN'', ''RENAME'', ''TO'', ''PRIMARY'', ''KEY'', ''FOREIGN'', ''REFERENCES'', ''UNIQUE'',
    ''DEFAULT'', ''CONSTRAINT'', ''CHECK'', ''IF'', ''ELSE'', ''ELSIF'', ''CASE'', ''WHEN'', ''THEN'',
    ''END'', ''BEGIN'', ''COMMIT'', ''ROLLBACK'', ''TRANSACTION'', ''SAVEPOINT'', ''WITH'', ''RECURSIVE'',
    ''RETURNING'', ''NATURAL'', ''TRUE'', ''FALSE'', ''ASC'', ''DESC'', ''CASCADE'', ''RESTRICT'',
    ''GRANT'', ''REVOKE'', ''EXPLAIN'', ''ANALYZE'', ''SHOW'', ''DESCRIBE'', ''TRUNCATE'', ''REPLACE'',
    ''MERGE'']"

definition COMMON_FUNCTIONS :: "string list" where
  "COMMON_FUNCTIONS = [
    ''COUNT'', ''SUM'', ''AVG'', ''MIN'', ''MAX'', ''COALESCE'', ''NULLIF'', ''CAST'', ''CONVERT'', ''NOW'',
    ''CURRENT_TIMESTAMP'', ''CURRENT_DATE'', ''CURRENT_TIME'', ''DATE'', ''DATETIME'', ''TIME'',
    ''EXTRACT'', ''CONCAT'', ''SUBSTRING'', ''SUBSTR'', ''LENGTH'', ''CHAR_LENGTH'', ''TRIM'', ''LTRIM'',
    ''RTRIM'', ''UPPER'', ''LOWER'', ''REPLACE'', ''ROUND'', ''FLOOR'', ''CEIL'', ''CEILING'', ''ABS'',
    ''MOD'', ''POWER'', ''SQRT'', ''RANDOM'', ''RAND'', ''GREATEST'', ''LEAST'', ''ROW_NUMBER'', ''RANK'',
    ''DENSE_RANK'', ''LAG'', ''LEAD'', ''FIRST_VALUE'', ''LAST_VALUE'', ''OVER'', ''PARTITION'']"

definition COMMON_TYPES :: "string list" where
  "COMMON_TYPES = [
    ''INT'', ''INTEGER'', ''BIGINT'', ''SMALLINT'', ''TINYINT'', ''FLOAT'', ''DOUBLE'', ''DECIMAL'',
    ''NUMERIC'', ''REAL'', ''VARCHAR'', ''CHAR'', ''TEXT'', ''LONGTEXT'', ''MEDIUMTEXT'', ''BLOB'',
    ''BINARY'', ''VARBINARY'', ''DATE'', ''DATETIME'', ''TIMESTAMP'', ''TIME'', ''YEAR'', ''BOOLEAN'',
    ''BOOL'', ''JSON'']"

section \<open>The source\<close>

record completion =
  cm_label :: string
  cm_detail :: string
  cm_type :: string
  cm_boost :: int

definition comp_matches :: "string \<Rightarrow> string \<Rightarrow> bool" where
  "comp_matches prefix label = (let needle = toLowerCase prefix in needle = [] \<or> startsWith (toLowerCase label) needle)"

text \<open>Each offer with the key the deduplication goes by.\<close>

definition table_offers :: "string \<Rightarrow> cache_entry \<Rightarrow> (string \<times> completion) list" where
  "table_offers prefix e =
     (if e_table e \<noteq> [] \<and> comp_matches prefix (e_table e) then
        [(''t:'' @ e_table e,
          \<lparr>cm_label = e_table e,
           cm_detail = (if e_database e = e_schema e then e_database e else e_database e @ ''.'' @ e_schema e),
           cm_type = (if e_kind e = ''view'' then ''interface'' else ''class''), cm_boost = 12\<rparr>)]
      else []) @
     map (\<lambda>col. (''c:'' @ col @ '':'' @ e_table e,
         \<lparr>cm_label = col, cm_detail = e_table e, cm_type = ''property'', cm_boost = 5\<rparr>))
       (filter (comp_matches prefix) (e_columns e))"

definition word_offers :: "string \<Rightarrow> string \<Rightarrow> string \<Rightarrow> string \<Rightarrow> int \<Rightarrow> string list \<Rightarrow> (string \<times> completion) list" where
  "word_offers prefix tag detail type boost ws =
     map (\<lambda>kw. (tag @ kw, \<lparr>cm_label = kw, cm_detail = detail, cm_type = type, cm_boost = boost\<rparr>))
       (filter (comp_matches prefix) ws)"

definition offers :: "conn list \<Rightarrow> session \<Rightarrow> string \<Rightarrow> (string \<times> completion) list" where
  "offers cs s prefix =
     (let connKind = sqlConnKind cs (s_connId s);
          dialect = getDialect connKind;
          kind = (case connKind of Some k \<Rightarrow> k | None \<Rightarrow> ''undefined'')
      in concat (map (table_offers prefix) (omap_values (s_schemaCache s))) @
         word_offers prefix ''k:'' ''keyword'' ''keyword'' 10 COMMON_KEYWORDS @
         word_offers prefix ''k:'' (kind @ '' keyword'') ''keyword'' 10 (d_keywords dialect) @
         word_offers prefix ''f:'' ''function'' ''function'' 8 COMMON_FUNCTIONS @
         word_offers prefix ''f:'' (kind @ '' function'') ''function'' 8 (d_functions dialect) @
         word_offers prefix ''y:'' ''type'' ''type'' 3 COMMON_TYPES)"

definition buildSchemaCompletions :: "conn list \<Rightarrow> session \<Rightarrow> string \<Rightarrow> completion list" where
  "buildSchemaCompletions cs s prefix = map snd (dedup_on fst {} (offers cs s prefix))"

section \<open>Soundness and completeness\<close>

lemma word_offers_set:
  "(k, c) \<in> set (word_offers prefix tag detail type boost ws) \<longleftrightarrow>
     cm_label c \<in> set ws \<and> comp_matches prefix (cm_label c) \<and> k = tag @ cm_label c \<and>
     cm_detail c = detail \<and> cm_type c = type \<and> cm_boost c = boost"
  by (cases c) (auto simp: word_offers_def)

lemma word_offered:
  "w \<in> set ws \<Longrightarrow> comp_matches prefix w \<Longrightarrow> \<exists>c. (tag @ w, c) \<in> set (word_offers prefix tag detail type boost ws)"
  by (auto simp: word_offers_def image_iff)

lemma table_offers_set:
  "(k, c) \<in> set (table_offers prefix e) \<Longrightarrow> comp_matches prefix (cm_label c) \<and>
     (cm_type c \<in> {''interface'', ''class''} \<and> k = ''t:'' @ cm_label c \<and> cm_label c = e_table e \<or>
      cm_type c = ''property'' \<and> k = ''c:'' @ cm_label c @ '':'' @ cm_detail c \<and>
        cm_label c \<in> set (e_columns e) \<and> cm_detail c = e_table e)"
  by (auto simp: table_offers_def split: if_splits)

lemma offers_match: "(k, c) \<in> set (offers cs s prefix) \<Longrightarrow> comp_matches prefix (cm_label c)"
  by (auto simp: offers_def Let_def word_offers_set dest: table_offers_set)

lemma offers_key:
  "(k, c) \<in> set (offers cs s prefix) \<Longrightarrow>
     (hd k = CHR ''t'' \<longrightarrow> k = ''t:'' @ cm_label c \<and> cm_type c \<in> {''interface'', ''class''}) \<and>
     (hd k = CHR ''k'' \<longrightarrow> k = ''k:'' @ cm_label c \<and> cm_type c = ''keyword'')"
  by (auto simp: offers_def Let_def word_offers_set dest!: table_offers_set)

lemma table_offered:
  assumes "e \<in> set (omap_values (s_schemaCache s))" "e_table e \<noteq> []" "comp_matches prefix (e_table e)"
  shows "\<exists>c. (''t:'' @ e_table e, c) \<in> set (offers cs s prefix)"
proof -
  obtain c where "(''t:'' @ e_table e, c) \<in> set (table_offers prefix e)"
    using assms(2,3) by (auto simp: table_offers_def)
  then have "(''t:'' @ e_table e, c) \<in> set (concat (map (table_offers prefix) (omap_values (s_schemaCache s))))"
    using assms(1) by auto
  then show ?thesis unfolding offers_def Let_def set_append by blast
qed

lemma keyword_offered:
  assumes "w \<in> set (COMMON_KEYWORDS @ d_keywords (getDialect (sqlConnKind cs (s_connId s))))" "comp_matches prefix w"
  shows "\<exists>c. (''k:'' @ w, c) \<in> set (offers cs s prefix)"
proof -
  from assms(1) consider "w \<in> set COMMON_KEYWORDS" | "w \<in> set (d_keywords (getDialect (sqlConnKind cs (s_connId s))))"
    unfolding set_append by blast
  then show ?thesis
    by cases (use word_offered [OF _ assms(2)] in \<open>unfold offers_def Let_def set_append; blast\<close>)+
qed

lemma completions_in: "c \<in> set (buildSchemaCompletions cs s prefix) \<Longrightarrow> \<exists>k. (k, c) \<in> set (offers cs s prefix)"
  using dedup_on_subset [of fst "{}" "offers cs s prefix"] by (auto simp: buildSchemaCompletions_def)

lemma completions_key:
  assumes "(k, c) \<in> set (offers cs s prefix)"
  shows "\<exists>c'. c' \<in> set (buildSchemaCompletions cs s prefix) \<and> (k, c') \<in> set (offers cs s prefix)"
proof -
  have "k \<in> fst ` set (dedup_on fst {} (offers cs s prefix))"
    using assms dedup_on_covers [of fst "{}" "offers cs s prefix"] by force
  then obtain c' where "(k, c') \<in> set (dedup_on fst {} (offers cs s prefix))" by force
  then show ?thesis
    using dedup_on_subset [of fst "{}" "offers cs s prefix"] by (force simp: buildSchemaCompletions_def)
qed

lemma offers_keyword: "(k, c) \<in> set (offers cs s prefix) \<Longrightarrow> cm_type c = ''keyword'' \<Longrightarrow> k = ''k:'' @ cm_label c"
  by (auto simp: offers_def Let_def word_offers_set dest!: table_offers_set)

lemma keyword_labels_distinct:
  "distinct (map cm_label (filter (\<lambda>c. cm_type c = ''keyword'') (buildSchemaCompletions cs s prefix)))"
proof -
  let ?L = "filter (\<lambda>x. cm_type (snd x) = ''keyword'') (dedup_on fst {} (offers cs s prefix))"
  have "distinct (map fst ?L)"
    using dedup_on_distinct [of fst "{}" "offers cs s prefix"] by (rule distinct_map_filter)
  moreover have "map fst ?L = map (\<lambda>l. ''k:'' @ l) (map (cm_label \<circ> snd) ?L)"
    by (auto dest!: subsetD [OF dedup_on_subset] intro: offers_keyword [simplified])
  ultimately have "distinct (map (cm_label \<circ> snd) ?L)" by (simp only: distinct_map)
  then show ?thesis by (simp add: buildSchemaCompletions_def filter_map comp_def)
qed

text \<open>
  every completion offered starts with what was typed, letter case aside; every cached
  table and every keyword of the language or of the connection's engine that does is
  offered; and no keyword is offered twice.
\<close>

theorem completions_complete:
  "(\<forall>c \<in> set (buildSchemaCompletions cs s prefix). startsWith (toLowerCase (cm_label c)) (toLowerCase prefix)) \<and>
   (\<forall>e \<in> set (omap_values (s_schemaCache s)). e_table e \<noteq> [] \<and> comp_matches prefix (e_table e) \<longrightarrow>
      (\<exists>c \<in> set (buildSchemaCompletions cs s prefix). cm_label c = e_table e \<and> cm_type c \<in> {''interface'', ''class''})) \<and>
   (\<forall>w \<in> set (COMMON_KEYWORDS @ d_keywords (getDialect (sqlConnKind cs (s_connId s)))). comp_matches prefix w \<longrightarrow>
      (\<exists>c \<in> set (buildSchemaCompletions cs s prefix). cm_label c = w \<and> cm_type c = ''keyword'')) \<and>
   distinct (map cm_label (filter (\<lambda>c. cm_type c = ''keyword'') (buildSchemaCompletions cs s prefix)))"
proof (intro conjI ballI impI)
  fix c assume "c \<in> set (buildSchemaCompletions cs s prefix)"
  then show "startsWith (toLowerCase (cm_label c)) (toLowerCase prefix)"
    using completions_in [of c cs s prefix] offers_match [of _ c cs s prefix]
    by (cases "prefix = []") (auto simp: comp_matches_def Let_def startsWith_take)
next
  fix e assume "e \<in> set (omap_values (s_schemaCache s))" "e_table e \<noteq> [] \<and> comp_matches prefix (e_table e)"
  from table_offered [OF this(1)] this(2) obtain c where c: "(''t:'' @ e_table e, c) \<in> set (offers cs s prefix)" by blast
  from completions_key [OF this] obtain c' where "c' \<in> set (buildSchemaCompletions cs s prefix)"
    "(''t:'' @ e_table e, c') \<in> set (offers cs s prefix)" by blast
  with offers_key [of "''t:'' @ e_table e" c' cs s prefix]
  show "\<exists>c \<in> set (buildSchemaCompletions cs s prefix). cm_label c = e_table e \<and> cm_type c \<in> {''interface'', ''class''}"
    by auto
next
  fix w assume "w \<in> set (COMMON_KEYWORDS @ d_keywords (getDialect (sqlConnKind cs (s_connId s))))" "comp_matches prefix w"
  from keyword_offered [OF this] obtain c where c: "(''k:'' @ w, c) \<in> set (offers cs s prefix)" by blast
  from completions_key [OF this] obtain c' where "c' \<in> set (buildSchemaCompletions cs s prefix)"
    "(''k:'' @ w, c') \<in> set (offers cs s prefix)" by blast
  with offers_key [of "''k:'' @ w" c' cs s prefix]
  show "\<exists>c \<in> set (buildSchemaCompletions cs s prefix). cm_label c = w \<and> cm_type c = ''keyword''"
    by auto
qed (rule keyword_labels_distinct)

lemma completions_complete_witness:
  "\<exists>c \<in> set (buildSchemaCompletions [] (new_session ''c'') ''sel''). cm_label c = ''SELECT''"
proof -
  have "''SELECT'' \<in> set COMMON_KEYWORDS" "comp_matches ''sel'' ''SELECT''" by code_simp+
  then show ?thesis
    using completions_complete [of "[]" "new_session ''c''" "''sel''"] by (metis UnI1 set_append)
qed

end
