(* ===== verification/Ai.thy ===== *)
theory Ai
  imports TreeData QueryRun SavedMap
begin

text \<open>
  \<open>src/src/ai.js\<close>: the tools a model may call. A tool's result is a JSON value; an error it
  throws is \<open>Inl\<close>. The answers of the helper, including the tree requests, are arguments.
\<close>

definition MAX_ROWS :: nat where
  "MAX_ROWS = 200"

definition quoted :: "string \<Rightarrow> string" where
  "quoted s = CHR 0x22 # s @ [CHR 0x22]"

definition connOr :: "conn list \<Rightarrow> string \<Rightarrow> string + conn" where
  "connOr cs i = (case find_conn cs i of
       Some c \<Rightarrow> Inr c
     | None \<Rightarrow> Inl (''No saved connection '' @ quoted i @ ''. Have: '' @
         or_str (js_join '', '' (map c_id cs)) ''(none saved)''))"

definition sql_connections :: "conn list \<Rightarrow> jsval" where
  "sql_connections cs = VObj [(''connections'', VArr (map (\<lambda>c. VObj [
     (''id'', VStr (c_id c)), (''name'', VStr (c_name c)), (''engine'', VStr (c_kind c)),
     (''host'', VStr (c_host c)), (''database'', VStr (c_database c)), (''user'', VStr (c_user c)),
     (''writesAllowed'', VBool (\<not> isReadOnly cs (c_id c)))]) cs))]"

definition kid_json :: "kid \<Rightarrow> jsval" where
  "kid_json k = (case k of
       KDb n \<Rightarrow> VObj [(''kind'', VStr ''db''), (''name'', VStr n)]
     | KSchema n \<Rightarrow> VObj [(''kind'', VStr ''schema''), (''name'', VStr n)]
     | KTable n tk sch \<Rightarrow> VObj [(''kind'', VStr ''table''), (''name'', VStr n), (''tableKind'', VStr tk), (''schema'', VStr sch)])"

text \<open>An omitted argument is the empty text, which the code treats alike.\<close>

definition sql_schema ::
  "ssh_api \<Rightarrow> tree_answers \<Rightarrow> string \<Rightarrow> string \<Rightarrow> string \<Rightarrow> world \<Rightarrow> (string + jsval) \<times> world" where
  "sql_schema ssh ans connectionId database schema w = (case connOr (a_connections (wd_app w)) connectionId of
       Inl e \<Rightarrow> (Inl e, w)
     | Inr c \<Rightarrow> (case ensureConnected ssh ans (c_id c) w of
         (Inl e, w1) \<Rightarrow> (Inl (te_message e), w1)
       | (Inr _, w1) \<Rightarrow>
          (let (key, (r, w2)) =
             (if database = [] then (''databases'', treeLoadDatabases (ta_databases ans) (c_id c) w1)
              else if schema = [] then (''children'', treeLoadDbChildren ans (c_id c) database w1)
              else (''tables'', treeLoadTables (ta_tables ans) (c_id c) database schema w1))
           in case r of
                Inl e \<Rightarrow> (Inl (te_message e), w2)
              | Inr kids \<Rightarrow> (Inr (VObj [(key, VArr (map kid_json kids))]), w2))))"

section \<open>Running a statement\<close>

definition re_ai_writes :: re where
  "re_ai_writes = rseq [RBol, rstar rspace, ralt [rlit_i ''insert'', rlit_i ''update'', rlit_i ''delete'',
     rlit_i ''drop'', rlit_i ''truncate'', rlit_i ''alter'', rlit_i ''create'', rlit_i ''replace'',
     rlit_i ''grant'', rlit_i ''revoke''], RWordB]"

record query_args =
  qr_conn :: string
  qr_sql :: string
  qr_database :: "string option"
  qr_schema :: "string option"
  qr_confirm :: bool

definition ai_body :: "query_args \<Rightarrow> string \<Rightarrow> string \<Rightarrow> app \<Rightarrow> jsval" where
  "ai_body args sql requestId a =
     (let s = omap_get (a_sessions a) (qr_conn args);
          pick = (\<lambda>x f. case x of Some v \<Rightarrow> Some v | None \<Rightarrow> Option.bind s f)
      in VObj ([(''conn'', VStr (qr_conn args)), (''sql'', VStr sql), (''request_id'', VStr requestId),
           (''row_limit'', VNum (NInt (int MAX_ROWS + 1)))] @
         opt_field_json ''database'' (pick (qr_database args) s_currentDatabase) @
         opt_field_json ''schema'' (pick (qr_schema args) s_currentSchema)))"

definition ai_statement :: "stmt_result \<Rightarrow> jsval" where
  "ai_statement st = (case st of
       SRows sql cols rows truncated bySize ms \<Rightarrow> VObj [
         (''kind'', VStr ''rows''), (''columns'', VArr (map VStr cols)), (''rowCount'', VNum (NInt (int (length rows)))),
         (''truncatedBySource'', VBool truncated), (''truncatedHere'', VBool (length rows > MAX_ROWS)),
         (''rows'', VArr (map VArr (take MAX_ROWS rows))), (''elapsedMs'', VNum (NInt ms))]
     | SExec sql n ms \<Rightarrow> VObj [(''kind'', VStr ''exec''), (''affected'', VNum (NInt n)), (''elapsedMs'', VNum (NInt ms))]
     | SError sql e ms \<Rightarrow> VObj [(''kind'', VStr ''error''), (''error'', VStr e), (''elapsedMs'', VNum (NInt ms))])"

definition ai_refusal :: "conn list \<Rightarrow> conn \<Rightarrow> string \<Rightarrow> bool \<Rightarrow> jsval option" where
  "ai_refusal cs c sql confirmed =
     (if sql = [] then Some (VObj [(''error'', VStr ''empty sql'')])
      else if isReadOnly cs (c_id c) \<and> re_test re_ai_writes sql
      then Some (VObj [(''error'', VStr (''Connection '' @ quoted (c_name c) @ '' is read-only, so this statement was not run.''))])
      else (case destructiveReason sql of
          None \<Rightarrow> None
        | Some danger \<Rightarrow> if confirmed then None
            else Some (VObj [(''error'', VStr (''Refused: '' @ danger @ '' Pass confirm: true to run it anyway.'')),
                             (''needsConfirm'', VBool True)])))"

text \<open>\<open>answer\<close> is what \<open>/query\<close> answers, \<open>requestId\<close> the id made from the clock.\<close>

definition sql_query ::
  "ssh_api \<Rightarrow> tree_answers \<Rightarrow> string + stmt_result list \<Rightarrow> string \<Rightarrow> query_args \<Rightarrow> world \<Rightarrow> (string + jsval) \<times> world" where
  "sql_query ssh ans answer requestId args w = (case connOr (a_connections (wd_app w)) (qr_conn args) of
       Inl e \<Rightarrow> (Inl e, w)
     | Inr c \<Rightarrow>
        (let sql = js_trim (qr_sql args) in
         case ai_refusal (a_connections (wd_app w)) c sql (qr_confirm args) of
           Some refused \<Rightarrow> (Inr refused, w)
         | None \<Rightarrow> (case ensureConnected ssh ans (c_id c) w of
             (Inl e, w1) \<Rightarrow> (Inl (te_message e), w1)
           | (Inr _, w1) \<Rightarrow>
              (let w2 = emit (Fetch ''/query'' ''POST'' (ai_body args sql requestId (wd_app w1))) w1 in
               case answer of
                 Inl e \<Rightarrow> (Inl e, w2)
               | Inr statements \<Rightarrow> (Inr (VObj [(''statements'', VArr (map ai_statement statements))]), w2)))))"

section \<open>Connecting runs no statement\<close>

definition no_query :: "world \<Rightarrow> world \<Rightarrow> bool" where
  "no_query w w' = (query_texts (wd_trace w') = query_texts (wd_trace w))"

lemma query_texts_simps [simp]:
  "query_texts [] = []" "query_texts (Fetch p v b # tr) = (if p = ''/query'' then [jget b ''sql''] else []) @ query_texts tr"
  "query_texts (TabState st s # tr) = query_texts tr" "query_texts (SyncSidebar # tr) = query_texts tr"
  "query_texts (Rerender # tr) = query_texts tr" "query_texts (Sleep n # tr) = query_texts tr"
  "query_texts (Toast m l # tr) = query_texts tr" "query_texts (OpenForward h p lp # tr) = query_texts tr"
  "query_texts (CloseForward h p lp # tr) = query_texts tr"
  by (simp_all add: query_texts_def)

lemma no_query_trans: "no_query u v \<Longrightarrow> no_query v w \<Longrightarrow> no_query u w"
  by (simp add: no_query_def)

lemma no_query_simps [simp]:
  "no_query w w" "no_query w (setConnState i st w)" "no_query w (emit (Sleep n) w)"
  by (simp_all add: no_query_def setConnState_def Let_def)

lemma connectFromForm_no_query: "connectFromForm ssh an f t w = (r, w1) \<Longrightarrow> no_query w w1"
  using resolveEndpoint_world [of ssh "an_forward an" f w]
  by (auto simp: connectFromForm_def Let_def no_query_def query_texts_def split: sum.splits prod.splits if_splits)

lemma retry_loop_no_query: "retry_loop ssh envs f a n e w = (r, w') \<Longrightarrow> no_query w w'"
proof (induction n arbitrary: a e w)
  case (Suc n)
  let ?w1 = "setConnState (c_id f) (Some (if a = 1 then Connecting else Reconnecting)) w"
  obtain q w2 where c: "connectFromForm ssh (envs a) f False ?w1 = (q, w2)" by fastforce
  have w2: "no_query w w2" using no_query_trans [OF _ connectFromForm_no_query [OF c]] by simp
  show ?case
  proof (cases q)
    case (Inr u)
    then have "w' = setConnState (c_id f) (Some Connected) w2" using Suc.prems c by auto
    then show ?thesis using no_query_trans [OF w2] by simp
  next
    case (Inl m)
    let ?w3 = "if a < MAX_CONNECT_ATTEMPTS then emit (Sleep (400 * int a)) w2 else w2"
    have "retry_loop ssh envs f (Suc a) n m ?w3 = (r, w')" using Suc.prems c Inl by simp
    from Suc.IH [OF this] show ?thesis using no_query_trans [OF w2] by (simp add: no_query_def split: if_splits)
  qed
qed simp

lemma connectWithRetry_no_query: "connectWithRetry ssh envs i w = (r, w') \<Longrightarrow> no_query w w'"
  by (auto simp: connectWithRetry_def Let_def no_query_def setConnState_def
      dest!: retry_loop_no_query split: option.splits prod.splits)

lemma ensureConnected_no_query: "ensureConnected ssh ans i w = (r, w') \<Longrightarrow> no_query w w'"
  by (auto simp: ensureConnected_def Let_def no_query_def
      dest!: connectWithRetry_no_query split: sum.splits if_splits option.splits prod.splits)

section \<open>The gates\<close>

lemma ai_body_sql: "jget (ai_body args sql rid a) ''sql'' = VStr sql"
  by (simp add: ai_body_def Let_def)

text \<open>
  A model's statement reaches the database only when the connection is a saved one, the
  text is not empty, a statement that starts with a write is not for a read-only
  connection, and a destructive one was confirmed in the call: at most that one text is
  sent, and no row beyond the two hundredth is handed back, with a flag when one was cut.
\<close>

theorem sql_query_gates:
  assumes "sql_query ssh ans answer requestId args w = (r, w')" "sql = js_trim (qr_sql args)"
  shows "(query_texts (wd_trace w') = query_texts (wd_trace w) \<or>
      query_texts (wd_trace w') = query_texts (wd_trace w) @ [VStr sql] \<and>
      (\<exists>c. find_conn (a_connections (wd_app w)) (qr_conn args) = Some c) \<and> sql \<noteq> [] \<and>
      \<not> (isReadOnly (a_connections (wd_app w)) (qr_conn args) \<and> re_test re_ai_writes sql) \<and>
      (destructiveReason sql = None \<or> qr_confirm args)) \<and>
    (\<forall>st \<in> set (case answer of Inr sts \<Rightarrow> sts | Inl e \<Rightarrow> []). case st of
       SRows q cols rows tr bs ms \<Rightarrow> (\<exists>kept. jget (ai_statement st) ''rows'' = VArr kept \<and> length kept \<le> MAX_ROWS \<and>
         jget (ai_statement st) ''truncatedHere'' = VBool (length kept < length rows))
     | _ \<Rightarrow> True)"
proof (rule conjI)
  show "query_texts (wd_trace w') = query_texts (wd_trace w) \<or>
      query_texts (wd_trace w') = query_texts (wd_trace w) @ [VStr sql] \<and>
      (\<exists>c. find_conn (a_connections (wd_app w)) (qr_conn args) = Some c) \<and> sql \<noteq> [] \<and>
      \<not> (isReadOnly (a_connections (wd_app w)) (qr_conn args) \<and> re_test re_ai_writes sql) \<and>
      (destructiveReason sql = None \<or> qr_confirm args)"
  proof (cases "find_conn (a_connections (wd_app w)) (qr_conn args)")
    case (Some c)
    then have id: "c_id c = qr_conn args" using find_conn_Some by blast
    obtain q w1 where e: "ensureConnected ssh ans (c_id c) w = (q, w1)" by fastforce
    have "query_texts (wd_trace w1) = query_texts (wd_trace w)"
      using ensureConnected_no_query [OF e] by (simp add: no_query_def)
    with assms Some id e show ?thesis
      by (auto simp: sql_query_def connOr_def ai_refusal_def Let_def ai_body_sql
          split: option.splits if_splits sum.splits)
  qed (use assms in \<open>auto simp: sql_query_def connOr_def\<close>)
qed (auto simp: ai_statement_def min_def split: stmt_result.splits)

definition ro_world :: world where
  "ro_world = one_conn_world\<lparr>wd_app := (wd_app one_conn_world)\<lparr>a_connections :=
     [plain_conn ''c'' ''mysql'' []\<lparr>c_allow_writes := False\<rparr>], a_connStatus := [(''c'', Connected)]\<rparr>\<rparr>"

definition calm_answers :: tree_answers where
  "calm_answers = \<lparr>ta_sidecar = Inr (), ta_conns = None, ta_envs = (\<lambda>_. up), ta_databases = Inr [], ta_schemas = Inr [],
     ta_tables = (\<lambda>_ _. Inr [])\<rparr>"

definition no_ssh :: ssh_api where
  "no_ssh = \<lparr>can_open = False, can_close = False, can_list = False\<rparr>"

lemma sql_query_gates_witness:
  "query_texts (wd_trace (snd (sql_query no_ssh calm_answers (Inr []) ''ai-1''
     \<lparr>qr_conn = ''c'', qr_sql = '' delete from t where id = 1'', qr_database = None, qr_schema = None, qr_confirm = True\<rparr>
     ro_world))) = []"
proof -
  let ?args = "\<lparr>qr_conn = ''c'', qr_sql = '' delete from t where id = 1'', qr_database = None, qr_schema = None, qr_confirm = True\<rparr>"
  have t: "js_trim (qr_sql ?args) = ''delete from t where id = 1''" by code_simp
  have "isReadOnly (a_connections (wd_app ro_world)) (qr_conn ?args) \<and> re_test re_ai_writes ''delete from t where id = 1''"
    by code_simp
  moreover have "query_texts (wd_trace ro_world) = []" by (simp add: ro_world_def one_conn_world_def)
  ultimately show ?thesis
    using sql_query_gates [OF surjective_pairing, of "''delete from t where id = 1''" ?args no_ssh calm_answers "Inr []" "''ai-1''" ro_world]
      t by simp
qed

text \<open>The read-only gate looks at the first word of the text only.\<close>

lemma readonly_gate_first_word_only:
  "query_texts (wd_trace (snd (sql_query no_ssh calm_answers (Inr []) ''ai-1''
     \<lparr>qr_conn = ''c'', qr_sql = ''SELECT 1; DELETE FROM t WHERE id = 1'', qr_database = None, qr_schema = None, qr_confirm = False\<rparr>
     ro_world))) = [VStr ''SELECT 1; DELETE FROM t WHERE id = 1'']"
  by code_simp

end
