(* ===== verification/Menus.thy ===== *)
theory Menus
  imports JsText
begin

text \<open>
  \<open>src/src/dom/menus.js\<close>, \<open>tooltip.js\<close> and \<open>inputs.js\<close>: the placement of floating layers, the
  dropdown as a state machine that reports a pick or a dismissal to its owner, the registry
  that force-closes open menus, the tooltip's delayed bubble and the search box. Positions
  are whole pixels. A dropdown's document listeners are taken as armed.
\<close>

section \<open>Placing a layer\<close>

record rect =
  rc_left :: int
  rc_top :: int
  rc_right :: int
  rc_bottom :: int

record viewport =
  vp_width :: int
  vp_height :: int

datatype anchor = Below rect | At int int

text \<open>The left and top of a layer of size \<open>w\<close> by \<open>h\<close>.\<close>

definition placeFloating :: "viewport \<Rightarrow> int \<Rightarrow> int \<Rightarrow> anchor \<Rightarrow> int \<Rightarrow> int \<Rightarrow> int \<times> int" where
  "placeFloating vp w h anchor gap margin =
     (let left0 = (case anchor of Below r \<Rightarrow> rc_left r | At x y \<Rightarrow> x);
          top0 = (case anchor of Below r \<Rightarrow> rc_bottom r + gap | At x y \<Rightarrow> y);
          flipped = (case anchor of
              Below r \<Rightarrow> if top0 + h > vp_height vp - margin \<and> rc_top r - h - gap > margin
                then Some (rc_top r - h - gap) else None
            | At x y \<Rightarrow> None);
          top1 = (case flipped of Some t \<Rightarrow> t | None \<Rightarrow> min top0 (vp_height vp - h - margin));
          left1 = min left0 (vp_width vp - w - margin)
      in (max margin left1, max margin top1))"

definition TOOLTIP_OFFSET :: int where
  "TOOLTIP_OFFSET = 6"

definition TOOLTIP_PAD :: int where
  "TOOLTIP_PAD = 8"

datatype side = TopSide | BottomSide

text \<open>The bubble's centre may lie on half a pixel; \<open>Math.round\<close> rounds it up.\<close>

definition place_tooltip :: "viewport \<Rightarrow> int \<Rightarrow> int \<Rightarrow> rect \<Rightarrow> (int \<times> int) \<times> side" where
  "place_tooltip vp tw th r =
     (let above = rc_top r - th - TOOLTIP_OFFSET;
          (top0, side0) = (if above < TOOLTIP_PAD then (rc_bottom r + TOOLTIP_OFFSET, BottomSide) else (above, TopSide));
          (top1, side1) = (if side0 = BottomSide \<and> top0 + th > vp_height vp - TOOLTIP_PAD \<and> above \<ge> TOOLTIP_PAD
                            then (above, TopSide) else (top0, side0));
          twice = rc_left r + rc_right r - tw;
          left2 = max (2 * TOOLTIP_PAD) (min twice (2 * (vp_width vp - tw - TOOLTIP_PAD)))
      in (((left2 + 1) div 2, top1), side1))"

section \<open>The dropdown\<close>

record option_row =
  op_value :: string
  op_label :: string
  op_keywords :: string

record dropdown =
  sl_options :: "option_row list"
  sl_value :: string
  sl_open :: bool
  sl_picked :: bool
  sl_searchable :: bool
  sl_query :: string

datatype dropdown_out = Changed string | Dismissed

datatype dropdown_event =
    TriggerPress | ItemPress string | OutsidePress | EscapePress | TabPress | Scrolled | ForceClose
  | Search string | SearchEnter

definition select_label :: "dropdown \<Rightarrow> string" where
  "select_label s = (case find (\<lambda>o'. op_value o' = sl_value s) (sl_options s) of Some o' \<Rightarrow> op_label o' | None \<Rightarrow> [])"

definition row_hit :: "string \<Rightarrow> option_row \<Rightarrow> bool" where
  "row_hit query o' = (let q = toLowerCase (js_trim query) in
     q = [] \<or> js_includes (toLowerCase (op_label o' @ '' '' @ op_keywords o')) q)"

definition rows_shown :: "dropdown \<Rightarrow> option_row list" where
  "rows_shown s = (if sl_searchable s then filter (row_hit (sl_query s)) (sl_options s) else sl_options s)"

definition closeMenu :: "dropdown \<Rightarrow> dropdown \<times> dropdown_out list" where
  "closeMenu s = (if \<not> sl_open s then (s, [])
     else (s\<lparr>sl_open := False\<rparr>, if \<not> sl_picked s then [Dismissed] else []))"

definition openMenu :: "dropdown \<Rightarrow> dropdown" where
  "openMenu s = (if sl_open s then s else s\<lparr>sl_picked := False, sl_open := True, sl_query := []\<rparr>)"

definition pick_item :: "string \<Rightarrow> dropdown \<Rightarrow> dropdown \<times> dropdown_out list" where
  "pick_item v s = (let (s1, outs) = closeMenu (s\<lparr>sl_value := v, sl_picked := True\<rparr>) in (s1, Changed v # outs))"

definition on_dropdown :: "dropdown_event \<Rightarrow> dropdown \<Rightarrow> dropdown \<times> dropdown_out list" where
  "on_dropdown ev s = (case ev of
       TriggerPress \<Rightarrow> if sl_open s then closeMenu s else (openMenu s, [])
     | ItemPress v \<Rightarrow> if sl_open s \<and> v \<in> op_value ` set (rows_shown s) then pick_item v s else (s, [])
     | Search q \<Rightarrow> if sl_open s \<and> sl_searchable s then (s\<lparr>sl_query := q\<rparr>, []) else (s, [])
     | SearchEnter \<Rightarrow> if sl_open s \<and> sl_searchable s
         then (case rows_shown s of [] \<Rightarrow> (s, []) | o' # _ \<Rightarrow> pick_item (op_value o') s) else (s, [])
     | _ \<Rightarrow> closeMenu s)"

fun dropdown_run :: "dropdown_event list \<Rightarrow> dropdown \<Rightarrow> dropdown \<times> dropdown_out list" where
  "dropdown_run [] s = (s, [])"
| "dropdown_run (ev # evs) s =
     (let (s1, o1) = on_dropdown ev s; (s2, o2) = dropdown_run evs s1 in (s2, o1 @ o2))"

text \<open>How often the menu opened.\<close>

fun openings :: "dropdown_event list \<Rightarrow> dropdown \<Rightarrow> nat" where
  "openings [] s = 0"
| "openings (ev # evs) s = (let s1 = fst (on_dropdown ev s) in
     (if \<not> sl_open s \<and> sl_open s1 then 1 else 0) + openings evs s1)"

section \<open>The registry of open menus\<close>

text \<open>\<open>closeAllSelectMenus\<close> calls every registered closer once; a closer removes itself.\<close>

type_synonym registry = "nat list"

definition trackFloatingMenu :: "nat \<Rightarrow> registry \<Rightarrow> registry" where
  "trackFloatingMenu k reg = (if k \<in> set reg then reg else reg @ [k])"

definition untrack :: "nat \<Rightarrow> registry \<Rightarrow> registry" where
  "untrack k reg = filter (\<lambda>j. j \<noteq> k) reg"

definition closeAllSelectMenus :: "registry \<Rightarrow> registry \<times> nat list" where
  "closeAllSelectMenus reg = foldl (\<lambda>(r, closed) k. (untrack k r, closed @ [k])) (reg, []) reg"

text \<open>Opening a context menu closes every other floating layer first.\<close>

definition openContextMenu :: "nat \<Rightarrow> registry \<Rightarrow> registry \<times> nat list" where
  "openContextMenu k reg = (let (r, closed) = closeAllSelectMenus reg in (trackFloatingMenu k r, closed))"

section \<open>The tooltip\<close>

definition TOOLTIP_DELAY_MS :: int where
  "TOOLTIP_DELAY_MS = 200"

text \<open>Owners of a tooltip are numbers; \<open>tp_texts\<close> holds the \<open>data-tooltip\<close> of each.\<close>

record tooltip =
  tp_texts :: "nat \<Rightarrow> string option"
  tp_current :: "nat option"
  tp_timer :: "(nat \<times> int) option"
  tp_bubble :: "(nat \<times> string) option"

definition setTooltipAttr :: "nat \<Rightarrow> string option \<Rightarrow> tooltip \<Rightarrow> tooltip" where
  "setTooltipAttr k v s = s\<lparr>tp_texts := (tp_texts s)(k := (case v of None \<Rightarrow> None | Some t \<Rightarrow> if t = [] then None else Some t))\<rparr>"

datatype tooltip_event =
    Over nat int | Leave nat | Focus nat int | Hide | TimerFires bool | Inside nat

definition hide_tooltip :: "tooltip \<Rightarrow> tooltip" where
  "hide_tooltip s = s\<lparr>tp_current := None, tp_timer := None, tp_bubble := None\<rparr>"

definition arm_tooltip :: "nat \<Rightarrow> int \<Rightarrow> tooltip \<Rightarrow> tooltip" where
  "arm_tooltip k now s = s\<lparr>tp_current := Some k, tp_timer := Some (k, now + TOOLTIP_DELAY_MS)\<rparr>"

text \<open>\<open>TimerFires c\<close>: the delay is over; \<open>c\<close> tells whether the owner is still in the page.\<close>

definition on_tooltip :: "tooltip_event \<Rightarrow> tooltip \<Rightarrow> tooltip" where
  "on_tooltip ev s = (case ev of
       Over k now \<Rightarrow> if tp_texts s k = None \<or> tp_current s = Some k then s else arm_tooltip k now s
     | Focus k now \<Rightarrow> if tp_texts s k = None then s else arm_tooltip k now s
     | Leave k \<Rightarrow> if tp_current s = Some k then hide_tooltip s else s
     | Inside k \<Rightarrow> s
     | Hide \<Rightarrow> hide_tooltip s
     | TimerFires connected \<Rightarrow> (case tp_timer s of
           None \<Rightarrow> s
         | Some (k, due) \<Rightarrow>
             (let s1 = s\<lparr>tp_timer := None\<rparr> in
              if tp_current s1 = Some k \<and> connected
              then (case tp_texts s1 k of None \<Rightarrow> s1 | Some t \<Rightarrow> s1\<lparr>tp_bubble := Some (k, t)\<rparr>)
              else s1)))"

section \<open>The search box\<close>

record search_box =
  sb_value :: string
  sb_clear_visible :: bool

definition makeSearchInput :: "string \<Rightarrow> search_box" where
  "makeSearchInput initial = \<lparr>sb_value = initial, sb_clear_visible = (initial \<noteq> [])\<rparr>"

text \<open>Typing and the clear button, with what is reported to the owner.\<close>

definition search_typed :: "string \<Rightarrow> search_box \<Rightarrow> search_box \<times> string list" where
  "search_typed v s = (\<lparr>sb_value = v, sb_clear_visible = (v \<noteq> [])\<rparr>, [v])"

definition search_cleared :: "search_box \<Rightarrow> search_box \<times> string list" where
  "search_cleared s = (if sb_value s = [] then (s, []) else (\<lparr>sb_value = [], sb_clear_visible = False\<rparr>, [[]]))"

section \<open>Properties\<close>

text \<open>
  a floating layer that fits the window between its margins is placed entirely inside
  them, wherever its anchor is; and one hung on a box that has room for it above or below
  never covers that box.
\<close>

theorem placeFloating_inside:
  assumes "placeFloating vp w h anchor gap margin = (x, y)" "0 \<le> margin" "0 \<le> gap" "0 \<le> h"
    and "w + 2 * margin \<le> vp_width vp" "h + 2 * margin \<le> vp_height vp"
    and "case anchor of Below r \<Rightarrow> rc_top r - gap \<le> vp_height vp - margin | At px py \<Rightarrow> True"
  shows "margin \<le> x \<and> x + w \<le> vp_width vp - margin \<and> margin \<le> y \<and> y + h \<le> vp_height vp - margin \<and>
    (\<forall>r. anchor = Below r \<and> (rc_bottom r + gap + h \<le> vp_height vp - margin \<or> margin < rc_top r - gap - h) \<longrightarrow>
       rc_bottom r + gap \<le> y \<or> y + h + gap \<le> rc_top r)"
  using assms by (cases anchor) (auto simp: placeFloating_def Let_def min_def max_def split: if_splits)

lemma placeFloating_inside_witness:
  "placeFloating \<lparr>vp_width = 800, vp_height = 600\<rparr> 200 100
     (Below \<lparr>rc_left = 700, rc_top = 550, rc_right = 760, rc_bottom = 580\<rparr>) 4 8 = (592, 446) \<and>
   (446::int) + 100 + 4 \<le> 550"
proof -
  let ?r = "\<lparr>rc_left = 700, rc_top = 550, rc_right = 760, rc_bottom = 580\<rparr>"
  have p: "placeFloating \<lparr>vp_width = 800, vp_height = 600\<rparr> 200 100 (Below ?r) 4 8 = (592, 446)"
    by (simp add: placeFloating_def)
  with placeFloating_inside [OF p] show ?thesis by simp
qed

lemma place_tooltip_inside:
  assumes "place_tooltip vp tw th r = ((x, y), s)" "tw + 2 * TOOLTIP_PAD \<le> vp_width vp"
  shows "TOOLTIP_PAD \<le> x \<and> x + tw \<le> vp_width vp - TOOLTIP_PAD"
  using assms by (auto simp: place_tooltip_def Let_def min_def max_def split: if_splits prod.splits)

section \<open>A dropdown answers each opening once\<close>

lemma closeMenu_open [simp]: "\<not> sl_open (fst (closeMenu s))"
  by (simp add: closeMenu_def)

lemma openMenu_open [simp]: "sl_open (openMenu s)"
  by (simp add: openMenu_def)

definition drop_inv :: "dropdown \<Rightarrow> bool" where
  "drop_inv s = (sl_open s \<longrightarrow> \<not> sl_picked s)"

definition open_count :: "dropdown \<Rightarrow> nat" where
  "open_count s = (if sl_open s then 1 else 0)"

lemma pick_item_out:
  "drop_inv s \<Longrightarrow> sl_open s \<Longrightarrow> pick_item v s = (s\<lparr>sl_value := v, sl_picked := True, sl_open := False\<rparr>, [Changed v])"
  by (simp add: pick_item_def closeMenu_def)

lemma closeMenu_out:
  "drop_inv s \<Longrightarrow> closeMenu s = (s\<lparr>sl_open := False\<rparr>, if sl_open s then [Dismissed] else [])"
  by (simp add: closeMenu_def drop_inv_def)

text \<open>One event: the invariant, the balance of openings and answers, and where values come from.\<close>

lemma dropdown_step:
  assumes "drop_inv s" "on_dropdown ev s = (s1, outs)"
  shows "drop_inv s1 \<and>
    length outs + open_count s1 = open_count s + (if \<not> sl_open s \<and> sl_open s1 then 1 else 0) \<and>
    sl_options s1 = sl_options s \<and>
    (\<forall>v. Changed v \<in> set outs \<longrightarrow> sl_value s1 = v \<and> (\<exists>o' \<in> set (rows_shown s). op_value o' = v)) \<and>
    ((\<forall>v. Changed v \<notin> set outs) \<longrightarrow> sl_value s1 = sl_value s)"
proof (cases ev)
  case TriggerPress
  then show ?thesis using assms
    by (auto simp: on_dropdown_def closeMenu_out drop_inv_def open_count_def openMenu_def split: if_splits)
next
  case (ItemPress v)
  then show ?thesis using assms
    by (auto simp: on_dropdown_def pick_item_out open_count_def drop_inv_def split: if_splits)
next
  case (Search q)
  then show ?thesis using assms
    by (auto simp: on_dropdown_def open_count_def drop_inv_def split: if_splits)
next
  case SearchEnter
  then show ?thesis using assms
    by (cases "rows_shown s") (auto simp: on_dropdown_def pick_item_out open_count_def drop_inv_def split: if_splits)
qed (use assms in \<open>auto simp: on_dropdown_def closeMenu_out open_count_def drop_inv_def\<close>)

text \<open>The picks of a run.\<close>

definition picks :: "dropdown_out list \<Rightarrow> string list" where
  "picks outs = concat (map (\<lambda>o'. case o' of Changed v \<Rightarrow> [v] | Dismissed \<Rightarrow> []) outs)"

lemma picks_iff: "v \<in> set (picks outs) \<longleftrightarrow> Changed v \<in> set outs"
  by (auto simp: picks_def split: dropdown_out.splits intro: dropdown_out.exhaust)

lemma rows_shown_options: "o' \<in> set (rows_shown s) \<Longrightarrow> o' \<in> set (sl_options s)"
  by (auto simp: rows_shown_def split: if_splits)

lemma picks_last:
  assumes "length outs \<le> 1" "\<forall>v. Changed v \<in> set outs \<longrightarrow> x = v" "(\<forall>v. Changed v \<notin> set outs) \<longrightarrow> x = y"
  shows "last (y # picks outs) = x"
proof (cases outs)
  case (Cons o' rest)
  then show ?thesis using assms by (cases o') (auto simp: picks_def)
qed (use assms in \<open>simp add: picks_def\<close>)

text \<open>
  C34: over any sequence of presses, keys, scrolls, searches and forced closes, every
  opening of a dropdown is answered exactly once, by a pick or by a dismissal, a menu
  still open by none yet; only values of its options are ever picked; and its value is the
  last one picked.
\<close>

theorem dropdown_answers_once:
  assumes "drop_inv s" "dropdown_run evs s = (s', outs)"
  shows "length outs + open_count s' = open_count s + openings evs s \<and>
    set (picks outs) \<subseteq> op_value ` set (sl_options s) \<and>
    sl_value s' = last (sl_value s # picks outs)"
  using assms
proof (induction evs arbitrary: s outs)
  case (Cons ev evs)
  obtain s1 o1 where 1: "on_dropdown ev s = (s1, o1)" by fastforce
  obtain o2 where 2: "dropdown_run evs s1 = (s', o2)" "outs = o1 @ o2"
    using Cons.prems(2) 1 by (auto simp: Let_def split: prod.splits)
  note step = dropdown_step [OF Cons.prems(1) 1]
  have "length o1 \<le> 1" using step by (auto simp: open_count_def split: if_splits)
  then have "last (sl_value s # picks o1) = sl_value s1" using step by (intro picks_last) auto
  moreover have "set (picks o1) \<subseteq> op_value ` set (sl_options s)"
  proof
    fix v assume "v \<in> set (picks o1)"
    then obtain o' where "o' \<in> set (rows_shown s)" "op_value o' = v" using step by (auto simp: picks_iff)
    then show "v \<in> op_value ` set (sl_options s)" using rows_shown_options by auto
  qed
  ultimately show ?case
    using Cons.IH [OF _ 2(1)] step 1 2(2) by (auto simp: picks_def Let_def split: if_splits)
qed (simp add: picks_def)

definition demo_dropdown :: dropdown where
  "demo_dropdown = \<lparr>sl_options = [\<lparr>op_value = ''a'', op_label = ''Alpha'', op_keywords = []\<rparr>,
     \<lparr>op_value = ''b'', op_label = ''Beta'', op_keywords = ''host''\<rparr>],
     sl_value = ''a'', sl_open = False, sl_picked = False, sl_searchable = True, sl_query = []\<rparr>"

lemma dropdown_answers_once_witness:
  "length (snd (dropdown_run [TriggerPress, Search ''HOST'', SearchEnter, TriggerPress, Scrolled] demo_dropdown)) = 2 \<and>
   sl_value (fst (dropdown_run [TriggerPress, Search ''HOST'', SearchEnter, TriggerPress, Scrolled] demo_dropdown)) = ''b''"
proof -
  let ?evs = "[TriggerPress, Search ''HOST'', SearchEnter, TriggerPress, Scrolled]"
  have "drop_inv demo_dropdown" by (simp add: drop_inv_def demo_dropdown_def)
  from dropdown_answers_once [OF this surjective_pairing, of ?evs]
  have "length (snd (dropdown_run ?evs demo_dropdown)) + open_count (fst (dropdown_run ?evs demo_dropdown)) = open_count demo_dropdown + openings ?evs demo_dropdown"
    by blast
  moreover have "open_count demo_dropdown = 0" "openings ?evs demo_dropdown = 2"
    "open_count (fst (dropdown_run ?evs demo_dropdown)) = 0" by code_simp+
  moreover have "sl_value (fst (dropdown_run ?evs demo_dropdown)) = ''b''" by code_simp
  ultimately show ?thesis by simp
qed

section \<open>Number steppers\<close>

text \<open>\<open>step_field\<close> is the browser's \<open>stepUp\<close> or \<open>stepDown\<close>, \<open>None\<close> when it throws.\<close>

definition makeStep :: "bool \<Rightarrow> (string \<Rightarrow> string option) \<Rightarrow> string \<Rightarrow> string" where
  "makeStep upward step_field held = (case step_field held of
       Some v \<Rightarrow> v | None \<Rightarrow> if upward then ''1'' else ''-1'')"

section \<open>Tooltip and registry\<close>

definition tooltip_inv :: "tooltip \<Rightarrow> bool" where
  "tooltip_inv s = ((\<forall>k due. tp_timer s = Some (k, due) \<longrightarrow> tp_current s = Some k) \<and>
     (tp_current s = None \<longrightarrow> tp_bubble s = None))"

lemma tooltip_event_inv: "tooltip_inv s \<Longrightarrow> tooltip_inv (on_tooltip ev s)"
  by (cases ev) (auto simp: on_tooltip_def tooltip_inv_def arm_tooltip_def hide_tooltip_def Let_def split: option.splits)

definition no_tooltip :: "(nat \<Rightarrow> string option) \<Rightarrow> tooltip" where
  "no_tooltip texts = \<lparr>tp_texts = texts, tp_current = None, tp_timer = None, tp_bubble = None\<rparr>"

interpretation tips: event_machine on_tooltip "no_tooltip texts" tooltip_inv for texts
  by unfold_locales (simp_all add: tooltip_event_inv, simp add: no_tooltip_def tooltip_inv_def)

text \<open>The bubble is never on screen without a node under the pointer or focused.\<close>

lemma bubble_has_target:
  "tp_bubble (run_events on_tooltip (no_tooltip texts) evs) \<noteq> None \<Longrightarrow>
     tp_current (run_events on_tooltip (no_tooltip texts) evs) \<noteq> None"
  using tips.run_inv [of texts evs] by (auto simp: tooltip_inv_def)

lemma closeAll_runs:
  "foldl (\<lambda>(r, closed) k. (untrack k r, closed @ [k])) (r0, c0) ks = (filter (\<lambda>j. j \<notin> set ks) r0, c0 @ ks)"
  by (induction ks arbitrary: r0 c0) (auto simp: untrack_def intro: filter_cong)

lemma closeAll_closes_all: "closeAllSelectMenus reg = ([], reg)"
  by (simp add: closeAllSelectMenus_def closeAll_runs)

lemma context_menu_alone: "openContextMenu k reg = ([k], reg)"
  by (simp add: openContextMenu_def closeAll_closes_all trackFloatingMenu_def)

end
