(* ===== verification/Dialogs.thy ===== *)
theory Dialogs
  imports Menus
begin

text \<open>
  \<open>src/src/dialogs.js\<close>: the form modal, the confirmation with its promise, the closing of
  every dialog when the tab goes away, and the SQL preview. The page holds the mounted
  overlays and the document's keydown listeners in the order they were added; a listener
  that an earlier one removed during the same key press does not run, and
  \<open>stopPropagation\<close> does not keep other listeners of the document from running. The date
  picker's popup (\<open>dom/datePicker.js\<close>) is on the page because it listens there too.
\<close>

section \<open>The page\<close>

datatype listener = FormKeys nat | ConfirmKeys nat | PopupKeys nat

datatype dialog_key = EscapeKey | EnterKey | OtherKey

datatype dialog_button = ConfirmButton | CancelButton | CrossButton | Backdrop

datatype overlay = FormOverlay nat | ConfirmOverlay nat

record page =
  pa_overlays :: "overlay list"
  pa_keys :: "listener list"
  pa_settled :: "nat list"
  pa_answers :: "(nat \<times> bool) list"
  pa_closed :: "nat list"
  pa_menus :: registry
  pa_next :: nat

definition empty_page :: page where
  "empty_page = \<lparr>pa_overlays = [], pa_keys = [], pa_settled = [], pa_answers = [], pa_closed = [],
     pa_menus = [], pa_next = 0\<rparr>"

definition close_menus :: "page \<Rightarrow> page" where
  "close_menus p = (let (reg, closed) = closeAllSelectMenus (pa_menus p) in
     p\<lparr>pa_menus := reg,
       pa_keys := filter (\<lambda>k. case k of PopupKeys m \<Rightarrow> m \<notin> set closed | _ \<Rightarrow> True) (pa_keys p)\<rparr>)"

definition open_popup :: "page \<Rightarrow> page" where
  "open_popup p = p\<lparr>pa_menus := trackFloatingMenu (pa_next p) (pa_menus p),
     pa_keys := pa_keys p @ [PopupKeys (pa_next p)], pa_next := Suc (pa_next p)\<rparr>"

definition close_popup :: "nat \<Rightarrow> page \<Rightarrow> page" where
  "close_popup m p = p\<lparr>pa_menus := untrack m (pa_menus p), pa_keys := filter (\<lambda>k. k \<noteq> PopupKeys m) (pa_keys p)\<rparr>"

section \<open>Form modals\<close>

text \<open>Opening one removes another's overlay, but not its key listener.\<close>

definition openCenteredDialog :: "page \<Rightarrow> page" where
  "openCenteredDialog p = p\<lparr>
     pa_overlays := filter (\<lambda>o'. case o' of FormOverlay _ \<Rightarrow> False | _ \<Rightarrow> True) (pa_overlays p) @ [FormOverlay (pa_next p)],
     pa_keys := pa_keys p @ [FormKeys (pa_next p)], pa_next := Suc (pa_next p)\<rparr>"

definition close_form :: "nat \<Rightarrow> page \<Rightarrow> page" where
  "close_form d p = (if d \<in> set (pa_settled p) then p
     else let p1 = close_menus (p\<lparr>pa_settled := d # pa_settled p,
                      pa_keys := filter (\<lambda>k. k \<noteq> FormKeys d) (pa_keys p)\<rparr>)
       in p1\<lparr>pa_overlays := filter (\<lambda>o'. o' \<noteq> FormOverlay d) (pa_overlays p1), pa_closed := pa_closed p1 @ [d]\<rparr>)"

section \<open>Confirmations\<close>

definition openConfirmDialog :: "page \<Rightarrow> page" where
  "openConfirmDialog p = p\<lparr>pa_overlays := pa_overlays p @ [ConfirmOverlay (pa_next p)],
     pa_keys := pa_keys p @ [ConfirmKeys (pa_next p)], pa_next := Suc (pa_next p)\<rparr>"

definition finish_confirm :: "nat \<Rightarrow> bool \<Rightarrow> page \<Rightarrow> page" where
  "finish_confirm d v p = (if d \<in> set (pa_settled p) then p
     else p\<lparr>pa_settled := d # pa_settled p, pa_keys := filter (\<lambda>k. k \<noteq> ConfirmKeys d) (pa_keys p),
       pa_overlays := filter (\<lambda>o'. o' \<noteq> ConfirmOverlay d) (pa_overlays p),
       pa_answers := pa_answers p @ [(d, v)]\<rparr>)"

section \<open>Keys, clicks and the closing of the tab\<close>

definition run_listener :: "dialog_key \<Rightarrow> listener \<Rightarrow> page \<Rightarrow> page" where
  "run_listener key k p = (if k \<notin> set (pa_keys p) then p
     else case (k, key) of
         (FormKeys d, EscapeKey) \<Rightarrow> close_form d p
       | (ConfirmKeys d, EscapeKey) \<Rightarrow> finish_confirm d False p
       | (ConfirmKeys d, EnterKey) \<Rightarrow> finish_confirm d True p
       | (PopupKeys m, EscapeKey) \<Rightarrow> close_popup m p
       | (PopupKeys m, EnterKey) \<Rightarrow> close_popup m p
       | _ \<Rightarrow> p)"

definition dispatch_key :: "dialog_key \<Rightarrow> page \<Rightarrow> page" where
  "dispatch_key key p = foldl (\<lambda>q k. run_listener key k q) p (pa_keys p)"

definition click_button :: "dialog_button \<Rightarrow> overlay \<Rightarrow> page \<Rightarrow> page" where
  "click_button b o' p = (if o' \<notin> set (pa_overlays p) then p
     else case o' of
         FormOverlay d \<Rightarrow> if b = ConfirmButton then p else close_form d p
       | ConfirmOverlay d \<Rightarrow> finish_confirm d (b = ConfirmButton) p)"

text \<open>Enter clicks the focused button unless a listener prevented it.\<close>

definition prevents_enter :: "listener \<Rightarrow> bool" where
  "prevents_enter k = (case k of FormKeys _ \<Rightarrow> False | _ \<Rightarrow> True)"

definition press_key :: "dialog_key \<Rightarrow> (dialog_button \<times> overlay) option \<Rightarrow> page \<Rightarrow> page" where
  "press_key key focus p = (let q = dispatch_key key p in
     if key = EnterKey \<and> \<not> list_ex prevents_enter (pa_keys p)
     then (case focus of Some (b, o') \<Rightarrow> click_button b o' q | None \<Rightarrow> q) else q)"

definition closeOpenDialogs :: "page \<Rightarrow> page" where
  "closeOpenDialogs p = close_menus (p\<lparr>pa_overlays := []\<rparr>)"

datatype page_event =
    FormOpens | ConfirmOpens | PopupOpens
  | Press dialog_key "(dialog_button \<times> overlay) option" | Click dialog_button overlay | TabCloses

fun page_step :: "page_event \<Rightarrow> page \<Rightarrow> page" where
  "page_step FormOpens p = openCenteredDialog p"
| "page_step ConfirmOpens p = openConfirmDialog p"
| "page_step PopupOpens p = open_popup p"
| "page_step (Press key focus) p = press_key key focus p"
| "page_step (Click b o') p = click_button b o' p"
| "page_step TabCloses p = closeOpenDialogs p"

definition page_run :: "page_event list \<Rightarrow> page" where
  "page_run evs = run_events page_step empty_page evs"

section \<open>SQL previews\<close>

text \<open>
  The host may have no code editor (\<open>None\<close>), and mounting one may fail (\<open>Some None\<close>); a
  mounted editor is its handle. A caller that tracks the handle keeps it out of the pool.
\<close>

datatype preview = PreviewEditor "string option" string nat | PreviewText "string option" string

definition renderSqlPreview ::
  "nat option option \<Rightarrow> bool \<Rightarrow> string \<Rightarrow> string option \<Rightarrow> nat list \<Rightarrow> preview \<times> nat list \<times> nat option" where
  "renderSqlPreview host track sql language pool =
     (let title = (if track then None else Some sql) in
      case host of
        Some (Some h) \<Rightarrow> (PreviewEditor title (case language of Some l \<Rightarrow> l | None \<Rightarrow> ''sql'') h,
           if track then pool else pool @ [h], if track then Some h else None)
      | _ \<Rightarrow> (PreviewText title sql, pool, None))"

text \<open>Every handle of the pool is disposed, also when disposing one throws.\<close>

definition disposePreviewEditors :: "nat list \<Rightarrow> nat list \<times> nat list" where
  "disposePreviewEditors pool = ([], pool)"

section \<open>Facts\<close>

definition page_inv :: "page \<Rightarrow> bool" where
  "page_inv p \<longleftrightarrow> distinct (map fst (pa_answers p)) \<and> fst ` set (pa_answers p) \<subseteq> set (pa_settled p)
     \<and> (\<forall>d. FormOverlay d \<in> set (pa_overlays p) \<longrightarrow> FormKeys d \<in> set (pa_keys p))
     \<and> (\<forall>d. ConfirmOverlay d \<in> set (pa_overlays p) \<longrightarrow> ConfirmKeys d \<in> set (pa_keys p))
     \<and> (\<forall>d. FormKeys d \<in> set (pa_keys p) \<or> ConfirmKeys d \<in> set (pa_keys p) \<longrightarrow> d \<notin> set (pa_settled p) \<and> d < pa_next p)
     \<and> (\<forall>d\<in>set (pa_settled p). d < pa_next p)
     \<and> (\<forall>m. PopupKeys m \<in> set (pa_keys p) \<longrightarrow> m \<in> set (pa_menus p))
     \<and> (\<forall>d. \<not> (FormKeys d \<in> set (pa_keys p) \<and> ConfirmKeys d \<in> set (pa_keys p)))"

lemma close_menus_simps [simp]:
  "pa_overlays (close_menus p) = pa_overlays p" "pa_settled (close_menus p) = pa_settled p"
  "pa_answers (close_menus p) = pa_answers p" "pa_closed (close_menus p) = pa_closed p"
  "pa_next (close_menus p) = pa_next p" "pa_menus (close_menus p) = []"
  "FormKeys d \<in> set (pa_keys (close_menus p)) \<longleftrightarrow> FormKeys d \<in> set (pa_keys p)"
  "ConfirmKeys d \<in> set (pa_keys (close_menus p)) \<longleftrightarrow> ConfirmKeys d \<in> set (pa_keys p)"
  "PopupKeys m \<in> set (pa_keys (close_menus p)) \<longleftrightarrow> PopupKeys m \<in> set (pa_keys p) \<and> m \<notin> set (pa_menus p)"
  by (simp_all add: close_menus_def closeAll_closes_all)

lemma inv_close_menus: "page_inv p \<Longrightarrow> page_inv (close_menus p)"
  by (simp add: page_inv_def)

lemma inv_popup [wf_intros]: "page_inv p \<Longrightarrow> page_inv (open_popup p)"
  by (auto simp: page_inv_def open_popup_def trackFloatingMenu_def less_Suc_eq)

lemma inv_close_popup [wf_intros]: "page_inv p \<Longrightarrow> page_inv (close_popup m p)"
  by (auto simp: page_inv_def close_popup_def untrack_def)

lemma inv_openCenteredDialog [wf_intros]: "page_inv p \<Longrightarrow> page_inv (openCenteredDialog p)"
  by (auto simp: page_inv_def openCenteredDialog_def less_Suc_eq split: overlay.splits)

lemma inv_openConfirmDialog [wf_intros]: "page_inv p \<Longrightarrow> page_inv (openConfirmDialog p)"
  by (auto simp: page_inv_def openConfirmDialog_def less_Suc_eq)

lemma inv_close_form [wf_intros]: "page_inv p \<Longrightarrow> FormKeys d \<in> set (pa_keys p) \<Longrightarrow> page_inv (close_form d p)"
  by (auto simp: page_inv_def close_form_def Let_def)

lemma inv_finish [wf_intros]: "page_inv p \<Longrightarrow> ConfirmKeys d \<in> set (pa_keys p) \<Longrightarrow> page_inv (finish_confirm d v p)"
  by (auto simp: page_inv_def finish_confirm_def)

lemma inv_listener: "page_inv p \<Longrightarrow> page_inv (run_listener key k p)"
  by (auto simp: run_listener_def intro: wf_intros split: listener.splits dialog_key.splits)

lemma inv_dispatch: "page_inv p \<Longrightarrow> page_inv (dispatch_key key p)"
proof -
  have "page_inv q \<Longrightarrow> page_inv (foldl (\<lambda>q k. run_listener key k q) q ks)" for q ks
    by (induction ks arbitrary: q) (auto simp: inv_listener)
  then show "page_inv p \<Longrightarrow> page_inv (dispatch_key key p)" by (simp add: dispatch_key_def)
qed

lemma inv_overlay_keys:
  "page_inv p \<Longrightarrow> FormOverlay d \<in> set (pa_overlays p) \<Longrightarrow> FormKeys d \<in> set (pa_keys p)"
  "page_inv p \<Longrightarrow> ConfirmOverlay d \<in> set (pa_overlays p) \<Longrightarrow> ConfirmKeys d \<in> set (pa_keys p)"
  by (simp_all add: page_inv_def)

lemma inv_click: "page_inv p \<Longrightarrow> page_inv (click_button b o' p)"
  by (auto simp: click_button_def dest: inv_overlay_keys intro: wf_intros split: overlay.splits)

lemma inv_press: "page_inv p \<Longrightarrow> page_inv (press_key key focus p)"
  by (auto simp: press_key_def Let_def inv_dispatch inv_click split: option.splits)

lemma inv_tab_closes: "page_inv p \<Longrightarrow> page_inv (closeOpenDialogs p)"
  by (simp add: closeOpenDialogs_def page_inv_def)

lemma inv_page_step: "page_inv p \<Longrightarrow> page_inv (page_step ev p)"
  by (cases ev) (auto intro: wf_intros simp: inv_press inv_click inv_tab_closes)

lemma page_run_snoc: "page_run (evs @ [ev]) = page_step ev (page_run evs)"
  by (simp add: page_run_def)

interpretation pages: event_machine page_step empty_page page_inv
  by unfold_locales (simp_all add: inv_page_step, simp add: page_inv_def empty_page_def)

lemma page_run_inv: "page_inv (page_run evs)"
  unfolding page_run_def by (rule pages.run_inv)

subsection \<open>Where an answer comes from\<close>

definition asks_true :: "nat \<Rightarrow> page_event \<Rightarrow> bool" where
  "asks_true d ev \<longleftrightarrow> (\<exists>focus. ev = Press EnterKey focus) \<or> ev = Click ConfirmButton (ConfirmOverlay d)"

lemma answers_close_form [simp]: "pa_answers (close_form d p) = pa_answers p"
  by (simp add: close_form_def Let_def)

lemma answers_close_popup [simp]: "pa_answers (close_popup d p) = pa_answers p"
  by (simp add: close_popup_def)

lemma listener_answers:
  "(d, True) \<in> set (pa_answers (run_listener key k p)) \<Longrightarrow> (d, True) \<in> set (pa_answers p) \<or> key = EnterKey"
  by (auto simp: run_listener_def finish_confirm_def split: listener.splits dialog_key.splits if_splits)

lemma dispatch_answers:
  "(d, True) \<in> set (pa_answers (dispatch_key key p)) \<Longrightarrow> (d, True) \<in> set (pa_answers p) \<or> key = EnterKey"
proof -
  have "(d, True) \<in> set (pa_answers (foldl (\<lambda>q k. run_listener key k q) q ks)) \<Longrightarrow>
      (d, True) \<in> set (pa_answers q) \<or> key = EnterKey" for q ks
    by (induction ks arbitrary: q) (auto dest: listener_answers)
  then show "(d, True) \<in> set (pa_answers (dispatch_key key p)) \<Longrightarrow> (d, True) \<in> set (pa_answers p) \<or> key = EnterKey"
    by (simp add: dispatch_key_def)
qed

lemma click_answers:
  "(d, True) \<in> set (pa_answers (click_button b o' p)) \<Longrightarrow>
     (d, True) \<in> set (pa_answers p) \<or> b = ConfirmButton \<and> o' = ConfirmOverlay d"
  by (auto simp: click_button_def finish_confirm_def split: overlay.splits if_splits)

lemma step_answers:
  "(d, True) \<in> set (pa_answers (page_step ev p)) \<Longrightarrow> (d, True) \<in> set (pa_answers p) \<or> asks_true d ev"
  by (cases ev)
     (auto simp: asks_true_def openCenteredDialog_def openConfirmDialog_def open_popup_def closeOpenDialogs_def
       press_key_def Let_def dest: dispatch_answers click_answers split: if_splits option.splits)

lemma run_answers: "(d, True) \<in> set (pa_answers (page_run evs)) \<Longrightarrow> \<exists>ev\<in>set evs. asks_true d ev"
  unfolding page_run_def by (erule pages.run_cause [rotated 2]) (auto dest: step_answers simp: empty_page_def)

text \<open>
  C10: Over any sequence of dialogs opening, keys, clicks and the tab closing, a confirmation
  is answered at most once, and it is answered yes only after its confirm button was pressed
  or the Enter key was. A confirmation that is still on screen can still be answered: it is not
  settled and its key listener is in place, and an answered one has neither overlay nor listener.
\<close>

theorem confirmation_answered_once:
  "distinct (map fst (pa_answers (page_run evs)))
   \<and> ((d, True) \<in> set (pa_answers (page_run evs)) \<longrightarrow>
        (\<exists>focus. Press EnterKey focus \<in> set evs) \<or> Click ConfirmButton (ConfirmOverlay d) \<in> set evs)
   \<and> (ConfirmOverlay d \<in> set (pa_overlays (page_run evs)) \<longrightarrow>
        ConfirmKeys d \<in> set (pa_keys (page_run evs)) \<and> d \<notin> fst ` set (pa_answers (page_run evs)))
   \<and> (d \<in> fst ` set (pa_answers (page_run evs)) \<longrightarrow>
        ConfirmKeys d \<notin> set (pa_keys (page_run evs)) \<and> ConfirmOverlay d \<notin> set (pa_overlays (page_run evs)))"
proof -
  have inv: "page_inv (page_run evs)" by (rule page_run_inv)
  have "(d, True) \<in> set (pa_answers (page_run evs)) \<Longrightarrow>
      (\<exists>focus. Press EnterKey focus \<in> set evs) \<or> Click ConfirmButton (ConfirmOverlay d) \<in> set evs"
    by (drule run_answers) (auto simp: asks_true_def)
  with inv show ?thesis unfolding page_inv_def by blast
qed

definition two_dialogs :: "page_event list" where
  "two_dialogs = [ConfirmOpens, Click ConfirmButton (ConfirmOverlay 0), ConfirmOpens]"

theorem confirmation_answered_once_witness:
  "((0, True) \<in> set (pa_answers (page_run two_dialogs)) \<and> Click ConfirmButton (ConfirmOverlay 0) \<in> set two_dialogs)
   \<and> ConfirmOverlay 1 \<in> set (pa_overlays (page_run two_dialogs)) \<and> ConfirmKeys 1 \<in> set (pa_keys (page_run two_dialogs))
   \<and> ConfirmKeys 0 \<notin> set (pa_keys (page_run two_dialogs))"
proof -
  have a: "(0, True) \<in> set (pa_answers (page_run two_dialogs))" by code_simp
  have b: "ConfirmOverlay 1 \<in> set (pa_overlays (page_run two_dialogs))" by code_simp
  have c: "Click ConfirmButton (ConfirmOverlay 0) \<in> set two_dialogs" by code_simp
  from a have d: "(0::nat) \<in> fst ` set (pa_answers (page_run two_dialogs))" by force
  show ?thesis
    using confirmation_answered_once [of two_dialogs 0] confirmation_answered_once [of two_dialogs 1] a b c d
    by blast
qed

subsection \<open>Escape\<close>

lemma escape_removes: "k \<in> set (pa_keys p) \<Longrightarrow> page_inv p \<Longrightarrow> k \<notin> set (pa_keys (run_listener EscapeKey k p))"
  by (cases k) (auto simp: run_listener_def close_form_def finish_confirm_def close_popup_def page_inv_def Let_def)

lemma listener_keys_mono: "set (pa_keys (run_listener key k p)) \<subseteq> set (pa_keys p)"
  by (auto simp: run_listener_def close_form_def finish_confirm_def close_popup_def Let_def close_menus_def
    split: listener.splits dialog_key.splits if_splits prod.splits)

lemma dispatch_keys_mono: "set (pa_keys (foldl (\<lambda>q k. run_listener key k q) p ks)) \<subseteq> set (pa_keys p)"
proof (induction ks arbitrary: p)
  case (Cons k ks)
  show ?case using Cons [of "run_listener key k p"] listener_keys_mono [of key k p] by auto
qed simp

lemma escape_clears_keys:
  "page_inv p \<Longrightarrow> set (pa_keys (foldl (\<lambda>q k. run_listener EscapeKey k q) p ks)) \<subseteq> set (pa_keys p) - set ks"
proof (induction ks arbitrary: p)
  case (Cons k ks)
  have 1: "k \<notin> set (pa_keys (run_listener EscapeKey k p))"
  proof (cases "k \<in> set (pa_keys p)")
    case True
    with Cons.prems show ?thesis by (rule escape_removes [rotated])
  qed (simp add: run_listener_def)
  show ?case
    using Cons.IH [OF inv_listener [OF Cons.prems], of EscapeKey k] 1 listener_keys_mono [of EscapeKey k p]
      dispatch_keys_mono [of EscapeKey "run_listener EscapeKey k p" ks] by auto
qed simp

lemma no_keys_no_dialogs: "page_inv p \<Longrightarrow> pa_keys p = [] \<Longrightarrow> pa_overlays p = []"
  by (cases "pa_overlays p", simp, case_tac a) (auto simp: page_inv_def)

text \<open>
  Escape is enough to leave: whatever is open, one Escape closes every dialog and popup, and
  nothing is answered yes by it.
\<close>

theorem escape_closes_everything:
  "pa_overlays (page_run (evs @ [Press EscapeKey focus])) = [] \<and> pa_keys (page_run (evs @ [Press EscapeKey focus])) = []
   \<and> ((d, True) \<in> set (pa_answers (page_run (evs @ [Press EscapeKey focus]))) \<longrightarrow>
        (d, True) \<in> set (pa_answers (page_run evs)))"
proof -
  let ?p = "page_run evs" let ?q = "dispatch_key EscapeKey ?p"
  have q: "page_run (evs @ [Press EscapeKey focus]) = ?q" by (simp add: page_run_snoc press_key_def)
  have k: "pa_keys ?q = []"
    using escape_clears_keys [OF page_run_inv, of evs "pa_keys ?p"] by (simp add: dispatch_key_def)
  have "page_inv ?q" by (rule inv_dispatch [OF page_run_inv])
  then have "pa_overlays ?q = []" using k by (rule no_keys_no_dialogs)
  then show ?thesis unfolding q using k dispatch_answers [of d EscapeKey ?p] by blast
qed

subsection \<open>What modelling showed\<close>

text \<open>
  Closing the tab removes the overlay of a confirmation but not its listener: the next Enter,
  with nothing on screen, answers yes and the statement it guards is sent.
\<close>

theorem enter_after_close_confirms:
  "pa_overlays (page_run [ConfirmOpens, TabCloses]) = []
   \<and> pa_answers (page_run [ConfirmOpens, TabCloses, Press EnterKey None]) = [(0, True)]"
  by code_simp

text \<open>Enter on the focused Cancel button confirms: the document's listener runs before the button's click.\<close>

theorem enter_on_cancel_confirms:
  "pa_answers (page_run [ConfirmOpens, Press EnterKey (Some (CancelButton, ConfirmOverlay 0))]) = [(0, True)]"
  by code_simp

text \<open>Escape in a date picker's popup closes the dialog around it as well.\<close>

theorem escape_in_picker_closes_dialog:
  "pa_closed (page_run [FormOpens, PopupOpens, Press EscapeKey None]) = [0]"
  by code_simp

text \<open>A modal replaced by another is gone from the screen, but its \<open>onClose\<close> has not run.\<close>

theorem replaced_modal_not_closed:
  "pa_overlays (page_run [FormOpens, FormOpens]) = [FormOverlay 1] \<and> pa_closed (page_run [FormOpens, FormOpens]) = []"
  by code_simp

lemma preview_handle_kept_once:
  "renderSqlPreview host track sql language pool = (v, pool', tracked) \<Longrightarrow>
   (case v of PreviewEditor _ _ h \<Rightarrow> if track then pool' = pool \<and> tracked = Some h else pool' = pool @ [h] \<and> tracked = None
     | PreviewText _ shown \<Rightarrow> shown = sql \<and> pool' = pool \<and> tracked = None)"
  by (auto simp: renderSqlPreview_def Let_def split: option.splits if_splits)

end
