(* ===== verification/ConnDialog.thy ===== *)
theory ConnDialog
  imports Lifecycle Menus
begin

text \<open>
  \<open>src/src/connections/dialog.js\<close>: the New/Edit connection modal. Its form starts from the
  saved record or the defaults, the engine decides which fields it shows, every control writes
  its own entry of the form, and Test and Save report their outcome in the dialog. Records
  carry every field (see \<open>Runtime\<close>), so the \<open>??\<close> defaults matter for a new connection only;
\<close>

section \<open>The form\<close>

definition is_edit :: "conn option \<Rightarrow> bool" where
  "is_edit existing = (case existing of None \<Rightarrow> False | Some c \<Rightarrow> c_id c \<noteq> [])"

text \<open>The password is read before the first paint; SQLite has none.\<close>

definition prefetched_password :: "conn option \<Rightarrow> keychain \<Rightarrow> string" where
  "prefetched_password existing k = (case existing of
       Some c \<Rightarrow> if is_edit existing \<and> c_kind c \<noteq> ''sqlite''
         then (case getSecret (c_id c) k of Some p \<Rightarrow> p | None \<Rightarrow> []) else []
     | None \<Rightarrow> [])"

definition new_conn :: "string \<Rightarrow> conn" where
  "new_conn i = \<lparr> c_id = i, c_name = [], c_kind = ''mysql'', c_host = ''127.0.0.1'', c_port = [], c_user = [],
     c_database = [], c_sqlitePath = [], c_sqliteReadOnly = False, c_allow_writes = False, c_sslMode = ''none'',
     c_sshTunnel = [], c_query_timeout_ms = NInt 30000, c_row_limit = NInt 10000 \<rparr>"

definition dialog_form :: "string \<Rightarrow> conn option \<Rightarrow> keychain \<Rightarrow> form" where
  "dialog_form fresh existing k =
     (let c = (case existing of None \<Rightarrow> new_conn fresh
           | Some c \<Rightarrow> c\<lparr>c_sqlitePath := (if c_kind c = ''sqlite'' then c_sqlitePath c else [])\<rparr>)
      in conn.extend c \<lparr> f_password = prefetched_password existing k \<rparr>)"

section \<open>The fields shown\<close>

datatype control =
    TextBox string string
  | PasswordBox string
  | Choice "(string \<times> string) list" string
  | HostChoice "option_row list" string
  | Tick bool
  | NumberBox string
  | Note string

text \<open>A saved SSH host with its name, and its entry in the tunnel picker, findable by address.\<close>

record named_host = ssh_host +
  nh_name :: string

definition ssh_option :: "named_host \<Rightarrow> option_row" where
  "ssh_option h = \<lparr> op_value = sh_id h,
     op_label = or_str (nh_name h) (sh_host h) @ '' ('' @ sh_user h @ ''@'' @ sh_host h @ '')'',
     op_keywords = sh_user h @ ''@'' @ sh_host h @ '':'' @ int_to_string (sh_port h) @ '' '' @ sh_id h \<rparr>"

definition tunnel_control :: "ssh_api \<Rightarrow> named_host list \<Rightarrow> form \<Rightarrow> control" where
  "tunnel_control ssh hosts f =
     (if hosts \<noteq> []
      then HostChoice (\<lparr>op_value = [], op_label = ''None (connect directly)'', op_keywords = []\<rparr> # map ssh_option hosts)
             (c_sshTunnel f)
      else Note (if tunnelsSupported ssh
        then ''No verified SSH hosts yet. Add one in the SSH sidebar and open it once to confirm its fingerprint.''
        else ''SSH tunnels need a newer TEDI.''))"

definition TLS_OPTIONS :: "(string \<times> string) list" where
  "TLS_OPTIONS = [(''none'', ''None''), (''preferred'', ''Preferred''), (''required'', ''Required''),
     (''verify_ca'', ''Verify CA''), (''verify_full'', ''Verify full'')]"

definition database_label :: "dialect \<Rightarrow> string" where
  "database_label d = (if d_databaseIsConnectTarget d then ''Maintenance database'' else ''Database (optional)'')"

definition renderHostFields :: "ssh_api \<Rightarrow> named_host list \<Rightarrow> form \<Rightarrow> (string \<times> control) list" where
  "renderHostFields ssh hosts f = (let d = getDialect (Some (c_kind f)) in
     if d_fileBased d
     then [(''File path'', TextBox (c_sqlitePath f) ''C:/data/app.db or :memory:''), (''Read-only'', Tick (c_sqliteReadOnly f))]
     else [(''Host'', TextBox (c_host f) []),
           (''Port'', TextBox (c_port f) (d_defaultPort d)),
           (''User'', TextBox (c_user f) []),
           (''Password'', PasswordBox (f_password f)),
           (database_label d, TextBox (c_database f)
              (if d_databaseIsConnectTarget d then ''postgres''
               else ''leave blank to browse all, or list several: app, shop'')),
           (''SSH tunnel'', tunnel_control ssh hosts f),
           (''TLS'', Choice TLS_OPTIONS (c_sslMode f))])"

definition rerenderDialog :: "ssh_api \<Rightarrow> named_host list \<Rightarrow> form \<Rightarrow> (string \<times> control) list" where
  "rerenderDialog ssh hosts f =
     [(''Name'', TextBox (c_name f) []),
      (''Engine'', Choice (map (\<lambda>d. (d_id d, d_label d)) listDialects) (c_kind f))]
     @ renderHostFields ssh hosts f
     @ [(''Mode'', Choice [(''ro'', ''Read-only''), (''rw'', ''Read + Write'')] (if c_allow_writes f then ''rw'' else ''ro'')),
        (''Query timeout (ms)'', NumberBox (num_to_string (c_query_timeout_ms f))),
        (''Row cap'', NumberBox (num_to_string (c_row_limit f)))]"

section \<open>Editing\<close>

datatype form_edit =
    EName string | EKind string | EPath string | EReadOnly bool | EHost string | EPort string | EUser string
  | EPassword string | EDatabase string | ETunnel string | ETls string | EMode string | ETimeout string | ERowCap string

definition number_or_0 :: "string \<Rightarrow> jsnum" where
  "number_or_0 v = num_or_else (js_Number v) (NInt 0)"

fun edit_form :: "form_edit \<Rightarrow> form \<Rightarrow> form" where
  "edit_form (EName v) f = f\<lparr>c_name := v\<rparr>"
| "edit_form (EKind v) f = f\<lparr>c_kind := v\<rparr>"
| "edit_form (EPath v) f = f\<lparr>c_sqlitePath := v\<rparr>"
| "edit_form (EReadOnly b) f = f\<lparr>c_sqliteReadOnly := b\<rparr>"
| "edit_form (EHost v) f = f\<lparr>c_host := v\<rparr>"
| "edit_form (EPort v) f = f\<lparr>c_port := v\<rparr>"
| "edit_form (EUser v) f = f\<lparr>c_user := v\<rparr>"
| "edit_form (EPassword v) f = f\<lparr>f_password := v\<rparr>"
| "edit_form (EDatabase v) f = f\<lparr>c_database := v\<rparr>"
| "edit_form (ETunnel v) f = f\<lparr>c_sshTunnel := v\<rparr>"
| "edit_form (ETls v) f = f\<lparr>c_sslMode := v\<rparr>"
| "edit_form (EMode v) f = f\<lparr>c_allow_writes := (v = ''rw'')\<rparr>"
| "edit_form (ETimeout v) f = f\<lparr>c_query_timeout_ms := number_or_0 v\<rparr>"
| "edit_form (ERowCap v) f = f\<lparr>c_row_limit := number_or_0 v\<rparr>"

text \<open>Which controls are on screen: the address fields follow the engine.\<close>

definition on_screen :: "named_host list \<Rightarrow> form \<Rightarrow> form_edit \<Rightarrow> bool" where
  "on_screen hosts f ev = (let isfile = d_fileBased (getDialect (Some (c_kind f))) in
     case ev of
       EPath _ \<Rightarrow> isfile | EReadOnly _ \<Rightarrow> isfile
     | EHost _ \<Rightarrow> \<not> isfile | EPort _ \<Rightarrow> \<not> isfile | EUser _ \<Rightarrow> \<not> isfile | EPassword _ \<Rightarrow> \<not> isfile
     | EDatabase _ \<Rightarrow> \<not> isfile | ETls _ \<Rightarrow> \<not> isfile | ETunnel v \<Rightarrow> \<not> isfile \<and> (v = [] \<and> hosts \<noteq> [] \<or> v \<in> sh_id ` set hosts)
     | EKind v \<Rightarrow> v \<in> d_id ` set listDialects
     | _ \<Rightarrow> True)"

section \<open>The dialog\<close>

datatype tone = PrimaryTone | DestructiveTone

record conn_dialog =
  cd_form :: form
  cd_edit :: bool
  cd_error :: "(tone \<times> string) option"
  cd_open :: bool

definition openConnectionDialog :: "string \<Rightarrow> conn option \<Rightarrow> keychain \<Rightarrow> conn_dialog" where
  "openConnectionDialog fresh existing k =
     \<lparr>cd_form = dialog_form fresh existing k, cd_edit = is_edit existing, cd_error = None, cd_open = True\<rparr>"

definition dialog_edit :: "named_host list \<Rightarrow> form_edit \<Rightarrow> conn_dialog \<Rightarrow> conn_dialog" where
  "dialog_edit hosts ev d = (if on_screen hosts (cd_form d) ev then d\<lparr>cd_form := edit_form ev (cd_form d)\<rparr> else d)"

definition dialog_test :: "ssh_api \<Rightarrow> answers \<Rightarrow> conn_dialog \<Rightarrow> world \<Rightarrow> conn_dialog \<times> world" where
  "dialog_test ssh an d w = (let f = cd_form d in
     case connectFromForm ssh an f True w of
       (Inr _, w1) \<Rightarrow> (d\<lparr>cd_error := Some (PrimaryTone, ''Connected successfully.'')\<rparr>,
          emit (Toast (''Connected to '' @ or_str (c_name f) (or_str (c_host f) (c_sqlitePath f))) ''success'') w1)
     | (Inl e, w1) \<Rightarrow> (d\<lparr>cd_error := Some (DestructiveTone, ''Test failed: '' @ e)\<rparr>, w1))"

definition dialog_save :: "ssh_api \<Rightarrow> answers \<Rightarrow> conn_dialog \<Rightarrow> world \<Rightarrow> conn_dialog \<times> world" where
  "dialog_save ssh an d w = (let f = cd_form d in
     case saveAndConnect ssh an f w of
       (Inr _, w1) \<Rightarrow> (d\<lparr>cd_error := None, cd_open := False\<rparr>,
          emit (Toast ((if cd_edit d then ''Updated'' else ''Added'') @ '' connection '' @ or_str (c_name f) (c_id f)) ''success'') w1)
     | (Inl e, w1) \<Rightarrow> (d\<lparr>cd_error := Some (DestructiveTone, e)\<rparr>, w1))"

section \<open>Properties\<close>

text \<open>What a saved record looks like: the address fields of the other kind are empty.\<close>

definition canonical :: "conn \<Rightarrow> bool" where
  "canonical c = (c_id c \<noteq> [] \<and>
     (if c_kind c = ''sqlite'' then c_host c = [] \<and> c_port c = [] \<and> c_user c = [] \<and> c_database c = []
      else c_sqlitePath c = []))"

lemma form_truncate [simp]: "conn.truncate (conn.extend c \<lparr>f_password = p\<rparr>) = (c :: conn)"
  by (simp add: conn.defs)

lemma dialog_form_fields:
  "c_id (dialog_form fresh (Some c) k) = c_id c" "c_name (dialog_form fresh (Some c) k) = c_name c"
  "c_kind (dialog_form fresh (Some c) k) = c_kind c"
  "f_password (dialog_form fresh (Some c) k) = prefetched_password (Some c) k"
  by (simp_all add: dialog_form_def Let_def conn.defs)

lemma persist_dialog_form:
  "canonical c \<Longrightarrow> formToPersistable (dialog_form fresh (Some c) k) = c"
  by (auto simp: formToPersistable_def dialog_form_def canonical_def Let_def)

lemma put_conn_same: "find_conn cs (c_id c) = Some c \<Longrightarrow> put_conn c cs = cs"
proof -
  assume f: "find_conn cs (c_id c) = Some c"
  have "find_first P xs = Some x \<Longrightarrow> \<exists>i. find_index P xs = Some i \<and> xs[i := x] = xs" for P :: "conn \<Rightarrow> bool" and xs x
    by (induction xs) (auto split: if_splits)
  from this [OF f [unfolded find_conn_def]] show ?thesis by (auto simp: put_conn_def)
qed

lemma prefetched_same:
  "canonical c \<Longrightarrow> c_kind c \<noteq> ''sqlite'' \<Longrightarrow>
     getSecret i (setSecret (c_id c) (Some (prefetched_password (Some c) k)) k) = getSecret i k"
  by (auto simp: prefetched_password_def is_edit_def canonical_def setSecret_def getSecret_def omap_get_set secret_key_def
      split: option.splits)

definition same_keys :: "keychain \<Rightarrow> keychain \<Rightarrow> bool" where
  "same_keys k k' \<longleftrightarrow> (\<lambda>i. getSecret i k) = (\<lambda>i. getSecret i k')"

text \<open>The world in which a save connects: the list and the password are already written.\<close>

definition save_world :: "form \<Rightarrow> world \<Rightarrow> world" where
  "save_world f w =
     (let w1 = persist (upd_app (\<lambda>a. a\<lparr>a_connections := put_conn (formToPersistable f) (a_connections a)\<rparr>) w)
      in if c_kind f \<noteq> ''sqlite'' then w1\<lparr>wd_keys := setSecret (c_id f) (Some (f_password f)) (wd_keys w1)\<rparr> else w1)"

lemma saveAndConnect_cases:
  "validateForm (conn.truncate f) = Inr () \<Longrightarrow> connectFromForm ssh an f False (save_world f w) = (r, w3) \<Longrightarrow>
   saveAndConnect ssh an f w = (case r of Inl e \<Rightarrow> (Inl e, w3)
     | Inr _ \<Rightarrow> (Inr (), emit Rerender (emit SyncSidebar
         (setConnState (c_id f) (Some Connected) (upd_app (\<lambda>a. a\<lparr>a_active := Some (c_id f)\<rparr>) w3)))))"
  unfolding saveAndConnect_def Let_def save_world_def by (simp split: sum.splits)

lemma save_world_keeps:
  assumes "canonical c" "find_conn (a_connections (wd_app w)) (c_id c) = Some c"
  shows "a_connections (wd_app (save_world (dialog_form fresh (Some c) (wd_keys w)) w)) = a_connections (wd_app w)"
    and "same_keys (wd_keys w) (wd_keys (save_world (dialog_form fresh (Some c) (wd_keys w)) w))"
  using put_conn_same [OF assms(2)] prefetched_same [OF assms(1)]
  by (auto simp: save_world_def Let_def persist_def same_keys_def persist_dialog_form [OF assms(1)] dialog_form_fields)


text \<open>The empty world of the examples: one saved MySQL connection with its password.\<close>

definition saved_world :: world where
  "saved_world = \<lparr>wd_app = \<lparr>a_connections = [plain_conn ''c'' ''mysql'' []], a_active = None, a_sessions = [], a_connStatus = []\<rparr>,
     wd_keys = [(''conn:c'', ''old'')], wd_hist = [], wd_trace = []\<rparr>"

definition reachable :: answers where
  "reachable = \<lparr>an_sidecar = Inr (), an_forward = Inl ''no tunnel'', an_connect = Inr ()\<rparr>"

definition refusing :: answers where
  "refusing = \<lparr>an_sidecar = Inr (), an_forward = Inl ''no tunnel'', an_connect = Inl ''refused''\<rparr>"

definition plain_ssh :: ssh_api where
  "plain_ssh = \<lparr>can_open = False, can_close = False, can_list = False\<rparr>"


text \<open>Every control of the form is one the edits reach: an edit changes what its control shows.\<close>

lemma edit_shown:
  "on_screen hosts f (EHost v) \<Longrightarrow> (''Host'', TextBox v []) \<in> set (rerenderDialog ssh hosts (edit_form (EHost v) f))"
  "on_screen hosts f (EPassword v) \<Longrightarrow> (''Password'', PasswordBox v) \<in> set (rerenderDialog ssh hosts (edit_form (EPassword v) f))"
  "on_screen hosts f (EPath v) \<Longrightarrow>
     (''File path'', TextBox v ''C:/data/app.db or :memory:'') \<in> set (rerenderDialog ssh hosts (edit_form (EPath v) f))"
  by (simp_all add: on_screen_def rerenderDialog_def renderHostFields_def Let_def)

section \<open>What modelling showed\<close>

text \<open>
  A password that is cleared in the dialog stays in the keychain, because an empty one is not
  stored: the next reconnect uses the old one.
\<close>

theorem cleared_password_is_kept:
  "getSecret ''c'' (wd_keys (snd (dialog_save plain_ssh reachable
      (dialog_edit [] (EPassword []) (openConnectionDialog ''n'' (Some (plain_conn ''c'' ''mysql'' [])) (wd_keys saved_world)))
      saved_world))) = Some ''old''"
  by code_simp

text \<open>
  A new connection that cannot be opened is reported as an error in the dialog, yet it is
  already saved, and the sidebar is not told.
\<close>

theorem failed_add_is_saved_unseen:
  "let r = dialog_save plain_ssh refusing (dialog_edit [] (EName ''shop'') (openConnectionDialog ''n'' None [])) saved_world
   in cd_error (fst r) = Some (DestructiveTone, ''refused'') \<and> cd_open (fst r) \<and>
      map c_name (a_connections (wd_app (snd r))) = [''c'', ''shop''] \<and>
      \<not> list_ex (\<lambda>e. case e of SyncSidebar \<Rightarrow> True | _ \<Rightarrow> False) (wd_trace (snd r))"
  by code_simp

end
