(* ===== verification/Transfers.thy ===== *)
theory Transfers
  imports Backup DateParts QueryRun
begin

text \<open>
  What leaves and enters the workbench as text: the passphrase modals around the connection
  backup (\<open>src/src/connections/backupDialog.js\<close>), the export of rows (\<open>src/src/export.js\<close>) and
  the query history's list (the dialog of \<open>src/src/query/history.js\<close>). The file picked, the
  day, the sealing and the answers of the helper are arguments; a download is a name and its
  text. \<open>toLocaleString\<close> of a count belongs to the browser and is an argument.
\<close>

section \<open>Files\<close>

definition BACKUP_EXTENSION :: string where
  "BACKUP_EXTENSION = ''tedi-sql''"

text \<open>Year, month from 0 and day of the local date.\<close>

definition backupFilename :: "int \<times> int \<times> int \<Rightarrow> string" where
  "backupFilename day = (case day of (y, mo, d) \<Rightarrow>
     ''tedi-sql-connections-'' @ js_join ''-'' [int_to_string y, pad2 (mo + 1), pad2 d] @ ''.'' @ BACKUP_EXTENSION)"

text \<open>The picker answers once: a file that was read, one that could not be, or nothing.\<close>

datatype picker_answer = PickedFile string "string option" | PickedNothing | PickCancelled

definition pickTextFile :: "picker_answer list \<Rightarrow> (string \<times> string) option option" where
  "pickTextFile answers = (case answers of
       [] \<Rightarrow> None
     | a # _ \<Rightarrow> Some (case a of PickedFile n (Some t) \<Rightarrow> Some (n, t) | _ \<Rightarrow> None))"

section \<open>Exporting connections\<close>

type_synonym notice = "string \<times> string"

definition UNSUPPORTED :: notice where
  "UNSUPPORTED = (''Connection backup needs a newer TEDI.'', ''warning'')"

record export_dialog =
  xd_passphrase :: string
  xd_confirm :: string
  xd_error :: string
  xd_open :: bool

definition openExportConnectionsDialog :: "bool \<Rightarrow> conn list \<Rightarrow> export_dialog option \<times> notice list" where
  "openExportConnectionsDialog supported cs =
     (if \<not> supported then (None, [UNSUPPORTED])
      else if cs = [] then (None, [(''There are no saved connections to export.'', ''warning'')])
      else (Some \<lparr>xd_passphrase = [], xd_confirm = [], xd_error = [], xd_open = True\<rparr>, []))"

definition plural_s :: "nat \<Rightarrow> string" where
  "plural_s n = (if n = 1 then [] else ''s'')"

definition export_connections ::
  "(string \<Rightarrow> string \<Rightarrow> jsval) \<Rightarrow> int \<Rightarrow> int \<times> int \<times> int \<Rightarrow> keychain \<Rightarrow> conn list \<Rightarrow> export_dialog
     \<Rightarrow> export_dialog \<times> (string \<times> string) option \<times> notice list" where
  "export_connections seal now day k cs d =
     (if xd_passphrase d = [] then (d\<lparr>xd_error := ''A passphrase is required.''\<rparr>, None, [])
      else if xd_passphrase d \<noteq> xd_confirm d then (d\<lparr>xd_error := ''The two passphrases do not match.''\<rparr>, None, [])
      else (case buildBackup seal now k cs (xd_passphrase d) of
          Inl e \<Rightarrow> (d\<lparr>xd_error := e\<rparr>, None, [])
        | Inr (content, count) \<Rightarrow>
            (d\<lparr>xd_open := False\<rparr>, Some (backupFilename day, content),
             [(''Exported '' @ nat_to_string count @ '' connection'' @ plural_s count, ''success'')])))"

section \<open>Importing connections\<close>

record import_dialog =
  md_name :: string
  md_text :: string
  md_passphrase :: string
  md_error :: string
  md_open :: bool

definition openImportConnectionsDialog :: "bool \<Rightarrow> (string \<times> string) option \<Rightarrow> import_dialog option \<times> notice list" where
  "openImportConnectionsDialog supported picked =
     (if \<not> supported then (None, [UNSUPPORTED])
      else (case picked of
          None \<Rightarrow> (None, [])
        | Some (n, t) \<Rightarrow> (Some \<lparr>md_name = n, md_text = t, md_passphrase = [], md_error = [], md_open = True\<rparr>, [])))"

definition import_parts :: "counts \<Rightarrow> string list" where
  "import_parts r =
     (if n_added r > 0 then [nat_to_string (n_added r) @ '' added''] else []) @
     (if n_replaced r > 0 then [nat_to_string (n_replaced r) @ '' updated''] else []) @
     (if n_skipped r > 0 then [nat_to_string (n_skipped r) @ '' skipped''] else [])"

definition import_notices :: "counts \<Rightarrow> notice list" where
  "import_notices r =
     [(''Imported connections: '' @ (if import_parts r = [] then ''nothing to do'' else js_join '', '' (import_parts r)), ''success'')] @
     (if n_withoutSecrets r > 0
      then [(nat_to_string (n_withoutSecrets r) @ '' connection'' @ plural_s (n_withoutSecrets r) @
             '' arrived without a saved password. Set it in Edit connection.'', ''warning'')] else []) @
     (if n_tunnelsDropped r > 0
      then [(nat_to_string (n_tunnelsDropped r) @ '' SSH tunnel'' @ plural_s (n_tunnelsDropped r) @
             '' pointed at a host not saved here and now connect directly.'', ''warning'')] else [])"

text \<open>The last component: whether the tree is redrawn.\<close>

definition import_connections ::
  "(jsval \<Rightarrow> string \<Rightarrow> string option) \<Rightarrow> bool \<Rightarrow> string list \<Rightarrow> import_dialog \<Rightarrow> store
     \<Rightarrow> (import_dialog \<times> store) \<times> notice list \<times> bool" where
  "import_connections opener can_delete knownSsh d st =
     (if md_passphrase d = [] then ((d\<lparr>md_error := ''A passphrase is required.''\<rparr>, st), [], False)
      else (case applyBackup opener can_delete knownSsh (md_text d) (md_passphrase d) st of
          (Inl e, st') \<Rightarrow> ((d\<lparr>md_error := e\<rparr>, st'), [], False)
        | (Inr r, st') \<Rightarrow> ((d\<lparr>md_open := False\<rparr>, st'), import_notices r, True)))"

section \<open>Exporting rows\<close>

definition EXPORT_FORMATS :: "(string \<times> string) list" where
  "EXPORT_FORMATS = [(''csv'', ''CSV (.csv)''), (''json'', ''JSON (.json)''), (''sql'', ''INSERT SQL (.sql)'')]"

text \<open>Something to export: statements that ran, or an open table.\<close>

definition openExportDialog :: "app \<Rightarrow> session option \<times> notice list" where
  "openExportDialog a = (case a_active a of
       None \<Rightarrow> (None, [])
     | Some i \<Rightarrow> if i = [] then (None, [])
         else (let s = omap_get (a_sessions a) i in
           if (case Option.bind s s_result of None \<Rightarrow> True | Some sts \<Rightarrow> sts = []) \<and> Option.bind s s_activeTable = None
           then (None, [(''Nothing to export.'', ''info'')]) else (s, [])))"

definition row_statement :: "stmt_result list \<Rightarrow> string option" where
  "row_statement sts = map_option (\<lambda>st. case st of SRows sql _ _ _ _ _ \<Rightarrow> sql | _ \<Rightarrow> [])
     (find_first (\<lambda>st. case st of SRows _ _ _ _ _ _ \<Rightarrow> True | _ \<Rightarrow> False) sts)"

definition export_body :: "session \<Rightarrow> string \<Rightarrow> string + jsval" where
  "export_body s fmt =
     (let base = [(''conn'', VStr (s_connId s)), (''format'', VStr fmt)] in
      case s_activeTable s of
        Some t \<Rightarrow> Inr (VObj (base @ [(''database'', VStr (t_database t)), (''schema'', VStr (t_schema t)), (''table'', VStr (t_table t))]))
      | None \<Rightarrow> (case row_statement (case s_result s of Some sts \<Rightarrow> sts | None \<Rightarrow> []) of
            None \<Rightarrow> Inl ''No row-producing statement to export.''
          | Some sql \<Rightarrow> Inr (VObj (base @ [(''sql'', VStr sql)] @ opt_field_json ''database'' (s_currentDatabase s)
              @ opt_field_json ''schema'' (s_currentSchema s)))))"

text \<open>The answer: its content, the row count as the browser prints it and the extension header.\<close>

definition export_save ::
  "string + (string \<times> string \<times> string option) \<Rightarrow> session \<Rightarrow> string \<Rightarrow> world
     \<Rightarrow> (string \<times> string) option \<times> world" where
  "export_save answer s fmt w = (case export_body s fmt of
       Inl e \<Rightarrow> (None, emit (Toast (''Export failed: '' @ e) ''error'') w)
     | Inr body \<Rightarrow>
        (let w1 = emit (Fetch ''/export'' ''POST'' body) w in
         case answer of
           Inl e \<Rightarrow> (None, emit (Toast (''Export failed: '' @ e) ''error'') w1)
         | Inr (content, rows, ext) \<Rightarrow>
            (let name = (case s_activeTable s of Some t \<Rightarrow> t_table t | None \<Rightarrow> ''result'') @ ''.'' @
                   (case ext of Some e \<Rightarrow> e | None \<Rightarrow> fmt)
             in (Some (name, content), emit (Toast (''Exported '' @ rows @ '' rows as '' @ name) ''success'') w1))))"

section \<open>The history list\<close>

datatype history_event = CopyEntry nat | LoadEntry nat | ClearHistory | CloseHistory

record history_dialog =
  hd_conn :: string
  hd_entries :: "hentry list"
  hd_open :: bool

definition openHistoryDialog :: "session \<Rightarrow> hist \<Rightarrow> history_dialog" where
  "openHistoryDialog s h = \<lparr>hd_conn = s_connId s, hd_entries = list_history h (s_connId s), hd_open = True\<rparr>"

text \<open>The rows, or the note of an empty history.\<close>

definition history_rows :: "int \<Rightarrow> history_dialog \<Rightarrow> string + (string \<times> string) list" where
  "history_rows now d = (if hd_entries d = [] then Inl ''Nothing run on this connection yet.''
     else Inr (map (\<lambda>e. (h_sql e, relativeTime now (h_at e))) (hd_entries d)))"

text \<open>The second component is the statement handed to the editor.\<close>

definition on_history :: "history_event \<Rightarrow> history_dialog \<Rightarrow> world \<Rightarrow> (history_dialog \<times> string option) \<times> world" where
  "on_history ev d w = (case ev of
       CopyEntry n \<Rightarrow> (case nth_opt (hd_entries d) n of
           None \<Rightarrow> ((d, None), w)
         | Some e \<Rightarrow> ((d, None), emit (Clipboard (h_sql e) ''Query copied'') w))
     | LoadEntry n \<Rightarrow> (case nth_opt (hd_entries d) n of
           None \<Rightarrow> ((d, None), w)
         | Some e \<Rightarrow> ((d\<lparr>hd_open := False\<rparr>, Some (h_sql e)), w))
     | ClearHistory \<Rightarrow> if hd_entries d = [] then ((d, None), w)
         else ((d\<lparr>hd_open := False\<rparr>, None),
           emit (Toast ''Query history cleared'' ''success'') (w\<lparr>wd_hist := clear_history (hd_conn d) (wd_hist w)\<rparr>))
     | CloseHistory \<Rightarrow> ((d\<lparr>hd_open := False\<rparr>, None), w))"

section \<open>Properties\<close>

lemma export_connections_out:
  assumes "export_connections seal now day k cs d = (d', Some (name, content), ns)"
  shows "xd_passphrase d \<noteq> [] \<and> xd_confirm d = xd_passphrase d \<and>
    (\<exists>n. buildBackup seal now k cs (xd_passphrase d) = Inr (content, n))"
  using assms by (auto simp: export_connections_def split: if_splits sum.splits)

lemma import_parts_added: "n_added m > 0 \<Longrightarrow> n_replaced m = 0 \<Longrightarrow> n_skipped m = 0 \<Longrightarrow>
    import_parts m = [nat_to_string (n_added m) @ '' added'']"
  by (simp add: import_parts_def)

lemma buildBackup_nonempty: "buildBackup seal now k cs p = Inr r \<Longrightarrow> p \<noteq> [] \<and> cs \<noteq> []"
  by (auto simp: buildBackup_def split: if_splits)


lemma backupFilename_example: "backupFilename (2026, 7, 4) = ''tedi-sql-connections-2026-08-04.tedi-sql''"
  by code_simp

definition demo_export :: export_dialog where
  "demo_export = \<lparr>xd_passphrase = ''x'', xd_confirm = ''x'', xd_error = [], xd_open = True\<rparr>"


text \<open>A file is downloaded under a dated name, and nothing is when the passphrases differ.\<close>

lemma mismatched_passphrase_writes_nothing:
  "xd_passphrase d \<noteq> xd_confirm d \<Longrightarrow> fst (snd (export_connections seal now day k cs d)) = None"
  by (simp add: export_connections_def)

text \<open>Loading an entry hands the editor a statement of this connection's history; copying copies it.\<close>

lemma history_load_from_own_list:
  assumes "on_history ev (openHistoryDialog s h) w = ((d, Some q), w')"
  shows "q \<in> h_sql ` set (list_history h (s_connId s)) \<and> \<not> hd_open d \<and> w' = w"
  using assms by (auto simp: on_history_def openHistoryDialog_def nth_opt_conv split: history_event.splits option.splits if_splits)

lemma history_clear_only_own:
  "i \<noteq> s_connId s \<Longrightarrow>
   list_history (wd_hist (snd (on_history ev (openHistoryDialog s h) w))) i = list_history (wd_hist w) i"
  by (auto simp: on_history_def openHistoryDialog_def list_history_def entries_of_def clear_history_def omap_get_delete
      split: history_event.splits option.splits)

lemma export_names_what_is_shown:
  "s_activeTable s = Some t \<Longrightarrow> export_body s fmt = Inr (VObj [(''conn'', VStr (s_connId s)), (''format'', VStr fmt),
     (''database'', VStr (t_database t)), (''schema'', VStr (t_schema t)), (''table'', VStr (t_table t))])"
  by (simp add: export_body_def)

section \<open>What modelling showed\<close>

text \<open>
  Exporting a result sends its statement again. When the rows came from a writing statement
  (\<open>DELETE ... RETURNING\<close>), the export runs it a second time and asks nothing.
\<close>

theorem export_runs_the_statement_again:
  "let s = new_session ''c''\<lparr>s_result := Some [SRows ''DELETE FROM t WHERE id > 3 RETURNING id'' [''id''] [] False False 1]\<rparr>
   in requests (wd_trace (snd (export_save (Inl ''down'') s ''csv'' \<lparr>wd_app = \<lparr>a_connections = [], a_active = None, a_sessions = [], a_connStatus = []\<rparr>, wd_keys = [], wd_hist = [], wd_trace = []\<rparr>)))
      = [(''/export'', VObj [(''conn'', VStr ''c''), (''format'', VStr ''csv''), (''sql'', VStr ''DELETE FROM t WHERE id > 3 RETURNING id'')])]"
  by code_simp

end
