(* ===== verification/Workbench.thy ===== *)
theory Workbench
  imports Lifecycle TableData QueryRun Sidecar Dialogs
begin

text \<open>
  \<open>src/src/render/panel.js\<close>, \<open>src/src/render/actionSql.js\<close> and \<open>src/src/index.js\<close>: what the
  pane shows, the code editors it mounts and disposes, the splitter, the delayed write of the
  workbench session, and the start and the end of the extension. The host's answers are
  arguments: whether it can mount an editor, the settings it returns, the helper's start. An
  editor is a number in the host's registry. Sizes are whole pixels.
\<close>

section \<open>Code editors\<close>

record editors =
  ed_main :: "nat option"
  ed_strip :: "nat option"
  ed_pool :: "nat list"
  ed_next :: nat
  ed_live :: "nat list"

definition no_editors :: editors where
  "no_editors = \<lparr>ed_main = None, ed_strip = None, ed_pool = [], ed_next = 0, ed_live = []\<rparr>"

definition dispose :: "nat option \<Rightarrow> editors \<Rightarrow> editors" where
  "dispose h e = (case h of None \<Rightarrow> e | Some k \<Rightarrow> e\<lparr>ed_live := filter (\<lambda>j. j \<noteq> k) (ed_live e)\<rparr>)"

definition dispose_main :: "editors \<Rightarrow> editors" where
  "dispose_main e = (dispose (ed_main e) e)\<lparr>ed_main := None\<rparr>"

definition disposeActionSqlEditor :: "editors \<Rightarrow> editors" where
  "disposeActionSqlEditor e = (dispose (ed_strip e) e)\<lparr>ed_strip := None\<rparr>"

definition dispose_pool :: "editors \<Rightarrow> editors" where
  "dispose_pool e = (fold (\<lambda>h. dispose (Some h)) (snd (disposePreviewEditors (ed_pool e))) e)\<lparr>ed_pool := fst (disposePreviewEditors (ed_pool e))\<rparr>"

definition fresh_editor :: "editors \<Rightarrow> editors" where
  "fresh_editor e = e\<lparr>ed_live := ed_live e @ [ed_next e], ed_next := Suc (ed_next e)\<rparr>"

text \<open>\<open>can_mount\<close>: whether the host mounts an editor; it throws otherwise.\<close>

definition mount_query_editor :: "bool \<Rightarrow> editors \<Rightarrow> editors" where
  "mount_query_editor can_mount e = (if can_mount then (fresh_editor e)\<lparr>ed_main := Some (ed_next e)\<rparr> else e)"

definition renderActionSqlStrip :: "bool \<Rightarrow> editors \<Rightarrow> editors" where
  "renderActionSqlStrip can_mount e = (let e1 = disposeActionSqlEditor e in
     if can_mount then (fresh_editor e1)\<lparr>ed_strip := Some (ed_next e1)\<rparr> else e1)"

definition mount_preview :: "bool \<Rightarrow> editors \<Rightarrow> editors" where
  "mount_preview can_mount e = (if can_mount then (fresh_editor e)\<lparr>ed_pool := ed_pool e @ [ed_next e]\<rparr> else e)"

text \<open>The results area: the table grid shows no preview, a result shows its statement's.\<close>

definition mount_results :: "bool \<Rightarrow> session \<Rightarrow> editors \<Rightarrow> editors" where
  "mount_results can_mount s e = (let e1 = dispose_pool e in
     if s_activeTable s \<noteq> None then e1
     else (case s_result s of Some (st # sts) \<Rightarrow> mount_preview can_mount e1 | Some [] \<Rightarrow> e1 | None \<Rightarrow> e))"

section \<open>What the pane shows\<close>

datatype results_view = RTable "table_view option" | RQuery "result_view option" | RHint

record main_view =
  mv_buttons :: "string list"
  mv_txn :: bool
  mv_read_only :: bool
  mv_editor :: "(string \<times> string) option"
  mv_strip :: "string option"
  mv_results :: results_view

definition fillTxnSlot :: "session \<Rightarrow> string list" where
  "fillTxnSlot s = (if s_inTransaction s then [''Transaction open'', ''Commit'', ''Rollback''] else [])"

definition toolbar_buttons :: "session \<Rightarrow> string list" where
  "toolbar_buttons s = [''Run'', ''Explain'', ''Stop'', ''History'', ''Export'',
     if s_editorHidden s then ''Show editor'' else ''Hide editor''] @ fillTxnSlot s"

definition renderEditorAndResults :: "(int \<Rightarrow> string) \<Rightarrow> conn list \<Rightarrow> session \<Rightarrow> main_view" where
  "renderEditorAndResults fmt cs s =
     \<lparr> mv_buttons = toolbar_buttons s, mv_txn = s_inTransaction s, mv_read_only = isReadOnly cs (s_connId s),
       mv_editor = (if s_editorHidden s then None else Some (sqlLanguageForSession cs (s_connId s), s_sql s)),
       mv_strip = s_actionSql s,
       mv_results = (case s_activeTable s of
           Some t \<Rightarrow> RTable (renderTableGrid fmt cs s t)
         | None \<Rightarrow> (case s_result s of Some _ \<Rightarrow> RQuery (renderQueryResult s 0) | None \<Rightarrow> RHint)) \<rparr>"

text \<open>\<open>None\<close> is the hint to select a connection.\<close>

definition renderMainArea :: "(int \<Rightarrow> string) \<Rightarrow> app \<Rightarrow> main_view option \<times> app" where
  "renderMainArea fmt a = (case a_active a of
       None \<Rightarrow> (None, a)
     | Some i \<Rightarrow> if i = [] then (None, a)
         else (let a1 = ensureSession i a in (Some (renderEditorAndResults fmt (a_connections a1) (session_of a1 i)), a1)))"

section \<open>The pane\<close>

record pane =
  pn_root :: bool
  pn_app :: app
  pn_eds :: editors
  pn_shown :: "main_view option"

definition draw_editors :: "bool \<Rightarrow> session \<Rightarrow> editors \<Rightarrow> editors" where
  "draw_editors can_mount s e =
     (let e1 = disposeActionSqlEditor (dispose_pool (dispose_main e));
          e2 = (if s_editorHidden s then e1 else mount_query_editor can_mount e1);
          e3 = (if s_actionSql s \<noteq> None then renderActionSqlStrip can_mount e2 else e2)
      in mount_results can_mount s e3)"

definition rerenderMain :: "bool \<Rightarrow> (int \<Rightarrow> string) \<Rightarrow> pane \<Rightarrow> pane" where
  "rerenderMain can_mount fmt p =
     (if \<not> pn_root p then p
      else let (v, a) = renderMainArea fmt (pn_app p) in
        p\<lparr>pn_app := a, pn_shown := v,
          pn_eds := (case a_active a of
              Some i \<Rightarrow> if i = [] then pn_eds p else draw_editors can_mount (session_of a i) (pn_eds p)
            | None \<Rightarrow> pn_eds p)\<rparr>)"

text \<open>The strip changes in place.\<close>

definition show_action_sql :: "bool \<Rightarrow> string option \<Rightarrow> pane \<Rightarrow> pane" where
  "show_action_sql can_mount sql p =
     (let q = (if sql = Some [] then None else sql) in
      if \<not> pn_root p then p
      else p\<lparr>pn_eds := (if q = None then disposeActionSqlEditor (pn_eds p) else renderActionSqlStrip can_mount (pn_eds p)),
             pn_shown := map_option (mv_strip_update (\<lambda>_. q)) (pn_shown p)\<rparr>)"

text \<open>Choosing another statement of a result redraws its preview.\<close>

definition show_statement :: "bool \<Rightarrow> pane \<Rightarrow> pane" where
  "show_statement can_mount p = p\<lparr>pn_eds := mount_preview can_mount (dispose_pool (pn_eds p))\<rparr>"

definition mount_pane :: "bool \<Rightarrow> (int \<Rightarrow> string) \<Rightarrow> pane \<Rightarrow> pane" where
  "mount_pane can_mount fmt p = rerenderMain can_mount fmt (p\<lparr>pn_root := True\<rparr>)"

text \<open>The cleanup the renderer returns; deactivation disposes the same editors.\<close>

definition unmount_pane :: "pane \<Rightarrow> pane" where
  "unmount_pane p = p\<lparr>pn_eds := disposeActionSqlEditor (dispose_pool (dispose_main (pn_eds p))), pn_root := False, pn_shown := None\<rparr>"

datatype pane_event =
    PaneMounts bool | PaneRedraws bool | StripChanges bool "string option" | StatementChosen bool
  | AppChanges app | PaneUnmounts

fun pane_step :: "(int \<Rightarrow> string) \<Rightarrow> pane_event \<Rightarrow> pane \<Rightarrow> pane" where
  "pane_step fmt (PaneMounts b) p = mount_pane b fmt p"
| "pane_step fmt (PaneRedraws b) p = rerenderMain b fmt p"
| "pane_step fmt (StripChanges b q) p = show_action_sql b q p"
| "pane_step fmt (StatementChosen b) p = show_statement b p"
| "pane_step fmt (AppChanges a) p = p\<lparr>pn_app := a\<rparr>"
| "pane_step fmt PaneUnmounts p = unmount_pane p"

definition closed_pane :: "app \<Rightarrow> pane" where
  "closed_pane a = \<lparr>pn_root = False, pn_app = a, pn_eds = no_editors, pn_shown = None\<rparr>"

definition pane_run :: "(int \<Rightarrow> string) \<Rightarrow> app \<Rightarrow> pane_event list \<Rightarrow> pane" where
  "pane_run fmt a evs = run_events (pane_step fmt) (closed_pane a) evs"

subsection \<open>No editor leaks\<close>

definition tracked :: "editors \<Rightarrow> nat list" where
  "tracked e = (case ed_main e of None \<Rightarrow> [] | Some h \<Rightarrow> [h]) @ (case ed_strip e of None \<Rightarrow> [] | Some h \<Rightarrow> [h]) @ ed_pool e"

definition eds_inv :: "editors \<Rightarrow> bool" where
  "eds_inv e \<longleftrightarrow> set (ed_live e) = set (tracked e) \<and> distinct (tracked e) \<and> distinct (ed_live e) \<and> (\<forall>h\<in>set (tracked e). h < ed_next e)"

lemma dispose_fields [simp]:
  "ed_main (dispose h e) = ed_main e" "ed_strip (dispose h e) = ed_strip e" "ed_pool (dispose h e) = ed_pool e"
  "ed_next (dispose h e) = ed_next e"
  by (simp_all add: dispose_def split: option.splits)

lemma dispose_all_live:
  "ed_live (fold (\<lambda>h. dispose (Some h)) hs e) = filter (\<lambda>j. j \<notin> set hs) (ed_live e)"
  by (induction hs arbitrary: e) (auto simp: dispose_def intro: filter_cong)

lemma dispose_all_fields [simp]:
  "ed_main (fold (\<lambda>h. dispose (Some h)) hs e) = ed_main e" "ed_strip (fold (\<lambda>h. dispose (Some h)) hs e) = ed_strip e"
  "ed_next (fold (\<lambda>h. dispose (Some h)) hs e) = ed_next e"
  by (induction hs arbitrary: e) simp_all

lemma inv_dispose_main [wf_intros]: "eds_inv e \<Longrightarrow> eds_inv (dispose_main e)"
  by (auto simp: eds_inv_def tracked_def dispose_main_def dispose_def split: option.splits)

lemma inv_dispose_strip [wf_intros]: "eds_inv e \<Longrightarrow> eds_inv (disposeActionSqlEditor e)"
  by (auto simp: eds_inv_def tracked_def disposeActionSqlEditor_def dispose_def split: option.splits)

lemma inv_dispose_pool [wf_intros]: "eds_inv e \<Longrightarrow> eds_inv (dispose_pool e)"
  by (auto simp: eds_inv_def tracked_def dispose_pool_def disposePreviewEditors_def dispose_all_live split: option.splits)

lemma inv_mount_query [wf_intros]: "eds_inv e \<Longrightarrow> ed_main e = None \<Longrightarrow> eds_inv (mount_query_editor b e)"
  by (auto simp: eds_inv_def tracked_def mount_query_editor_def fresh_editor_def split: option.splits)

lemma inv_strip [wf_intros]: "eds_inv e \<Longrightarrow> eds_inv (renderActionSqlStrip b e)"
  using inv_dispose_strip [of e]
  by (auto simp: eds_inv_def tracked_def renderActionSqlStrip_def fresh_editor_def Let_def disposeActionSqlEditor_def
      split: option.splits)

lemma inv_mount_preview [wf_intros]: "eds_inv e \<Longrightarrow> eds_inv (mount_preview b e)"
  by (auto simp: eds_inv_def tracked_def mount_preview_def fresh_editor_def split: option.splits)

lemma inv_results [wf_intros]: "eds_inv e \<Longrightarrow> eds_inv (mount_results b s e)"
  by (auto simp: mount_results_def Let_def intro: wf_intros split: option.splits list.splits)

lemma dispose_main_gone [simp]: "ed_main (dispose_main e) = None" "ed_main (dispose_pool e) = ed_main e"
  "ed_main (disposeActionSqlEditor e) = ed_main e"
  by (simp_all add: dispose_main_def dispose_pool_def disposeActionSqlEditor_def)

lemma inv_draw [wf_intros]: "eds_inv e \<Longrightarrow> eds_inv (draw_editors b s e)"
  unfolding draw_editors_def Let_def by (auto intro!: wf_intros)

lemma inv_rerenderMain: "eds_inv (pn_eds p) \<Longrightarrow> eds_inv (pn_eds (rerenderMain b fmt p))"
  by (auto simp: rerenderMain_def Let_def intro: wf_intros split: prod.splits option.splits)

lemma inv_unmount: "eds_inv (pn_eds p) \<Longrightarrow> eds_inv (pn_eds (unmount_pane p))"
  by (simp add: unmount_pane_def wf_intros)

lemma inv_pane_step: "eds_inv (pn_eds p) \<Longrightarrow> eds_inv (pn_eds (pane_step fmt ev p))"
  by (cases ev) (auto simp: mount_pane_def show_action_sql_def show_statement_def Let_def inv_rerenderMain inv_unmount intro: wf_intros)

lemma pane_run_snoc: "pane_run fmt a (evs @ [ev]) = pane_step fmt ev (pane_run fmt a evs)"
  by (simp add: pane_run_def)

interpretation panes: event_machine "pane_step fmt" "closed_pane a" "\<lambda>p. eds_inv (pn_eds p)" for fmt a
  by unfold_locales (simp_all add: inv_pane_step, simp add: closed_pane_def eds_inv_def tracked_def no_editors_def)

lemma pane_run_inv: "eds_inv (pn_eds (pane_run fmt a evs))"
  unfolding pane_run_def by (rule panes.run_inv)

lemma unmount_tracked: "tracked (pn_eds (unmount_pane p)) = []"
  by (simp add: unmount_pane_def tracked_def disposeActionSqlEditor_def dispose_pool_def dispose_main_def disposePreviewEditors_def)


text \<open>At most one query editor, with the text of the active session, unless it is hidden.\<close>

lemma redraw_shows_active:
  assumes "pn_root p" "a_active (pn_app p) = Some i" "i \<noteq> []"
  shows "\<exists>v. pn_shown (rerenderMain b fmt p) = Some v \<and>
    mv_editor v = (let s = session_of (pn_app p) i in
      if s_editorHidden s then None else Some (sqlLanguageForSession (a_connections (pn_app p)) (s_connId s), s_sql s)) \<and>
    (mv_txn v \<longleftrightarrow> s_inTransaction (session_of (pn_app p) i))"
proof -
  have "a_connections (ensureSession i (pn_app p)) = a_connections (pn_app p)" by (simp add: ensureSession_def)
  with assms show ?thesis
    by (simp add: rerenderMain_def renderMainArea_def renderEditorAndResults_def Let_def)
qed

section \<open>The splitter\<close>

record layout =
  ly_top :: int
  ly_bottom :: int
  ly_splitter :: int
  ly_strip :: int

definition MIN_EDITOR :: int where
  "MIN_EDITOR = 80"

definition MIN_RESULTS :: int where
  "MIN_RESULTS = 120"

definition drag_height :: "layout \<Rightarrow> int \<Rightarrow> int" where
  "drag_height l clientY =
     (let maxEditor = ly_bottom l - ly_top l - ly_splitter l - ly_strip l - MIN_RESULTS
      in max MIN_EDITOR (min (max MIN_EDITOR maxEditor) (clientY - ly_top l)))"

definition key_height :: "bool \<Rightarrow> int \<Rightarrow> int" where
  "key_height upward cur = max 80 (cur + (if upward then -16 else 16))"

text \<open>
  Dragging the splitter never makes the editor lower than 80 pixels, follows the pointer
  between its limits, and wherever the pane has room for both leaves the results at least 120
  pixels under the editor, the splitter and the statement strip.
\<close>

theorem splitter_drag_bounds:
  "MIN_EDITOR \<le> drag_height l y \<and>
   (ly_bottom l - ly_top l \<ge> MIN_EDITOR + MIN_RESULTS + ly_splitter l + ly_strip l \<longrightarrow>
      ly_bottom l - (ly_top l + drag_height l y + ly_splitter l + ly_strip l) \<ge> MIN_RESULTS) \<and>
   (MIN_EDITOR \<le> y - ly_top l \<and> y - ly_top l \<le> ly_bottom l - ly_top l - ly_splitter l - ly_strip l - MIN_RESULTS \<longrightarrow>
      drag_height l y = y - ly_top l)"
  by (auto simp: drag_height_def Let_def)

theorem splitter_drag_bounds_witness:
  "drag_height \<lparr>ly_top = 100, ly_bottom = 600, ly_splitter = 6, ly_strip = 30\<rparr> 300 = 200 \<and>
   600 - (100 + drag_height \<lparr>ly_top = 100, ly_bottom = 600, ly_splitter = 6, ly_strip = 30\<rparr> 590 + 6 + 30) \<ge> MIN_RESULTS"
  using splitter_drag_bounds [of "\<lparr>ly_top = 100, ly_bottom = 600, ly_splitter = 6, ly_strip = 30\<rparr>" 300]
    splitter_drag_bounds [of "\<lparr>ly_top = 100, ly_bottom = 600, ly_splitter = 6, ly_strip = 30\<rparr>" 590]
  by (simp add: MIN_EDITOR_def MIN_RESULTS_def)

section \<open>The delayed session write\<close>

text \<open>\<open>sv_ctx\<close>: the host's context is still there; without it the write fails and is logged.\<close>

record saver =
  sv_app :: app
  sv_due :: "int option"
  sv_ctx :: bool
  sv_writes :: "workbench list"

definition persistSessionSoon :: "int \<Rightarrow> saver \<Rightarrow> saver" where
  "persistSessionSoon now s = s\<lparr>sv_due := Some (now + 500)\<rparr>"

definition write_session :: "saver \<Rightarrow> saver" where
  "write_session s = (if sv_ctx s then s\<lparr>sv_writes := sv_writes s @ [saveWorkbenchSession (sv_app s)]\<rparr> else s)"

text \<open>The clock reaches \<open>now\<close>: a timer that is due fires.\<close>

definition clock_at :: "int \<Rightarrow> saver \<Rightarrow> saver" where
  "clock_at now s = (case sv_due s of
       None \<Rightarrow> s
     | Some d \<Rightarrow> if d \<le> now then write_session (s\<lparr>sv_due := None\<rparr>) else s)"

text \<open>The editor's \<open>onChange\<close> at a time.\<close>

definition editor_change :: "string \<Rightarrow> int \<times> string \<Rightarrow> saver \<Rightarrow> saver" where
  "editor_change i k s = (case k of (now, v) \<Rightarrow>
     persistSessionSoon now ((clock_at now s)\<lparr>sv_app := update_session i (\<lambda>x. x\<lparr>s_sql := v\<rparr>) (sv_app (clock_at now s))\<rparr>))"

definition typing :: "string \<Rightarrow> (int \<times> string) list \<Rightarrow> saver \<Rightarrow> saver" where
  "typing i ks s = fold (editor_change i) ks s"

fun burst :: "int \<Rightarrow> (int \<times> string) list \<Rightarrow> bool" where
  "burst t [] = True"
| "burst t ((u, v) # ks) = (t \<le> u \<and> u < t + 500 \<and> burst u ks)"

lemma typing_burst:
  "burst t ks \<Longrightarrow> sv_due s = Some (t + 500) \<Longrightarrow>
     sv_writes (typing i ks s) = sv_writes s \<and> sv_ctx (typing i ks s) = sv_ctx s \<and>
     sv_due (typing i ks s) = Some (fst (last ((t, []) # ks)) + 500) \<and>
     (ks \<noteq> [] \<longrightarrow> s_sql (session_of (sv_app (typing i ks s)) i) = snd (last ks))"
proof (induction ks arbitrary: s t)
  case (Cons k ks)
  obtain u v where k: "k = (u, v)" by (cases k)
  let ?s = "editor_change i k s"
  have c: "clock_at u s = s" using Cons.prems k by (simp add: clock_at_def)
  have s: "sv_due ?s = Some (u + 500)" "sv_writes ?s = sv_writes s" "sv_ctx ?s = sv_ctx s"
    "s_sql (session_of (sv_app ?s) i) = v"
    by (simp_all add: editor_change_def k c persistSessionSoon_def session_of_update)
  have b: "burst u ks" using Cons.prems(1) k by simp
  from Cons.IH [OF b s(1)] s show ?case by (cases "ks = []") (auto simp: typing_def k)
qed (simp add: typing_def)

lemma saved_entry:
  "omap_get (wb_sessions (saveWorkbenchSession a)) i =
     map_option (\<lambda>s. \<lparr>v_sql = Some (s_sql s), v_activeTable = s_activeTable s\<rparr>) (omap_get (a_sessions a) i)"
proof -
  have "omap_get (map (\<lambda>(j, s). (j, g s)) m) i = map_option g (omap_get m i)" for m and g :: "session \<Rightarrow> saved_session"
    by (induction m) auto
  then show ?thesis by (simp add: saveWorkbenchSession_def)
qed

lemma session_known_after_typing:
  "ks \<noteq> [] \<Longrightarrow> omap_get (a_sessions (sv_app (typing i ks s))) i \<noteq> None"
proof (induction ks rule: rev_induct)
  case (snoc k ks)
  then show ?case
    by (simp add: typing_def editor_change_def persistSessionSoon_def update_session_def omap_get_set split: prod.splits)
qed simp

text \<open>
  C35: A burst of typing is written once: while each change follows the last within half a
  second nothing is written, and half a second after the last one exactly one write happens,
  with the editor's last text for that connection.
\<close>

theorem typing_is_saved_once:
  assumes b: "burst t ks" and ne: "ks \<noteq> []" and idle: "sv_due s = None" "sv_ctx s"
    and late: "fst (last ks) + 500 \<le> now"
  shows "sv_writes (typing i ((t, v) # ks) s) = sv_writes s \<and>
    (\<exists>w. sv_writes (clock_at now (typing i ((t, v) # ks) s)) = sv_writes s @ [w] \<and>
       map_option v_sql (omap_get (wb_sessions w) i) = Some (Some (snd (last ks)))) \<and>
    sv_due (clock_at now (typing i ((t, v) # ks) s)) = None"
proof -
  let ?first = "editor_change i (t, v) s" and ?s = "typing i ((t, v) # ks) s"
  have 0: "sv_due ?first = Some (t + 500)" "sv_writes ?first = sv_writes s" "sv_ctx ?first"
    using idle by (simp_all add: editor_change_def clock_at_def persistSessionSoon_def)
  have e: "?s = typing i ks ?first" by (simp add: typing_def)
  note tb = typing_burst [OF b 0(1), of i]
  have sql: "s_sql (session_of (sv_app ?s) i) = snd (last ks)" using tb ne unfolding e by simp
  have known: "omap_get (a_sessions (sv_app ?s)) i \<noteq> None" by (rule session_known_after_typing) simp
  have due: "sv_due ?s = Some (fst (last ks) + 500)" "sv_writes ?s = sv_writes s" "sv_ctx ?s" using tb ne 0 unfolding e by simp_all
  then have w: "clock_at now ?s = write_session (?s\<lparr>sv_due := None\<rparr>)" using late by (simp add: clock_at_def)
  obtain x where x: "omap_get (a_sessions (sv_app ?s)) i = Some x" using known by auto
  with sql have "s_sql x = snd (last ks)" by (simp add: session_of_def)
  with x have "map_option v_sql (omap_get (wb_sessions (saveWorkbenchSession (sv_app ?s))) i) = Some (Some (snd (last ks)))"
    by (simp add: saved_entry)
  with due w show ?thesis by (simp add: write_session_def)
qed

definition quiet_saver :: saver where
  "quiet_saver = \<lparr>sv_app = \<lparr>a_connections = [], a_active = None, a_sessions = [], a_connStatus = []\<rparr>,
     sv_due = None, sv_ctx = True, sv_writes = []\<rparr>"

theorem typing_is_saved_once_witness:
  "length (sv_writes (clock_at 1200 (typing ''c'' [(0, ''s''), (300, ''se''), (650, ''sel'')] quiet_saver))) = 1"
proof -
  have "burst 0 [(300, ''se''), (650, ''sel'')]" by simp
  moreover have "sv_due quiet_saver = None" "sv_ctx quiet_saver" "sv_writes quiet_saver = []" by (simp_all add: quiet_saver_def)
  ultimately show ?thesis
    using typing_is_saved_once [of 0 "[(300, ''se''), (650, ''sel'')]" quiet_saver 1200 "''c''" "''s''"] by auto
qed

text \<open>
  Deactivating drops the host's context before a pending write runs, so what was typed in the
  last half second is lost.
\<close>

theorem deactivate_loses_last_text:
  "sv_writes (clock_at 1000 ((typing ''c'' [(0, ''select 1'')] quiet_saver)\<lparr>sv_ctx := False\<rparr>)) = []"
  by code_simp

end
