(* ===== verification/Extension.thy ===== *)
theory Extension
  imports Workbench ConnDialog
begin

text \<open>
  \<open>src/src/index.js\<close>: the start of the extension, the first mount of its pane and its end.
  The settings, the published connections, the running helper and the host's answers are
  arguments. The start is a list of the registrations it makes, in order.
\<close>

section \<open>Starting\<close>

record host_apis =
  ha_invoke :: bool
  ha_platform :: bool
  ha_installPath :: bool
  ha_panel :: bool
  ha_tabs :: bool
  ha_editor :: bool
  ha_secrets :: bool
  ha_settings :: bool

definition checkRequiredApis :: "host_apis \<Rightarrow> string list" where
  "checkRequiredApis h =
     (if ha_invoke h then [] else [''ctx.invoke'']) @
     (if ha_platform h then [] else [''ctx.os.platform'']) @
     (if ha_installPath h then [] else [''ctx.installPath'']) @
     (if ha_panel h then [] else [''ctx.registerPanelRenderer'']) @
     (if ha_tabs h then [] else [''ctx.tabs.openExtensionTab'']) @
     (if ha_editor h then [] else [''ctx.ui.codeEditor'']) @
     (if ha_secrets h then [] else [''ctx.secrets'']) @
     (if ha_settings h then [] else [''ctx.settings''])"

datatype boot_act =
    Warned string | InjectStyles | SetReconnect | RegisterAiTools | StoreConns "conn list" | PublishSection
  | OnCommand string | RegisterRenderer string

definition CMD_TOGGLE :: string where
  "CMD_TOGGLE = ''tedi.sql-explorer.toggle''"

definition CMD_RUN :: string where
  "CMD_RUN = ''tedi.sql-explorer.runQuery''"

definition PANEL_ID :: string where
  "PANEL_ID = ''sql-explorer''"

text \<open>\<open>saved\<close> and \<open>session\<close> are the settings (\<open>None\<close> when unreadable), \<open>offered\<close> the published list.\<close>

definition activate ::
  "host_apis \<Rightarrow> conn list option \<Rightarrow> conn list \<Rightarrow> workbench option \<Rightarrow> app \<Rightarrow> app \<times> boot_act list" where
  "activate h saved offered session a =
     (let missing = checkRequiredApis h in
      if missing \<noteq> [] then (a, [Warned (''SQL Explorer needs a newer TEDI (missing: '' @ js_join '', '' missing @ '').'')])
      else let a1 = loadSavedConnections saved a;
               (changed, cs) = syncManagedConnections offered (a_connections a1);
               a2 = a1\<lparr>a_connections := cs\<rparr>;
               a3 = snd (restoreWorkbenchSession session a2)
           in (a3, [InjectStyles, SetReconnect, RegisterAiTools] @ (if changed then [StoreConns cs] else []) @
                [PublishSection, OnCommand CMD_TOGGLE, OnCommand CMD_RUN, RegisterRenderer PANEL_ID]))"

section \<open>Mounting the pane\<close>

text \<open>
  The pane re-reads the list the other window may have changed and the published connections;
  each read redraws when it changed something. \<open>before\<close> is the revision when the read began.
\<close>

definition redraw :: "world \<Rightarrow> world" where
  "redraw w = emit Rerender (emit SyncSidebar w)"

definition pane_refresh :: "nat \<Rightarrow> nat \<Rightarrow> conn list option \<Rightarrow> conn list \<Rightarrow> world \<Rightarrow> world" where
  "pane_refresh before revision saved offered w =
     (let (c1, cs1) = refreshSavedConnections before revision saved (a_connections (wd_app w));
          w1 = (if c1 then redraw (upd_app (\<lambda>a. a\<lparr>a_connections := cs1\<rparr>) w) else w);
          (c2, cs2) = syncManagedConnections offered (a_connections (wd_app w1))
      in if c2 then redraw (persist (upd_app (\<lambda>a. a\<lparr>a_connections := cs2\<rparr>) w1)) else w1)"

text \<open>Once the helper runs, the restored connection is opened unless it already is.\<close>

definition pane_boot ::
  "ssh_api \<Rightarrow> (string + unit) \<Rightarrow> string list option \<Rightarrow> (nat \<Rightarrow> answers) \<Rightarrow> world \<Rightarrow> world" where
  "pane_boot ssh sidecar conns envs w = (case sidecar of
       Inl e \<Rightarrow> emit (Toast (''SQL helper failed to start: '' @ e) ''error'') w
     | Inr _ \<Rightarrow> (case a_active (wd_app w) of
           None \<Rightarrow> w
         | Some i \<Rightarrow> if i \<noteq> [] \<and> status_in w i \<noteq> Some Connected then snd (selectConnection ssh sidecar conns envs i w) else w))"

section \<open>Ending\<close>

definition shutdown_helper :: "endpoint option \<Rightarrow> world \<Rightarrow> world" where
  "shutdown_helper ep w = (case ep of
       None \<Rightarrow> w
     | Some e \<Rightarrow>
        (let w1 = (if sc_baseUrl e \<noteq> [] then emit (Fetch ''/shutdown'' ''POST'' (VObj [])) w else w)
         in if \<not> is_nullish (sc_handle e) then emit (Ui ''shell_bg_kill'') w1 else w1))"

text \<open>\<open>Promise.all\<close> of the releases; the order of independent closes is the list's.\<close>

definition deactivate :: "ssh_api \<Rightarrow> endpoint option \<Rightarrow> pane \<Rightarrow> page \<Rightarrow> world \<Rightarrow> (endpoint option \<times> pane \<times> page) \<times> world" where
  "deactivate ssh ep p pg w =
     (let w1 = emit (Ui ''sidebar.removeSection'') (setTabState None w);
          w2 = shutdown_helper ep w1;
          w3 = fold (releaseTunnel ssh) (a_connections (wd_app w2)) w2
      in ((None, unmount_pane p, closeOpenDialogs pg), emit (Ui ''storage.delete sidecar'') w3))"

section \<open>Properties\<close>

lemma missing_iff: "checkRequiredApis h = [] \<longleftrightarrow> ha_invoke h \<and> ha_platform h \<and> ha_installPath h \<and> ha_panel h \<and>
    ha_tabs h \<and> ha_editor h \<and> ha_secrets h \<and> ha_settings h"
  by (simp add: checkRequiredApis_def)

text \<open>A host that lacks an API gets a warning that names it, and nothing is registered.\<close>

lemma activate_refuses_old_host:
  assumes "checkRequiredApis h \<noteq> []"
  shows "fst (activate h saved offered session a) = a \<and> (\<exists>m. snd (activate h saved offered session a) = [Warned m])"
  using assms by (simp add: activate_def Let_def)

lemma unmanaged_row_kept: "c \<in> set cs \<Longrightarrow> \<not> managed c \<Longrightarrow> c \<in> set (keep_rows offered cs)"
  by (auto simp: keep_rows_def)

lemma sync_keeps_unmanaged: "c \<in> set cs \<Longrightarrow> \<not> managed c \<Longrightarrow> c \<in> set (snd (syncManagedConnections offered cs))"
  using unmanaged_row_kept [of c cs offered] by (auto simp: syncManagedConnections_def Let_def)

text \<open>
  C15: Quitting and starting again brings the workbench back. With the list and the session that
  were written, every connection the user made still exists, its editor has its text, it shows
  its table, and the connection that was active is active, whatever the file of managed
  connections offers meanwhile.
\<close>

theorem restart_restores_workbench:
  assumes apis: "checkRequiredApis h = []" and wf: "omap_wf (a_sessions a)"
    and user: "c \<in> set (a_connections a)" "\<not> managed c" "c_id c \<noteq> []"
    and s: "omap_get (a_sessions a) (c_id c) = Some s"
    and empty: "a_sessions b = []"
    and r: "fst (activate h (Some (a_connections a)) offered (Some (saveWorkbenchSession a)) b) = a'"
  shows "c \<in> set (a_connections a') \<and> s_sql (session_of a' (c_id c)) = s_sql s \<and>
    s_activeTable (session_of a' (c_id c)) = s_activeTable s \<and>
    (a_active a = Some (c_id c) \<longrightarrow> a_active a' = Some (c_id c))"
proof -
  define cs where "cs = snd (syncManagedConnections offered (a_connections a))"
  define b2 where "b2 = b\<lparr>a_connections := cs\<rparr>"
  have c: "c \<in> set cs" unfolding cs_def by (rule sync_keeps_unmanaged [OF user(1,2)])
  then have has: "has_conn b2 (c_id c)" by (auto simp: has_conn_def list_ex_iff b2_def)
  have b2: "a_sessions b2 = []" using empty by (simp add: b2_def)
  have a': "a' = snd (restoreWorkbenchSession (Some (saveWorkbenchSession a)) b2)"
    using r apis by (simp add: activate_def Let_def loadSavedConnections_def b2_def cs_def split: prod.splits)
  have keeps: "a_connections (restore_one e x) = a_connections x" for e x
    by (auto simp: restore_one_def update_session_def ensureSession_def split: prod.splits)
  have "a_connections (fold restore_one es x) = a_connections x" for es x
    by (induction es arbitrary: x) (simp_all add: keeps)
  then have conns: "a_connections a' = cs"
    unfolding a' by (simp add: restoreWorkbenchSession_def Let_def b2_def split: option.splits)
  have act: "a_active (snd (restoreWorkbenchSession (Some v) x)) = fst (restoreWorkbenchSession (Some v) x)" for v x
    by (simp add: restoreWorkbenchSession_def Let_def)
  show ?thesis
    using workbench_restored [OF wf b2 s has] conns c user(3) act [of "saveWorkbenchSession a" b2] by (auto simp: a')
qed

definition full_host :: host_apis where
  "full_host = \<lparr>ha_invoke = True, ha_platform = True, ha_installPath = True, ha_panel = True, ha_tabs = True,
     ha_editor = True, ha_secrets = True, ha_settings = True\<rparr>"

definition quitting :: app where
  "quitting = \<lparr>a_connections = [plain_conn ''c'' ''mysql'' []], a_active = Some ''c'',
     a_sessions = [(''c'', new_session ''c''\<lparr>s_sql := ''select 2''\<rparr>)], a_connStatus = []\<rparr>"

definition starting :: app where
  "starting = \<lparr>a_connections = [], a_active = None, a_sessions = [], a_connStatus = []\<rparr>"

theorem restart_restores_workbench_witness:
  "s_sql (session_of (fst (activate full_host (Some (a_connections quitting)) [] (Some (saveWorkbenchSession quitting)) starting)) ''c'')
     = ''select 2''"
proof -
  let ?c = "plain_conn ''c'' ''mysql'' []" and ?s = "new_session ''c''\<lparr>s_sql := ''select 2''\<rparr>"
  have 1: "checkRequiredApis full_host = []" by (simp add: missing_iff full_host_def)
  have 2: "omap_wf (a_sessions quitting)" by (simp add: quitting_def omap_wf_def omap_keys_def)
  have 3: "?c \<in> set (a_connections quitting)" "c_id ?c \<noteq> []" "omap_get (a_sessions quitting) (c_id ?c) = Some ?s"
    by (simp_all add: quitting_def plain_conn_def)
  have 4: "\<not> managed ?c" by (simp add: managed_def MANAGED_PREFIX_def plain_conn_def)
  have 5: "a_sessions starting = []" by (simp add: starting_def)
  show ?thesis
    using restart_restores_workbench [OF 1 2 3(1) 4 3(2,3) 5 refl, of "[]"] by (simp add: plain_conn_def)
qed

lemma release_adds_closed:
  "closed (wd_trace (releaseTunnel ssh c w)) = closed (wd_trace w) @
     (if usesTunnel c \<and> can_close ssh then [(c_sshTunnel c, tg_host (tunnelTarget c), tg_port (tunnelTarget c))] else [])"
  by (simp add: releaseTunnel_def closed_def Let_def)

lemma release_all_closed:
  "closed (wd_trace (fold (releaseTunnel ssh) cs w)) = closed (wd_trace w) @
     (if can_close ssh then map (\<lambda>c. (c_sshTunnel c, tg_host (tunnelTarget c), tg_port (tunnelTarget c))) (filter usesTunnel cs) else [])"
  by (induction cs arbitrary: w) (simp_all add: release_adds_closed)

lemma release_all_requests: "requests (wd_trace (fold (releaseTunnel ssh) cs w)) = requests (wd_trace w)"
  by (induction cs arbitrary: w) simp_all

lemma shutdown_frame: "wd_app (shutdown_helper ep w) = wd_app w" "closed (wd_trace (shutdown_helper ep w)) = closed (wd_trace w)"
  by (auto simp: shutdown_helper_def closed_def Let_def split: option.splits)


definition tunnel_world :: world where
  "tunnel_world = \<lparr>wd_app = starting\<lparr>a_connections := [formToPersistable tunnel_form]\<rparr>, wd_keys = [], wd_hist = [], wd_trace = []\<rparr>"

definition empty_pane :: pane where
  "empty_pane = \<lparr>pn_root = True, pn_app = starting, pn_eds = no_editors, pn_shown = None\<rparr>"

definition ssh_full :: ssh_api where
  "ssh_full = \<lparr>can_open = True, can_close = True, can_list = True\<rparr>"


section \<open>What modelling showed\<close>

text \<open>
  Testing a connection opens its forward and never closes it. When the dialog is then cancelled
  the record is not in the list, so disabling the extension does not close it either.
\<close>

theorem tested_forward_outlives_extension:
  "let w = snd (dialog_test ssh_full \<lparr>an_sidecar = Inr (), an_forward = Inr (NInt 7), an_connect = Inr ()\<rparr>
             \<lparr>cd_form = tunnel_form, cd_edit = False, cd_error = None, cd_open = True\<rparr>
             \<lparr>wd_app = starting, wd_keys = [], wd_hist = [], wd_trace = []\<rparr>);
       w' = snd (deactivate ssh_full None empty_pane empty_page w)
   in opened (wd_trace w') = [(''bastion'', ''db.internal'', NInt 33)] \<and> closed (wd_trace w') = []"
  by code_simp

end
