(* ===== verification/Dom.thy ===== *)
theory Dom
  imports JsValue
begin

text \<open>
  The element builder of \<open>src/src/dom/\<close> (\<open>element.js\<close>, \<open>icon.js\<close>, \<open>button.js\<close>, \<open>inputs.js\<close>)
  and the trees it builds. A node is a text, an icon or a code editor the host mounted
  (the editor with its language and document), or an element with its
  class, attributes, inline style, properties a script set (\<open>value\<close>, \<open>checked\<close>), listeners
  and children. A listener is a value of a type the component chooses, naming what its
  function does; the builders are polymorphic in it. Whether the host has the icon API, and
  for which icons mounting throws, is an argument.

  Two facts hold of every tree the builders make and are kept by all of them: no element
  carries the native \<open>title\<close> (\<open>no_title\<close>), and every button can be named by a screen
  reader (\<open>buttons_named\<close>).
\<close>

section \<open>Nodes\<close>

record 'h head =
  h_tag :: string
  h_class :: string
  h_attrs :: "(string, string) omap"
  h_style :: "(string, string) omap"
  h_props :: "(string, jsval) omap"
  h_on :: "(string \<times> 'h) list"

datatype 'h dom_node =
    TextN string
  | IconN string "(string, jsval) omap"
  | HostN string string
  | ElemN "'h head" "'h dom_node list"

primrec textContent :: "'h dom_node \<Rightarrow> string" where
  "textContent (TextN s) = s"
| "textContent (IconN i opts) = []"
| "textContent (HostN lang doc) = []"
| "textContent (ElemN h ks) = concat (map textContent ks)"

primrec nodes_of :: "'h dom_node \<Rightarrow> 'h dom_node list" where
  "nodes_of (TextN s) = [TextN s]"
| "nodes_of (IconN i opts) = [IconN i opts]"
| "nodes_of (HostN lang doc) = [HostN lang doc]"
| "nodes_of (ElemN h ks) = ElemN h ks # concat (map nodes_of ks)"

fun kids :: "'h dom_node \<Rightarrow> 'h dom_node list" where
  "kids (ElemN h ks) = ks"
| "kids n = []"

fun attr :: "string \<Rightarrow> 'h dom_node \<Rightarrow> string option" where
  "attr k (ElemN h ks) = omap_get (h_attrs h) k"
| "attr k n = None"

fun tag_of :: "'h dom_node \<Rightarrow> string" where
  "tag_of (ElemN h ks) = h_tag h"
| "tag_of n = []"

text \<open>The functions of a node that run on an event.\<close>

fun listeners :: "string \<Rightarrow> 'h dom_node \<Rightarrow> 'h list" where
  "listeners ev (ElemN h ks) = map snd (filter (\<lambda>(k, f). k = ev) (h_on h))"
| "listeners ev n = []"

section \<open>Changing a node\<close>

fun map_head :: "('h head \<Rightarrow> 'h head) \<Rightarrow> 'h dom_node \<Rightarrow> 'h dom_node" where
  "map_head f (ElemN h ks) = ElemN (f h) ks"
| "map_head f n = n"

fun appendChild :: "'h dom_node \<Rightarrow> 'h dom_node \<Rightarrow> 'h dom_node" where
  "appendChild (ElemN h ks) c = ElemN h (ks @ [c])"
| "appendChild n c = n"

definition appendAll :: "'h dom_node \<Rightarrow> 'h dom_node list \<Rightarrow> 'h dom_node" where
  "appendAll n cs = foldl appendChild n cs"

definition setAttribute :: "string \<Rightarrow> string \<Rightarrow> 'h dom_node \<Rightarrow> 'h dom_node" where
  "setAttribute k v = map_head (h_attrs_update (\<lambda>as. omap_set as k v))"

definition removeAttribute :: "string \<Rightarrow> 'h dom_node \<Rightarrow> 'h dom_node" where
  "removeAttribute k = map_head (h_attrs_update (\<lambda>as. omap_delete as k))"

definition set_prop :: "string \<Rightarrow> jsval \<Rightarrow> 'h dom_node \<Rightarrow> 'h dom_node" where
  "set_prop k v = map_head (h_props_update (\<lambda>ps. omap_set ps k v))"

definition set_style :: "string \<Rightarrow> string \<Rightarrow> 'h dom_node \<Rightarrow> 'h dom_node" where
  "set_style k v = map_head (h_style_update (\<lambda>ss. omap_set ss k v))"

definition addEventListener :: "string \<Rightarrow> 'h \<Rightarrow> 'h dom_node \<Rightarrow> 'h dom_node" where
  "addEventListener ev f = map_head (h_on_update (\<lambda>fs. fs @ [(ev, f)]))"

text \<open>\<open>classList\<close>: the tokens of the class attribute.\<close>

definition class_list :: "'h head \<Rightarrow> string list" where
  "class_list h = filter (\<lambda>t. t \<noteq> []) (split_char (CHR '' '') (h_class h))"

definition class_add :: "string \<Rightarrow> 'h dom_node \<Rightarrow> 'h dom_node" where
  "class_add c = map_head (\<lambda>h. h\<lparr>h_class :=
     js_join '' '' (if c \<in> set (class_list h) then class_list h else class_list h @ [c])\<rparr>)"

definition class_remove :: "string \<Rightarrow> 'h dom_node \<Rightarrow> 'h dom_node" where
  "class_remove c = map_head (\<lambda>h. h\<lparr>h_class := js_join '' '' (filter (\<lambda>t. t \<noteq> c) (class_list h))\<rparr>)"

fun has_class :: "string \<Rightarrow> 'h dom_node \<Rightarrow> bool" where
  "has_class c (ElemN h ks) = (c \<in> set (class_list h))"
| "has_class c n = False"

definition class_toggle :: "string \<Rightarrow> bool \<Rightarrow> 'h dom_node \<Rightarrow> 'h dom_node" where
  "class_toggle c on n = (if on then class_add c n else class_remove c n)"

text \<open>\<open>setTooltipAttr\<close> on a node.\<close>

definition set_tooltip :: "string option \<Rightarrow> 'h dom_node \<Rightarrow> 'h dom_node" where
  "set_tooltip t n = (case t of
       None \<Rightarrow> removeAttribute ''data-tooltip'' n
     | Some s \<Rightarrow> if s = [] then removeAttribute ''data-tooltip'' n else setAttribute ''data-tooltip'' s n)"

text \<open>\<open>textContent = s\<close>: the children are replaced by the text; no node for the empty text.\<close>

definition text_nodes :: "string \<Rightarrow> 'h dom_node list" where
  "text_nodes s = (if s = [] then [] else [TextN s])"

fun set_text :: "string \<Rightarrow> 'h dom_node \<Rightarrow> 'h dom_node" where
  "set_text s (ElemN h ks) = ElemN h (text_nodes s)"
| "set_text s n = n"

section \<open>The builder\<close>

text \<open>
  The options of \<open>el\<close>; what a call leaves out is empty, \<open>undefined\<close> for the text. A child is
  a node or any other value, or an array of those.
\<close>

record 'h opts =
  o_class :: string
  o_id :: string
  o_text :: jsval
  o_attrs :: "(string \<times> jsval) list"
  o_style :: "(string \<times> string) list"
  o_on :: "(string \<times> 'h) list"

definition opts0 :: "'h opts" where
  "opts0 = \<lparr>o_class = [], o_id = [], o_text = VUndef, o_attrs = [], o_style = [], o_on = []\<rparr>"

datatype 'h dom_item = INode "'h dom_node" | IVal jsval

datatype 'h child = COne "'h dom_item" | CArr "'h dom_item list"

definition dropped :: "jsval \<Rightarrow> bool" where
  "dropped v = (is_nullish v \<or> v = VBool False)"

definition attr_text :: "jsval \<Rightarrow> string" where
  "attr_text v = (if v = VBool True then [] else js_String v)"

definition set_attr :: "(string, string) omap \<Rightarrow> string \<times> jsval \<Rightarrow> (string, string) omap" where
  "set_attr as kv = (case kv of (k, v) \<Rightarrow> if dropped v then as
     else omap_set as (if k = ''title'' then ''data-tooltip'' else k) (attr_text v))"

fun item_nodes :: "'h dom_item \<Rightarrow> 'h dom_node list" where
  "item_nodes (INode n) = [n]"
| "item_nodes (IVal v) = (if dropped v then [] else [TextN (js_String v)])"

fun child_nodes :: "'h child \<Rightarrow> 'h dom_node list" where
  "child_nodes (COne c) = item_nodes c"
| "child_nodes (CArr cs) = concat (map item_nodes cs)"

definition el :: "string \<Rightarrow> 'h opts \<Rightarrow> 'h child list \<Rightarrow> 'h dom_node" where
  "el tag opts children =
     ElemN \<lparr>h_tag = tag, h_class = o_class opts,
       h_attrs = foldl set_attr (if o_id opts = [] then [] else [(''id'', o_id opts)]) (o_attrs opts),
       h_style = omap_of (o_style opts), h_props = [], h_on = o_on opts\<rparr>
      ((if is_nullish (o_text opts) then [] else text_nodes (js_String (o_text opts)))
        @ concat (map child_nodes children))"

text \<open>\<open>while (node.firstChild) node.removeChild(node.firstChild)\<close>\<close>

fun clearChildren :: "'h dom_node \<Rightarrow> 'h dom_node" where
  "clearChildren (ElemN h (k # ks)) = clearChildren (ElemN h ks)"
| "clearChildren n = n"

text \<open>The common shapes of a call: only a class, and a class with a text.\<close>

definition node_of :: "'h dom_node \<Rightarrow> 'h child" where
  "node_of n = COne (INode n)"

definition el_class :: "string \<Rightarrow> string \<Rightarrow> 'h dom_node list \<Rightarrow> 'h dom_node" where
  "el_class tag cls ns = el tag (opts0\<lparr>o_class := cls\<rparr>) (map node_of ns)"

definition el_text :: "string \<Rightarrow> string \<Rightarrow> string \<Rightarrow> 'h dom_node" where
  "el_text tag cls s = el tag (opts0\<lparr>o_class := cls, o_text := VStr s\<rparr>) []"

section \<open>Icons and buttons\<close>

datatype icon_host = NoIconApi | IconApi "string \<Rightarrow> bool"

definition icon_size :: "(string, jsval) omap \<Rightarrow> jsval" where
  "icon_size opts = (case omap_get opts ''size'' of
       Some v \<Rightarrow> if is_nullish v then VNum (NInt 14) else v | None \<Rightarrow> VNum (NInt 14))"

text \<open>The options handed to the host: the defaults, overridden by the caller's.\<close>

definition icon_opts :: "(string, jsval) omap \<Rightarrow> (string, jsval) omap" where
  "icon_opts opts = foldl (\<lambda>m (k, v). omap_set m k v) [(''size'', icon_size opts), (''strokeWidth'', VStr ''1.75'')] opts"

definition icon_placeholder :: "(string, jsval) omap \<Rightarrow> 'h dom_node" where
  "icon_placeholder opts = (let px = js_String (icon_size opts) @ ''px'' in
     ElemN \<lparr>h_tag = ''span'', h_class = [], h_attrs = [],
       h_style = [(''display'', ''inline-block''), (''width'', px), (''height'', px)], h_props = [], h_on = []\<rparr> [])"

definition icon_node :: "icon_host \<Rightarrow> string \<Rightarrow> (string, jsval) omap \<Rightarrow> 'h dom_node" where
  "icon_node host i opts = (case host of
       IconApi mounts \<Rightarrow> if mounts i then IconN i (icon_opts opts) else icon_placeholder opts
     | NoIconApi \<Rightarrow> icon_placeholder opts)"

definition appendIcon :: "icon_host \<Rightarrow> 'h dom_node \<Rightarrow> string \<Rightarrow> (string, jsval) omap \<Rightarrow> 'h dom_node" where
  "appendIcon host parent i opts = appendChild parent (icon_node host i opts)"

definition sized :: "int \<Rightarrow> (string, jsval) omap" where
  "sized n = [(''size'', VNum (NInt n))]"

record 'h btn_opts =
  tb_title :: "string option"
  tb_iconOnly :: bool
  tb_primary :: bool
  tb_disabled :: bool
  tb_onClick :: "'h option"

definition btn0 :: "'h btn_opts" where
  "btn0 = \<lparr>tb_title = None, tb_iconOnly = False, tb_primary = False, tb_disabled = False, tb_onClick = None\<rparr>"

definition opt_str :: "string option \<Rightarrow> jsval" where
  "opt_str s = (case s of Some t \<Rightarrow> VStr t | None \<Rightarrow> VUndef)"

definition textBtn :: "icon_host \<Rightarrow> string \<Rightarrow> string option \<Rightarrow> 'h btn_opts \<Rightarrow> 'h dom_node" where
  "textBtn host text iconName o' =
     (let cls = ''tsql-btn'' @ (if tb_iconOnly o' then '' tsql-btn--icon'' else [])
            @ (if tb_primary o' then '' is-primary'' else []) @ (if tb_disabled o' then '' is-disabled'' else []);
          btn = el ''button'' (opts0\<lparr>o_class := cls,
            o_attrs := [(''type'', VStr ''button''), (''title'', opt_str (tb_title o')),
              (''aria-label'', VStr (case tb_title o' of Some t \<Rightarrow> t | None \<Rightarrow> text)),
              (''disabled'', if tb_disabled o' then VStr ''true'' else VUndef)],
            o_on := (case tb_onClick o' of Some f \<Rightarrow> [(''click'', f)] | None \<Rightarrow> [])\<rparr>) [];
          withIcon = (case iconName of Some i \<Rightarrow> if i = [] then btn else appendIcon host btn i (sized 13) | None \<Rightarrow> btn)
      in if tb_iconOnly o' then withIcon
         else appendChild withIcon (ElemN \<lparr>h_tag = ''span'', h_class = [], h_attrs = [], h_style = [],
           h_props = [], h_on = []\<rparr> (text_nodes text)))"

text \<open>\<open>rowActionBtn\<close> of \<open>tree/items.js\<close>, the square button of a row.\<close>

definition rowActionBtn :: "icon_host \<Rightarrow> string \<Rightarrow> string \<Rightarrow> 'h \<Rightarrow> bool \<Rightarrow> 'h dom_node" where
  "rowActionBtn host iconName title onClick danger =
     appendIcon host
       (el ''button'' (opts0\<lparr>o_class := ''tsql-row-action'' @ (if danger then '' is-danger'' else []),
          o_attrs := [(''title'', VStr title), (''aria-label'', VStr title), (''type'', VStr ''button'')],
          o_on := [(''click'', onClick)]\<rparr>) []) iconName (sized 13)"

section \<open>Form controls\<close>

text \<open>
  The \<open>placeholder\<close> and the like a caller leaves out are \<open>VUndef\<close>, which sets no attribute.
  \<open>Does\<close> is a listener of the component, \<open>Opens\<close> the trigger of a dropdown,
  \<open>Changes\<close> listens to \<open>input\<close> (or \<open>change\<close>) and hands the control's own value on, \<open>Clears\<close>
  is the search box's clear button, \<open>Steps\<close> the stepper; \<open>Keeps_focus\<close> is the listener that
  only prevents the default, \<open>Keys\<close> the date field's key handler. What they do is in theory Menus.
\<close>

datatype 'h control_act = Does 'h | Opens | Changes 'h | Syncs | Clears | Steps bool | Keeps_focus | Keys

definition input :: "string \<Rightarrow> jsval \<Rightarrow> 'h option \<Rightarrow> jsval \<Rightarrow> 'h control_act dom_node" where
  "input ty v onInput placeholder =
     (let n = set_prop ''value'' (if is_nullish v then VStr [] else v)
            (el ''input'' (opts0\<lparr>o_class := ''tsql-input'',
               o_attrs := [(''type'', VStr ty), (''placeholder'', placeholder)]\<rparr>) [])
      in (case onInput of Some f \<Rightarrow> addEventListener ''input'' (Changes f) n | None \<Rightarrow> n))"

definition makeStepBtn :: "icon_host \<Rightarrow> bool \<Rightarrow> string \<Rightarrow> string \<Rightarrow> 'h control_act dom_node" where
  "makeStepBtn host upward iconName label =
     addEventListener ''click'' (Steps upward) (addEventListener ''mousedown'' Keeps_focus
       (appendIcon host (el ''button'' (opts0\<lparr>o_class := ''tsql-num-step'',
          o_attrs := [(''type'', VStr ''button''), (''tabindex'', VStr ''-1''), (''aria-label'', VStr label)]\<rparr>) [])
         iconName [(''size'', VNum (NInt 9)), (''strokeWidth'', VStr ''2.5'')]))"

definition makeNumberWrap :: "icon_host \<Rightarrow> 'h control_act dom_node \<Rightarrow> 'h control_act dom_node" where
  "makeNumberWrap host editor =
     (let steps = appendAll (el_class ''div'' ''tsql-num-steps'' [])
            [makeStepBtn host True ''ArrowUp01Icon'' ''Increment'',
             makeStepBtn host False ''ArrowDown01Icon'' ''Decrement'']
      in appendAll (el_class ''div'' ''tsql-num'' []) [editor, steps])"

definition numberInput ::
  "icon_host \<Rightarrow> jsval \<Rightarrow> 'h option \<Rightarrow> int option \<Rightarrow> int option \<Rightarrow> jsval \<Rightarrow> 'h control_act dom_node" where
  "numberInput host v onInput mn step placeholder =
     (let n0 = input ''number'' v onInput placeholder;
          n1 = (case mn of Some i \<Rightarrow> setAttribute ''min'' (int_to_string i) n0 | None \<Rightarrow> n0);
          n2 = (case step of Some i \<Rightarrow> setAttribute ''step'' (int_to_string i) n1 | None \<Rightarrow> n1)
      in makeNumberWrap host n2)"

definition checkbox :: "bool \<Rightarrow> 'h option \<Rightarrow> 'h control_act dom_node" where
  "checkbox checked onChange =
     (let n = set_prop ''checked'' (VBool checked)
            (el ''input'' (opts0\<lparr>o_class := ''tsql-checkbox'', o_attrs := [(''type'', VStr ''checkbox'')]\<rparr>) [])
      in (case onChange of Some f \<Rightarrow> addEventListener ''change'' (Changes f) n | None \<Rightarrow> n))"

text \<open>The search box: the trimmed class, the field and the clear button, shown when it has a text.\<close>

definition search_input ::
  "icon_host \<Rightarrow> string \<Rightarrow> string \<Rightarrow> string \<Rightarrow> string \<Rightarrow> string \<Rightarrow> 'h option \<Rightarrow> 'h control_act dom_node" where
  "search_input host placeholder ariaLabel inputClass wrapClass initial onInput =
     (let field = set_prop ''value'' (VStr initial)
            (el ''input'' (opts0\<lparr>o_class := inputClass,
               o_attrs := [(''type'', VStr ''text''), (''placeholder'', VStr placeholder), (''aria-label'', VStr ariaLabel),
                 (''autocomplete'', VStr ''off''), (''spellcheck'', VStr ''false'')]\<rparr>) []);
          clearBtn = appendIcon host
            (el ''button'' (opts0\<lparr>o_class := ''tsql-search-clear'',
               o_attrs := [(''type'', VStr ''button''), (''aria-label'', VStr ''Clear search''),
                 (''title'', VStr ''Clear''), (''tabindex'', VStr ''-1'')]\<rparr>) []) ''Cancel01Icon'' (sized 12);
          shown = class_toggle ''is-visible'' (initial \<noteq> []) clearBtn;
          wired = addEventListener ''input'' (case onInput of Some f \<Rightarrow> Changes f | None \<Rightarrow> Syncs) field
      in appendAll (el_class ''div'' (js_trim (''tsql-search-wrap '' @ wrapClass)) [])
           [wired, addEventListener ''click'' Clears shown])"

text \<open>
  The trigger of the dropdown \<open>select\<close> (\<open>dom/menus.js\<close>): it shows the label of the option that
  has the current value, nothing when no option has it.
\<close>

definition option_label :: "(string \<times> string) list \<Rightarrow> string \<Rightarrow> string" where
  "option_label options v = (case find (\<lambda>o'. fst o' = v) options of Some o' \<Rightarrow> snd o' | None \<Rightarrow> [])"

definition select_trigger :: "icon_host \<Rightarrow> (string \<times> string) list \<Rightarrow> string \<Rightarrow> string \<Rightarrow> 'h control_act dom_node" where
  "select_trigger host options current className =
     (let trigger = el ''button'' (opts0\<lparr>o_class := ''tsql-select'' @ (if className = [] then [] else '' '' @ className),
            o_attrs := [(''type'', VStr ''button''), (''aria-haspopup'', VStr ''listbox''), (''aria-expanded'', VStr ''false'')]\<rparr>) [];
          labelSpan = el_class ''span'' ''tsql-select-label'' [];
          caretBox = appendIcon host (el_class ''span'' ''tsql-select-caret'' []) ''ArrowDown01Icon''
            [(''size'', VNum (NInt 12)), (''strokeWidth'', VNum (NInt 2))]
      in addEventListener ''click'' Opens
           (appendAll trigger [set_text (option_label options current) labelSpan, caretBox]))"

section \<open>What every built tree has\<close>

definition has_name :: "'h dom_node \<Rightarrow> bool" where
  "has_name n = ((\<exists>c s. attr ''aria-label'' n = Some (c # s)) \<or> textContent n \<noteq> [])"

definition made_well :: "'h dom_node \<Rightarrow> bool" where
  "made_well n = (attr ''title'' n = None \<and> (tag_of n = ''button'' \<longrightarrow> has_name n))"

definition well_made :: "'h dom_node \<Rightarrow> bool" where
  "well_made n = list_all made_well (nodes_of n)"

named_theorems dom_ok "how the builders keep a tree well made"

lemma appendAll_Elem [simp]: "appendAll (ElemN h ks) cs = ElemN h (ks @ cs)"
  unfolding appendAll_def by (induction cs arbitrary: ks) simp_all

lemma textContent_head [simp]: "textContent (map_head f n) = textContent n"
  by (cases n) simp_all

lemma icon_text [simp]: "textContent (icon_node host i o') = []"
  by (cases host) (simp_all add: icon_node_def icon_placeholder_def Let_def)

lemma list_all_nodes: "list_all P (concat (map nodes_of ks)) = list_all (\<lambda>k. list_all P (nodes_of k)) ks"
  by (induction ks) simp_all

lemma well_made_simps [simp]:
  "well_made (TextN s)" "well_made (IconN i o')" "well_made (HostN lang doc)"
  "well_made (ElemN h ks) = (made_well (ElemN h ks) \<and> list_all well_made ks)"
  by (simp_all add: well_made_def made_well_def list_all_nodes cong: list.pred_cong)

lemma well_made_text_nodes [simp]: "list_all well_made (text_nodes s)"
  by (simp add: text_nodes_def)

lemma set_attr_title: "omap_get as ''title'' = None \<Longrightarrow> omap_get (set_attr as kv) ''title'' = None"
  by (simp add: set_attr_def omap_get_set split: prod.splits)

lemma set_attrs_title: "omap_get as ''title'' = None \<Longrightarrow> omap_get (foldl set_attr as kvs) ''title'' = None"
  by (induction kvs arbitrary: as) (simp_all add: set_attr_title)

lemma attr_el_title [simp]: "attr ''title'' (el tag opts cs) = None"
  by (simp add: el_def set_attrs_title)

lemma tag_of_el [simp]: "tag_of (el tag opts cs) = tag"
  by (simp add: el_def)

lemma kids_el: "kids (el tag opts cs) =
    (if is_nullish (o_text opts) then [] else text_nodes (js_String (o_text opts))) @ concat (map child_nodes cs)"
  by (simp add: el_def)

lemma well_made_el: "well_made (el tag opts cs) =
    ((tag = ''button'' \<longrightarrow> has_name (el tag opts cs)) \<and> list_all well_made (concat (map child_nodes cs)))"
proof -
  obtain h where e: "el tag opts cs = ElemN h ((if is_nullish (o_text opts) then [] else
      text_nodes (js_String (o_text opts))) @ concat (map child_nodes cs))"
    by (simp add: el_def)
  have "made_well (el tag opts cs) = (tag = ''button'' \<longrightarrow> has_name (el tag opts cs))"
    by (simp add: made_well_def)
  then show ?thesis unfolding e by simp
qed

lemma child_nodes_of [simp]: "child_nodes (node_of n) = [n]"
  by (simp add: node_of_def)

lemma concat_children [simp]: "concat (map child_nodes (map node_of ns)) = ns"
  by (induction ns) simp_all

lemma tag_of_el_class [simp]: "tag_of (el_class tag cls ns) = tag" "tag_of (el_text tag cls s) = tag"
  by (simp_all add: el_class_def el_text_def)

lemma el_plain_ok [dom_ok]: "tag \<noteq> ''button'' \<Longrightarrow> list_all well_made (concat (map child_nodes cs)) \<Longrightarrow>
    well_made (el tag opts cs)"
  by (simp add: well_made_el)

lemma el_class_ok [dom_ok]: "tag \<noteq> ''button'' \<Longrightarrow> list_all well_made ns \<Longrightarrow> well_made (el_class tag cls ns)"
  unfolding el_class_def by (rule el_plain_ok) (simp_all del: map_map)

lemma el_text_ok [dom_ok]: "tag \<noteq> ''button'' \<Longrightarrow> well_made (el_text tag cls s)"
  unfolding el_text_def by (rule el_plain_ok) simp_all

text \<open>A button is named by its label or by its text.\<close>

lemma attrs_snoc: "foldl set_attr as (kvs @ [kv]) = set_attr (foldl set_attr as kvs) kv"
  by simp

lemma set_attr_get: "omap_get (set_attr as (k, v)) j =
    (if \<not> dropped v \<and> j = (if k = ''title'' then ''data-tooltip'' else k) then Some (attr_text v) else omap_get as j)"
  by (simp add: set_attr_def omap_get_set)

lemma set_attrs_get: "j \<noteq> ''data-tooltip'' \<Longrightarrow> j \<noteq> ''title'' \<Longrightarrow>
    omap_get (foldl set_attr as kvs) j =
      (case find (\<lambda>kv. fst kv = j \<and> \<not> dropped (snd kv)) (rev kvs) of
         Some kv \<Rightarrow> Some (attr_text (snd kv)) | None \<Rightarrow> omap_get as j)"
proof (induction kvs rule: rev_induct)
  case (snoc kv kvs)
  then show ?case by (cases kv) (auto simp: set_attr_get)
qed simp

lemma attr_el: "j \<noteq> ''data-tooltip'' \<Longrightarrow> j \<noteq> ''title'' \<Longrightarrow> j \<noteq> ''id'' \<Longrightarrow> attr j (el tag opts cs) =
    map_option (\<lambda>kv. attr_text (snd kv)) (find (\<lambda>kv. fst kv = j \<and> \<not> dropped (snd kv)) (rev (o_attrs opts)))"
  by (simp add: el_def set_attrs_get split: option.splits)

lemma dropped_simps [simp]: "\<not> dropped (VStr s)" "dropped VUndef" "dropped VNull" "dropped (VBool b) = (\<not> b)"
  by (simp_all add: dropped_def)

lemma attr_text_str [simp]: "attr_text (VStr s) = s"
  by (simp add: attr_text_def)

lemma textContent_el: "textContent (el tag opts cs) =
    (if is_nullish (o_text opts) then [] else js_String (o_text opts)) @ concat (map textContent (concat (map child_nodes cs)))"
  by (simp add: el_def text_nodes_def)

subsection \<open>Changes keep it\<close>

lemma textContent_append [simp]: "textContent (appendChild n c) =
    (case n of ElemN h ks \<Rightarrow> textContent n @ textContent c | _ \<Rightarrow> textContent n)"
  by (cases n) simp_all

lemma attr_append [simp]: "attr k (appendChild n c) = attr k n"
  by (cases n) simp_all

lemma tag_append [simp]: "tag_of (appendChild n c) = tag_of n"
  by (cases n) simp_all

lemma has_name_append: "has_name n \<Longrightarrow> has_name (appendChild n c)"
  by (cases n) (auto simp: has_name_def)

lemma append_ok [dom_ok]: "well_made n \<Longrightarrow> well_made c \<Longrightarrow> well_made (appendChild n c)"
  using has_name_append [of n c] by (cases n) (auto simp: made_well_def)

lemma appendAll_ok [dom_ok]: "well_made n \<Longrightarrow> list_all well_made cs \<Longrightarrow> well_made (appendAll n cs)"
  unfolding appendAll_def by (induction cs arbitrary: n) (simp_all add: append_ok)

lemma icon_ok [dom_ok, simp]: "well_made (icon_node host i o')"
  by (cases host) (simp_all add: icon_node_def icon_placeholder_def made_well_def Let_def)

lemma appendIcon_ok [dom_ok]: "well_made n \<Longrightarrow> well_made (appendIcon host n i o')"
  unfolding appendIcon_def by (rule append_ok) simp_all

text \<open>A change of the head that leaves the two attributes and the tag alone.\<close>

lemma map_head_ok: "(\<And>h. h_tag (f h) = h_tag h) \<Longrightarrow>
    (\<And>h. omap_get (h_attrs (f h)) ''title'' = omap_get (h_attrs h) ''title'') \<Longrightarrow>
    (\<And>h. omap_get (h_attrs (f h)) ''aria-label'' = omap_get (h_attrs h) ''aria-label'') \<Longrightarrow>
    well_made (map_head f n) = well_made n"
  by (cases n) (simp_all add: made_well_def has_name_def)

lemma head_changes_ok [simp]:
  "well_made (set_prop k v n) = well_made n" "well_made (set_style k w n) = well_made n"
  "well_made (addEventListener ev g n) = well_made n" "well_made (class_add c n) = well_made n"
  "well_made (class_remove c n) = well_made n" "well_made (class_toggle c b n) = well_made n"
  "k \<noteq> ''title'' \<Longrightarrow> k \<noteq> ''aria-label'' \<Longrightarrow> well_made (setAttribute k w n) = well_made n"
  unfolding set_prop_def set_style_def addEventListener_def class_add_def class_remove_def class_toggle_def setAttribute_def
  by (simp_all add: map_head_ok omap_get_set)

lemma set_text_ok [dom_ok]: "tag_of n \<noteq> ''button'' \<Longrightarrow> well_made n \<Longrightarrow> well_made (set_text s n)"
  by (cases n) (auto simp: made_well_def has_name_def)

lemma clearChildren_kids [simp]: "kids (clearChildren n) = []"
  by (induction n rule: clearChildren.induct) simp_all

lemma clearChildren_head: "clearChildren (ElemN h ks) = ElemN h []"
  by (induction ks) simp_all

lemma clearChildren_ok [dom_ok]: "tag_of n \<noteq> ''button'' \<Longrightarrow> well_made n \<Longrightarrow> well_made (clearChildren n)"
  by (cases n) (auto simp: made_well_def has_name_def clearChildren_head)

subsection \<open>Buttons and controls\<close>

lemma labelled_button: "find (\<lambda>kv. fst kv = ''aria-label'' \<and> \<not> dropped (snd kv)) (rev (o_attrs opts)) = Some (k, VStr s) \<Longrightarrow>
    s \<noteq> [] \<Longrightarrow> has_name (el tag opts cs)"
  by (cases s) (simp_all add: has_name_def attr_el)

lemma texted_button [dom_ok]: "o_text opts = VStr s \<Longrightarrow> s \<noteq> [] \<Longrightarrow> list_all well_made (concat (map child_nodes cs)) \<Longrightarrow>
    well_made (el ''button'' opts cs)"
  by (simp add: well_made_el has_name_def textContent_el)

lemma label_button [dom_ok]:
  "find (\<lambda>kv. fst kv = ''aria-label'' \<and> \<not> dropped (snd kv)) (rev (o_attrs opts)) = Some (k, VStr s) \<Longrightarrow>
    s \<noteq> [] \<Longrightarrow> list_all well_made (concat (map child_nodes cs)) \<Longrightarrow> well_made (el ''button'' opts cs)"
  by (simp add: well_made_el labelled_button)

text \<open>An icon-only button has no visible text: its label is what names it.\<close>

lemma textBtn_ok [dom_ok]:
  assumes "text \<noteq> []" and "tb_title o' \<noteq> Some []"
  shows "well_made (textBtn host text iconName o')"
proof -
  have lab: "(case tb_title o' of Some t \<Rightarrow> t | None \<Rightarrow> text) \<noteq> []" using assms by (auto split: option.splits)
  have span: "well_made (ElemN \<lparr>h_tag = ''span'', h_class = [], h_attrs = [], h_style = [], h_props = [], h_on = []\<rparr> (text_nodes text))"
    by (simp add: made_well_def)
  show ?thesis unfolding textBtn_def Let_def
    using lab span by (auto intro!: append_ok appendIcon_ok label_button split: option.splits)
qed

lemma rowActionBtn_ok [dom_ok]: "title \<noteq> [] \<Longrightarrow> well_made (rowActionBtn host i title f danger)"
  unfolding rowActionBtn_def by (intro appendIcon_ok label_button) simp_all

lemma input_ok [dom_ok, simp]: "well_made (input ty v onInput placeholder)"
  unfolding input_def Let_def by (auto intro: el_plain_ok split: option.splits)

lemma checkbox_ok [dom_ok, simp]: "well_made (checkbox b f)"
  unfolding checkbox_def Let_def by (auto intro: el_plain_ok split: option.splits)

lemma makeNumberWrap_ok [dom_ok]: "well_made e \<Longrightarrow> well_made (makeNumberWrap host e)"
  unfolding makeNumberWrap_def makeStepBtn_def Let_def
  by (intro appendAll_ok) (auto intro!: el_class_ok appendIcon_ok label_button appendAll_ok)

lemma numberInput_ok [dom_ok, simp]: "well_made (numberInput host v f mn st p)"
  unfolding numberInput_def Let_def by (intro makeNumberWrap_ok) (simp split: option.splits)

lemma search_input_ok [dom_ok, simp]: "well_made (search_input host p a ic wc v f)"
  unfolding search_input_def Let_def
  by (intro appendAll_ok) (simp_all add: el_class_ok appendIcon_ok label_button el_plain_ok)

text \<open>A dropdown is named by the label it shows, so one whose value has no option has no name.\<close>

lemma select_trigger_ok [dom_ok]: "option_label options v \<noteq> [] \<Longrightarrow> well_made (select_trigger host options v cls)"
  by (simp add: select_trigger_def Let_def el_def el_class_def opts0_def appendIcon_def made_well_def has_name_def
      set_attr_def dropped_def omap_get_set text_nodes_def)

lemma select_trigger_blank:
  fixes n :: "'h control_act dom_node"
  assumes n_def: "n = select_trigger host options v cls"
    and "find (\<lambda>o'. fst o' = v) options = None"
  shows "textContent n = []" "\<not> well_made n"
proof -
  show blank: "textContent n = []"
    using assms(2) by (simp add: n_def select_trigger_def option_label_def Let_def el_def el_class_def opts0_def appendIcon_def
        addEventListener_def text_nodes_def)
  have "tag_of n = ''button''" "attr ''aria-label'' n = None"
    by (simp_all add: n_def select_trigger_def Let_def el_def opts0_def appendIcon_def addEventListener_def set_attr_def omap_get_set dropped_def)
  with blank have bad: "\<not> made_well n" by (simp add: made_well_def has_name_def)
  show "\<not> well_made n"
    using bad by (cases n) (auto simp: made_well_def)
qed

end
