(* ===== verification/DomEvents.thy ===== *)
theory DomEvents
  imports Dom
begin

text \<open>
  Events on the trees of theory Dom. A target is the path of child positions from the root.
  An event bubbles: the listeners of the target run, then those of its ancestors, innermost
  first (\<open>bubble\<close>); \<open>reached\<close> is the same for an event some listener stops
  (\<open>stopPropagation\<close>). \<open>acts_of\<close> lists every listener of a tree, \<open>listens\<close> says what all of
  them satisfy.
\<close>

section \<open>Paths and events\<close>

type_synonym path = "nat list"

fun node_at :: "'h dom_node \<Rightarrow> path \<Rightarrow> 'h dom_node option" where
  "node_at n [] = Some n"
| "node_at n (i # p) = Option.bind (nth_opt (kids n) i) (\<lambda>k. node_at k p)"

text \<open>The paths of a target and its ancestors, innermost first.\<close>

fun ancestors :: "path \<Rightarrow> path list" where
  "ancestors [] = [[]]"
| "ancestors (i # p) = map (\<lambda>q. i # q) (ancestors p) @ [[]]"

definition bubble :: "string \<Rightarrow> 'h dom_node \<Rightarrow> path \<Rightarrow> (path \<times> 'h) list" where
  "bubble ev n p = concat (map (\<lambda>q. case node_at n q of
       Some m \<Rightarrow> map (\<lambda>f. (q, f)) (listeners ev m) | None \<Rightarrow> []) (ancestors p))"

text \<open>\<open>target.closest(tag)\<close>\<close>

definition closest :: "string \<Rightarrow> 'h dom_node \<Rightarrow> path \<Rightarrow> path option" where
  "closest tag n p = find (\<lambda>q. case node_at n q of Some m \<Rightarrow> tag_of m = tag | None \<Rightarrow> False) (ancestors p)"

text \<open>The position among the siblings of the kinds counted.\<close>

definition index_among :: "string set \<Rightarrow> 'h dom_node \<Rightarrow> nat \<Rightarrow> nat" where
  "index_among tags parent i = length (filter (\<lambda>k. tag_of k \<in> tags) (take i (kids parent)))"

text \<open>
  With \<open>stopPropagation\<close>: the listeners of one node all run, and when one of them stops the
  event no ancestor's does.
\<close>

fun take_until :: "('a \<Rightarrow> bool) \<Rightarrow> 'a list \<Rightarrow> 'a list" where
  "take_until P [] = []"
| "take_until P (x # xs) = x # (if P x then [] else take_until P xs)"

definition heard :: "string \<Rightarrow> 'h dom_node \<Rightarrow> path \<Rightarrow> 'h list list" where
  "heard ev n p = map (\<lambda>q. case node_at n q of Some m \<Rightarrow> listeners ev m | None \<Rightarrow> []) (ancestors p)"

definition reached :: "('h \<Rightarrow> bool) \<Rightarrow> string \<Rightarrow> 'h dom_node \<Rightarrow> path \<Rightarrow> 'h list" where
  "reached stops ev n p = concat (take_until (list_ex stops) (heard ev n p))"

section \<open>Walking a tree\<close>

lemma nth_opt_lt [simp]: "i < length xs \<Longrightarrow> nth_opt xs i = Some (xs ! i)"
  by (simp add: nth_opt_conv)

lemma bubble_Nil [simp]: "bubble ev n [] = map (\<lambda>f. ([], f)) (listeners ev n)"
  by (simp add: bubble_def)

lemma bubble_Cons:
  "nth_opt (kids n) i = Some k \<Longrightarrow>
     bubble ev n (i # p) = map (\<lambda>(q, f). (i # q, f)) (bubble ev k p) @ map (\<lambda>f. ([], f)) (listeners ev n)"
  by (simp add: bubble_def map_concat comp_def option.case_distrib [of "map _"] cong: option.case_cong)

lemma closest_Nil [simp]: "closest t n [] = (if tag_of n = t then Some [] else None)"
  by (simp add: closest_def)

lemma find_append: "find P (xs @ ys) = (case find P xs of Some x \<Rightarrow> Some x | None \<Rightarrow> find P ys)"
  by (induction xs) simp_all

lemma find_map_conv: "find P (map f xs) = map_option f (find (\<lambda>x. P (f x)) xs)"
  by (induction xs) simp_all

lemma closest_Cons:
  "nth_opt (kids n) i = Some k \<Longrightarrow> closest t n (i # p) =
     (case closest t k p of Some q \<Rightarrow> Some (i # q) | None \<Rightarrow> if tag_of n = t then Some [] else None)"
  by (simp add: closest_def find_append find_map_conv split: option.splits)

text \<open>A subtree that neither listens nor is a cell lets an event through to its parent.\<close>

definition bare :: "'h dom_node \<Rightarrow> bool" where
  "bare n = list_all (\<lambda>m. tag_of m \<noteq> ''td'' \<and> (\<forall>ev. listeners ev m = [])) (nodes_of n)"

lemma bare_Elem [simp]:
  "bare (TextN s)" "bare (IconN i o')" "bare (HostN lang doc)"
  "bare (ElemN (h :: 'h head) ks) = (h_tag h \<noteq> ''td'' \<and> h_on h = [] \<and> list_all bare ks)"
proof -
  have "(\<forall>ev. filter (\<lambda>(k, f). k = ev) on = []) \<longleftrightarrow> on = []" for on :: "(string \<times> 'h) list"
  proof (cases on)
    case (Cons x xs)
    then show ?thesis by (cases x) auto
  qed simp
  then show "bare (ElemN h ks) = (h_tag h \<noteq> ''td'' \<and> h_on h = [] \<and> list_all bare ks)"
    by (simp add: bare_def list_all_nodes cong: list.pred_cong)
qed (simp_all add: bare_def)

lemma bare_bubble: "bare n \<Longrightarrow> node_at n p \<noteq> None \<Longrightarrow> bubble ev n p = [] \<and> closest ''td'' n p = None"
proof (induction p arbitrary: n)
  case Nil
  then show ?case by (cases n) auto
next
  case (Cons i p)
  then obtain h ks where n: "n = ElemN h ks" by (cases n) (auto simp: nth_opt_conv)
  from Cons.prems obtain k where k: "nth_opt ks i = Some k" "node_at k p \<noteq> None"
    by (auto simp: n bind_eq_Some_conv)
  then have "bare k" using Cons.prems(1) by (auto simp: n nth_opt_conv list_all_length split: if_splits)
  with Cons k show ?case
    by (simp add: n bubble_Cons [of n i k, unfolded n] closest_Cons [of n i k, unfolded n])
qed

lemma index_among_all: "list_all (\<lambda>k. tag_of k \<in> T) (kids n) \<Longrightarrow> i \<le> length (kids n) \<Longrightarrow> index_among T n i = i"
  unfolding index_among_def
  by (subst filter_True) (auto simp: list_all_iff dest: in_set_takeD)

lemma set_tooltip_ok [simp]: "well_made (set_tooltip t n) = well_made n"
  unfolding set_tooltip_def setAttribute_def removeAttribute_def
  by (simp add: map_head_ok omap_get_set omap_get_delete split: option.splits)

section \<open>What a tree listens to\<close>

definition acts_of :: "'h dom_node \<Rightarrow> 'h list" where
  "acts_of n = concat (map (\<lambda>m. case m of ElemN h ks \<Rightarrow> map snd (h_on h) | _ \<Rightarrow> []) (nodes_of n))"

definition listens :: "('h \<Rightarrow> bool) \<Rightarrow> 'h dom_node \<Rightarrow> bool" where
  "listens P n = list_all P (acts_of n)"

fun is_elem :: "'h dom_node \<Rightarrow> bool" where
  "is_elem (ElemN h ks) = True"
| "is_elem n = False"

lemma list_all_concat_map: "list_all P (concat (map f xs)) = list_all (\<lambda>x. list_all P (f x)) xs"
  by (induction xs) simp_all

lemma listens_node [simp]:
  "listens P (TextN s)" "listens P (IconN i o')" "listens P (HostN lang doc)"
  "listens P (ElemN h ks) = (list_all (\<lambda>x. P (snd x)) (h_on h) \<and> list_all (listens P) ks)"
  by (simp_all add: listens_def acts_of_def list_all_concat_map list.pred_map comp_def cong: list.pred_cong)

lemma listens_el [simp]:
  "listens P (el tag opts cs) = (list_all (\<lambda>x. P (snd x)) (o_on opts) \<and> list_all (listens P) (concat (map child_nodes cs)))"
  by (simp add: el_def text_nodes_def)

lemma is_elem_el [simp]: "is_elem (el tag opts cs)" "is_elem (el_class tag cls ns)" "is_elem (el_text tag cls s)"
  by (simp_all add: el_def el_class_def el_text_def)

lemma listens_class [simp]: "listens P (el_class tag cls ns) = list_all (listens P) ns" "listens P (el_text tag cls s)"
  by (simp_all add: el_class_def el_text_def opts0_def del: map_map)

lemma is_elem_changes [simp]: "is_elem (map_head f n) = is_elem n" "is_elem (appendChild n c) = is_elem n"
  "is_elem (set_text s n) = is_elem n"
  by (cases n; simp)+

lemma is_elem_appendAll [simp]: "is_elem (appendAll n cs) = is_elem n"
  unfolding appendAll_def by (induction cs arbitrary: n) simp_all

lemma listens_append [simp]: "is_elem n \<Longrightarrow> listens P (appendChild n c) = (listens P n \<and> listens P c)"
  by (cases n) auto

lemma listens_appendAll [simp]: "is_elem n \<Longrightarrow> listens P (appendAll n cs) = (listens P n \<and> list_all (listens P) cs)"
  by (cases n) auto

lemma listens_head: "(\<And>h. h_on (f h) = h_on h) \<Longrightarrow> listens P (map_head f n) = listens P n"
  by (cases n) simp_all

lemma listens_changes [simp]:
  "listens P (set_prop k v n) = listens P n" "listens P (set_style k w n) = listens P n"
  "listens P (class_add c n) = listens P n" "listens P (class_remove c n) = listens P n"
  "listens P (class_toggle c b n) = listens P n" "listens P (setAttribute k w n) = listens P n"
  "listens P (removeAttribute k n) = listens P n" "listens P (set_tooltip t n) = listens P n"
  unfolding set_prop_def set_style_def class_add_def class_remove_def class_toggle_def setAttribute_def
    removeAttribute_def set_tooltip_def
  by (simp_all add: listens_head split: option.splits)

lemma is_elem_heads [simp]:
  "is_elem (set_prop k v n) = is_elem n" "is_elem (class_add c n) = is_elem n" "is_elem (class_toggle c b n) = is_elem n"
  "is_elem (addEventListener ev f n) = is_elem n" "is_elem (set_tooltip t n) = is_elem n" "is_elem (appendIcon host n i o') = is_elem n"
  by (simp_all add: set_prop_def class_add_def class_remove_def class_toggle_def addEventListener_def set_tooltip_def
      setAttribute_def removeAttribute_def appendIcon_def split: option.splits)

lemma listens_listener [simp]: "is_elem n \<Longrightarrow> listens P (addEventListener ev f n) = (listens P n \<and> P f)"
  by (cases n) (auto simp: addEventListener_def)

lemma listens_icon [simp]: "listens P (icon_node host i o')"
  by (cases host) (simp_all add: icon_node_def icon_placeholder_def Let_def)

lemma listens_appendIcon [simp]: "is_elem n \<Longrightarrow> listens P (appendIcon host n i o') = listens P n"
  by (simp add: appendIcon_def)

lemma listens_text_nodes [simp]: "list_all (listens P) (text_nodes s)"
  by (simp add: text_nodes_def)

lemma listens_set_text [simp]: "is_elem n \<Longrightarrow> listens P n \<Longrightarrow> listens P (set_text s n)"
  by (cases n) auto

lemma textBtn_elem [simp]: "is_elem (textBtn host text i o')"
  by (simp add: textBtn_def Let_def split: option.splits)

lemma listens_textBtn [simp]: "listens P (textBtn host text i o') = (case tb_onClick o' of Some f \<Rightarrow> P f | None \<Rightarrow> True)"
  by (auto simp: textBtn_def Let_def opts0_def split: option.splits)

lemma listens_controls [simp]:
  "listens P (search_input host p a ic wc v onInput) =
     (P (case onInput of Some f \<Rightarrow> Changes f | None \<Rightarrow> Syncs) \<and> P Clears)"
  "listens P (select_trigger host options v cls) = P Opens"
  "listens P (rowActionBtn host i title f danger) = P f"
  by (auto simp: search_input_def select_trigger_def rowActionBtn_def Let_def opts0_def split: option.splits)

section \<open>Stopped events\<close>

definition stopped :: "('h \<Rightarrow> bool) \<Rightarrow> string \<Rightarrow> 'h dom_node \<Rightarrow> path \<Rightarrow> bool" where
  "stopped stops ev n p = list_ex (list_ex stops) (heard ev n p)"

lemma take_until_append:
  "take_until P (xs @ ys) = (if list_ex P xs then take_until P xs else xs @ take_until P ys)"
  by (induction xs) auto

lemma take_until_all: "\<not> list_ex P xs \<Longrightarrow> take_until P xs = xs"
  by (induction xs) auto

lemma heard_Cons: "nth_opt (kids n) i = Some k \<Longrightarrow> heard ev n (i # p) = heard ev k p @ [listeners ev n]"
  by (simp add: heard_def)

lemma reached_Nil [simp]: "reached stops ev n [] = listeners ev n"
  by (simp add: reached_def heard_def)

lemma stopped_Nil [simp]: "stopped stops ev n [] = list_ex stops (listeners ev n)"
  by (simp add: stopped_def heard_def)

lemma reached_Cons:
  "nth_opt (kids n) i = Some k \<Longrightarrow> reached stops ev n (i # p) =
     reached stops ev k p @ (if stopped stops ev k p then [] else listeners ev n)"
  by (simp add: reached_def stopped_def heard_Cons take_until_append take_until_all)

lemma stopped_Cons:
  "nth_opt (kids n) i = Some k \<Longrightarrow> stopped stops ev n (i # p) = (stopped stops ev k p \<or> list_ex stops (listeners ev n))"
  by (simp add: stopped_def heard_Cons)

text \<open>Only listeners of the tree are reached, so a tree without any lets the event through.\<close>

lemma concat_map_concat: "concat (map f (concat xss)) = concat (map (\<lambda>xs. concat (map f xs)) xss)"
  by (induction xss) simp_all

lemma acts_of_Elem [simp]:
  "acts_of (TextN s) = []" "acts_of (IconN i o') = []" "acts_of (HostN lang doc) = []"
  "acts_of (ElemN h ks) = map snd (h_on h) @ concat (map acts_of ks)"
  by (simp_all add: acts_of_def [abs_def] concat_map_concat comp_def del: map_concat)

lemma listeners_acts: "set (listeners ev n) \<subseteq> set (acts_of n)"
  by (cases n) auto

lemma heard_acts: "node_at n p \<noteq> None \<Longrightarrow> set (concat (heard ev n p)) \<subseteq> set (acts_of n)"
proof (induction p arbitrary: n)
  case Nil
  then show ?case using listeners_acts [of ev n] by (simp add: heard_def)
next
  case (Cons i p)
  then obtain h ks where n: "n = ElemN h ks" by (cases n) (auto simp: nth_opt_conv)
  from Cons.prems obtain k where k: "nth_opt ks i = Some k" "node_at k p \<noteq> None"
    by (auto simp: n bind_eq_Some_conv)
  then have "k \<in> set ks" by (auto simp: nth_opt_conv split: if_splits)
  with Cons.IH [OF k(2)] listeners_acts [of ev n] k(1) show ?case by (auto simp: n heard_Cons)
qed

lemma silent_reached:
  assumes "listens (\<lambda>a. False) n" "node_at n p \<noteq> None"
  shows "reached stops ev n p = [] \<and> \<not> stopped stops ev n p"
proof -
  have "acts_of n = []" using assms(1) by (cases "acts_of n") (auto simp: listens_def)
  with heard_acts [OF assms(2), of ev] have e: "\<forall>x \<in> set (heard ev n p). x = []" by fastforce
  then have "\<not> stopped stops ev n p" by (auto simp: stopped_def list_ex_iff)
  with e show ?thesis by (auto simp: reached_def stopped_def take_until_all)
qed

end
