(* ===== verification/GridDom.thy ===== *)
theory GridDom
  imports DomEvents ResultGrid
begin

text \<open>
  The tables of \<open>grid/cells.js\<close>, \<open>grid/resultGrid.js\<close> and \<open>grid/tableGrid.js\<close> as element trees,
  and the events that reach them. A target is the path of child positions from the root of a
  tree. An event bubbles: the listeners of the target run, then those of its ancestors. The
  result grid has one listener for the whole body and finds the cell from the target
  (\<open>closest\<close>, \<open>sectionRowIndex\<close>, \<open>cellIndex\<close>); \<open>result_grid_click\<close> shows that the cell it
  finds is the one drawn there, whatever was searched, sorted and paged before.

  Two glyphs of the source lie outside the character model: the sort arrows are the texts
  \<open>glyph_up\<close> and \<open>glyph_down\<close> here.
\<close>

section \<open>Cells\<close>

definition chip :: "icon_host \<Rightarrow> string \<Rightarrow> string \<Rightarrow> string \<Rightarrow> 'h dom_node" where
  "chip host cls icon s = appendChild (appendIcon host (el_class ''span'' cls []) icon (sized 12)) (TextN s)"

fun cell_node :: "icon_host \<Rightarrow> jsval \<Rightarrow> 'h dom_node" where
  "cell_node host VUndef = el_text ''span'' ''tsql-cell-null'' ''NULL''"
| "cell_node host VNull = el_text ''span'' ''tsql-cell-null'' ''NULL''"
| "cell_node host (VBool b) = el_text ''span'' ''tsql-cell-bool'' (if b then ''true'' else ''false'')"
| "cell_node host (VNum n) = TextN (num_to_string n)"
| "cell_node host (VStr s) = TextN s"
| "cell_node host v =
     (if marker ''bytes'' v
      then chip host ''tsql-cell-bytes'' ''CodeIcon'' ('' '' @ js_String (or_val (jget v ''size'') (VStr ''?'')) @ '' bytes'')
      else if marker ''unsupported'' v
      then chip host ''tsql-cell-unsupported'' ''CircleHelpIcon''
        ('' '' @ toLowerCase (js_String (or_val (jget v ''pg_type'') (VStr ''value''))))
      else TextN (json_text v))"

definition cell_td :: "icon_host \<Rightarrow> jsval \<Rightarrow> 'h dom_node" where
  "cell_td host v = set_tooltip (Some (cellTooltip v)) (appendChild (el ''td'' opts0 []) (cell_node host v))"

section \<open>The result grid\<close>

datatype result_act = SortBy nat | BodyDoubleClick | BodyMenu | SearchRows | PrevPage | NextPage

definition glyph_up :: string where "glyph_up = ''^''"
definition glyph_down :: string where "glyph_down = ''v''"

definition result_th :: "rgrid \<Rightarrow> nat \<Rightarrow> string \<Rightarrow> result_act control_act dom_node" where
  "result_th g ci col =
     (let sorted = (g_sortCol g = Some ci);
          th = el ''th'' (opts0\<lparr>o_class := ''tsql-grid-th tedi-glass-solid'' @
                 (if sorted then '' is-sort-'' @ (if g_sortDir g = Asc then ''asc'' else ''desc'') else []),
               o_attrs := [(''title'', VStr ''Sort these rows (the result already fetched, not the database)'')]\<rparr>) [];
          top = appendAll (el_class ''span'' ''tsql-th-top'' [])
            [el_text ''span'' ''tsql-th-name'' col,
             el_text ''span'' ''tsql-sort-arrow''
               (if sorted then (if g_sortDir g = Asc then glyph_up else glyph_down) else [])]
      in addEventListener ''click'' (Does (SortBy ci)) (appendChild th top))"

definition result_td :: "icon_host \<Rightarrow> edit_ctx option \<Rightarrow> nat \<Rightarrow> jsval \<Rightarrow> result_act control_act dom_node" where
  "result_td host ec ci cell = (let td = cell_td host cell in
     case ec of
       Some x \<Rightarrow> if ci \<in> set (x_editableColIdx x) then class_add ''tsql-cell-editable'' td else td
     | None \<Rightarrow> td)"

definition result_tr :: "icon_host \<Rightarrow> edit_ctx option \<Rightarrow> jsval list \<Rightarrow> result_act control_act dom_node" where
  "result_tr host ec row = appendAll (el ''tr'' opts0 []) (map (\<lambda>(ci, cell). result_td host ec ci cell) (enumerate 0 row))"

definition grid_table :: "icon_host \<Rightarrow> string list \<Rightarrow> jsval list list \<Rightarrow> edit_ctx option \<Rightarrow> rgrid \<Rightarrow> result_act control_act dom_node" where
  "grid_table host columns rows ec g =
     (let wrap = el_class ''div'' (''tsql-grid-wrap'' @ (if ec = None then [] else '' is-editable'')) [];
          headRow = appendAll (el ''tr'' opts0 []) (map (\<lambda>(ci, col). result_th g ci col) (enumerate 0 columns));
          thead = appendChild (el ''thead'' opts0 []) headRow;
          tbody0 = appendAll (el ''tbody'' opts0 []) (map (result_tr host ec) rows);
          tbody = addEventListener ''contextmenu'' (Does BodyMenu) (addEventListener ''dblclick'' (Does BodyDoubleClick) tbody0)
      in appendChild wrap (appendAll (el_class ''table'' ''tsql-grid'' []) [thead, tbody]))"

text \<open>
  \<open>cellAt\<close>: from the target of an event that reached the body, whose path is \<open>body\<close>, to the
  backing row and the column.
\<close>

definition cell_at_target :: "jsval list list \<Rightarrow> 'h dom_node \<Rightarrow> path \<Rightarrow> path \<Rightarrow> (jsval list \<times> nat) option" where
  "cell_at_target rows n body target =
     (case closest ''td'' n target of
        None \<Rightarrow> None
      | Some td \<Rightarrow>
         (let tr = butlast td in
          if td = [] \<or> tr = [] \<or> butlast tr \<noteq> body then None
          else (case (node_at n body, node_at n tr) of
              (Some bodyN, Some trN) \<Rightarrow>
                map_option (\<lambda>row. (row, index_among {''td'', ''th''} trN (last td)))
                  (nth_opt rows (index_among {''tr''} bodyN (last tr)))
            | _ \<Rightarrow> None)))"

text \<open>What a double click and a right click on a target of the grid do.\<close>

datatype grid_effect = OpenEditor edit_ctx "jsval list" nat | OpenMenu "jsval list" jsval | Sort nat

definition result_event :: "string \<Rightarrow> jsval list list \<Rightarrow> edit_ctx option \<Rightarrow> result_act control_act dom_node \<Rightarrow> path \<Rightarrow> grid_effect list" where
  "result_event ev rows ec n target =
     concat (map (\<lambda>(q, act). case act of
         Does (SortBy ci) \<Rightarrow> [Sort ci]
       | Does BodyDoubleClick \<Rightarrow> (case (cell_at_target rows n q target, ec) of
             (Some (row, ci), Some x) \<Rightarrow> if ci \<in> set (x_editableColIdx x) then [OpenEditor x row ci] else []
           | _ \<Rightarrow> [])
       | Does BodyMenu \<Rightarrow> (case cell_at_target rows n q target of
             Some (row, ci) \<Rightarrow> [OpenMenu row (cell_at row ci)] | None \<Rightarrow> [])
       | _ \<Rightarrow> [])
       (bubble ev n target))"

section \<open>The drawn cell\<close>

text \<open>The text a view of a cell shows.\<close>

fun cell_text :: "cell_view \<Rightarrow> string" where
  "cell_text CvNull = ''NULL''"
| "cell_text (CvBool s) = s"
| "cell_text (CvText s) = s"
| "cell_text (CvBytes s) = s"
| "cell_text (CvUnsupported s) = s"

lemma el_Elem: "\<exists>h. el tag opts cs = ElemN h (kids (el tag opts cs)) \<and> h_tag h = tag \<and> h_on h = o_on opts
    \<and> h_class h = o_class opts"
  by (simp add: el_def)

lemma text_of_text_nodes [simp]: "concat (map textContent (text_nodes s)) = s"
  by (simp add: text_nodes_def)

lemma icon_bare [simp]: "bare (icon_node host i o')"
  by (cases host) (simp_all add: icon_node_def icon_placeholder_def Let_def)

lemma bare_text_nodes [simp]: "list_all bare (text_nodes s)"
  by (simp add: text_nodes_def)

lemma chip_facts [simp]: "textContent (chip host cls icon s) = s" "bare (chip host cls icon s)" "well_made (chip host cls icon s)"
  by (simp_all add: chip_def appendIcon_def el_class_def el_def opts0_def made_well_def)

lemma el_text_facts [simp]: "textContent (el_text tag cls s) = s" "tag \<noteq> ''td'' \<Longrightarrow> bare (el_text tag cls s)"
  by (simp_all add: el_text_def el_def opts0_def)

lemma cell_node_facts [simp]:
  "textContent (cell_node host v) = cell_text (renderCellContent v)" "bare (cell_node host v)" "well_made (cell_node host v)"
  by (cases v; simp add: el_text_ok)+

lemma cellTooltip_td: "\<exists>h. cell_td host v = ElemN h [cell_node host v] \<and> h_tag h = ''td'' \<and> h_on h = [] \<and> h_class h = []
    \<and> omap_get (h_attrs h) ''data-tooltip'' = (if cellTooltip v = [] then None else Some (cellTooltip v))"
  by (simp add: cell_td_def el_def opts0_def set_tooltip_def setAttribute_def removeAttribute_def omap_delete_def)

lemma class_list_empty [simp]: "h_class h = [] \<Longrightarrow> class_list h = []"
  by (simp add: class_list_def)

lemma result_td_shape:
  "\<exists>h. result_td host ec ci v = ElemN h [cell_node host v] \<and> h_tag h = ''td'' \<and> h_on h = [] \<and>
     omap_get (h_attrs h) ''data-tooltip'' = (if cellTooltip v = [] then None else Some (cellTooltip v)) \<and>
     (''tsql-cell-editable'' \<in> set (class_list h) \<longleftrightarrow> (\<exists>x. ec = Some x \<and> ci \<in> set (x_editableColIdx x)))"
proof -
  obtain h where h: "cell_td host v = ElemN h [cell_node host v :: result_act control_act dom_node]" "h_tag h = ''td''" "h_on h = []" "h_class h = []"
    "omap_get (h_attrs h) ''data-tooltip'' = (if cellTooltip v = [] then None else Some (cellTooltip v))"
    using cellTooltip_td [of host v] by blast
  show ?thesis
  proof (cases "\<exists>x. ec = Some x \<and> ci \<in> set (x_editableColIdx x)")
    case True
    then show ?thesis
      using h by (intro exI [of _ "h\<lparr>h_class := ''tsql-cell-editable''\<rparr>"])
        (auto simp: result_td_def class_add_def class_list_def)
  next
    case False
    then show ?thesis using h by (intro exI [of _ h]) (auto simp: result_td_def Let_def split: option.splits)
  qed
qed

lemma td_event:
  assumes "node_at (result_td host ec ci v) q \<noteq> None"
  shows "bubble ev (result_td host ec ci v) q = [] \<and> closest ''td'' (result_td host ec ci v) q = Some []"
proof -
  obtain h where h: "result_td host ec ci v = ElemN h [cell_node host v]" "h_tag h = ''td''" "h_on h = []"
    using result_td_shape [of host ec ci v] by blast
  show ?thesis
  proof (cases q)
    case Nil
    then show ?thesis using h by simp
  next
    case (Cons i q')
    with assms h have i: "i = 0" "node_at (cell_node host v :: result_act control_act dom_node) q' \<noteq> None"
      by (auto simp: nth_opt_conv bind_eq_Some_conv split: if_splits)
    have k: "nth_opt (kids (ElemN h [cell_node host v :: result_act control_act dom_node])) 0 = Some (cell_node host v)" by simp
    from bare_bubble [OF cell_node_facts(2) i(2)] show ?thesis
      unfolding Cons i(1) h(1) bubble_Cons [OF k] closest_Cons [OF k] using h by simp
  qed
qed

section \<open>The whole table\<close>

lemma result_th_shape:
  "\<exists>h k. result_th g ci col = ElemN h [k] \<and> h_tag h = ''th'' \<and> h_on h = [(''click'', Does (SortBy ci))] \<and> bare k"
  by (simp add: result_th_def Let_def el_def el_class_def el_text_def opts0_def addEventListener_def)

lemma result_tr_shape:
  "\<exists>h. result_tr host ec row = ElemN h (map (\<lambda>(ci, cell). result_td host ec ci cell) (enumerate 0 row)) \<and>
     h_tag h = ''tr'' \<and> h_on h = []"
  by (simp add: result_tr_def el_def opts0_def)

lemma grid_table_shape:
  "\<exists>hw ht hh hr hb. grid_table host columns rows ec g = ElemN hw [ElemN ht
       [ElemN hh [ElemN hr (map (\<lambda>(ci, col). result_th g ci col) (enumerate 0 columns))],
        ElemN hb (map (result_tr host ec) rows)]] \<and>
     list_all (\<lambda>h. h_on h = [] \<and> h_tag h \<noteq> ''td'') [hw, ht, hh, hr] \<and> h_tag hb = ''tbody'' \<and>
     h_on hb = [(''dblclick'', Does BodyDoubleClick), (''contextmenu'', Does BodyMenu)]"
  by (simp add: grid_table_def Let_def el_class_def el_def opts0_def addEventListener_def del: map_map)

lemma tag_result_tr [simp]: "tag_of (result_tr host ec row) = ''tr''"
  using result_tr_shape [of host ec row] by auto

lemma tag_result_td [simp]: "tag_of (result_td host ec ci v) = ''td''"
  using result_td_shape [of host ec ci v] by auto

lemma enum_nth: "c < length xs \<Longrightarrow> enumerate 0 xs ! c = (c, xs ! c)"
  by (simp add: nth_enumerate_eq)

text \<open>An event on a cell reaches the body's listener alone, and the listener finds that cell.\<close>

lemma body_event:
  assumes n: "n = grid_table host columns rows ec g" and r: "r < length rows" and c: "c < length (rows ! r)"
    and target: "node_at n (0 # 1 # r # c # q) \<noteq> None"
  shows "bubble ev n (0 # 1 # r # c # q) =
      map (\<lambda>f. ([0, 1], f)) (map snd (filter (\<lambda>(k, f). k = ev) [(''dblclick'', Does BodyDoubleClick), (''contextmenu'', Does BodyMenu)]))"
    (is ?bubble)
    and "cell_at_target rows n [0, 1] (0 # 1 # r # c # q) = Some (rows ! r, c)"
    and "node_at n [0, 1, r, c] = Some (result_td host ec c (rows ! r ! c))"
proof -
  obtain hw ht hh hr hb where shape: "n = ElemN hw [ElemN ht
       [ElemN hh [ElemN hr (map (\<lambda>(ci, col). result_th g ci col) (enumerate 0 columns))],
        ElemN hb (map (result_tr host ec) rows)]]"
    and on: "h_on hw = []" "h_on ht = []" "h_tag hw \<noteq> ''td''" "h_tag ht \<noteq> ''td''"
    and hb: "h_tag hb = ''tbody''" "h_on hb = [(''dblclick'', Does BodyDoubleClick), (''contextmenu'', Does BodyMenu)]"
    using grid_table_shape [of host columns rows ec g] n by auto
  define tds where "tds = map (\<lambda>(ci, cell). result_td host ec ci cell) (enumerate 0 (rows ! r))"
  obtain htr where tr: "result_tr host ec (rows ! r) = ElemN htr tds" "h_tag htr = ''tr''" "h_on htr = []"
    using result_tr_shape [of host ec "rows ! r"] by (auto simp: tds_def)
  define body where "body = ElemN hb (map (result_tr host ec) rows)"
  define tbl where "tbl = ElemN ht [ElemN hh [ElemN hr (map (\<lambda>(ci, col). result_th g ci col) (enumerate 0 columns))], body]"
  define trn where "trn = ElemN htr tds"
  define tdn where "tdn = result_td host ec c (rows ! r ! c)"
  have down: "nth_opt (kids n) 0 = Some tbl" "nth_opt (kids tbl) 1 = Some body"
    "nth_opt (kids body) r = Some trn" "nth_opt (kids trn) c = Some tdn"
    using r c by (simp_all add: shape tbl_def body_def trn_def tr tds_def tdn_def enum_nth)
  have silent: "listeners e n = []" "listeners e tbl = []" "listeners e trn = []" for e
    by (simp_all add: shape tbl_def trn_def on tr)
  have tags: "tag_of n \<noteq> ''td''" "tag_of tbl \<noteq> ''td''" "tag_of body \<noteq> ''td''" "tag_of trn \<noteq> ''td''"
    by (simp_all add: shape tbl_def body_def trn_def on hb tr)
  show "node_at n [0, 1, r, c] = Some (result_td host ec c (rows ! r ! c))"
    using down by (simp add: tdn_def)
  from target have "node_at tdn q \<noteq> None" using down by simp
  note quiet = td_event [OF this [unfolded tdn_def], folded tdn_def]
  have "bubble ev n (0 # 1 # r # c # q) = map (\<lambda>f. ([0, 1], f)) (listeners ev body)"
    by (simp only: bubble_Cons [OF down(1)] bubble_Cons [OF down(2)] bubble_Cons [OF down(3)] bubble_Cons [OF down(4)] quiet silent) simp
  then show ?bubble by (simp add: body_def hb)
  have close: "closest ''td'' n (0 # 1 # r # c # q) = Some [0, 1, r, c]"
    by (simp add: closest_Cons [OF down(1)] closest_Cons [OF down(2) [unfolded One_nat_def]] closest_Cons [OF down(3)]
        closest_Cons [OF down(4)] quiet)
  have "index_among {''tr''} body r = r" "index_among {''td'', ''th''} trn c = c"
    using r c by (auto intro!: index_among_all simp: body_def trn_def tds_def list_all_iff enumerate_eq_zip)
  then show "cell_at_target rows n [0, 1] (0 # 1 # r # c # q) = Some (rows ! r, c)"
    using close down r by (simp add: cell_at_target_def)
qed

text \<open>The view of a cell, its editor and its menu, at a target inside it.\<close>

lemma cell_at_nth: "c < length row \<Longrightarrow> cell_at row c = row ! c"
  by (simp add: cell_at_def)

lemma result_event_cell:
  assumes "n = grid_table host columns rows ec g" "r < length rows" "c < length (rows ! r)"
    and "node_at n (0 # 1 # r # c # q) \<noteq> None"
  shows "result_event ''contextmenu'' rows ec n (0 # 1 # r # c # q) = [OpenMenu (rows ! r) (rows ! r ! c)]"
    and "result_event ''dblclick'' rows ec n (0 # 1 # r # c # q) =
      (case ec of Some x \<Rightarrow> if c \<in> set (x_editableColIdx x) then [OpenEditor x (rows ! r) c] else [] | None \<Rightarrow> [])"
    and "result_event ''click'' rows ec n (0 # 1 # r # c # q) = []"
  unfolding result_event_def body_event(1) [OF assms]
  using body_event(2) [OF assms] assms(3) by (simp_all add: cell_at_nth split: option.splits)

lemma result_event_header:
  assumes n: "n = grid_table host columns rows ec g" and c: "c < length columns"
    and target: "node_at n (0 # 0 # 0 # c # q) \<noteq> None"
  shows "result_event ''click'' rows ec n (0 # 0 # 0 # c # q) = [Sort c]"
    and "result_event ''dblclick'' rows ec n (0 # 0 # 0 # c # q) = []"
proof -
  obtain hw ht hh hr hb where shape: "n = ElemN hw [ElemN ht
       [ElemN hh [ElemN hr (map (\<lambda>(ci, col). result_th g ci col) (enumerate 0 columns))],
        ElemN hb (map (result_tr host ec) rows)]]"
    and on: "h_on hw = []" "h_on ht = []" "h_on hh = []" "h_on hr = []"
    using grid_table_shape [of host columns rows ec g] n by auto
  obtain h k where th: "result_th g c (columns ! c) = ElemN h [k]" "h_on h = [(''click'', Does (SortBy c))]" "bare k"
    using result_th_shape by blast
  define ths where "ths = map (\<lambda>(ci, col). result_th g ci col) (enumerate 0 columns)"
  have kc: "nth_opt ths c = Some (ElemN h [k])" using c th by (simp add: ths_def enum_nth)
  have inner: "node_at (ElemN h [k]) q \<noteq> None"
    using target kc by (simp add: shape ths_def [symmetric])
  have "bubble ev (ElemN h [k]) q = map (\<lambda>f. ([], f)) (listeners ev (ElemN h [k]))" for ev
  proof (cases q)
    case (Cons i q')
    with inner have i: "i = 0" "node_at k q' \<noteq> None" by (auto simp: nth_opt_conv split: if_splits)
    have "nth_opt (kids (ElemN h [k])) 0 = Some k" by simp
    then show ?thesis unfolding Cons i(1) using bare_bubble [OF th(3) i(2)] by (simp only: bubble_Cons) simp
  qed simp
  then have "bubble ev n (0 # 0 # 0 # c # q) = map (\<lambda>f. ([0, 0, 0, c], f)) (listeners ev (ElemN h [k]))" for ev
    using kc by (simp add: shape ths_def [symmetric] bubble_Cons on)
  then show "result_event ''click'' rows ec n (0 # 0 # 0 # c # q) = [Sort c]"
    "result_event ''dblclick'' rows ec n (0 # 0 # 0 # c # q) = []"
    by (simp_all add: result_event_def th(2))
qed

text \<open>
  C9: A click in the result grid means the cell that is drawn there. Whatever was searched,
  sorted and paged before, the row at a position of the body is one of the result's rows, the
  cell drawn shows its value, a right click anywhere inside it opens the menu of that row and
  that value, a double click opens the editor on that very row and column exactly when the cell
  is marked editable, and a click on a header sorts by its own column.
\<close>

theorem result_grid_click:
  assumes "grid_reach collate ps all g" and "rows = page_rows ps g (g_page g)"
    and "n = grid_table host columns rows ec g" and "r < length rows" and "c < length (rows ! r)"
    and "node_at n (0 # 1 # r # c # q) \<noteq> None"
  shows "rows ! r \<in> set all \<and>
    (\<exists>td. node_at n [0, 1, r, c] = Some td \<and> textContent td = cell_text (renderCellContent (rows ! r ! c)) \<and>
       (has_class ''tsql-cell-editable'' td \<longleftrightarrow> result_event ''dblclick'' rows ec n (0 # 1 # r # c # q) \<noteq> [])) \<and>
    result_event ''contextmenu'' rows ec n (0 # 1 # r # c # q) = [OpenMenu (rows ! r) (rows ! r ! c)] \<and>
    result_event ''dblclick'' rows ec n (0 # 1 # r # c # q) =
      (case ec of Some x \<Rightarrow> if c \<in> set (x_editableColIdx x) then [OpenEditor x (rows ! r) c] else [] | None \<Rightarrow> []) \<and>
    (\<forall>i h. i < length columns \<and> node_at n (0 # 0 # 0 # i # h) \<noteq> None \<longrightarrow>
       result_event ''click'' rows ec n (0 # 0 # 0 # i # h) = [Sort i])"
proof (intro conjI)
  have "mset (g_filtered g) = mset (visible all (g_query g))"
    using grid_reach_ok [OF assms(1)] by (simp add: grid_ok_def)
  then have "set (g_filtered g) = set (visible all (g_query g))" by (rule mset_eq_setD)
  then have "set (g_filtered g) \<subseteq> set all" by (simp add: visible_def)
  moreover have "rows ! r \<in> set (g_filtered g)"
    using nth_mem [OF assms(4)] assms(2) by (auto simp: page_rows_def dest: in_set_takeD in_set_dropD)
  ultimately show "rows ! r \<in> set all" by blast
  show cmenu: "result_event ''contextmenu'' rows ec n (0 # 1 # r # c # q) = [OpenMenu (rows ! r) (rows ! r ! c)]"
    and dbl: "result_event ''dblclick'' rows ec n (0 # 1 # r # c # q) =
      (case ec of Some x \<Rightarrow> if c \<in> set (x_editableColIdx x) then [OpenEditor x (rows ! r) c] else [] | None \<Rightarrow> [])"
    using result_event_cell [OF assms(3-6)] by blast+
  obtain h where h: "result_td host ec c (rows ! r ! c) = ElemN h [cell_node host (rows ! r ! c)]"
    "''tsql-cell-editable'' \<in> set (class_list h) \<longleftrightarrow> (\<exists>x. ec = Some x \<and> c \<in> set (x_editableColIdx x))"
    using result_td_shape [of host ec c "rows ! r ! c"] by blast
  show "\<exists>td. node_at n [0, 1, r, c] = Some td \<and> textContent td = cell_text (renderCellContent (rows ! r ! c)) \<and>
       (has_class ''tsql-cell-editable'' td \<longleftrightarrow> result_event ''dblclick'' rows ec n (0 # 1 # r # c # q) \<noteq> [])"
    using body_event(3) [OF assms(3-6)] h unfolding dbl by (auto split: option.splits)
  show "\<forall>i h. i < length columns \<and> node_at n (0 # 0 # 0 # i # h) \<noteq> None \<longrightarrow>
       result_event ''click'' rows ec n (0 # 0 # 0 # i # h) = [Sort i]"
    using result_event_header(1) [OF assms(3)] by blast
qed

definition two_rows :: "jsval list list" where
  "two_rows = [[VNum (NInt 1), VStr ''b''], [VNum (NInt 2), VObj [(''__type'', VStr ''bytes''), (''size'', VNum (NInt 3))]]]"

definition edit_second :: edit_ctx where
  "edit_second = \<lparr>x_connId = ''c'', x_database = ''d'', x_schema = ''s'', x_table = ''t'', x_pks = [''id''],
     x_pkResultIdx = [(''id'', 0)], x_colByIdx = [], x_editableColIdx = [1]\<rparr>"

text \<open>The text inside the chip of a binary cell, after a sort by the first column.\<close>

lemma result_grid_click_witness:
  "let g = toggleSort (\<lambda>a b. 0) 10 two_rows 0 (initial_grid two_rows);
       rows = page_rows 10 g (g_page g);
       n = grid_table NoIconApi [''id'', ''doc''] rows (Some edit_second) g
   in result_event ''dblclick'' rows (Some edit_second) n [0, 1, 1, 1, 0, 1] = [OpenEditor edit_second (rows ! 1) 1] \<and>
      rows ! 1 \<in> set two_rows"
proof -
  let ?g = "toggleSort (\<lambda>a b. 0) 10 two_rows 0 (initial_grid two_rows)"
  let ?rows = "page_rows 10 ?g (g_page ?g)"
  let ?n = "grid_table NoIconApi [''id'', ''doc''] ?rows (Some edit_second) ?g"
  have reach: "grid_reach (\<lambda>a b. 0) 10 two_rows ?g" by (rule grid_next [OF grid_start header_click])
  have "1 < length ?rows" "1 < length (?rows ! 1)" "node_at ?n (0 # 1 # 1 # 1 # [0, 1]) \<noteq> None" by code_simp+
  from result_grid_click [OF reach refl refl this] show ?thesis by (simp add: Let_def edit_second_def)
qed

end
