(* ===== verification/GridPages.thy ===== *)
theory GridPages
  imports GridDom TableData
begin

text \<open>
  What a result (\<open>grid/resultGrid.js\<close>) and a table (\<open>grid/tableGrid.js\<close>) put into the results
  pane, as element trees over the views of theories ResultGrid and TableData: the bar with the
  counts and the controls, the preview of the statement, the table, the pager. Each listener
  is a value that names its handler; \<open>acts_of\<close> lists all of a tree's.

  The ellipsis of the source is written as three full stops, \<open>glyph_up\<close> and \<open>glyph_down\<close>
  stand for the sort arrows.
\<close>

section \<open>Shared parts\<close>

text \<open>\<open>renderSqlPreview\<close>: the host's editor when it has one and mounting it works, else the text.\<close>

definition preview_node :: "bool \<Rightarrow> bool \<Rightarrow> string \<Rightarrow> string option \<Rightarrow> 'h dom_node" where
  "preview_node mounts track sql language =
     (let titleAttr = (if track then [] else [(''title'', VStr sql)])
      in if mounts
         then el ''div'' (opts0\<lparr>o_class := ''tsql-sql-editor'', o_attrs := titleAttr\<rparr>)
                [node_of (HostN (case language of Some l \<Rightarrow> l | None \<Rightarrow> ''sql'') sql)]
         else el ''div'' (opts0\<lparr>o_class := ''tsql-sql-preview'', o_attrs := titleAttr, o_text := VStr sql\<rparr>) [])"

definition pager_node :: "icon_host \<Rightarrow> bool \<Rightarrow> bool \<Rightarrow> string \<Rightarrow> 'h \<Rightarrow> 'h \<Rightarrow> 'h control_act dom_node" where
  "pager_node host prev fwd label onPrev onNext =
     appendAll (el_class ''footer'' ''tsql-pager'' [])
       [textBtn host ''Prev'' (Some ''ArrowLeft01Icon'')
          (btn0\<lparr>tb_title := Some ''Previous page'', tb_disabled := \<not> prev, tb_onClick := Some (Does onPrev)\<rparr>),
        el_text ''span'' ''tsql-pager-label'' label,
        appendIcon host (textBtn host ''Next'' None
          (btn0\<lparr>tb_title := Some ''Next page'', tb_disabled := \<not> fwd, tb_onClick := Some (Does onNext)\<rparr>))
          ''ArrowRight01Icon'' (sized 13)]"

section \<open>The pane of a result\<close>

definition result_meta :: "icon_host \<Rightarrow> grid_view \<Rightarrow> result_act control_act dom_node" where
  "result_meta host v =
     (let left = appendAll (el_class ''span'' ''tsql-grid-meta-left'' [])
            ([TextN (gv_info v)] @
             (case gv_truncated v of
                Some t \<Rightarrow> [el ''span'' (opts0\<lparr>o_class := ''tsql-tag tsql-tag--warn'', o_text := VStr ''truncated'',
                  o_attrs := [(''title'', VStr t)]\<rparr>) []] | None \<Rightarrow> []) @
             (case gv_editable v of
                Some t \<Rightarrow> [appendChild (appendIcon host (el ''span'' (opts0\<lparr>o_class := ''tsql-tag tsql-tag--edit'',
                  o_attrs := [(''title'', VStr t)]\<rparr>) []) ''PencilEdit01Icon'' (sized 11)) (TextN ''editable'')] | None \<Rightarrow> []))
      in appendAll (el_class ''div'' ''tsql-result-meta tsql-grid-meta tsql-meta--sticky tedi-glass-solid'' [])
           [left, el_class ''span'' ''tsql-grid-meta-right''
             [search_input host ''Search rows...'' ''Search rows on this page'' ''tsql-input tsql-grid-search''
                ''tsql-search-wrap--grid'' [] (Some SearchRows)]])"

definition renderResultGrid ::
  "icon_host \<Rightarrow> (nat \<Rightarrow> string) \<Rightarrow> bool \<Rightarrow> nat \<Rightarrow> string \<Rightarrow> string option \<Rightarrow> string list \<Rightarrow> jsval list list \<Rightarrow>
     bool \<Rightarrow> bool \<Rightarrow> int \<Rightarrow> edit_ctx option \<Rightarrow> rgrid \<Rightarrow> result_act control_act dom_node list" where
  "renderResultGrid host fmt mounts pageSize sql language columns rows truncated bySize elapsed ec g0 =
     (let (g, v) = redraw fmt pageSize columns rows truncated bySize elapsed ec g0 in
      [result_meta host v, preview_node mounts False sql language,
       appendChild (el_class ''div'' ''tsql-grid-slot'' []) (grid_table host columns (page_rows pageSize g (g_page g)) ec g),
       pager_node host (gv_prev v) (gv_next v) (gv_label v) PrevPage NextPage])"

section \<open>The pane of a table\<close>

datatype table_act =
    HeaderClick string | EditAt nat nat | MenuAt nat nat | DeleteAt nat | SearchTable | InsertRow
  | ShowStructure | ReloadPage int | CloseTable | PrevTablePage | NextTablePage

definition table_th :: "session \<Rightarrow> string \<Rightarrow> table_act control_act dom_node" where
  "table_th s col =
     (let v = header_view s col;
          th = el ''th'' (opts0\<lparr>o_class := th_class v, o_attrs := [(''title'', VStr (th_title v))]\<rparr>) [];
          top = appendAll (el_class ''span'' ''tsql-th-top'' [])
            ((if th_pk v then [el_text ''span'' ''tsql-th-pk'' ''PK''] else []) @
             [el_text ''span'' ''tsql-th-name'' (th_name v),
              el_text ''span'' ''tsql-sort-arrow'' (case th_arrow v of MarkUp \<Rightarrow> glyph_up | MarkDown \<Rightarrow> glyph_down | NoMark \<Rightarrow> [])]);
          typed = (if th_type v = [] then [] else [el_text ''span'' ''tsql-th-type'' (th_type v)])
      in addEventListener ''click'' (Does (HeaderClick col)) (appendAll th (top # typed)))"

definition rowActionsCell :: "icon_host \<Rightarrow> nat \<Rightarrow> bool \<Rightarrow> table_act control_act dom_node" where
  "rowActionsCell host ri ro = appendAll (el_class ''td'' ''tsql-grid-actions-col'' [])
     (if ro then [] else [rowActionBtn host ''Delete02Icon'' ''Delete row'' (Does (DeleteAt ri)) True])"

definition table_td :: "icon_host \<Rightarrow> bool \<Rightarrow> nat \<Rightarrow> nat \<Rightarrow> jsval \<Rightarrow> table_act control_act dom_node" where
  "table_td host ro ri ci v =
     (let td = appendChild (el ''td'' (if ro then opts0 else opts0\<lparr>o_on := [(''dblclick'', Does (EditAt ri ci))]\<rparr>) [])
                 (cell_node host v);
          tipped = set_tooltip (Some (cellTooltip v)) td;
          marked = (if ro then tipped else class_add ''tsql-cell-editable'' tipped)
      in addEventListener ''contextmenu'' (Does (MenuAt ri ci)) marked)"

definition table_tr :: "icon_host \<Rightarrow> bool \<Rightarrow> nat \<Rightarrow> jsval list \<Rightarrow> table_act control_act dom_node" where
  "table_tr host ro ri row = appendAll (el ''tr'' opts0 [])
     (rowActionsCell host ri ro # map (\<lambda>(ci, v). table_td host ro ri ci v) (enumerate 0 row))"

definition table_node :: "icon_host \<Rightarrow> bool \<Rightarrow> session \<Rightarrow> snapshot \<Rightarrow> table_act control_act dom_node" where
  "table_node host ro s sn =
     (let headRow = appendAll (el ''tr'' opts0 [])
            (el ''th'' (opts0\<lparr>o_class := ''tsql-grid-actions-col tedi-glass-solid'', o_text := VStr []\<rparr>) []
              # map (table_th s) (sn_columns sn));
          thead = appendChild (el ''thead'' opts0 []) headRow;
          tbody = appendAll (el ''tbody'' opts0 []) (map (\<lambda>(ri, row). table_tr host ro ri row) (enumerate 0 (sn_rows sn)))
      in appendChild (el_class ''div'' ''tsql-grid-wrap is-editable'' [])
           (appendAll (el_class ''table'' ''tsql-grid'' []) [thead, tbody]))"

definition toolbar_btn :: "icon_host \<Rightarrow> string \<Rightarrow> string \<Rightarrow> string \<Rightarrow> table_act \<Rightarrow> table_act control_act dom_node" where
  "toolbar_btn host text icon title act = textBtn host text (Some icon)
     (btn0\<lparr>tb_title := Some title, tb_iconOnly := True, tb_onClick := Some (Does act)\<rparr>)"

definition column_select :: "icon_host \<Rightarrow> session \<Rightarrow> snapshot \<Rightarrow> table_act control_act dom_node" where
  "column_select host s sn = class_add ''tsql-grid-colfilter''
     (select_trigger host (([], ''All columns'') # map (\<lambda>c. (c, c)) (sn_columns sn)) (s_gridSearchCol s) [])"

definition page_size_options :: "(string \<times> string) list" where
  "page_size_options = map (\<lambda>n. (int_to_string n, int_to_string n @ '' rows'')) PAGE_SIZE_OPTIONS"

definition page_size_select :: "icon_host \<Rightarrow> session \<Rightarrow> table_act control_act dom_node" where
  "page_size_select host s = set_tooltip (Some ''Rows per page'') (class_add ''tsql-grid-pagesize''
     (select_trigger host page_size_options (int_to_string (pageSizeFor s)) []))"

definition table_meta :: "icon_host \<Rightarrow> session \<Rightarrow> snapshot \<Rightarrow> table_view \<Rightarrow> table_act control_act dom_node" where
  "table_meta host s sn v =
     (let right = appendAll (el_class ''span'' ''tsql-grid-meta-right''
              [search_input host ''Search rows...'' ''Search rows'' ''tsql-input tsql-grid-search''
                 ''tsql-search-wrap--grid'' (s_gridSearch s) (Some SearchTable), column_select host s sn])
            ([page_size_select host s] @
             (if tv_can_insert v then [toolbar_btn host ''Row'' ''Add01Icon'' ''Insert row'' InsertRow] else []) @
             [toolbar_btn host ''Structure'' ''TableIcon'' ''View table structure (columns, types, keys)'' ShowStructure,
              toolbar_btn host ''Reload'' ''Refresh01Icon'' ''Reload current page'' (ReloadPage (sn_page sn)),
              toolbar_btn host ''Close'' ''Cancel01Icon'' ''Close table view'' CloseTable])
      in el_class ''div'' ''tsql-result-meta tsql-grid-meta tsql-meta--sticky tedi-glass-solid''
           [el_class ''span'' ''tsql-grid-meta-left''
              [el_text ''span'' ''tsql-table-title'' (tv_label v),
               TextN ('' '' @ [CHR 0xB7] @ '' '' @ tv_rows v @ tv_elapsed v)], right])"

definition table_pane ::
  "icon_host \<Rightarrow> (int \<Rightarrow> string) \<Rightarrow> conn list \<Rightarrow> session \<Rightarrow> table_ref \<Rightarrow> table_act control_act dom_node list" where
  "table_pane host fmt cs s t =
     (case (renderTableGrid fmt cs s t, s_tableSnapshot s) of
        (Some v, Some sn) \<Rightarrow>
          [table_meta host s sn v, table_node host (isReadOnly cs (s_connId s)) s sn,
           (let p = renderPager sn in pager_node host (pg_prev p) (pg_next p) (pg_label p) PrevTablePage NextTablePage)]
      | _ \<Rightarrow> [el_text ''p'' ''tsql-empty'' ''Loading...''])"

section \<open>Everything is named, nothing has a native tooltip\<close>

lemma preview_ok [dom_ok, simp]: "well_made (preview_node m tr sql lang)"
  by (simp add: preview_node_def Let_def el_plain_ok)

lemma pager_ok [dom_ok, simp]: "well_made (pager_node host p m l f g)"
  unfolding pager_node_def
  by (intro appendAll_ok) (simp_all add: el_class_ok el_text_ok textBtn_ok appendIcon_ok btn0_def)

lemma result_th_ok [simp]: "well_made (result_th g ci col)"
  by (simp add: result_th_def Let_def append_ok appendAll_ok el_plain_ok el_class_ok el_text_ok)

lemma cell_td_ok [simp]: "well_made (cell_td host v)"
  by (simp add: cell_td_def append_ok el_plain_ok)

lemma result_td_ok [simp]: "well_made (result_td host ec ci v)"
  by (simp add: result_td_def Let_def split: option.splits)

lemma result_tr_ok [simp]: "well_made (result_tr host ec row)"
  unfolding result_tr_def by (rule appendAll_ok) (auto simp: el_plain_ok list_all_iff)

lemma grid_table_ok [simp]: "well_made (grid_table host columns rows ec g)"
proof -
  have heads: "list_all well_made (map (\<lambda>(ci, col). result_th g ci col) (enumerate 0 columns))"
    and body: "list_all well_made (map (result_tr host ec) rows)"
    by (auto simp: list_all_iff)
  show ?thesis
    unfolding grid_table_def Let_def
    using heads body by (simp add: append_ok appendAll_ok el_plain_ok el_class_ok del: list.pred_map)
qed

lemma result_meta_ok [simp]: "well_made (result_meta host v)"
  unfolding result_meta_def Let_def
  by (intro appendAll_ok) (auto simp: el_class_ok el_plain_ok append_ok appendIcon_ok intro!: appendAll_ok split: option.splits)

lemma renderResultGrid_ok: "list_all well_made (renderResultGrid host fmt m ps sql lang columns rows tr bs el' ec g)"
  by (simp add: renderResultGrid_def append_ok el_class_ok split: prod.splits)

lemma table_th_ok [simp]: "well_made (table_th s col)"
  by (auto simp: table_th_def Let_def appendAll_ok el_plain_ok el_class_ok el_text_ok)

lemma rowActionsCell_ok [simp]: "well_made (rowActionsCell host ri ro)"
  unfolding rowActionsCell_def by (rule appendAll_ok) (simp_all add: el_class_ok rowActionBtn_ok)

lemma table_td_ok [simp]: "well_made (table_td host ro ri ci v)"
  by (simp add: table_td_def Let_def append_ok el_plain_ok)

lemma table_tr_ok [simp]: "well_made (table_tr host ro ri row)"
  unfolding table_tr_def by (rule appendAll_ok) (auto simp: el_plain_ok list_all_iff)

lemma table_node_ok [simp]: "well_made (table_node host ro s sn)"
proof -
  have heads: "list_all well_made (map (table_th s) (sn_columns sn))"
    and body: "list_all well_made (map (\<lambda>(ri, row). table_tr host ro ri row) (enumerate 0 (sn_rows sn)))"
    by (auto simp: list_all_iff)
  show ?thesis
    unfolding table_node_def Let_def
    using heads body by (simp add: append_ok appendAll_ok el_plain_ok el_class_ok del: list.pred_map)
qed

lemma toolbar_btn_ok [simp]: "text \<noteq> [] \<Longrightarrow> title \<noteq> [] \<Longrightarrow> well_made (toolbar_btn host text icon title act)"
  by (simp add: toolbar_btn_def textBtn_ok btn0_def)

section \<open>Which controls write\<close>

fun writes :: "table_act control_act \<Rightarrow> bool" where
  "writes (Does (EditAt ri ci)) = True"
| "writes (Does (DeleteAt ri)) = True"
| "writes (Does InsertRow) = True"
| "writes a = False"

lemma cell_node_listens [simp]: "listens P (cell_node host v)"
  by (cases v) (simp_all add: chip_def)

lemma table_td_writes: "listens (\<lambda>a. \<not> writes a) (table_td host ro ri ci v) = ro"
  by (simp add: table_td_def Let_def opts0_def)

lemma rowActions_writes: "listens (\<lambda>a. \<not> writes a) (rowActionsCell host ri ro) = ro"
  by (simp add: rowActionsCell_def)

lemma table_th_listens [simp]: "listens (\<lambda>a. \<not> writes a) (table_th s col)"
  by (simp add: table_th_def Let_def opts0_def)

lemma table_tr_writes: "listens (\<lambda>a. \<not> writes a) (table_tr host ro ri row) = ro"
  by (auto simp: table_tr_def opts0_def rowActions_writes table_td_writes list_all_iff)

lemma table_node_read_only: "listens (\<lambda>a. \<not> writes a) (table_node host True s sn)"
  by (auto simp: table_node_def Let_def opts0_def table_tr_writes list_all_iff)

lemma table_meta_writes: "listens (\<lambda>a. \<not> writes a) (table_meta host s sn v) = (\<not> tv_can_insert v)"
  by (simp add: table_meta_def Let_def toolbar_btn_def column_select_def page_size_select_def btn0_def)

text \<open>Of everything the pane of a table shows, nothing writes exactly when the connection is read-only.\<close>

theorem table_pane_read_only:
  assumes "s_tableSnapshot s = Some sn"
  shows "list_all (listens (\<lambda>a. \<not> writes a)) (table_pane host fmt cs s t) \<longleftrightarrow> isReadOnly cs (s_connId s)"
proof -
  obtain v where v: "renderTableGrid fmt cs s t = Some v" "tv_can_insert v = (\<not> isReadOnly cs (s_connId s))"
    using assms by (auto simp: renderTableGrid_def Let_def)
  have pager: "listens (\<lambda>a. \<not> writes a) (pager_node host p m l PrevTablePage NextTablePage)" for p m l
    by (simp add: pager_node_def btn0_def)
  show ?thesis
    using assms v pager table_node_read_only [of host s sn]
    by (auto simp: table_pane_def Let_def table_meta_writes)
qed

lemma read_only_pane:
  assumes "isReadOnly cs (s_connId s)"
  shows "list_all (listens (\<lambda>a. \<not> writes a)) (table_pane host fmt cs s t)"
proof (cases "s_tableSnapshot s")
  case None
  then show ?thesis by (simp add: table_pane_def renderTableGrid_def)
next
  case (Some sn)
  with assms show ?thesis by (simp only: table_pane_read_only)
qed

section \<open>A table's cells and their events\<close>

text \<open>
  Each cell of a table has listeners of its own, made for its position. Nothing above a cell
  listens, so these are all that an event inside it reaches.
\<close>

lemma table_td_shape:
  "\<exists>h. table_td host ro ri ci v = ElemN h [cell_node host v] \<and>
     h_on h = (if ro then [] else [(''dblclick'', Does (EditAt ri ci))]) @ [(''contextmenu'', Does (MenuAt ri ci))]"
  by (simp add: table_td_def Let_def el_def opts0_def set_tooltip_def setAttribute_def removeAttribute_def class_add_def
      addEventListener_def)

lemma table_shape:
  "\<exists>hw ht hh hr hb. table_node host ro s sn = ElemN hw [ElemN ht [ElemN hh hr,
     ElemN hb (map (\<lambda>(ri, row). table_tr host ro ri row) (enumerate 0 (sn_rows sn)))]] \<and>
     h_on hw = [] \<and> h_on ht = [] \<and> h_on hb = []"
  by (simp add: table_node_def Let_def el_class_def el_def opts0_def del: map_map)

lemma table_tr_shape:
  "\<exists>h. table_tr host ro ri row = ElemN h (rowActionsCell host ri ro #
     map (\<lambda>(ci, v). table_td host ro ri ci v) (enumerate 0 row)) \<and> h_on h = []"
  by (simp add: table_tr_def el_def opts0_def)

theorem table_cell_events:
  assumes n: "n = table_node host ro s sn" and r: "r < length (sn_rows sn)" and c: "c < length (sn_rows sn ! r)"
    and target: "node_at n (0 # 1 # r # Suc c # q) \<noteq> None"
  shows "map snd (bubble ev n (0 # 1 # r # Suc c # q)) =
    (if ev = ''dblclick'' \<and> \<not> ro then [Does (EditAt r c)] else if ev = ''contextmenu'' then [Does (MenuAt r c)] else [])"
proof -
  obtain hw ht hh hr hb where shape: "n = ElemN hw [ElemN ht [ElemN hh hr,
     ElemN hb (map (\<lambda>(ri, row). table_tr host ro ri row) (enumerate 0 (sn_rows sn)))]]"
    and on: "h_on hw = []" "h_on ht = []" "h_on hb = []"
    using table_shape [of host ro s sn] n by auto
  obtain h where tr: "table_tr host ro r (sn_rows sn ! r) = ElemN h (rowActionsCell host r ro #
     map (\<lambda>(ci, v). table_td host ro r ci v) (enumerate 0 (sn_rows sn ! r)))" "h_on h = []"
    using table_tr_shape by blast
  obtain k where td: "table_td host ro r c (sn_rows sn ! r ! c) = ElemN k [cell_node host (sn_rows sn ! r ! c)]"
    "h_on k = (if ro then [] else [(''dblclick'', Does (EditAt r c))]) @ [(''contextmenu'', Does (MenuAt r c))]"
    using table_td_shape by blast
  define body where "body = ElemN hb (map (\<lambda>(ri, row). table_tr host ro ri row) (enumerate 0 (sn_rows sn)))"
  define tbl where "tbl = ElemN ht [ElemN hh hr, body]"
  define trn where "trn = table_tr host ro r (sn_rows sn ! r)"
  define tdn where "tdn = table_td host ro r c (sn_rows sn ! r ! c)"
  have down: "nth_opt (kids n) 0 = Some tbl" "nth_opt (kids tbl) 1 = Some body"
    "nth_opt (kids body) r = Some trn" "nth_opt (kids trn) (Suc c) = Some tdn"
    using r c by (simp_all add: shape tbl_def body_def trn_def tr tdn_def enum_nth nth_opt_conv)
  have silent: "listeners e n = []" "listeners e tbl = []" "listeners e body = []" "listeners e trn = []" for e
    by (simp_all add: shape tbl_def body_def trn_def on tr)
  from target have q: "node_at tdn q \<noteq> None" using down by simp
  have "map snd (bubble ev tdn q) = listeners ev tdn"
  proof (cases q)
    case (Cons i q')
    with q have i: "i = 0" "node_at (cell_node host (sn_rows sn ! r ! c) :: table_act control_act dom_node) q' \<noteq> None"
      by (auto simp: tdn_def td nth_opt_conv split: if_splits)
    have "nth_opt (kids tdn) 0 = Some (cell_node host (sn_rows sn ! r ! c))" by (simp add: tdn_def td)
    from bubble_Cons [OF this] show ?thesis
      unfolding Cons i(1) using bare_bubble [OF cell_node_facts(2) i(2)] by (simp add: comp_def)
  qed (simp add: comp_def)
  then have "map snd (bubble ev n (0 # 1 # r # Suc c # q)) = listeners ev tdn"
    by (simp only: bubble_Cons [OF down(1)] bubble_Cons [OF down(2)] bubble_Cons [OF down(3)] bubble_Cons [OF down(4)] silent)
      (simp add: comp_def case_prod_unfold)
  then show ?thesis by (simp add: tdn_def td)
qed

end
