(* ===== verification/DialogDom.thy ===== *)
theory DialogDom
  imports GridPages Dialogs ConnDialog RowOps Transfers
begin

text \<open>
  The dialogs as element trees: the chrome of \<open>dialogs.js\<close> (the confirmation and the form
  modal), and the bodies of the connection dialog (\<open>connections/dialog.js\<close>), the insert and
  structure dialogs (\<open>gridedit/\<close>), the backup dialogs (\<open>connections/backupDialog.js\<close>), the export
  dialog (\<open>export.js\<close>) and the history (\<open>query/history.js\<close>). What a body shows is the view of
  the theory that models the dialog's behaviour.

  \<open>confirm_click_refines\<close>: a click anywhere in the drawn confirmation does to the page of
  theory Dialogs what a click on the button drawn there does, and only the confirm button
  answers yes.
\<close>

section \<open>The chrome\<close>

text \<open>\<open>StopHere\<close> is the card's \<open>stopPropagation\<close>, \<open>Answer\<close> and \<open>CloseDialog\<close> are \<open>finish\<close> and \<open>close\<close>.\<close>

datatype 'h dialog_act = StopHere | Answer bool | CloseDialog | Act 'h

type_synonym 'h dialog_node = "'h dialog_act control_act dom_node"

definition dialog_btn :: "string \<Rightarrow> string \<Rightarrow> 'h dialog_act \<Rightarrow> 'h dialog_node" where
  "dialog_btn cls label act = el ''button''
     (opts0\<lparr>o_class := cls, o_text := VStr label, o_attrs := [(''type'', VStr ''button'')], o_on := [(''click'', Does act)]\<rparr>) []"

definition close_x :: "icon_host \<Rightarrow> string \<Rightarrow> 'h dialog_act \<Rightarrow> 'h dialog_node" where
  "close_x host cls act = appendIcon host
     (el ''button'' (opts0\<lparr>o_class := cls,
        o_attrs := [(''type'', VStr ''button''), (''aria-label'', VStr ''Close''), (''title'', VStr ''Close'')],
        o_on := [(''click'', Does act)]\<rparr>) []) ''Cancel01Icon'' (sized 14)"

definition appendDialogClose :: "icon_host \<Rightarrow> 'h dialog_act \<Rightarrow> 'h dialog_node \<Rightarrow> 'h dialog_node" where
  "appendDialogClose host onClose dialog =
     appendChild (class_add ''tsql-dialog-has-x'' dialog) (close_x host ''tsql-dialog-x tsql-dialog-x-corner'' onClose)"

definition dialog_actions :: "'h dialog_node list \<Rightarrow> 'h dialog_node" where
  "dialog_actions btns = el_class ''div'' ''tsql-dialog-actions'' btns"

subsection \<open>The confirmation\<close>

text \<open>A message or statement left out is the empty text.\<close>

record confirm_opts =
  cf_title :: string
  cf_message :: string
  cf_sql :: string
  cf_language :: "string option"
  cf_confirm :: string
  cf_cancel :: string
  cf_destructive :: bool

definition confirm_texts :: "bool \<Rightarrow> confirm_opts \<Rightarrow> 'h dialog_node list" where
  "confirm_texts mounts c =
     [el_text ''h3'' ''tsql-dialog-title'' (cf_title c)] @
     (if cf_message c = [] then [] else [el_text ''p'' ''tsql-dialog-message'' (cf_message c)]) @
     (if cf_sql c = [] then [] else [el_class ''div'' ''tsql-dialog-sql'' [preview_node mounts True (cf_sql c) (cf_language c)]])"

definition confirm_node :: "icon_host \<Rightarrow> bool \<Rightarrow> confirm_opts \<Rightarrow> 'h dialog_node" where
  "confirm_node host mounts c =
     (let overlay = addEventListener ''click'' (Does (Answer False)) (el_class ''div'' ''tsql-overlay'' []);
          dialog = addEventListener ''click'' (Does StopHere) (el_class ''div'' ''tsql-dialog tsql-dialog-confirm'' []);
          actions = appendAll (dialog_actions [])
            [dialog_btn ''tsql-btn is-outline'' (cf_cancel c) (Answer False),
             dialog_btn (''tsql-btn '' @ (if cf_destructive c then ''is-destructive'' else ''is-primary'')) (cf_confirm c) (Answer True)]
      in appendChild overlay
           (appendAll (appendDialogClose host (Answer False) dialog) (confirm_texts mounts c @ [actions])))"

text \<open>A click runs the listeners up to the one that stops it; each answer reaches \<open>finish\<close>.\<close>

definition stops :: "'h dialog_act control_act \<Rightarrow> bool" where
  "stops a = (case a of Does StopHere \<Rightarrow> True | _ \<Rightarrow> False)"

definition answers_in :: "'h dialog_act control_act list \<Rightarrow> bool list" where
  "answers_in as = concat (map (\<lambda>a. case a of Does (Answer b) \<Rightarrow> [b] | _ \<Rightarrow> []) as)"

definition confirm_click :: "icon_host \<Rightarrow> bool \<Rightarrow> confirm_opts \<Rightarrow> path \<Rightarrow> nat \<Rightarrow> page \<Rightarrow> page" where
  "confirm_click host mounts c p d pg = foldl (\<lambda>q b. finish_confirm d b q) pg
     (answers_in (reached stops ''click'' (confirm_node host mounts c :: unit dialog_node) p))"

text \<open>The button a point of the overlay belongs to.\<close>

definition button_at :: "bool \<Rightarrow> confirm_opts \<Rightarrow> path \<Rightarrow> dialog_button option" where
  "button_at mounts c p =
     (let row = Suc (length (confirm_texts mounts c :: unit dialog_node list)) in
      if p = [] then Some Backdrop
      else if take 2 p = [0, 0] then Some CrossButton
      else if take 3 p = [0, row, 0] then Some CancelButton
      else if take 3 p = [0, row, 1] then Some ConfirmButton
      else None)"

subsection \<open>The form modal\<close>

definition form_node :: "icon_host \<Rightarrow> string \<Rightarrow> int \<Rightarrow> bool \<Rightarrow> 'h dialog_node list \<Rightarrow> 'h dialog_node" where
  "form_node host title width compact content =
     (let overlay = el ''div'' (opts0\<lparr>o_class := ''tsql-overlay'', o_attrs := [(''data-form-modal'', VStr ''1'')]\<rparr>) [];
          dialog = addEventListener ''click'' (Does StopHere) (set_style ''width'' (int_to_string width @ ''px'')
            (el_class ''div'' (''tsql-dialog tsql-dialog-form'' @ (if compact then '' tsql-dialog-form--compact'' else [])) []));
          headNode = appendAll (el_class ''div'' ''tsql-dialog-head'' [])
            [el_text ''h3'' ''tsql-dialog-title'' title, close_x host ''tsql-dialog-x'' CloseDialog];
          body = appendAll (el_class ''div'' ''tsql-dialog-body'' []) content
      in addEventListener ''click'' (Does CloseDialog) (appendChild overlay (appendAll dialog [headNode, body])))"

definition field_node :: "string \<Rightarrow> string \<Rightarrow> 'h dialog_node \<Rightarrow> 'h dialog_node" where
  "field_node cls label control = appendAll (el_class ''label'' cls []) [el_text ''span'' ''tsql-label'' label, control]"

definition form_error :: "string \<Rightarrow> 'h dialog_node" where
  "form_error msg = set_text msg (el_class ''p'' ''tsql-form-error'' [])"

definition tone_color :: "tone \<Rightarrow> string" where
  "tone_color t = (case t of PrimaryTone \<Rightarrow> ''var(--primary)'' | DestructiveTone \<Rightarrow> ''var(--destructive, #ef4444)'')"

definition red_error :: "string \<Rightarrow> 'h dialog_node" where
  "red_error msg = (if msg = [] then form_error [] else set_style ''color'' (tone_color DestructiveTone) (form_error msg))"

definition cancel_btn :: "'h dialog_node" where
  "cancel_btn = dialog_btn ''tsql-btn is-outline'' ''Cancel'' CloseDialog"

definition primary_btn :: "string \<Rightarrow> 'h \<Rightarrow> 'h dialog_node" where
  "primary_btn label act = dialog_btn ''tsql-btn is-primary'' label (Act act)"

section \<open>The connection dialog\<close>

text \<open>A control writes the entry of the form its label names.\<close>

datatype conn_act = Writes string | PressTest | PressSave

definition given :: "string \<Rightarrow> jsval" where
  "given s = (if s = [] then VUndef else VStr s)"

definition conn_control :: "icon_host \<Rightarrow> string \<Rightarrow> control \<Rightarrow> conn_act dialog_node" where
  "conn_control host label ctl = (case ctl of
       TextBox v ph \<Rightarrow> input ''text'' (VStr v) (Some (Act (Writes label))) (given ph)
     | PasswordBox v \<Rightarrow> input ''password'' (VStr v) (Some (Act (Writes label))) VUndef
     | Choice os v \<Rightarrow> select_trigger host os v []
     | HostChoice os v \<Rightarrow> select_trigger host (map (\<lambda>o'. (op_value o', op_label o')) os) v []
     | Tick b \<Rightarrow> checkbox b (Some (Act (Writes label)))
     | NumberBox v \<Rightarrow> numberInput host (VStr v) (Some (Act (Writes label))) (Some 0) (Some 100) VUndef
     | Note s \<Rightarrow> el_text ''span'' ''tsql-label-type'' s)"

definition full_width :: "string \<Rightarrow> bool" where
  "full_width label = (label \<in> {''Name'', ''File path'', ''SSH tunnel''})"

definition conn_field :: "icon_host \<Rightarrow> string \<times> control \<Rightarrow> conn_act dialog_node" where
  "conn_field host lc = field_node (''tsql-field'' @ (if full_width (fst lc) then '' is-full'' else []))
     (fst lc) (conn_control host (fst lc) (snd lc))"

definition conn_form_grid :: "icon_host \<Rightarrow> (string \<times> control) list \<Rightarrow> conn_act dialog_node" where
  "conn_form_grid host lcs = appendAll (clearChildren (el_class ''div'' ''tsql-form-grid'' [])) (map (conn_field host) lcs)"

definition conn_error :: "(tone \<times> string) option \<Rightarrow> conn_act dialog_node" where
  "conn_error e = (case e of None \<Rightarrow> form_error [] | Some (t, msg) \<Rightarrow> set_style ''color'' (tone_color t) (form_error msg))"

definition conn_dialog_node :: "icon_host \<Rightarrow> ssh_api \<Rightarrow> named_host list \<Rightarrow> conn_dialog \<Rightarrow> conn_act dialog_node" where
  "conn_dialog_node host ssh hosts d =
     form_node host (if cd_edit d then ''Edit connection'' else ''New connection'') 520 False
       [conn_form_grid host (rerenderDialog ssh hosts (cd_form d)), conn_error (cd_error d),
        dialog_actions [cancel_btn, dialog_btn ''tsql-btn is-outline'' ''Test'' (Act PressTest),
          primary_btn (if cd_edit d then ''Save'' else ''Add'') PressSave]]"

section \<open>The insert dialog\<close>

datatype insert_act = PressInsert | TypesInto string

definition dp_type :: "col_type \<Rightarrow> string" where
  "dp_type t = (case t of TDate \<Rightarrow> ''date'' | TTime \<Rightarrow> ''time'' | _ \<Rightarrow> ''datetime'')"

text \<open>The date field with the button that opens its popup.\<close>

definition picker_wrap :: "icon_host \<Rightarrow> col_type \<Rightarrow> string \<Rightarrow> 'h control_act dom_node" where
  "picker_wrap host t v =
     (let field = set_prop ''value'' (VStr v) (el ''input'' (opts0\<lparr>o_class := ''tsql-input tsql-dp-input'',
            o_attrs := [(''type'', VStr ''text''), (''inputmode'', VStr (if t = TTime then ''numeric'' else ''text'')),
              (''placeholder'', VStr (if t = TDate then ''YYYY-MM-DD'' else if t = TTime then ''HH:MM:SS'' else ''YYYY-MM-DD HH:MM:SS'')),
              (''spellcheck'', VStr ''false''), (''autocomplete'', VStr ''off'')]\<rparr>) []);
          trigger = appendIcon host (el ''button'' (opts0\<lparr>o_class := ''tsql-dp-trigger'',
            o_attrs := [(''type'', VStr ''button''), (''tabindex'', VStr ''-1''), (''aria-label'', VStr ''Open picker'')]\<rparr>) [])
            (if t = TTime then ''Clock01Icon'' else ''Calendar03Icon'') (sized 14)
      in appendAll (el_class ''div'' (''tsql-dp tsql-dp--'' @ dp_type t) [])
           [addEventListener ''keydown'' Keys (addEventListener ''input'' Syncs field),
            addEventListener ''click'' Opens (addEventListener ''mousedown'' Keeps_focus trigger)])"

definition insert_control :: "icon_host \<Rightarrow> insert_field \<Rightarrow> insert_act dialog_node" where
  "insert_control host fld = (case fld of
       ISelect os \<Rightarrow> select_trigger host os DEFAULT_OPTION []
     | IDate t \<Rightarrow> picker_wrap host t []
     | INumber t \<Rightarrow> el ''input'' (opts0\<lparr>o_class := ''tsql-input'',
         o_attrs := [(''type'', VStr ''number''), (''step'', VStr (if t = TInteger then ''1'' else ''any''))]\<rparr>) []
     | IText \<Rightarrow> input ''text'' (VStr []) None VUndef)"

definition insert_field_node :: "icon_host \<Rightarrow> col_info \<Rightarrow> insert_act dialog_node" where
  "insert_field_node host col =
     (let hint = shortTypeLabel (Some col) in
      el_class ''label'' ''tsql-field''
        [el_class ''span'' ''tsql-label'' ([TextN (field_label col)] @
           (if hint = [] then [] else [el_text ''span'' ''tsql-label-type'' ('' '' @ hint)])),
         insert_control host (makeInsertField col)])"

definition insert_dialog_node :: "icon_host \<Rightarrow> table_ref \<Rightarrow> col_info list \<Rightarrow> string \<Rightarrow> insert_act dialog_node" where
  "insert_dialog_node host t cols msg =
     form_node host (''Insert into '' @ t_table t) 520 False
       [appendAll (el_class ''div'' ''tsql-form-grid'' []) (map (insert_field_node host) cols),
        red_error msg,
        dialog_actions [cancel_btn, primary_btn ''Insert'' PressInsert]]"

section \<open>The structure dialog\<close>

datatype structure_act = ShowTab tab | CopyDdl string

definition metaTable :: "string list \<Rightarrow> string list list \<Rightarrow> 'h dom_node" where
  "metaTable headers rows =
     (let hr = appendAll (el ''tr'' opts0 []) (map (el_text ''th'' ''tedi-glass-solid'') headers);
          tbody = appendAll (el ''tbody'' opts0 [])
            (map (\<lambda>cells. appendAll (el ''tr'' opts0 []) (map (el_text ''td'' []) cells)) rows)
      in appendChild (el_class ''div'' ''tsql-grid-wrap tsql-structure-wrap'' [])
           (appendAll (el_class ''table'' ''tsql-grid tsql-structure-grid'' [])
             [appendChild (el ''thead'' opts0 []) hr, tbody]))"

definition emptyNote :: "string \<Rightarrow> 'h dom_node" where
  "emptyNote s = el_text ''p'' ''tsql-empty'' s"

definition tab_nodes :: "icon_host \<Rightarrow> bool \<Rightarrow> string \<Rightarrow> tab_view \<Rightarrow> structure_act dialog_node list" where
  "tab_nodes host mounts language v = (case v of
       VLoading \<Rightarrow> [emptyNote ''Loading...'']
     | VNote s \<Rightarrow> [emptyNote s]
     | VTable n hs rows \<Rightarrow> [el_text ''div'' ''tsql-structure-summary'' n, metaTable hs rows]
     | VDdl ddl \<Rightarrow> [el_class ''div'' ''tsql-structure-summary''
           [textBtn host ''Copy DDL'' (Some ''Copy01Icon'')
              (btn0\<lparr>tb_title := Some ''Copy the CREATE statement'', tb_onClick := Some (Does (Act (CopyDdl ddl)))\<rparr>)],
         el_class ''div'' ''tsql-ddl-wrap'' [preview_node mounts True ddl (Some language)]]
     | VFailed s \<Rightarrow> [el_text ''p'' ''tsql-error-text'' s])"

definition tab_btn :: "tab \<Rightarrow> tab \<times> string \<Rightarrow> structure_act dialog_node" where
  "tab_btn active entry = addEventListener ''click'' (Does (Act (ShowTab (fst entry))))
     (class_toggle ''is-active'' (fst entry = active)
       (el ''button'' (opts0\<lparr>o_class := ''tsql-result-tab'', o_text := VStr (snd entry), o_attrs := [(''type'', VStr ''button'')]\<rparr>) []))"

definition structure_node ::
  "icon_host \<Rightarrow> bool \<Rightarrow> string \<Rightarrow> string \<times> structure_dialog \<Rightarrow> structure_act dialog_node" where
  "structure_node host mounts language td =
     form_node host (fst td) 760 False
       [appendAll (el_class ''div'' ''tsql-result-tabs'' []) (map (tab_btn (sd_active (snd td))) TABS),
        appendAll (el_class ''div'' ''tsql-structure-body'' []) (tab_nodes host mounts language (sd_body (snd td)))]"

section \<open>Backup, export and history\<close>

text \<open>The link that hands a file to the browser.\<close>

definition download_link :: "string \<Rightarrow> string \<Rightarrow> 'h dom_node" where
  "download_link url filename = el ''a'' (opts0\<lparr>o_attrs := [(''href'', VStr url), (''download'', VStr filename)]\<rparr>) []"

datatype transfer_act = TypesPassphrase | TypesConfirm | PressExport | PressImport | PressSaveRows

text \<open>The field of \<open>backupDialog.js\<close>, with its hint.\<close>

definition backup_field :: "string \<Rightarrow> 'h dialog_node \<Rightarrow> string \<Rightarrow> 'h dialog_node" where
  "backup_field label control hint = appendAll (field_node ''tsql-field is-full'' label control)
     (if hint = [] then [] else [el_text ''span'' ''tsql-label-type'' hint])"

definition passphrase_input :: "transfer_act \<Rightarrow> transfer_act dialog_node" where
  "passphrase_input act = input ''password'' (VStr []) (Some (Act act)) VUndef"

definition export_dialog_node :: "icon_host \<Rightarrow> export_dialog \<Rightarrow> transfer_act dialog_node" where
  "export_dialog_node host d =
     form_node host ''Export connections'' 460 True
       [appendAll (el_class ''div'' ''tsql-form-grid'' [])
          [backup_field ''Passphrase'' (passphrase_input TypesPassphrase)
             ''The file carries your database passwords, so it is always encrypted. Keep this passphrase: without it the backup cannot be opened.'',
           backup_field ''Confirm passphrase'' (passphrase_input TypesConfirm) []],
        red_error (xd_error d), dialog_actions [cancel_btn, primary_btn ''Export'' PressExport]]"

definition import_dialog_node :: "icon_host \<Rightarrow> import_dialog \<Rightarrow> transfer_act dialog_node" where
  "import_dialog_node host d =
     form_node host ''Import connections'' 460 True
       [appendAll (el_class ''div'' ''tsql-form-grid'' [])
          [el_text ''span'' ''tsql-label-type'' (md_name d),
           backup_field ''Passphrase'' (passphrase_input TypesPassphrase)
             ''Connections merge by id: re-importing the same file updates them instead of duplicating, and nothing already here is deleted.''],
        red_error (md_error d), dialog_actions [cancel_btn, primary_btn ''Import'' PressImport]]"

definition rows_export_node :: "icon_host \<Rightarrow> string \<Rightarrow> transfer_act dialog_node" where
  "rows_export_node host format =
     form_node host ''Export'' 420 True
       [el_class ''div'' ''tsql-form-grid''
          [field_node ''tsql-field is-full'' ''Format'' (select_trigger host EXPORT_FORMATS format [])],
        dialog_actions [cancel_btn, primary_btn ''Save'' PressSaveRows]]"

definition history_row :: "icon_host \<Rightarrow> nat \<times> string \<times> string \<Rightarrow> history_event dialog_node" where
  "history_row host nst = (case nst of (n, sql, ago) \<Rightarrow>
     el_class ''div'' ''tsql-history-row''
       [el_text ''div'' ''tsql-history-sql'' sql,
        el_class ''div'' ''tsql-history-meta''
          [el_text ''span'' [] ago,
           textBtn host ''Copy'' (Some ''Copy01Icon'')
             (btn0\<lparr>tb_title := Some ''Copy this statement'', tb_onClick := Some (Does (Act (CopyEntry n)))\<rparr>),
           textBtn host ''Load'' (Some ''ArrowUpToLineIcon'')
             (btn0\<lparr>tb_title := Some ''Put this statement in the editor'', tb_onClick := Some (Does (Act (LoadEntry n)))\<rparr>)]])"

definition history_node :: "icon_host \<Rightarrow> int \<Rightarrow> history_dialog \<Rightarrow> history_event dialog_node" where
  "history_node host now d = form_node host ''Query history'' 640 False
     (case history_rows now d of
        Inl note \<Rightarrow> [emptyNote note]
      | Inr rows \<Rightarrow>
         [appendAll (el_class ''div'' ''tsql-history-list'' []) (map (history_row host) (enumerate 0 rows)),
          dialog_actions [dialog_btn ''tsql-btn is-outline'' ''Clear history'' (Act ClearHistory),
            dialog_btn ''tsql-btn is-primary'' ''Close'' CloseDialog]])"

section \<open>Every dialog is made well\<close>

lemma dialog_btn_ok [simp]: "label \<noteq> [] \<Longrightarrow> well_made (dialog_btn cls label act)"
  unfolding dialog_btn_def by (rule texted_button) simp_all

lemma close_x_ok [simp]: "well_made (close_x host cls act)"
  unfolding close_x_def by (rule appendIcon_ok, rule label_button [where k = "''aria-label''" and s = "''Close''"]) simp_all

lemma dialog_parts_ok [simp]:
  "list_all well_made btns \<Longrightarrow> well_made (dialog_actions btns)"
  "well_made control \<Longrightarrow> well_made (field_node cls label control)"
  "well_made (form_error msg)" "well_made (red_error msg)" "well_made cancel_btn"
  "label \<noteq> [] \<Longrightarrow> well_made (primary_btn label act')"
  "list_all well_made content \<Longrightarrow> well_made (form_node host title width compact content)"
  by (simp_all add: dialog_actions_def field_node_def form_error_def red_error_def cancel_btn_def primary_btn_def
      form_node_def Let_def dom_ok opts0_def)

lemma confirm_texts_ok [simp]: "list_all well_made (confirm_texts mounts c)"
  by (simp add: confirm_texts_def dom_ok)

theorem confirm_node_ok:
  assumes "cf_confirm c \<noteq> []" "cf_cancel c \<noteq> []"
  shows "well_made (confirm_node host mounts c)"
  using assms by (simp add: confirm_node_def appendDialogClose_def Let_def dom_ok)

text \<open>
  The form of a connection: an unnamed control would be a dropdown whose value is not among
  its options.
\<close>

lemma option_label_known: "v \<in> fst ` set os \<Longrightarrow> list_all (\<lambda>o'. snd o' \<noteq> []) os \<Longrightarrow> option_label os v \<noteq> []"
  by (induction os) (auto simp: option_label_def)

definition form_known :: "named_host list \<Rightarrow> form \<Rightarrow> bool" where
  "form_known hosts f \<longleftrightarrow> c_kind f \<in> d_id ` set listDialects \<and> c_sslMode f \<in> fst ` set TLS_OPTIONS
     \<and> (c_sshTunnel f = [] \<or> c_sshTunnel f \<in> sh_id ` set hosts)"

lemma picker_wrap_ok [simp]: "well_made (picker_wrap host t v)"
  by (simp add: picker_wrap_def Let_def dom_ok opts0_def)

lemma insert_options: "makeInsertField col = ISelect os \<Longrightarrow> option_label os DEFAULT_OPTION = ''(default)''"
  by (auto simp: makeInsertField_def option_label_def Let_def split: col_type.splits if_splits)

lemma insert_control_ok [simp]: "well_made (insert_control host (makeInsertField col))"
  using insert_options [of col] by (cases "makeInsertField col") (simp_all add: insert_control_def select_trigger_ok dom_ok opts0_def)

lemma insert_field_ok [simp]: "well_made (insert_field_node host col)"
  by (simp add: insert_field_node_def Let_def dom_ok)

theorem insert_dialog_ok: "well_made (insert_dialog_node host t cols msg)"
  by (simp add: insert_dialog_node_def dom_ok list.pred_map comp_def list.pred_True)

lemma metaTable_ok [simp]: "well_made (metaTable hs rows)"
  by (simp add: metaTable_def Let_def dom_ok opts0_def list.pred_map comp_def list.pred_True)

lemma tab_nodes_ok [simp]: "list_all well_made (tab_nodes host mounts language v)"
  by (cases v) (simp_all add: tab_nodes_def emptyNote_def dom_ok textBtn_ok btn0_def)

lemma tab_btn_ok [simp]: "snd entry \<noteq> [] \<Longrightarrow> well_made (tab_btn active entry)"
  by (simp add: tab_btn_def texted_button)

theorem structure_node_ok: "well_made (structure_node host mounts language td)"
  by (simp add: structure_node_def TABS_def dom_ok)

lemma backup_field_ok [simp]: "well_made control \<Longrightarrow> well_made (backup_field label control hint)"
  by (simp add: backup_field_def dom_ok)

lemma history_row_ok [simp]: "well_made (history_row host nst)"
  by (simp add: history_row_def dom_ok textBtn_ok btn0_def split: prod.splits)

theorem transfer_dialogs_ok:
  "well_made (export_dialog_node host xd)" "well_made (import_dialog_node host md)"
  "format \<in> fst ` set EXPORT_FORMATS \<Longrightarrow> well_made (rows_export_node host format)"
  "well_made (history_node host now hd')"
proof -
  show "well_made (export_dialog_node host xd)" "well_made (import_dialog_node host md)"
    by (simp_all add: export_dialog_node_def import_dialog_node_def passphrase_input_def dom_ok)
  show "well_made (rows_export_node host format)" if "format \<in> fst ` set EXPORT_FORMATS"
    using option_label_known [OF that] by (simp add: rows_export_node_def EXPORT_FORMATS_def dom_ok select_trigger_ok)
  show "well_made (history_node host now hd')"
    by (simp add: history_node_def emptyNote_def dom_ok list.pred_map comp_def list.pred_True split: sum.splits)
qed

text \<open>The connection form: named throughout when its choices are known ones.\<close>

lemma conn_field_ok: "well_made (conn_control host l ctl) \<Longrightarrow> well_made (conn_field host (l, ctl))"
  by (simp add: conn_field_def)

lemma conn_control_plain [simp]:
  "well_made (conn_control host l (TextBox v ph))" "well_made (conn_control host l (PasswordBox v))"
  "well_made (conn_control host l (Tick b))" "well_made (conn_control host l (NumberBox v))"
  "well_made (conn_control host l (Note s))"
  by (simp_all add: conn_control_def dom_ok)

lemma conn_control_choice: "v \<in> fst ` set os \<Longrightarrow> list_all (\<lambda>o'. snd o' \<noteq> []) os \<Longrightarrow> well_made (conn_control host l (Choice os v))"
  using option_label_known [of v os] by (simp add: conn_control_def select_trigger_ok)

lemma tunnel_control_ok:
  assumes "c_sshTunnel f = [] \<or> c_sshTunnel f \<in> sh_id ` set hosts"
  shows "well_made (conn_control host l (tunnel_control ssh hosts f))"
proof (cases "hosts = []")
  case True
  then show ?thesis by (simp add: tunnel_control_def)
next
  case False
  have l: "list_all (\<lambda>o'. snd o' \<noteq> []) (map (\<lambda>o'. (op_value o', op_label o')) (map ssh_option hosts))"
    by (simp add: list_all_iff ssh_option_def)
  have "c_sshTunnel f \<in> insert [] (fst ` set (map (\<lambda>o'. (op_value o', op_label o')) (map ssh_option hosts)))"
    using assms by (auto simp: ssh_option_def image_iff)
  with l False show ?thesis
    by (simp add: tunnel_control_def conn_control_def select_trigger_ok option_label_known)
qed

lemma dialect_labels: "list_all (\<lambda>o'. snd o' \<noteq> []) (map (\<lambda>d. (d_id d, d_label d)) listDialects)"
  by code_simp

lemma host_fields_ok:
  assumes "form_known hosts f"
  shows "list_all well_made (map (conn_field host) (renderHostFields ssh hosts f))"
proof -
  have "well_made (conn_control host l (Choice TLS_OPTIONS (c_sslMode f)))" for l
    using assms by (intro conn_control_choice) (auto simp: form_known_def TLS_OPTIONS_def)
  moreover have "well_made (conn_control host l (tunnel_control ssh hosts f))" for l
    using assms by (intro tunnel_control_ok) (simp add: form_known_def)
  ultimately show ?thesis by (simp add: renderHostFields_def Let_def conn_field_ok)
qed

theorem conn_dialog_ok:
  assumes "form_known hosts (cd_form d)"
  shows "well_made (conn_dialog_node host ssh hosts d)"
proof -
  let ?f = "cd_form d"
  have "c_kind ?f \<in> fst ` set (map (\<lambda>d. (d_id d, d_label d)) listDialects)"
    using assms by (auto simp: form_known_def image_iff)
  then have "well_made (conn_control host l (Choice (map (\<lambda>d. (d_id d, d_label d)) listDialects) (c_kind ?f)))" for l
    by (rule conn_control_choice) (rule dialect_labels)
  moreover have "well_made (conn_control host l (Choice [(''ro'', ''Read-only''), (''rw'', ''Read + Write'')]
      (if c_allow_writes ?f then ''rw'' else ''ro'')))" for l
    by (rule conn_control_choice) auto
  ultimately have "list_all well_made (map (conn_field host) (rerenderDialog ssh hosts ?f))"
    using host_fields_ok [OF assms, of host ssh] by (simp add: rerenderDialog_def conn_field_ok)
  then show ?thesis
    by (simp add: conn_dialog_node_def conn_form_grid_def conn_error_def dom_ok split: option.splits)
qed

text \<open>
  What \<open>form_known\<close> leaves out: a connection whose SSH host was removed from the host's list
  still shows a picker, but an empty one, without a label or a name.
\<close>

lemma removed_host_unnamed:
  assumes "hosts \<noteq> []" "c_sshTunnel f \<noteq> []" "c_sshTunnel f \<notin> sh_id ` set hosts"
  shows "\<not> well_made (conn_control host l (tunnel_control ssh hosts f))"
proof -
  let ?os = "(\<lparr>op_value = [], op_label = ''None (connect directly)'', op_keywords = []\<rparr> # map ssh_option hosts)"
  have "find (\<lambda>o'. fst o' = c_sshTunnel f) (map (\<lambda>o'. (op_value o', op_label o')) ?os) = None"
    using assms by (auto simp: ssh_option_def find_None_iff image_iff)
  from select_trigger_blank [OF refl this] show ?thesis
    using assms(1) by (simp add: tunnel_control_def conn_control_def)
qed

section \<open>Clicks in a dialog\<close>

lemma press_reached:
  assumes n: "n = ElemN h ks" "h_on h = [(''click'', a)]" "list_all (listens (\<lambda>a. False)) ks"
    and p: "node_at n p \<noteq> None" and a: "\<not> stops a"
  shows "reached stops ''click'' n p = [a] \<and> \<not> stopped stops ''click'' n p"
proof (cases p)
  case Nil
  with n a show ?thesis by simp
next
  case (Cons i q)
  with p n(1) obtain k where k: "nth_opt (kids n) i = Some k" "node_at k q \<noteq> None"
    by (auto simp: bind_eq_Some_conv)
  then have "listens (\<lambda>a. False) k" using n by (auto simp: nth_opt_conv list_all_length split: if_splits)
  with silent_reached [OF this k(2)] Cons k n a show ?thesis by (simp add: reached_Cons stopped_Cons)
qed

lemma button_shapes:
  "\<exists>h. dialog_btn cls label act = ElemN h (text_nodes label) \<and> h_on h = [(''click'', Does act)]"
  "\<exists>h. close_x host cls act = ElemN h [icon_node host ''Cancel01Icon'' (sized 14)] \<and> h_on h = [(''click'', Does act)]"
  by (simp_all add: dialog_btn_def close_x_def el_def opts0_def appendIcon_def)

lemma stops_simps [simp]: "stops (Does StopHere)" "act \<noteq> StopHere \<Longrightarrow> \<not> stops (Does act)"
  by (auto simp: stops_def split: dialog_act.splits)

lemma dialog_btn_press:
  assumes "node_at (dialog_btn cls label act) p \<noteq> None" "act \<noteq> StopHere"
  shows "reached stops ''click'' (dialog_btn cls label act) p = [Does act] \<and> \<not> stopped stops ''click'' (dialog_btn cls label act) p"
proof -
  obtain h where "dialog_btn cls label act = ElemN h (text_nodes label)" "h_on h = [(''click'', Does act)]"
    using button_shapes(1) by blast
  then show ?thesis by (rule press_reached) (use assms in simp_all)
qed

lemma close_x_press:
  assumes "node_at (close_x host cls act) p \<noteq> None" "act \<noteq> StopHere"
  shows "reached stops ''click'' (close_x host cls act) p = [Does act] \<and> \<not> stopped stops ''click'' (close_x host cls act) p"
proof -
  obtain h where "close_x host cls act = ElemN h [icon_node host ''Cancel01Icon'' (sized 14)]" "h_on h = [(''click'', Does act)]"
    using button_shapes(2) by blast
  then show ?thesis by (rule press_reached) (use assms in simp_all)
qed

lemma confirm_texts_silent: "list_all (listens (\<lambda>a. False)) (confirm_texts mounts c)"
  by (simp add: confirm_texts_def preview_node_def opts0_def Let_def)

lemma confirm_shape:
  "\<exists>h0 h1 h2. confirm_node host mounts c = ElemN h0 [ElemN h1 (close_x host ''tsql-dialog-x tsql-dialog-x-corner'' (Answer False)
       # confirm_texts mounts c @ [ElemN h2 [dialog_btn ''tsql-btn is-outline'' (cf_cancel c) (Answer False),
          dialog_btn (''tsql-btn '' @ (if cf_destructive c then ''is-destructive'' else ''is-primary'')) (cf_confirm c) (Answer True)]])]
     \<and> h_on h0 = [(''click'', Does (Answer False))] \<and> h_on h1 = [(''click'', Does StopHere)] \<and> h_on h2 = []"
  by (simp add: confirm_node_def Let_def appendDialogClose_def dialog_actions_def el_class_def el_def opts0_def
      addEventListener_def class_add_def)

lemma answers_in_simps [simp]:
  "answers_in [] = []" "answers_in (Does (Answer b) # as) = b # answers_in as" "answers_in (Does StopHere # as) = answers_in as"
  by (simp_all add: answers_in_def)

text \<open>A card that stops clicks: what is reached inside it comes from the child clicked.\<close>

lemma card_reached:
  assumes card: "h_on h = [(''click'', Does StopHere)]" and over: "listeners ''click'' n = [b]" "kids n = [ElemN h ks]"
  shows "reached stops ''click'' n [0] = [Does StopHere]"
    and "nth_opt ks j = Some k \<Longrightarrow> reached stops ''click'' n (0 # j # r) =
      reached stops ''click'' k r @ (if stopped stops ''click'' k r then [] else [Does StopHere])"
  using assms by (simp_all add: reached_Cons stopped_Cons)

lemma confirm_reached:
  fixes n :: "unit dialog_node"
  assumes n: "n = confirm_node host mounts c" and valid: "node_at n p \<noteq> None"
  shows "answers_in (reached stops ''click'' n p) = (case button_at mounts c p of None \<Rightarrow> [] | Some b \<Rightarrow> [b = ConfirmButton])"
proof -
  let ?X = "close_x host ''tsql-dialog-x tsql-dialog-x-corner'' (Answer False) :: unit dialog_node"
  let ?T = "confirm_texts mounts c :: unit dialog_node list"
  let ?C = "dialog_btn ''tsql-btn is-outline'' (cf_cancel c) (Answer False) :: unit dialog_node"
  let ?K = "dialog_btn (''tsql-btn '' @ (if cf_destructive c then ''is-destructive'' else ''is-primary'')) (cf_confirm c) (Answer True) :: unit dialog_node"
  obtain h0 h1 h2 where shape: "n = ElemN h0 [ElemN h1 (?X # ?T @ [ElemN h2 [?C, ?K]])]"
      and on: "h_on h0 = [(''click'', Does (Answer False))]" "h_on h1 = [(''click'', Does StopHere)]" "h_on h2 = []"
    using confirm_shape [of host mounts c] unfolding n by blast
  note card = card_reached [OF on(2), of n "Does (Answer False)" "?X # ?T @ [ElemN h2 [?C, ?K]]"]
  have over: "listeners ''click'' n = [Does (Answer False)]" "kids n = [ElemN h1 (?X # ?T @ [ElemN h2 [?C, ?K]])]"
    by (simp_all add: shape on)
  consider "p = []" | "p = [0]" | j r where "p = 0 # j # r"
    using valid by (cases p; cases "tl p") (auto simp: shape nth_opt_conv bind_eq_Some_conv split: if_splits)
  then show ?thesis
  proof cases
    case (3 j r)
    from valid obtain k where k: "nth_opt (?X # ?T @ [ElemN h2 [?C, ?K]]) j = Some k" "node_at k r \<noteq> None"
      by (auto simp: 3 shape bind_eq_Some_conv)
    note step = card(2) [OF over k(1), of r, folded 3]
    consider "j = 0" | "0 < j" "j \<le> length ?T" | "j = Suc (length ?T)"
      using k(1) by (fastforce simp: nth_opt_conv split: if_splits)
    then show ?thesis
    proof cases
      case 1
      with k close_x_press [of host "''tsql-dialog-x tsql-dialog-x-corner''" "Answer False :: unit dialog_act" r] show ?thesis
        by (simp add: step button_at_def Let_def) (simp add: 3)
    next
      case 2
      then have "k \<in> set ?T" using k(1) by (auto simp: nth_opt_conv nth_Cons' nth_append split: if_splits)
      then have "listens (\<lambda>a. False) k" using confirm_texts_silent by (auto simp: list_all_iff)
      with silent_reached [OF this k(2)] 2 show ?thesis
        by (simp add: step button_at_def Let_def) (simp add: 3)
    next
      case j: 3
      then have kk: "k = ElemN h2 [?C, ?K]" using k(1) by (simp add: nth_opt_conv nth_append)
      show ?thesis
      proof (cases r)
        case Nil
        with step show ?thesis by (simp add: kk on button_at_def Let_def) (simp add: 3 j)
      next
        case (Cons m s)
        with k kk have "m = 0 \<and> node_at ?C s \<noteq> None \<or> m = 1 \<and> node_at ?K s \<noteq> None"
          by (auto simp: bind_eq_Some_conv nth_opt_conv nth_Cons' split: if_splits)
        then show ?thesis
        proof
          assume m: "m = 0 \<and> node_at ?C s \<noteq> None"
          with dialog_btn_press [of _ _ "Answer False :: unit dialog_act" s]
          have "answers_in (reached stops ''click'' n p) = [False]" by (simp add: step kk Cons on reached_Cons stopped_Cons)
          with m show ?thesis by (simp add: button_at_def Let_def 3 j Cons)
        next
          assume m: "m = 1 \<and> node_at ?K s \<noteq> None"
          with dialog_btn_press [of _ _ "Answer True :: unit dialog_act" s]
          have "answers_in (reached stops ''click'' n p) = [True]" by (simp add: step kk Cons on reached_Cons stopped_Cons)
          with m show ?thesis by (simp add: button_at_def Let_def 3 j Cons)
        qed
      qed
    qed
  qed (simp_all add: over card(1) button_at_def Let_def)
qed

lemma confirm_button_node:
  fixes n :: "unit dialog_node"
  assumes "n = confirm_node host mounts c" "button_at mounts c p = Some ConfirmButton"
  shows "\<exists>k. node_at n (take 3 p) = Some k \<and> tag_of k = ''button'' \<and> textContent k = cf_confirm c"
proof -
  obtain h0 h1 h2 where shape: "n = ElemN h0 [ElemN h1 (close_x host ''tsql-dialog-x tsql-dialog-x-corner'' (Answer False)
       # confirm_texts mounts c @ [ElemN h2 [dialog_btn ''tsql-btn is-outline'' (cf_cancel c) (Answer False),
          dialog_btn (''tsql-btn '' @ (if cf_destructive c then ''is-destructive'' else ''is-primary'')) (cf_confirm c) (Answer True)]])]"
    using confirm_shape [of host mounts c] unfolding assms(1) by blast
  have "take 3 p = [0, Suc (length (confirm_texts mounts c :: unit dialog_node list)), 1]"
    using assms(2) by (simp add: button_at_def Let_def split: if_splits)
  then show ?thesis
    by (simp add: shape nth_opt_conv nth_append dialog_btn_def el_def opts0_def text_nodes_def)
qed

text \<open>The statement of a confirmation, in the host's editor or as text.\<close>

definition shows_text :: "string \<Rightarrow> 'h dom_node \<Rightarrow> bool" where
  "shows_text s n = list_ex (\<lambda>m. case m of HostN lang doc \<Rightarrow> doc = s | TextN u \<Rightarrow> u = s | _ \<Rightarrow> False) (nodes_of n)"

lemma shows_text_simps [simp]:
  "shows_text s (TextN u) = (u = s)" "shows_text s (HostN lang doc) = (doc = s)" "shows_text s (IconN i o') = False"
  "shows_text s (ElemN h ks) = list_ex (shows_text s) ks"
  by (auto simp: shows_text_def list_ex_iff)

lemma preview_shows: "s \<noteq> [] \<Longrightarrow> shows_text s (preview_node mounts track s lang)"
  by (simp add: preview_node_def el_def opts0_def Let_def text_nodes_def node_of_def)

lemma confirm_shows_sql:
  fixes n :: "'h dialog_node"
  assumes "n = confirm_node host mounts c" "cf_sql c \<noteq> []"
  shows "shows_text (cf_sql c) n"
proof -
  have mid: "list_ex (shows_text (cf_sql c)) (confirm_texts mounts c :: 'h dialog_node list)"
    using assms(2) by (simp add: confirm_texts_def el_class_def el_def opts0_def preview_shows)
  obtain h0 h1 x y where "n = ElemN h0 [ElemN h1 (x # confirm_texts mounts c @ [y])]"
    using confirm_shape [of host mounts c] unfolding assms(1) by blast
  with mid show ?thesis by simp
qed

text \<open>
  C11: A click anywhere in the drawn confirmation does to the page exactly what a click on the
  button drawn there does: the backdrop, the X and Cancel answer no, the rest of the card stops
  the click and answers nothing. A yes comes only from a click inside a button whose text is the
  confirm label. The statement to be run is shown in full, every button has a name and nothing a
  native tooltip.
\<close>

theorem confirm_click_refines:
  fixes n :: "unit dialog_node"
  assumes n: "n = confirm_node host mounts c" "cf_confirm c \<noteq> []" "cf_cancel c \<noteq> []"
    and "node_at n p \<noteq> None" and shown: "ConfirmOverlay d \<in> set (pa_overlays pg)"
  shows "confirm_click host mounts c p d pg =
      (case button_at mounts c p of None \<Rightarrow> pg | Some b \<Rightarrow> click_button b (ConfirmOverlay d) pg) \<and>
    ((d, True) \<in> set (pa_answers (confirm_click host mounts c p d pg)) - set (pa_answers pg) \<longrightarrow>
      (\<exists>k. node_at n (take 3 p) = Some k \<and> tag_of k = ''button'' \<and> textContent k = cf_confirm c)) \<and>
    (cf_sql c \<noteq> [] \<longrightarrow> shows_text (cf_sql c) n) \<and> well_made n"
proof (intro conjI impI)
  show step: "confirm_click host mounts c p d pg =
      (case button_at mounts c p of None \<Rightarrow> pg | Some b \<Rightarrow> click_button b (ConfirmOverlay d) pg)"
    using confirm_reached [OF n(1) assms(4)] shown
    by (auto simp: confirm_click_def n(1) click_button_def split: option.splits)
  show "\<exists>k. node_at n (take 3 p) = Some k \<and> tag_of k = ''button'' \<and> textContent k = cf_confirm c"
    if yes: "(d, True) \<in> set (pa_answers (confirm_click host mounts c p d pg)) - set (pa_answers pg)"
  proof (rule confirm_button_node [OF n(1)])
    show "button_at mounts c p = Some ConfirmButton"
      using yes shown unfolding step
      by (auto simp: click_button_def finish_confirm_def split: option.splits if_splits)
  qed
  show "shows_text (cf_sql c) n" if "cf_sql c \<noteq> []" by (rule confirm_shows_sql [OF n(1) that])
  show "well_made n" using confirm_node_ok n by blast
qed

definition delete_confirm :: confirm_opts where
  "delete_confirm = \<lparr>cf_title = ''Delete row?'', cf_message = ''This deletes the row below.'', cf_sql = ''DELETE FROM t WHERE id = 1;'',
     cf_language = Some ''mysql'', cf_confirm = ''Delete'', cf_cancel = ''Cancel'', cf_destructive = True\<rparr>"

text \<open>A click on the label of the Delete button, and one on the statement above it.\<close>

theorem confirm_click_refines_witness:
  "pa_answers (confirm_click NoIconApi False delete_confirm [0, 4, 1, 0] 0 (page_run [ConfirmOpens])) = [(0, True)] \<and>
   confirm_click NoIconApi False delete_confirm [0, 3, 0, 0] 0 (page_run [ConfirmOpens]) = page_run [ConfirmOpens]"
proof -
  let ?n = "confirm_node NoIconApi False delete_confirm :: unit dialog_node"
  have valid: "node_at ?n [0, 4, 1, 0] \<noteq> None" "node_at ?n [0, 3, 0, 0] \<noteq> None" by code_simp+
  have shown: "ConfirmOverlay 0 \<in> set (pa_overlays (page_run [ConfirmOpens]))" by code_simp
  have at: "button_at False delete_confirm [0, 4, 1, 0] = Some ConfirmButton" "button_at False delete_confirm [0, 3, 0, 0] = None"
    by code_simp+
  have labels: "cf_confirm delete_confirm \<noteq> []" "cf_cancel delete_confirm \<noteq> []" by (simp_all add: delete_confirm_def)
  have "pa_answers (click_button ConfirmButton (ConfirmOverlay 0) (page_run [ConfirmOpens])) = [(0, True)]" by code_simp
  with confirm_click_refines [OF refl labels valid(1) shown] confirm_click_refines [OF refl labels valid(2) shown] at
  show ?thesis by simp
qed

section \<open>Closing a form modal\<close>

lemma form_shape:
  "\<exists>h0 h1 h2 h3 t. form_node host title width compact content =
     ElemN h0 [ElemN h1 [ElemN h2 [t, close_x host ''tsql-dialog-x'' CloseDialog], ElemN h3 content]]
     \<and> h_on h0 = [(''click'', Does CloseDialog)] \<and> h_on h1 = [(''click'', Does StopHere)] \<and> h_on h2 = [] \<and> h_on h3 = []
     \<and> listens (\<lambda>a. False) t"
  by (simp add: form_node_def Let_def el_class_def el_def opts0_def addEventListener_def set_style_def)

text \<open>
  A form modal is closed by its backdrop, by its X and by what its own body closes; a click
  elsewhere in the card keeps it open.
\<close>

theorem form_click:
  fixes n :: "'h dialog_node"
  assumes n: "n = form_node host title width compact content" and valid: "node_at n p \<noteq> None"
  shows "Does CloseDialog \<in> set (reached stops ''click'' n p) \<longleftrightarrow>
    p = [] \<or> take 3 p = [0, 0, 1] \<or>
    (\<exists>j q k. p = 0 # 1 # j # q \<and> nth_opt content j = Some k \<and> Does CloseDialog \<in> set (reached stops ''click'' k q))"
proof -
  let ?X = "close_x host ''tsql-dialog-x'' CloseDialog :: 'h dialog_node"
  obtain h0 h1 h2 h3 tt where shape: "n = ElemN h0 [ElemN h1 [ElemN h2 [tt, ?X], ElemN h3 content]]"
      and on: "h_on h0 = [(''click'', Does CloseDialog)]" "h_on h1 = [(''click'', Does StopHere)]" "h_on h2 = []" "h_on h3 = []"
      and silent: "listens (\<lambda>a. False) tt"
    using form_shape [of host title width compact content] unfolding n by blast
  have over: "listeners ''click'' n = [Does CloseDialog]" "kids n = [ElemN h1 [ElemN h2 [tt, ?X], ElemN h3 content]]"
    by (simp_all add: shape on)
  note card = card_reached [OF on(2) over]
  consider "p = []" | "p = [0]" | r where "p = 0 # 0 # r" | r where "p = 0 # 1 # r"
    using valid by (cases p; cases "tl p") (auto simp: shape nth_opt_conv nth_Cons' bind_eq_Some_conv split: if_splits)
  then show ?thesis
  proof cases
    case (3 r)
    have step: "reached stops ''click'' n p = reached stops ''click'' (ElemN h2 [tt, ?X]) r @
        (if stopped stops ''click'' (ElemN h2 [tt, ?X]) r then [] else [Does StopHere])"
      unfolding 3 by (rule card(2)) (simp add: nth_opt_conv)
    show ?thesis
    proof (cases r)
      case Nil
      then show ?thesis by (simp add: step on) (simp add: 3)
    next
      case (Cons m s)
      with valid have "m = 0 \<and> node_at tt s \<noteq> None \<or> m = 1 \<and> node_at ?X s \<noteq> None"
        by (auto simp: 3 shape bind_eq_Some_conv nth_opt_conv nth_Cons' split: if_splits)
      then show ?thesis
      proof
        assume m: "m = 0 \<and> node_at tt s \<noteq> None"
        with silent_reached [OF silent, of s stops "''click''"]
        have "reached stops ''click'' n p = [Does StopHere]" by (simp add: step Cons on reached_Cons stopped_Cons)
        with m show ?thesis by (simp add: 3 Cons)
      next
        assume m: "m = 1 \<and> node_at ?X s \<noteq> None"
        with close_x_press [of host "''tsql-dialog-x''" "CloseDialog :: 'h dialog_act" s]
        have "reached stops ''click'' n p = [Does CloseDialog, Does StopHere]" by (simp add: step Cons on reached_Cons stopped_Cons)
        with m show ?thesis by (simp add: 3 Cons)
      qed
    qed
  next
    case (4 r)
    have step: "reached stops ''click'' n p = reached stops ''click'' (ElemN h3 content) r @
        (if stopped stops ''click'' (ElemN h3 content) r then [] else [Does StopHere])"
      unfolding 4 by (rule card(2)) (simp add: nth_opt_conv)
    show ?thesis
    proof (cases r)
      case Nil
      then show ?thesis by (simp add: step on) (simp add: 4)
    next
      case (Cons m s)
      with valid obtain k where k: "nth_opt content m = Some k"
        by (auto simp: 4 shape bind_eq_Some_conv nth_opt_conv split: if_splits)
      have inner: "reached stops ''click'' (ElemN h3 content) (m # s) = reached stops ''click'' k s"
        by (subst reached_Cons [of _ m k]) (simp_all add: k on)
      show ?thesis unfolding step Cons inner using k by (auto simp: 4 Cons)
    qed
  qed (simp_all add: over card(1))
qed

end
