(* ===== verification/InsertFlow.thy ===== *)
theory InsertFlow
  imports DialogDom
begin

text \<open>
  The insert dialog of \<open>src/src/gridedit/rowOps.js\<close> over time: it opens in two steps (the columns
  are loaded, then the dialog is drawn for the table the session shows by then), its fields are
  typed into, its button may be pressed again before an answer came, and other handlers may
  change the table of the session meanwhile. RowOps holds the fields and what they resolve to.
\<close>

section \<open>Opening\<close>

record insert_dialog =
  nd_title :: string
  nd_entries :: "(string, col_info \<times> string) omap"
  nd_error :: string
  nd_open :: bool

text \<open>\<open>await ensurePkColumns(session)\<close>: without a table it throws. \<open>fetch\<close> is the helper's answer.\<close>

definition insert_columns :: "(string \<Rightarrow> col_info list) \<Rightarrow> string \<Rightarrow> world \<Rightarrow> (string list \<times> world) option" where
  "insert_columns fetch connId w = (case s_activeTable (session_of (wd_app w) connId) of
       None \<Rightarrow> None
     | Some t \<Rightarrow> (let (pks, s) = ensurePkColumns fetch (session_of (wd_app w) connId) t
                  in Some (pks, upd_app (update_session connId (\<lambda>_. s)) w)))"

definition insert_drawn :: "string list \<Rightarrow> string \<Rightarrow> world \<Rightarrow> (insert_dialog \<times> world) option" where
  "insert_drawn pks connId w = (let s = session_of (wd_app w) connId in case s_activeTable s of
       None \<Rightarrow> None
     | Some t \<Rightarrow> Some
         (\<lparr>nd_title = ''Insert into '' @ t_table t,
           nd_entries = insert_fields (case s_pkCache s of Some c \<Rightarrow> pk_columns c | None \<Rightarrow> []),
           nd_error = [], nd_open = True\<rparr>,
          if pks = [] then emit (Toast ''Table has no primary key; generated columns must be filled manually.'' ''info'') w
          else w))"

text \<open>The whole of it, when nothing happens while the columns are loaded.\<close>

definition openInsertDialog :: "(string \<Rightarrow> col_info list) \<Rightarrow> string \<Rightarrow> world \<Rightarrow> (insert_dialog \<times> world) option" where
  "openInsertDialog fetch connId w = Option.bind (insert_columns fetch connId w) (\<lambda>(pks, w1). insert_drawn pks connId w1)"

section \<open>Events\<close>

text \<open>
  \<open>Elsewhere\<close> is what another handler leaves as the session's table. \<open>Answered k\<close> is the answer to
  the \<open>k\<close>-th request in flight; each keeps the values it was sent with.
\<close>

datatype insert_event =
  Typed string string | Pressed | Answered nat "string + unit" reload | Closed | Elsewhere "table_ref option"

record insert_run =
  nr_dialog :: insert_dialog
  nr_flight :: "(string, jsval) omap list"
  nr_world :: world

definition type_into :: "string \<Rightarrow> string \<Rightarrow> insert_dialog \<Rightarrow> insert_dialog" where
  "type_into name v d = (case omap_get (nd_entries d) name of
       None \<Rightarrow> d
     | Some (c, _) \<Rightarrow> d\<lparr>nd_entries := omap_set (nd_entries d) name (c, v)\<rparr>)"

definition press_insert :: "string \<Rightarrow> insert_run \<Rightarrow> insert_run" where
  "press_insert connId r = (case s_activeTable (session_of (wd_app (nr_world r)) connId) of
       None \<Rightarrow> r\<lparr>nr_dialog := (nr_dialog r)\<lparr>nd_error := null_read ''database''\<rparr>\<rparr>
     | Some t \<Rightarrow> (let vals = insert_values (nd_entries (nr_dialog r))
                  in r\<lparr>nr_flight := nr_flight r @ [vals],
                       nr_world := emit (Fetch ''/table-insert'' ''POST'' (insert_body connId t vals)) (nr_world r)\<rparr>))"

text \<open>
  After the row was inserted: the dialog closes and the page is loaded again; the statement shown
  is built for the table of the session by then.
\<close>

definition insert_done :: "string \<Rightarrow> (string, jsval) omap \<Rightarrow> reload \<Rightarrow> insert_run \<Rightarrow> insert_run" where
  "insert_done connId vals rl r =
     (let d = (nr_dialog r)\<lparr>nd_open := False\<rparr>;
          s = session_of (wd_app (nr_world r)) connId;
          w = reload_page connId (case s_tableSnapshot s of Some n \<Rightarrow> sn_page n | None \<Rightarrow> 0) rl
                (upd_app (update_session connId invalidateRowCount) (nr_world r))
      in case s_activeTable (session_of (wd_app w) connId) of
           None \<Rightarrow> r\<lparr>nr_dialog := d\<lparr>nd_error := null_read ''schema''\<rparr>, nr_world := w\<rparr>
         | Some t \<Rightarrow> r\<lparr>nr_dialog := d, nr_world := emit (Toast (''Inserted row into '' @ t_table t) ''success'')
             (upd_app (update_session connId (setActionSql (Some (buildInsertSql (a_connections (wd_app w)) connId t vals)))) w)\<rparr>)"

definition insert_answered :: "string \<Rightarrow> nat \<Rightarrow> string + unit \<Rightarrow> reload \<Rightarrow> insert_run \<Rightarrow> insert_run" where
  "insert_answered connId k answer rl r = (case nth_opt (nr_flight r) k of
       None \<Rightarrow> r
     | Some vals \<Rightarrow>
        (let r1 = r\<lparr>nr_flight := take k (nr_flight r) @ drop (Suc k) (nr_flight r)\<rparr>
         in case answer of
              Inl e \<Rightarrow> r1\<lparr>nr_dialog := (nr_dialog r1)\<lparr>nd_error := e\<rparr>\<rparr>
            | Inr _ \<Rightarrow> insert_done connId vals rl r1))"

definition insert_step :: "string \<Rightarrow> insert_event \<Rightarrow> insert_run \<Rightarrow> insert_run" where
  "insert_step connId ev r = (case ev of
       Typed name v \<Rightarrow> if nd_open (nr_dialog r) then r\<lparr>nr_dialog := type_into name v (nr_dialog r)\<rparr> else r
     | Pressed \<Rightarrow> if nd_open (nr_dialog r) then press_insert connId r else r
     | Answered k answer rl \<Rightarrow> insert_answered connId k answer rl r
     | Closed \<Rightarrow> r\<lparr>nr_dialog := (nr_dialog r)\<lparr>nd_open := False\<rparr>\<rparr>
     | Elsewhere t \<Rightarrow> r\<lparr>nr_world := upd_app (update_session connId (s_activeTable_update (\<lambda>_. t))) (nr_world r)\<rparr>)"

lemma insert_step_simps:
  "insert_step i (Typed n v) r = (if nd_open (nr_dialog r) then r\<lparr>nr_dialog := type_into n v (nr_dialog r)\<rparr> else r)"
  "insert_step i Pressed r = (if nd_open (nr_dialog r) then press_insert i r else r)"
  "insert_step i (Answered k answer rl) r = insert_answered i k answer rl r"
  "insert_step i Closed r = r\<lparr>nr_dialog := (nr_dialog r)\<lparr>nd_open := False\<rparr>\<rparr>"
  "insert_step i (Elsewhere t) r = r\<lparr>nr_world := upd_app (update_session i (s_activeTable_update (\<lambda>_. t))) (nr_world r)\<rparr>"
  by (simp_all add: insert_step_def)

lemma load_finish_table: "s_activeTable (snd (load_finish cs columns p answer elapsed s)) = s_activeTable s"
  by (simp add: load_finish_def Let_def split: sum.splits option.splits)

lemma reload_table [simp]:
  "s_activeTable (session_of (wd_app (reload_page i page rl w)) i) = s_activeTable (session_of (wd_app w) i)"
  by (auto simp: reload_page_def Let_def session_of_update split: option.splits prod.splits)
     (metis load_finish_table snd_conv)+

text \<open>A press and its answer with nothing in between are the submission of RowOps.\<close>

lemma press_answer_is_submit:
  assumes "s_activeTable (session_of (wd_app (nr_world r)) i) = Some t" "nr_flight r = []"
  shows "nr_world (insert_answered i 0 answer rl (press_insert i r)) =
    snd (submit_insert (nd_entries (nr_dialog r)) answer rl i (nr_world r))"
  using assms
  by (simp add: press_insert_def insert_answered_def insert_done_def submit_insert_def Let_def session_of_update invalidateRowCount_def
      split: sum.splits)

section \<open>What is typed, what is sent\<close>

fun is_insert :: "string \<times> jsval \<Rightarrow> bool" where
  "is_insert (p, b) = (p = ''/table-insert'')"

definition inserts :: "insert_run \<Rightarrow> (string \<times> jsval) list" where
  "inserts r = filter is_insert (requests (wd_trace (nr_world r)))"

text \<open>The text a field holds after some events: what was typed into it last.\<close>

definition held_after :: "string \<Rightarrow> string \<Rightarrow> insert_event list \<Rightarrow> string" where
  "held_after name start es = foldl (\<lambda>v ev. case ev of Typed n v' \<Rightarrow> if n = name then v' else v | _ \<Rightarrow> v) start es"

abbreviation run_insert :: "string \<Rightarrow> insert_run \<Rightarrow> insert_event list \<Rightarrow> insert_run" where
  "run_insert connId \<equiv> run_events (insert_step connId)"

definition drawn_run :: "insert_dialog \<Rightarrow> world \<Rightarrow> insert_run" where
  "drawn_run d w = \<lparr>nr_dialog = d, nr_flight = [], nr_world = w\<rparr>"

lemma done_dialog [simp]:
  "nd_open (nr_dialog (insert_done i vals rl r)) = False"
  "nd_entries (nr_dialog (insert_done i vals rl r)) = nd_entries (nr_dialog r)"
  by (simp_all add: insert_done_def Let_def split: option.splits)

lemma answered_open: "nd_open (nr_dialog (insert_answered i k a rl r)) \<Longrightarrow> nd_open (nr_dialog r)"
  by (simp add: insert_answered_def Let_def split: option.splits sum.splits)

lemma answered_entries [simp]: "nd_entries (nr_dialog (insert_answered i k a rl r)) = nd_entries (nr_dialog r)"
  by (simp add: insert_answered_def Let_def split: option.splits sum.splits)

lemma press_dialog [simp]:
  "nd_open (nr_dialog (press_insert i r)) = nd_open (nr_dialog r)"
  "nd_entries (nr_dialog (press_insert i r)) = nd_entries (nr_dialog r)"
  by (simp_all add: press_insert_def Let_def split: option.splits)

lemma type_into_open [simp]: "nd_open (type_into n v d) = nd_open d"
  by (simp add: type_into_def split: option.splits)

lemma step_open: "nd_open (nr_dialog (insert_step i ev r)) \<Longrightarrow> nd_open (nr_dialog r)"
  by (cases ev) (auto simp: insert_step_def dest: answered_open split: if_splits)

lemma inserts_emit: "filter is_insert (requests (wd_trace (emit e w))) =
    filter is_insert (requests (wd_trace w)) @ filter is_insert (requests [e])"
  by (simp add: emit_def)

lemma reload_inserts: "filter is_insert (requests (wd_trace (reload_page i page rl w))) = filter is_insert (requests (wd_trace w))"
proof -
  obtain more where more: "requests (wd_trace (reload_page i page rl w)) = requests (wd_trace w) @ more"
    "\<forall>r \<in> set more. fst r = ''/table-rows''" using reload_requests by blast
  have "\<not> is_insert r" if "r \<in> set more" for r using more(2) that by (cases r) auto
  then have "filter is_insert more = []" by (simp add: filter_empty_conv)
  with more(1) show ?thesis by simp
qed

lemma answered_inserts: "inserts (insert_answered i k a rl r) = inserts r"
  by (auto simp: inserts_def insert_answered_def insert_done_def Let_def reload_inserts split: option.splits sum.splits)

text \<open>The fields as they are shown after some events, from those the dialog was drawn with.\<close>

definition shown :: "insert_dialog \<Rightarrow> insert_event list \<Rightarrow> (string, col_info \<times> string) omap" where
  "shown d es = map (\<lambda>(n, (c, h)). (n, (c, held_after n h es))) (nd_entries d)"

lemma shown_alt: "shown d es = map (\<lambda>(n, x). (n, (fst x, held_after n (snd x) es))) (nd_entries d)"
  by (simp add: shown_def case_prod_beta)

lemma omap_set_map:
  "omap_wf m \<Longrightarrow> omap_get m n \<noteq> None \<Longrightarrow>
     omap_set (map (\<lambda>(k, x). (k, f k x)) m) n y = map (\<lambda>(k, x). (k, if k = n then y else f k x)) m"
proof (induction m)
  case (Cons p m)
  obtain k x where p: "p = (k, x)" by (cases p)
  show ?case
  proof (cases "k = n")
    case True
    then have "n \<notin> fst ` set m" using Cons.prems(1) by (auto simp: p omap_wf_def omap_keys_def)
    then have "map (\<lambda>(k, x). (k, if k = n then y else f k x)) m = map (\<lambda>(k, x). (k, f k x)) m" by (auto simp: image_iff)
    with True show ?thesis by (simp add: p)
  next
    case False
    then show ?thesis using Cons by (auto simp: p omap_wf_def omap_keys_def)
  qed
qed simp

lemma shown_get: "omap_get (shown d es) n = map_option (\<lambda>(c, h). (c, held_after n h es)) (omap_get (nd_entries d) n)"
proof -
  have "omap_get (map (\<lambda>(n, (c, h)). (n, (c, held_after n h es))) m) n = map_option (\<lambda>(c, h). (c, held_after n h es)) (omap_get m n)"
    for m by (induction m) auto
  then show ?thesis by (simp add: shown_def)
qed

lemma shown_wf: "omap_wf (nd_entries d) \<Longrightarrow> omap_wf (shown d es)"
  by (simp add: omap_wf_def omap_keys_def shown_def comp_def case_prod_beta)

lemma held_snoc: "held_after n h (es @ [ev]) = held_after n (held_after n h es) [ev]"
  by (simp add: held_after_def)

lemma shown_typed:
  assumes "omap_wf (nd_entries d)" "nd_entries e = shown d es"
  shows "nd_entries (type_into n v e) = shown d (es @ [Typed n v])"
proof (cases "omap_get (nd_entries d) n")
  case None
  then have "\<forall>(k, x) \<in> set (nd_entries d). k \<noteq> n" by (force simp: omap_get_None omap_keys_def)
  then have "shown d (es @ [Typed n v]) = shown d es" by (auto simp: shown_def held_after_def)
  with None assms(2) shown_get [of d es n] show ?thesis by (simp add: type_into_def)
next
  case (Some ch)
  obtain c h where ch: "ch = (c, h)" by (cases ch)
  have "omap_get (nd_entries e) n = Some (c, held_after n h es)" using shown_get [of d es n] Some assms(2) by (simp add: ch)
  then have "nd_entries (type_into n v e) = omap_set (shown d es) n (c, v)" using assms(2) by (simp add: type_into_def)
  also have "\<dots> = map (\<lambda>(k, x). (k, if k = n then (c, v) else (fst x, held_after k (snd x) es))) (nd_entries d)"
    using omap_set_map [OF assms(1), of n "\<lambda>k x. (fst x, held_after k (snd x) es)" "(c, v)"] Some by (simp add: shown_alt)
  also have "\<dots> = shown d (es @ [Typed n v])"
    using omap_in_get [OF assms(1)] Some unfolding shown_alt by (fastforce simp: ch held_snoc held_after_def [of _ _ "[_]"])
  finally show ?thesis .
qed

text \<open>While the dialog is open, each field holds what was typed into it last.\<close>

lemma entries_shown:
  assumes "omap_wf (nd_entries d)"
  shows "nd_open (nr_dialog (run_insert i (drawn_run d w) es)) \<Longrightarrow>
    nd_entries (nr_dialog (run_insert i (drawn_run d w) es)) = shown d es"
proof (induction es rule: rev_induct)
  case Nil
  then show ?case by (simp add: drawn_run_def shown_def held_after_def)
next
  case (snoc ev es)
  let ?r = "run_insert i (drawn_run d w) es"
  from snoc.prems have o: "nd_open (nr_dialog ?r)" by (auto dest: step_open)
  note e = snoc.IH [OF o]
  have same: "shown d (es @ [ev]) = shown d es" if "\<forall>n v. ev \<noteq> Typed n v"
    using that by (cases ev) (simp_all add: shown_def held_snoc held_after_def [of _ _ "[_]"])
  show ?case
  proof (cases ev)
    case (Typed n v)
    then show ?thesis using o shown_typed [OF assms e] by (simp add: insert_step_simps)
  qed (use same e o in \<open>simp_all add: insert_step_simps\<close>)
qed

lemma drawn_wf: "openInsertDialog fetch i w0 = Some (d, w) \<Longrightarrow> omap_wf (nd_entries d) \<and> nd_open d"
  by (auto simp: openInsertDialog_def insert_drawn_def insert_fields_def omap_of_wf Let_def
      split: option.splits bind_splits)

fun is_press :: "insert_event \<Rightarrow> bool" where
  "is_press Pressed = True"
| "is_press ev = False"

text \<open>What the press at a moment sends, if it sends.\<close>

definition press_sends :: "string \<Rightarrow> insert_dialog \<Rightarrow> world \<Rightarrow> insert_event list \<Rightarrow> nat \<Rightarrow> (string \<times> jsval) option" where
  "press_sends i d w es k =
     (let r = run_insert i (drawn_run d w) (take k es) in
      if is_press (es ! k) \<and> nd_open (nr_dialog r)
      then map_option (\<lambda>t. (''/table-insert'', insert_body i t (insert_values (shown d (take k es)))))
             (s_activeTable (session_of (wd_app (nr_world r)) i))
      else None)"

lemma step_inserts:
  "inserts (insert_step i ev r) = inserts r @
     (case if is_press ev \<and> nd_open (nr_dialog r)
           then map_option (\<lambda>t. (''/table-insert'', insert_body i t (insert_values (nd_entries (nr_dialog r)))))
             (s_activeTable (session_of (wd_app (nr_world r)) i)) else None
      of None \<Rightarrow> [] | Some b \<Rightarrow> [b])"
  by (cases ev) (auto simp: insert_step_def answered_inserts, auto simp: inserts_def press_insert_def Let_def split: option.splits)

lemma closing_event:
  assumes "nd_open (nr_dialog r)" "\<not> nd_open (nr_dialog (insert_step i ev r))"
  shows "ev = Closed \<or> (\<exists>k rl. ev = Answered k (Inr ()) rl)"
  using assms by (cases ev) (auto simp: insert_step_def insert_answered_def Let_def split: option.splits sum.splits)

lemma map_filter_same: "(\<And>x. x \<in> set xs \<Longrightarrow> f x = g x) \<Longrightarrow> List.map_filter f xs = List.map_filter g xs"
  by (induction xs) (simp_all add: map_filter_simps split: option.splits)

lemma map_filter_snoc: "List.map_filter f (xs @ [x]) = List.map_filter f xs @ (case f x of None \<Rightarrow> [] | Some y \<Rightarrow> [y])"
  by (induction xs) (simp_all add: map_filter_simps split: option.splits)

text \<open>
  C27: Whatever happens while the insert dialog is open, what is sent is what the fields show.
  Exactly the presses made while it is open (and the session has a table) send an insert, in
  their order, to the table the session has at the press, with each column's value resolved
  from what was typed into its field last, or left out when nothing was typed; the dialog stays
  open, with what was typed, until it is dismissed or an insert succeeded.
\<close>

theorem insert_sends_what_is_shown:
  assumes "openInsertDialog fetch i w0 = Some (d, w)"
  shows "inserts (run_insert i (drawn_run d w) es) =
      inserts (drawn_run d w) @ List.map_filter (press_sends i d w es) [0..<length es] \<and>
    (\<forall>es1 n. omap_get (insert_values (shown d es1)) n =
       Option.bind (omap_get (nd_entries d) n) (\<lambda>(c, h). resolve_field c (held_after n h es1))) \<and>
    (nd_open (nr_dialog (run_insert i (drawn_run d w) es)) \<and>
       nd_entries (nr_dialog (run_insert i (drawn_run d w) es)) = shown d es \<or>
     (\<exists>ev \<in> set es. ev = Closed \<or> (\<exists>k rl. ev = Answered k (Inr ()) rl)))"
proof -
  note wf = conjunct1 [OF drawn_wf [OF assms]]
  have "inserts (run_insert i (drawn_run d w) es) =
      inserts (drawn_run d w) @ List.map_filter (press_sends i d w es) [0..<length es]"
  proof (induction es rule: rev_induct)
    case (snoc ev es)
    have "press_sends i d w (es @ [ev]) k = press_sends i d w es k" if "k < length es" for k
      using that by (simp add: press_sends_def nth_append Let_def)
    then have "List.map_filter (press_sends i d w (es @ [ev])) [0..<length es] = List.map_filter (press_sends i d w es) [0..<length es]"
      by (intro map_filter_same) simp
    with snoc show ?case
      using step_inserts [of i ev] entries_shown [OF wf, of i w es]
      by (simp add: map_filter_snoc press_sends_def [of i d w "es @ [ev]" "length es"] Let_def)
  qed (simp add: map_filter_simps)
  moreover have "omap_get (insert_values (shown d es1)) n =
      Option.bind (omap_get (nd_entries d) n) (\<lambda>(c, h). resolve_field c (held_after n h es1))" for es1 n
    using insert_values_get [OF shown_wf [OF wf], of es1 n] shown_get [of d es1 n]
    by (cases "omap_get (nd_entries d) n") (auto)
  moreover have "nd_open (nr_dialog (run_insert i (drawn_run d w) es)) \<or>
      (\<exists>ev \<in> set es. ev = Closed \<or> (\<exists>k rl. ev = Answered k (Inr ()) rl))"
  proof (induction es rule: rev_induct)
    case Nil
    then show ?case using drawn_wf [OF assms] by (simp add: drawn_run_def)
  next
    case (snoc ev es)
    then show ?case using closing_event [of "run_insert i (drawn_run d w) es" i ev] by auto
  qed
  ultimately show ?thesis using entries_shown [OF wf] by blast
qed

definition people_columns :: "string \<Rightarrow> col_info list" where
  "people_columns path = [id_column ''id'', id_column ''name'']"

definition people_dialog :: "insert_dialog \<times> world" where
  "people_dialog = the (openInsertDialog people_columns ''c'' grid_world)"

definition people_run :: "insert_event list \<Rightarrow> insert_run" where
  "people_run = run_insert ''c'' (drawn_run (fst people_dialog) (snd people_dialog))"

lemma people_opened: "openInsertDialog people_columns ''c'' grid_world = Some (fst people_dialog, snd people_dialog)"
proof -
  have "\<not> Option.is_none (openInsertDialog people_columns ''c'' grid_world)" by code_simp
  then show ?thesis by (cases "openInsertDialog people_columns ''c'' grid_world") (simp_all add: people_dialog_def)
qed

lemma insert_sends_what_is_shown_witness:
  "inserts (people_run [Typed ''name'' ''7'', Pressed]) =
     [(''/table-insert'', insert_body ''c'' (demo_table ''people'') [(''name'', VNum (NInt 7))])]"
proof -
  have "inserts (drawn_run (fst people_dialog) (snd people_dialog)) = []"
    "List.map_filter (press_sends ''c'' (fst people_dialog) (snd people_dialog) [Typed ''name'' ''7'', Pressed]) [0..<length [Typed ''name'' ''7'', Pressed]] =
      [(''/table-insert'', insert_body ''c'' (demo_table ''people'') [(''name'', VNum (NInt 7))])]" by code_simp+
  with conjunct1 [OF insert_sends_what_is_shown [OF people_opened, of "[Typed ''name'' ''7'', Pressed]"]]
  show ?thesis unfolding people_run_def by (simp only: append_Nil)
qed

section \<open>What modelling showed\<close>

text \<open>The button stays enabled while its request runs: pressing it twice inserts the row twice.\<close>

lemma insert_pressed_twice:
  "inserts (people_run [Typed ''name'' ''7'', Pressed, Pressed]) =
     (let b = (''/table-insert'', insert_body ''c'' (demo_table ''people'') [(''name'', VNum (NInt 7))]) in [b, b])"
  by code_simp

text \<open>
  The table is read at the press. When another table was opened meanwhile, the dialog still
  names the first, and its row goes to the second.
\<close>

lemma insert_after_switch:
  "let es = [Typed ''name'' ''7'', Elsewhere (Some (demo_table ''orders'')), Pressed] in
   nd_title (nr_dialog (people_run es)) = ''Insert into people'' \<and>
   inserts (people_run es) =
     [(''/table-insert'', insert_body ''c'' (demo_table ''orders'') [(''name'', VNum (NInt 7))])]"
  by code_simp

end
