(* ===== verification/DdlEditor.thy ===== *)
theory DdlEditor
  imports DialogDom
begin

text \<open>
  The code editor of the DDL tab (\<open>gridedit/structure.js\<close>). It is tracked by the module, apart
  from the pool of previews: a new tab, the closing of the dialog and its reopening dispose it.
  The DDL itself is awaited, so an answer may arrive after any of those. Editors are numbered
  in the order the host mounts them.
\<close>

record ddl =
  dd_tracked :: "nat option"
  dd_live :: "nat list"
  dd_next :: nat
  dd_open :: bool

definition no_ddl :: ddl where
  "no_ddl = \<lparr>dd_tracked = None, dd_live = [], dd_next = 0, dd_open = False\<rparr>"

definition disposeDdlEditor :: "ddl \<Rightarrow> ddl" where
  "disposeDdlEditor s = (case dd_tracked s of
       None \<Rightarrow> s | Some h \<Rightarrow> s\<lparr>dd_live := removeAll h (dd_live s), dd_tracked := None\<rparr>)"

text \<open>The body of \<open>renderDdl\<close> after its answer: an editor when the host mounts one.\<close>

definition ddl_arrives :: "bool \<Rightarrow> string \<Rightarrow> ddl \<Rightarrow> ddl" where
  "ddl_arrives mounts sql s =
     (if js_trim sql = [] \<or> \<not> mounts then s
      else s\<lparr>dd_tracked := Some (dd_next s), dd_live := dd_live s @ [dd_next s], dd_next := Suc (dd_next s)\<rparr>)"

text \<open>\<open>OtherModal\<close>: another form modal takes the screen, without this one's \<open>onClose\<close>.\<close>

datatype ddl_event = StructureOpens | TabShown | DdlArrives bool string | StructureCloses | OtherModal

definition ddl_step :: "ddl_event \<Rightarrow> ddl \<Rightarrow> ddl" where
  "ddl_step ev s = (case ev of
       StructureOpens \<Rightarrow> (disposeDdlEditor s)\<lparr>dd_open := True\<rparr>
     | TabShown \<Rightarrow> disposeDdlEditor s
     | DdlArrives mounts sql \<Rightarrow> ddl_arrives mounts sql s
     | StructureCloses \<Rightarrow> (disposeDdlEditor s)\<lparr>dd_open := False\<rparr>
     | OtherModal \<Rightarrow> s\<lparr>dd_open := False\<rparr>)"

section \<open>Nothing is left when answers come in time\<close>

text \<open>An answer in time: the dialog is open and no other editor is tracked.\<close>

fun in_time :: "ddl \<Rightarrow> ddl_event list \<Rightarrow> bool" where
  "in_time s [] = True"
| "in_time s (ev # evs) = ((case ev of DdlArrives m sql \<Rightarrow> dd_tracked s = None \<and> dd_open s | _ \<Rightarrow> True) \<and> in_time (ddl_step ev s) evs)"

definition ddl_inv :: "ddl \<Rightarrow> bool" where
  "ddl_inv s \<longleftrightarrow> dd_live s = (case dd_tracked s of None \<Rightarrow> [] | Some h \<Rightarrow> [h]) \<and> (\<forall>h. dd_tracked s = Some h \<longrightarrow> h < dd_next s)"

lemma ddl_step_inv:
  assumes "ddl_inv s" "case ev of DdlArrives m sql \<Rightarrow> dd_tracked s = None \<and> dd_open s | _ \<Rightarrow> True"
  shows "ddl_inv (ddl_step ev s)"
  using assms by (cases ev) (auto simp: ddl_inv_def ddl_step_def disposeDdlEditor_def ddl_arrives_def split: option.splits)

theorem ddl_editor_disposed:
  assumes "in_time no_ddl evs"
  shows "dd_live (ddl_step StructureCloses (run_events ddl_step no_ddl evs)) = []"
proof -
  have "ddl_inv s \<Longrightarrow> in_time s evs \<Longrightarrow> ddl_inv (run_events ddl_step s evs)" for s
    by (induction evs arbitrary: s) (simp_all add: ddl_step_inv)
  moreover have "ddl_inv no_ddl" by (simp add: ddl_inv_def no_ddl_def)
  ultimately have "ddl_inv (run_events ddl_step no_ddl evs)" using assms by blast
  then show ?thesis by (auto simp: ddl_inv_def ddl_step_def disposeDdlEditor_def split: option.splits)
qed

section \<open>What modelling showed\<close>

text \<open>
  A DDL that arrives after the dialog was closed mounts an editor in a node that is no longer in
  the page, and nothing disposes it until a structure dialog is opened again.
\<close>

lemma ddl_editor_after_close:
  "dd_live (run_events ddl_step no_ddl [StructureOpens, TabShown, StructureCloses, DdlArrives True ''CREATE TABLE t (a int)'']) = [0]"
  by code_simp

text \<open>Pressing the DDL tab twice before the first answer mounts two editors; one is never disposed.\<close>

lemma ddl_editor_twice:
  "dd_live (run_events ddl_step no_ddl [StructureOpens, TabShown, TabShown, DdlArrives True ''x'', DdlArrives True ''x'',
     StructureCloses, StructureOpens, StructureCloses]) = [0]"
  by code_simp

end
