(* ===== verification/ResultPane.thy ===== *)
theory ResultPane
  imports GridPages
begin

text \<open>
  A result on screen over time (\<open>renderResultGrid\<close> of \<open>grid/resultGrid.js\<close>): the search box waits
  160 milliseconds after the last key, the header and the pager act at once, and the question
  whether the result can be edited is answered later, when the pane may be gone. \<open>rp_timer\<close> is
  the pending search with the time it is due.
\<close>

section \<open>The pane over time\<close>

record result_pane =
  rp_grid :: rgrid
  rp_timer :: "(int \<times> string) option"
  rp_ctx :: "edit_ctx option"
  rp_connected :: bool

datatype pane_event =
    TypeSearch string int | ClockAt int | HeaderPress nat | PrevPress | NextPress
  | EditResolved "edit_ctx option" | PaneRemoved

definition SEARCH_DELAY_MS :: int where
  "SEARCH_DELAY_MS = 160"

definition open_result :: "jsval list list \<Rightarrow> result_pane" where
  "open_result rows = \<lparr>rp_grid = initial_grid rows, rp_timer = None, rp_ctx = None, rp_connected = True\<rparr>"

definition run_search :: "(string \<Rightarrow> string \<Rightarrow> int) \<Rightarrow> nat \<Rightarrow> jsval list list \<Rightarrow> int \<Rightarrow> result_pane \<Rightarrow> result_pane" where
  "run_search collate pageSize rows now p = (case rp_timer p of
       None \<Rightarrow> p
     | Some (due, v) \<Rightarrow> if now < due then p
         else p\<lparr>rp_timer := None, rp_grid := applyFilter collate pageSize rows (js_trim v) (rp_grid p)\<rparr>)"

definition edit_resolved :: "edit_ctx option \<Rightarrow> result_pane \<Rightarrow> result_pane" where
  "edit_resolved resolved p = (if resolved = None \<or> \<not> rp_connected p then p else p\<lparr>rp_ctx := resolved\<rparr>)"

definition pane_step :: "(string \<Rightarrow> string \<Rightarrow> int) \<Rightarrow> nat \<Rightarrow> jsval list list \<Rightarrow> pane_event \<Rightarrow> result_pane \<Rightarrow> result_pane" where
  "pane_step collate pageSize rows ev p = (case ev of
       TypeSearch v now \<Rightarrow> p\<lparr>rp_timer := Some (now + SEARCH_DELAY_MS, v)\<rparr>
     | ClockAt now \<Rightarrow> run_search collate pageSize rows now p
     | HeaderPress ci \<Rightarrow> p\<lparr>rp_grid := toggleSort collate pageSize rows ci (rp_grid p)\<rparr>
     | PrevPress \<Rightarrow> p\<lparr>rp_grid := prevPage pageSize (rp_grid p)\<rparr>
     | NextPress \<Rightarrow> p\<lparr>rp_grid := nextPage pageSize (rp_grid p)\<rparr>
     | EditResolved resolved \<Rightarrow> edit_resolved resolved p
     | PaneRemoved \<Rightarrow> p\<lparr>rp_connected := False\<rparr>)"

text \<open>What is drawn: the tree of theory GridPages.\<close>

definition pane_nodes ::
  "icon_host \<Rightarrow> (nat \<Rightarrow> string) \<Rightarrow> bool \<Rightarrow> nat \<Rightarrow> string \<Rightarrow> string option \<Rightarrow> string list \<Rightarrow> jsval list list \<Rightarrow>
     bool \<Rightarrow> bool \<Rightarrow> int \<Rightarrow> result_pane \<Rightarrow> result_act control_act dom_node list" where
  "pane_nodes host fmt mounts pageSize sql language columns rows truncated bySize elapsed p =
     renderResultGrid host fmt mounts pageSize sql language columns rows truncated bySize elapsed (rp_ctx p) (rp_grid p)"

section \<open>What is on screen belongs to the last search\<close>

lemma pane_step_reach:
  "grid_reach collate ps rows (rp_grid p) \<Longrightarrow> grid_reach collate ps rows (rp_grid (pane_step collate ps rows ev p))"
  by (cases ev) (auto simp: pane_step_def run_search_def edit_resolved_def intro: grid_reach.grid_next grid_step.intros
      split: option.splits)

interpretation pane: event_machine "pane_step collate ps rows" "open_result rows" "\<lambda>p. grid_reach collate ps rows (rp_grid p)"
  for collate ps rows
  by unfold_locales (simp_all add: pane_step_reach open_result_def grid_reach.grid_start)

text \<open>The text last typed; nothing typed is the empty search.\<close>

fun typed :: "string \<Rightarrow> pane_event list \<Rightarrow> string" where
  "typed v [] = v"
| "typed v (TypeSearch u now # evs) = typed u evs"
| "typed v (ev # evs) = typed v evs"

lemma typed_snoc: "typed v (evs @ [ev]) = (case ev of TypeSearch u now \<Rightarrow> u | _ \<Rightarrow> typed v evs)"
  by (induction v evs rule: typed.induct) (simp_all split: pane_event.splits)

lemma toggle_query [simp]: "g_query (toggleSort collate ps rows ci g) = g_query g"
  by (simp add: toggleSort_def applyFilter_def)

lemma pager_query [simp]: "g_query (prevPage ps g) = g_query g" "g_query (nextPage ps g) = g_query g"
  by (simp_all add: prevPage_def nextPage_def)

definition says_search :: "string \<Rightarrow> result_pane \<Rightarrow> bool" where
  "says_search v p = (case rp_timer p of None \<Rightarrow> g_query (rp_grid p) = js_trim v | Some (due, u) \<Rightarrow> u = v)"

lemma pane_step_search:
  "says_search v p \<Longrightarrow> says_search (case ev of TypeSearch u now \<Rightarrow> u | _ \<Rightarrow> v) (pane_step collate ps rows ev p)"
  by (cases ev) (auto simp: pane_step_def run_search_def edit_resolved_def says_search_def applyFilter_def split: option.splits)

lemma pane_search: "says_search (typed [] evs) (run_events (pane_step collate ps rows) (open_result rows) evs)"
proof (induction evs rule: rev_induct)
  case Nil
  have "js_trim [] = []" by code_simp
  then show ?case by (simp add: open_result_def initial_grid_def says_search_def)
next
  case (snoc ev evs)
  then show ?case using pane_step_search [OF snoc] by (simp add: typed_snoc)
qed

text \<open>Where an editable result comes from.\<close>

lemma pane_connected:
  "rp_connected (run_events (pane_step collate ps rows) (open_result rows) evs) \<longleftrightarrow> PaneRemoved \<notin> set evs"
proof (induction evs rule: rev_induct)
  case (snoc ev evs)
  then show ?case by (cases ev) (auto simp: pane_step_def run_search_def edit_resolved_def split: option.splits)
qed (simp add: open_result_def)

lemma pane_edit:
  "\<forall>x. rp_ctx (run_events (pane_step collate ps rows) (open_result rows) evs) = Some x \<longrightarrow>
     (\<exists>before after. evs = before @ EditResolved (Some x) # after \<and> PaneRemoved \<notin> set before)"
proof (induction evs rule: rev_induct)
  case (snoc ev evs)
  let ?s = "run_events (pane_step collate ps rows) (open_result rows) evs"
  show ?case
  proof (intro allI impI)
    fix x assume x: "rp_ctx (run_events (pane_step collate ps rows) (open_result rows) (evs @ [ev])) = Some x"
    show "\<exists>before after. evs @ [ev] = before @ EditResolved (Some x) # after \<and> PaneRemoved \<notin> set before"
    proof (cases "rp_ctx ?s = Some x")
      case True
      with snoc obtain b a where "evs = b @ EditResolved (Some x) # a" "PaneRemoved \<notin> set b" by blast
      then show ?thesis by (intro exI [of _ b] exI [of _ "a @ [ev]"]) simp
    next
      case False
      with x have "ev = EditResolved (Some x)" "rp_connected ?s"
        by (cases ev; auto simp: pane_step_def run_search_def edit_resolved_def split: option.splits if_splits)+
      then show ?thesis using pane_connected [of collate ps rows evs] by (intro exI [of _ evs] exI [of _ "[]"]) simp
    qed
  qed
qed (simp add: open_result_def)

text \<open>
  C33: Once no search is pending, the pages of a result together show the matches of the text
  last typed, all of them and no others, in the order of the result when no column is sorted,
  whatever was sorted, paged and typed before; the page shown is one of them; and cells are
  editable only after the result was recognised as editable while its pane was on screen.
\<close>

theorem pane_shows_last_search:
  assumes p: "p = run_events (pane_step collate ps rows) (open_result rows) evs" and "rp_timer p = None" and "ps > 0"
  shows "mset (concat (map (page_rows ps (rp_grid p)) [0..<total_pages ps (length (g_filtered (rp_grid p)))]))
      = mset (visible rows (js_trim (typed [] evs)))
    \<and> (g_sortCol (rp_grid p) = None \<longrightarrow>
        concat (map (page_rows ps (rp_grid p)) [0..<total_pages ps (length (g_filtered (rp_grid p)))]) = visible rows (js_trim (typed [] evs)))
    \<and> g_page (rp_grid p) < total_pages ps (length (g_filtered (rp_grid p)))
    \<and> (\<forall>x. rp_ctx p = Some x \<longrightarrow> (\<exists>before after. evs = before @ EditResolved (Some x) # after \<and> PaneRemoved \<notin> set before))"
proof -
  have reach: "grid_reach collate ps rows (rp_grid p)" unfolding p by (rule pane.run_inv)
  have q: "g_query (rp_grid p) = js_trim (typed [] evs)"
    using pane_search [of evs collate ps rows] assms(2) unfolding p by (simp add: says_search_def)
  note shown = result_grid_shows_all_matches [OF reach assms(3), unfolded q]
  have pages: "concat (map (page_rows ps (rp_grid p)) [0..<total_pages ps (length (g_filtered (rp_grid p)))]) = g_filtered (rp_grid p)"
    using shown by blast
  have "\<forall>x. rp_ctx p = Some x \<longrightarrow> (\<exists>before after. evs = before @ EditResolved (Some x) # after \<and> PaneRemoved \<notin> set before)"
    unfolding p by (rule pane_edit)
  with shown show ?thesis unfolding pages by blast
qed

text \<open>Typing twice, paging and sorting: what is shown is the second search.\<close>

theorem pane_shows_last_search_witness:
  "mset (concat (map (page_rows 1 (rp_grid (run_events (pane_step (\<lambda>a b. 0) 1 two_rows) (open_result two_rows)
      [TypeSearch ''x'' 0, HeaderPress 0, NextPress, TypeSearch '' b '' 100, ClockAt 200, ClockAt 260]))) [0..<1])) = {# two_rows ! 0 #}"
proof -
  let ?evs = "[TypeSearch ''x'' 0, HeaderPress 0, NextPress, TypeSearch '' b '' 100, ClockAt 200, ClockAt 260]"
  let ?p = "run_events (pane_step (\<lambda>a b. 0) 1 two_rows) (open_result two_rows) ?evs"
  have "rp_timer ?p = None" by code_simp
  moreover have "total_pages 1 (length (g_filtered (rp_grid ?p))) = 1" by code_simp
  moreover have "visible two_rows (js_trim (typed [] ?evs)) = [two_rows ! 0]" by code_simp
  ultimately show ?thesis using pane_shows_last_search [OF refl, of "\<lambda>a b. 0" 1 two_rows ?evs] by simp
qed

end
