(* ===== verification/Splitter.thy ===== *)
theory Splitter
  imports Workbench
begin

text \<open>
  The bar between the query editor and the results (\<open>renderQueryEditor\<close> of \<open>render/panel.js\<close>):
  a press on it puts three listeners on the document and changes the page's cursor and text
  selection until the pointer is released or cancelled; the arrow keys move it by 16 pixels.
  Heights are whole pixels. A second pointer may press while the first still drags, so the
  listeners are a list, one entry per press.
\<close>

record splitter =
  sp_height :: "int option"
  sp_drags :: "int list"
  sp_class :: bool
  sp_cursor :: string
  sp_select :: string

text \<open>
  \<open>PointerDown\<close> carries the button, if the event has one, its pointer and whether the editor is
  in the page; \<open>KeyPress\<close> the height the page computes, 0 when there is none.
\<close>

datatype splitter_event =
    PointerDown "int option" int bool | PointerMove layout int | PointerUp | PointerCancel | KeyPress bool int

definition on_down :: "int option \<Rightarrow> int \<Rightarrow> bool \<Rightarrow> splitter \<Rightarrow> splitter" where
  "on_down button pointer hasEditor s =
     (if button \<noteq> None \<and> button \<noteq> Some 0 then s
      else if \<not> hasEditor then s
      else s\<lparr>sp_class := True, sp_cursor := ''ns-resize'', sp_select := ''none'', sp_drags := sp_drags s @ [pointer]\<rparr>)"

definition on_move :: "layout \<Rightarrow> int \<Rightarrow> splitter \<Rightarrow> splitter" where
  "on_move l y s = foldl (\<lambda>s pointer. s\<lparr>sp_height := Some (drag_height l y)\<rparr>) s (sp_drags s)"

definition on_up :: "splitter \<Rightarrow> splitter" where
  "on_up s = foldl (\<lambda>s pointer. s\<lparr>sp_class := False, sp_cursor := [], sp_select := [], sp_drags := remove1 pointer (sp_drags s)\<rparr>)
     s (sp_drags s)"

definition on_splitter :: "splitter_event \<Rightarrow> splitter \<Rightarrow> splitter" where
  "on_splitter ev s = (case ev of
       PointerDown button pointer hasEditor \<Rightarrow> on_down button pointer hasEditor s
     | PointerMove l y \<Rightarrow> on_move l y s
     | PointerUp \<Rightarrow> on_up s
     | PointerCancel \<Rightarrow> on_up s
     | KeyPress upward cur \<Rightarrow> s\<lparr>sp_height := Some (key_height upward cur)\<rparr>)"

definition mount_splitter :: "int option \<Rightarrow> splitter" where
  "mount_splitter h = \<lparr>sp_height = h, sp_drags = [], sp_class = False, sp_cursor = [], sp_select = []\<rparr>"

section \<open>The page is as before once the pointer is up\<close>

definition splitter_inv :: "splitter \<Rightarrow> bool" where
  "splitter_inv s \<longleftrightarrow> (sp_class s \<longleftrightarrow> sp_drags s \<noteq> []) \<and>
     sp_cursor s = (if sp_drags s = [] then [] else ''ns-resize'') \<and> sp_select s = (if sp_drags s = [] then [] else ''none'')"

lemma release_all:
  "foldl (\<lambda>s pointer. s\<lparr>sp_class := False, sp_cursor := [], sp_select := [], sp_drags := remove1 pointer (sp_drags s)\<rparr>) s (p # ps)
     = s\<lparr>sp_class := False, sp_cursor := [], sp_select := [], sp_drags := foldl (\<lambda>ds p. remove1 p ds) (sp_drags s) (p # ps)\<rparr>"
proof (induction ps arbitrary: s p)
  case (Cons q ps)
  show ?case by (subst foldl_Cons, subst Cons.IH) simp
qed simp

lemma remove_all: "foldl (\<lambda>ds p. remove1 p ds) xs xs = []"
proof (induction xs)
  case (Cons x xs)
  then show ?case by simp
qed simp

lemma on_up_eq: "on_up s = (if sp_drags s = [] then s else s\<lparr>sp_class := False, sp_cursor := [], sp_select := [], sp_drags := []\<rparr>)"
proof (cases "sp_drags s")
  case (Cons p ps)
  have "foldl (\<lambda>ds p. remove1 p ds) (p # ps) (p # ps) = []" by (rule remove_all)
  then show ?thesis unfolding on_up_def Cons release_all by (simp add: Cons)
qed (simp add: on_up_def)

lemma on_move_eq: "on_move l y s = (if sp_drags s = [] then s else s\<lparr>sp_height := Some (drag_height l y)\<rparr>)"
proof -
  have "foldl (\<lambda>s pointer. s\<lparr>sp_height := Some (drag_height l y)\<rparr>) s (p # ps) = s\<lparr>sp_height := Some (drag_height l y)\<rparr>"
    for s p and ps :: "int list"
    by (induction ps arbitrary: s) simp_all
  then show ?thesis by (cases "sp_drags s") (simp_all only: on_move_def foldl_Nil, simp_all)
qed

lemma splitter_step_inv: "splitter_inv s \<Longrightarrow> splitter_inv (on_splitter ev s)"
  by (cases ev) (auto simp: on_splitter_def on_down_def on_up_eq on_move_eq splitter_inv_def)

interpretation split: event_machine on_splitter "mount_splitter h" splitter_inv for h
  by unfold_locales (simp_all add: splitter_step_inv, simp add: mount_splitter_def splitter_inv_def)

lemma split_height:
  "case sp_height (run_events on_splitter (mount_splitter h) evs) of Some y \<Rightarrow> Some y = h \<or> y \<ge> MIN_EDITOR | None \<Rightarrow> h = None"
proof (induction evs rule: rev_induct)
  case (snoc ev evs)
  then show ?case
    by (cases ev) (auto simp: on_splitter_def on_down_def on_up_eq on_move_eq drag_height_def key_height_def MIN_EDITOR_def Let_def
        split: option.splits)
qed (simp add: mount_splitter_def split: option.splits)

text \<open>
  Over any presses, moves, releases and keys: while nothing is pressed the page has its own
  cursor and selection again and no listener of the splitter is left on the document, so moving
  the pointer then changes nothing; and the editor is never made lower than 80 pixels.
\<close>

theorem splitter_releases_page:
  assumes s: "s = run_events on_splitter (mount_splitter h) evs"
  shows "sp_drags (on_splitter PointerUp s) = [] \<and> sp_cursor (on_splitter PointerUp s) = [] \<and> sp_select (on_splitter PointerUp s) = []
    \<and> \<not> sp_class (on_splitter PointerUp s)
    \<and> (sp_drags s = [] \<longrightarrow> sp_cursor s = [] \<and> sp_select s = [] \<and> on_splitter (PointerMove l y) s = s)
    \<and> (\<forall>n. sp_height s = Some n \<longrightarrow> Some n = h \<or> n \<ge> MIN_EDITOR)"
proof -
  have inv: "splitter_inv s" unfolding s by (rule split.run_inv)
  have up: "splitter_inv (on_splitter PointerUp s)" using inv by (rule splitter_step_inv)
  moreover have "sp_drags (on_splitter PointerUp s) = []" by (simp add: on_splitter_def on_up_eq)
  moreover have "\<forall>n. sp_height s = Some n \<longrightarrow> Some n = h \<or> n \<ge> MIN_EDITOR" using split_height [of h evs] s by (auto split: option.splits)
  ultimately show ?thesis using inv by (auto simp: splitter_inv_def on_splitter_def on_move_eq)
qed

end
