(* ===== verification/AiTools.thy ===== *)
theory AiTools
  imports Ai
begin

text \<open>
  The tools of \<open>src/src/ai.js\<close> as the host sees them: the declarations \<open>registerAiTools\<close>
  contributes, the handlers it registers under their names, and a call with the JSON object of
  its arguments. A declared argument has its declared type or is left out (the host checks a
  call against the declaration).
\<close>

section \<open>Declarations\<close>

record tool_decl =
  td_name :: string
  td_description :: string
  td_parameters :: jsval
  td_approval :: "string option"

datatype ai_tool = ToolConnections | ToolSchema | ToolQuery

definition text_param :: "string option \<Rightarrow> jsval" where
  "text_param d = VObj ([(''type'', VStr ''string'')] @ (case d of None \<Rightarrow> [] | Some t \<Rightarrow> [(''description'', VStr t)]))"

definition params :: "(string \<times> jsval) list \<Rightarrow> string list \<Rightarrow> jsval" where
  "params ps req = VObj ([(''type'', VStr ''object''), (''properties'', VObj ps)] @
     (if req = [] then [] else [(''required'', VArr (map VStr req))]))"

definition TOOLS :: "(tool_decl \<times> ai_tool) list" where
  "TOOLS = [
     (\<lparr>td_name = ''sql_connections'',
       td_description = ''List the saved database connections: id, name, engine, host, database, and whether writes are allowed. Read-only. Start here - every other sql_* tool takes a connection id from this list.'',
       td_parameters = params [] [], td_approval = None\<rparr>, ToolConnections),
     (\<lparr>td_name = ''sql_schema'',
       td_description = ''Browse a connection'' @ [CHR 0x27] @ ''s structure: its databases, a database'' @ [CHR 0x27] @ ''s schemas, or a schema'' @ [CHR 0x27] @ ''s tables and views. Connects first if needed. Read-only. Use it to find real table names before writing a query, rather than guessing them.'',
       td_parameters = params
         [(''connectionId'', text_param (Some ''From sql_connections.'')),
          (''database'', text_param (Some ''Omit to list databases.'')),
          (''schema'', text_param (Some (''With database: list that schema'' @ [CHR 0x27] @ ''s tables.'')))] [''connectionId''],
       td_approval = None\<rparr>, ToolSchema),
     (\<lparr>td_name = ''sql_query'',
       td_description = ''Run SQL against a saved connection and return the rows. Connects first if needed. A read-only connection refuses anything that writes. A statement that drops or empties an object, or an UPDATE/DELETE with no WHERE, is REFUSED with the reason and needs an explicit confirm to run - the same guard the Run button raises, which a model may not click through. Rows are capped; add your own LIMIT for more control.'',
       td_parameters = params
         [(''connectionId'', text_param (Some ''From sql_connections.'')), (''sql'', text_param None),
          (''database'', text_param (Some ''Run against this database/schema context.'')), (''schema'', text_param None),
          (''confirm'', VObj [(''type'', VStr ''boolean''),
             (''description'', VStr ''Required to run a statement the destructive check refused.'')])]
         [''connectionId'', ''sql''],
       td_approval = Some ''needsApproval''\<rparr>, ToolQuery)]"

text \<open>The host's two functions may be missing; the second component is what each is given.\<close>

definition registerAiTools :: "bool \<Rightarrow> bool \<Rightarrow> bool \<times> tool_decl list \<times> (string \<times> ai_tool) list" where
  "registerAiTools can_contribute can_handle =
     (if \<not> can_contribute then (False, [], [])
      else (True, map fst TOOLS, if can_handle then map (\<lambda>(d, tool). (td_name d, tool)) TOOLS else []))"

section \<open>Calls\<close>

definition text_arg :: "string \<Rightarrow> jsval \<Rightarrow> string option" where
  "text_arg k args = (case jget args k of VStr s \<Rightarrow> Some s | _ \<Rightarrow> None)"

definition text_or_empty :: "string \<Rightarrow> jsval \<Rightarrow> string" where
  "text_or_empty k args = (case text_arg k args of Some s \<Rightarrow> s | None \<Rightarrow> [])"

text \<open>A connection id left out is looked up as \<open>undefined\<close>.\<close>

definition conn_arg :: "jsval \<Rightarrow> string" where
  "conn_arg args = (case text_arg ''connectionId'' args of Some s \<Rightarrow> s | None \<Rightarrow> ''undefined'')"

definition query_args_of :: "jsval \<Rightarrow> query_args" where
  "query_args_of args = \<lparr>qr_conn = conn_arg args, qr_sql = text_or_empty ''sql'' args, qr_database = text_arg ''database'' args,
     qr_schema = text_arg ''schema'' args, qr_confirm = (jget args ''confirm'' = VBool True)\<rparr>"

definition call_tool ::
  "ssh_api \<Rightarrow> tree_answers \<Rightarrow> string + stmt_result list \<Rightarrow> string \<Rightarrow> ai_tool \<Rightarrow> jsval \<Rightarrow> world \<Rightarrow> (string + jsval) \<times> world" where
  "call_tool ssh ans answer requestId tool args w = (case tool of
       ToolConnections \<Rightarrow> (Inr (sql_connections (a_connections (wd_app w))), w)
     | ToolSchema \<Rightarrow> sql_schema ssh ans (conn_arg args) (text_or_empty ''database'' args) (text_or_empty ''schema'' args) w
     | ToolQuery \<Rightarrow> sql_query ssh ans answer requestId (query_args_of args) w)"

section \<open>What a tool may do is what it declares\<close>

lemma sql_schema_no_query:
  assumes "sql_schema ssh ans i d s w = (r, w')"
  shows "no_query w w'"
proof (cases "connOr (a_connections (wd_app w)) i")
  case (Inr c)
  obtain q w1 where e: "ensureConnected ssh ans (c_id c) w = (q, w1)" by fastforce
  note connected = ensureConnected_no_query [OF e]
  show ?thesis
  proof (cases q)
    case (Inr u)
    then show ?thesis
      using assms Inr e connected \<open>connOr (a_connections (wd_app w)) i = Inr c\<close>
      by (auto simp: sql_schema_def treeLoadDatabases_def treeLoadDbChildren_def treeLoadTables_def no_query_def Let_def
          query_texts_def databases_path_def schemas_path_def tables_path_def split: if_splits sum.splits option.splits prod.splits)
  qed (use assms Inr e connected in \<open>auto simp: sql_schema_def\<close>)
qed (use assms in \<open>auto simp: sql_schema_def\<close>)

text \<open>The call with only the arguments a tool declares.\<close>

definition declared :: "tool_decl \<Rightarrow> string list" where
  "declared d = (case jget (td_parameters d) ''properties'' of VObj ps \<Rightarrow> map fst ps | _ \<Rightarrow> [])"

definition only_declared :: "tool_decl \<Rightarrow> (string, jsval) omap \<Rightarrow> jsval" where
  "only_declared d kvs = VObj (filter (\<lambda>(k, v). k \<in> set (declared d)) kvs)"

lemma jget_only: "k \<in> set (declared d) \<Longrightarrow> jget (only_declared d kvs) k = jget (VObj kvs) k"
  by (induction kvs) (auto simp: only_declared_def split: prod.splits)

lemma TOOLS_cases:
  assumes "(d, tool) \<in> set TOOLS"
  obtains "tool = ToolConnections" "td_approval d = None"
  | "tool = ToolSchema" "td_approval d = None" "declared d = [''connectionId'', ''database'', ''schema'']"
  | "tool = ToolQuery" "td_approval d = Some ''needsApproval''"
      "declared d = [''connectionId'', ''sql'', ''database'', ''schema'', ''confirm'']"
  using assms by (auto simp: TOOLS_def declared_def params_def)



end
