(* ===== verification/Surface.thy ===== *)
theory Surface
  imports DialogDom TreeCheck "HOL-Library.Sublist"
begin

text \<open>
  What the extension puts on the host's surfaces: toasts and clipboard writes with their
  fallbacks (\<open>dom/feedback.js\<close>), the sidebar section and its header buttons (\<open>tree/view.js\<close>), the
  context menu of a node (\<open>tree/menu.js\<close>), the container of the pane (\<open>index.js\<close>) and the
  tooltip bubble over the element trees (\<open>dom/tooltip.js\<close>). Which functions the host has, and
  whether a call throws, are arguments.
\<close>

section \<open>Toasts and the clipboard\<close>

text \<open>Without a host or its \<open>ui\<close> nothing happens; a toast that throws is logged instead.\<close>

datatype toast_host = NoToastApi | ToastWorks | ToastThrows

datatype feedback = Toasted string string | Logged string

definition safeToast :: "toast_host \<Rightarrow> string \<Rightarrow> string \<Rightarrow> feedback list" where
  "safeToast host message variant = (case host of
       NoToastApi \<Rightarrow> [] | ToastWorks \<Rightarrow> [Toasted message variant] | ToastThrows \<Rightarrow> [Logged message])"

text \<open>The new content of the clipboard, and what the user is told.\<close>

definition copyToClipboard :: "toast_host \<Rightarrow> bool \<Rightarrow> string \<Rightarrow> string \<Rightarrow> string \<Rightarrow> string \<times> feedback list" where
  "copyToClipboard host works old txt label =
     (if works then (txt, safeToast host label ''success'')
      else (old, safeToast host ''Copy failed (clipboard unavailable)'' ''error''))"

text \<open>The user is told that a text was copied only when it is what the clipboard holds.\<close>

lemma copy_is_honest:
  assumes "copyToClipboard ToastWorks works old txt label = (clip, told)" "label \<noteq> ''Copy failed (clipboard unavailable)''"
  shows "(Toasted label ''success'' \<in> set told \<longrightarrow> clip = txt) \<and> (clip \<noteq> txt \<longrightarrow> clip = old)"
  using assms by (auto simp: copyToClipboard_def safeToast_def split: if_splits)

section \<open>The sidebar section\<close>

definition SIDEBAR_SECTION_ID :: string where
  "SIDEBAR_SECTION_ID = ''connections''"

record header_action =
  ha_id :: string
  ha_icon :: string
  ha_tooltip :: string

definition HEADER_ACTIONS :: "header_action list" where
  "HEADER_ACTIONS = [
     \<lparr>ha_id = ''add'', ha_icon = ''lucide:Plus'', ha_tooltip = ''New connection''\<rparr>,
     \<lparr>ha_id = ''import'', ha_icon = ''lucide:Download'', ha_tooltip = ''Import connections (.tedi-sql)''\<rparr>,
     \<lparr>ha_id = ''export'', ha_icon = ''lucide:Upload'', ha_tooltip = ''Export connections (.tedi-sql)''\<rparr>,
     \<lparr>ha_id = ''refresh'', ha_icon = ''lucide:RefreshCw'', ha_tooltip = ''Reload tree''\<rparr>]"

datatype header_effect = OpensConnectionDialog | OpensImport | OpensExport | ReloadsTree

definition onHeaderAction :: "string \<Rightarrow> header_effect option" where
  "onHeaderAction a =
     (if a = ''add'' then Some OpensConnectionDialog
      else if a = ''import'' then Some OpensImport
      else if a = ''export'' then Some OpensExport
      else if a = ''refresh'' then Some ReloadsTree
      else None)"

record section_view =
  se_id :: string
  se_title :: string
  se_icon :: string
  se_actions :: "header_action list"
  se_items :: "conn_row list"
  se_emptyText :: string
  se_searchable :: bool
  se_movable :: bool

definition section_of :: "app \<Rightarrow> tree \<Rightarrow> section_view" where
  "section_of a t = \<lparr>se_id = SIDEBAR_SECTION_ID, se_title = ''Databases'', se_icon = ''lucide:Database'',
     se_actions = HEADER_ACTIONS, se_items = buildTreeItems a t,
     se_emptyText = ''No connections yet. Click + to add one.'', se_searchable = True, se_movable = True\<rparr>"

text \<open>The host without a sidebar is \<open>None\<close>; \<open>Some False\<close> throws, which is logged.\<close>

definition syncSidebarSection :: "bool option \<Rightarrow> app \<Rightarrow> tree \<Rightarrow> section_view option \<Rightarrow> section_view option \<times> bool" where
  "syncSidebarSection host a t shown = (case host of
       None \<Rightarrow> (shown, False) | Some True \<Rightarrow> (Some (section_of a t), False) | Some False \<Rightarrow> (shown, True))"

text \<open>Every header button does something, and no two do the same.\<close>

lemma header_actions_handled:
  "distinct (map (\<lambda>h. onHeaderAction (ha_id h)) HEADER_ACTIONS) \<and> None \<notin> set (map (\<lambda>h. onHeaderAction (ha_id h)) HEADER_ACTIONS)"
  by code_simp

text \<open>The menu of a node, at the point of the click; a host that cannot show it is logged.\<close>

definition openTreeContextMenu :: "conn list \<Rightarrow> string \<Rightarrow> int \<times> int \<Rightarrow> (menu_entry list \<times> (int \<times> int)) option" where
  "openTreeContextMenu cs i at = map_option (\<lambda>es. (es, at)) (menuItemsFor cs (parseNid i))"

section \<open>Fresh ids\<close>

text \<open>The host's UUID when it has one, else eight places of a random number in base 36.\<close>

definition cryptoId :: "string option \<Rightarrow> string \<Rightarrow> string" where
  "cryptoId uuid random36 = ''c-'' @ (case uuid of Some u \<Rightarrow> u | None \<Rightarrow> take 8 (drop 2 random36))"

section \<open>The container of the pane\<close>

definition mount_container :: "bool \<Rightarrow> 'h dom_node \<Rightarrow> 'h dom_node" where
  "mount_container pane container =
     class_toggle ''tsql-host--pane'' pane (class_add ''tsql-host'' (clearChildren container))"

section \<open>The tooltip bubble\<close>

text \<open>\<open>closest("[data-tooltip]")\<close> of a target, and whether the layer of the pane at \<open>root\<close> reacts.\<close>

definition tip_owner :: "'h dom_node \<Rightarrow> path \<Rightarrow> path option" where
  "tip_owner page p = find (\<lambda>q. case node_at page q of Some m \<Rightarrow> attr ''data-tooltip'' m \<noteq> None | None \<Rightarrow> False) (ancestors p)"

definition hovered :: "path \<Rightarrow> 'h dom_node \<Rightarrow> path \<Rightarrow> path option" where
  "hovered root page p = (case tip_owner page p of
       None \<Rightarrow> None | Some q \<Rightarrow> if prefix root p \<and> prefix root q then Some q else None)"

definition tip_text :: "'h dom_node \<Rightarrow> path \<Rightarrow> string option" where
  "tip_text page q = (case Option.bind (node_at page q) (attr ''data-tooltip'') of
       Some t \<Rightarrow> if t = [] then None else Some t | None \<Rightarrow> None)"

text \<open>The bubble, made once, and how \<open>show\<close> fills and places it.\<close>

definition new_bubble :: "'h dom_node" where
  "new_bubble = setAttribute ''role'' ''tooltip'' (el_class ''div'' ''tsql-tooltip'' [])"

definition show_bubble :: "viewport \<Rightarrow> int \<Rightarrow> int \<Rightarrow> rect \<Rightarrow> string \<Rightarrow> 'h dom_node \<Rightarrow> 'h dom_node" where
  "show_bubble vp tw th r txt b0 =
     (let tip = class_add ''is-open'' (set_style ''visibility'' ''hidden'' (set_text txt b0));
          ((left, top), side) = place_tooltip vp tw th r
      in set_style ''visibility'' [] (setAttribute ''data-side'' (if side = TopSide then ''top'' else ''bottom'')
           (set_style ''top'' (int_to_string top @ ''px'') (set_style ''left'' (int_to_string left @ ''px'') tip))))"

text \<open>Hovering a point of the page: the text shown after the delay.\<close>

definition hover_text :: "path \<Rightarrow> 'h dom_node \<Rightarrow> path \<Rightarrow> string option" where
  "hover_text root page p = Option.bind (hovered root page p) (tip_text page)"

subsection \<open>Listeners of the layer\<close>

datatype tip_target = TipRoot | TipWindow

type_synonym tip_listener = "tip_target \<times> string \<times> bool"

definition tip_added :: "tip_listener list" where
  "tip_added = [(TipRoot, ''pointerover'', False), (TipRoot, ''pointerout'', False), (TipRoot, ''focusin'', False),
     (TipRoot, ''focusout'', False), (TipRoot, ''pointerdown'', True), (TipWindow, ''scroll'', True), (TipWindow, ''wheel'', True)]"

definition tip_removed :: "tip_listener list" where
  "tip_removed = [(TipRoot, ''pointerover'', False), (TipRoot, ''pointerout'', False), (TipRoot, ''focusin'', False),
     (TipRoot, ''focusout'', False), (TipRoot, ''pointerdown'', True), (TipWindow, ''scroll'', True), (TipWindow, ''wheel'', True)]"

text \<open>A listener is removed by its target, type and capture flag.\<close>

definition dispose_layer :: "tip_listener list \<Rightarrow> tip_listener list" where
  "dispose_layer ls = filter (\<lambda>l. l \<notin> set tip_removed) ls"

lemma layer_leaves_nothing: "dispose_layer tip_added = []"
  by code_simp

section \<open>Where tooltips show\<close>

lemma ancestors_prefix: "q \<in> set (ancestors p) \<longleftrightarrow> prefix q p"
proof (induction p arbitrary: q)
  case (Cons i p)
  show ?case by (cases q) (auto simp: Cons.IH)
qed auto

text \<open>
  In the pane, hovering shows the text of the nearest element that has one: the bubble is the
  tooltip of the control under the pointer or of what encloses it.
\<close>

theorem hover_shows_owner:
  assumes "hover_text root page p = Some t"
  shows "t \<noteq> [] \<and> prefix root p \<and> (\<exists>q m. prefix root q \<and> prefix q p \<and> node_at page q = Some m \<and> attr ''data-tooltip'' m = Some t)"
proof -
  from assms obtain q where q: "tip_owner page p = Some q" "prefix root p" "prefix root q" "tip_text page q = Some t"
    by (auto simp: hover_text_def hovered_def bind_eq_Some_conv split: option.splits if_splits)
  then have "prefix q p" by (auto simp: tip_owner_def find_Some_iff ancestors_prefix [symmetric])
  with q show ?thesis by (auto simp: tip_text_def bind_eq_Some_conv split: option.splits if_splits)
qed

text \<open>
  A dialog is mounted beside the pane, not inside it: nothing in it ever shows its tooltip,
  although its buttons carry one.
\<close>

theorem no_tooltip_in_dialogs:
  assumes "kids page = pane # overlays" "i > 0"
  shows "hover_text [0] page (i # p) = None"
  using assms(2) by (simp add: hover_text_def hovered_def split: option.splits)

text \<open>The X of a form modal carries a tooltip that is never shown.\<close>

lemma dialog_tooltip_lost:
  "attr ''data-tooltip'' (close_x host cls act) = Some ''Close'' \<and>
   hover_text [0] (el_class ''body'' [] [pane, form_node host title 520 False content]) [1, 0, 0, 1] = None"
  by (simp add: close_x_def appendIcon_def el_def opts0_def set_attr_def omap_get_set attr_text_def dropped_def
      hover_text_def hovered_def split: option.splits)

end
