(* ===== verification/HistoryLoad.thy ===== *)
theory HistoryLoad
  imports History
begin

text \<open>
  The recording of statements over time (\<open>record\<close>, \<open>load\<close> and \<open>persist\<close> of
  \<open>query/history.js\<close>). The first recording of a session reads the stored history and waits for
  it; what it then changes is the module's \<open>cache\<close>, which it also writes. Until that read has
  answered, a second recording starts a read of its own. \<open>hs_disk\<close> is the host's setting,
  \<open>hs_reads\<close> the reads under way, by recording, each with what it will bring.
\<close>

record hist_store =
  hs_cache :: "hist option"
  hs_disk :: hist
  hs_reads :: "(nat \<times> hist) list"

text \<open>\<open>Asks k\<close>: recording \<open>k\<close> calls \<open>load\<close>. \<open>Goes k\<close>: its load has answered and it records.\<close>

datatype hist_event = Asks nat | Goes nat string string int

definition start_load :: "nat \<Rightarrow> hist_store \<Rightarrow> hist_store" where
  "start_load k s = (if hs_cache s = None then s\<lparr>hs_reads := hs_reads s @ [(k, hs_disk s)]\<rparr> else s)"

text \<open>
  A read that was started overwrites the cache with what it brings. A statement that adds nothing
  (skipped, or the newest again) writes nothing. Resuming and recording are one step.
\<close>

definition persist_history :: "bool \<Rightarrow> hist_store \<Rightarrow> hist_store" where
  "persist_history works s = (if works then s\<lparr>hs_disk := (case hs_cache s of Some h \<Rightarrow> h | None \<Rightarrow> [])\<rparr> else s)"

definition finish_record :: "bool \<Rightarrow> nat \<Rightarrow> string \<Rightarrow> string \<Rightarrow> int \<Rightarrow> hist_store \<Rightarrow> hist_store" where
  "finish_record works k connId sql now s =
     (let base = (case omap_get (hs_reads s) k of Some h \<Rightarrow> h | None \<Rightarrow> (case hs_cache s of Some h \<Rightarrow> h | None \<Rightarrow> []));
          h = record_sql now connId sql base;
          s1 = s\<lparr>hs_reads := omap_delete (hs_reads s) k, hs_cache := Some h\<rparr>
      in if h = base then s1 else persist_history works s1)"

definition hist_step :: "hist_event \<Rightarrow> hist_store \<Rightarrow> hist_store" where
  "hist_step ev s = (case ev of Asks k \<Rightarrow> start_load k s | Goes k connId sql now \<Rightarrow> finish_record True k connId sql now s)"

section \<open>One after the other, all are kept\<close>

type_synonym recording = "nat \<times> string \<times> string \<times> int"

definition whole :: "recording \<Rightarrow> hist_event list" where
  "whole r = (case r of (k, connId, sql, now) \<Rightarrow> [Asks k, Goes k connId sql now])"

definition recorded :: "recording list \<Rightarrow> hist \<Rightarrow> hist" where
  "recorded rs h = foldl (\<lambda>h (k, connId, sql, now). record_sql now connId sql h) h rs"

definition settled :: "hist_store \<Rightarrow> bool" where
  "settled s \<longleftrightarrow> hs_reads s = [] \<and> (hs_cache s = None \<or> hs_cache s = Some (hs_disk s))"

lemma whole_settled:
  assumes "settled s"
  shows "settled (run_events hist_step s (whole r)) \<and> hs_disk (run_events hist_step s (whole r)) = recorded [r] (hs_disk s)"
  using assms
  by (auto simp: settled_def whole_def recorded_def hist_step_def start_load_def finish_record_def persist_history_def omap_delete_def Let_def
      split: prod.splits)

text \<open>Statements recorded one after the other are all in the stored history, in their order.\<close>

theorem history_in_order:
  assumes "settled s"
  shows "hs_disk (run_events hist_step s (concat (map whole rs))) = recorded rs (hs_disk s)"
  using assms
proof (induction rs arbitrary: s)
  case (Cons r rs)
  from whole_settled [OF Cons.prems] have r: "settled (run_events hist_step s (whole r))"
      "hs_disk (run_events hist_step s (whole r)) = recorded [r] (hs_disk s)" by blast+
  from Cons.IH [OF r(1)] r(2) show ?case by (simp add: recorded_def)
qed (simp add: recorded_def)

section \<open>What modelling showed\<close>

text \<open>
  Two statements recorded before the stored history was first read: the second read was started
  from the setting as it was, and its cache replaces the first one's, so the first statement is
  lost, from the cache and from the setting.
\<close>

lemma first_recording_lost:
  assumes "\<not> skip_sql c (js_trim p)" "\<not> skip_sql c (js_trim q)"
  shows "map h_sql (list_history (hs_disk (run_events hist_step \<lparr>hs_cache = None, hs_disk = [], hs_reads = []\<rparr>
     [Asks 0, Asks 1, Goes 0 c p 5, Goes 1 c q 6])) c) = [js_trim q]"
proof -
  have one: "record_sql now c u [] = [(c, HList [\<lparr>h_sql = js_trim u, h_at = now\<rparr>])]" if "\<not> skip_sql c (js_trim u)" for now u
    using that by (simp add: record_sql_def Let_def entries_of_def MAX_ENTRIES_def nth_opt_conv)
  show ?thesis
    by (simp add: hist_step_def start_load_def finish_record_def persist_history_def omap_delete_def Let_def one assms
        list_history_def entries_of_def)
qed

end
