(* ===== verification/Spec2Isabelle.thy ===== *)
theory Spec2Isabelle
  imports SqlReader SqlCheck Columns DateParts SqlRefs EditContext History Store Backup Managed
    Host Tunnel Lifecycle CopyInfo Sidecar Cells ResultGrid TableData QueryRun TreeCheck SavedMap
    CellEdit RowOps DatePicker Completions Ai Menus Dialogs ConnDialog Transfers Workbench Extension
    Dom DomEvents GridDom GridPages DialogDom InsertFlow DdlEditor ResultPane Splitter AiTools Surface
    HistoryLoad
begin

text \<open>
  TEDI SQL Explorer is a database workbench that runs as an extension of the TEDI desktop
  application: JavaScript under \<open>src/src/\<close>, bundled into one file, a native helper process
  that talks to MySQL, PostgreSQL and SQLite, and the host's API (settings, keychain, SSH
  forwards, code editors, sidebar). This development models the JavaScript.

  The parts and how they interact.
  The host activates the extension (\<open>index.js\<close>), which loads the saved connections, adds the
  ones another extension publishes, restores the workbench and registers its pane. The sidebar
  tree and the pane act on one module state: the connections, a session per connection, the
  status of each connection. Opening a connection goes through \<open>connections/lifecycle.js\<close>: the
  form becomes a URL, a tunnel is opened when one is named, the helper is booted or adopted, and
  every request retries once around a respawn or a reconnect. A table is browsed page by page, a
  statement is run as typed; cells and rows are edited through requests that carry the key of the
  row, while the statement shown beside them is built by \<open>sql.js\<close>. Whatever destroys asks first.

  Theories, from the ground up (files are under \<open>src/src/\<close>).
  \<^item> Prelude: ordered maps, list facts, and the contracts as locales: \<open>keyed_store\<close> (reads after
    writes), \<open>refinement\<close> (a concrete state follows a specification), \<open>event_machine\<close> (invariants
    and causes over event sequences). JsText, Doubles, JsValue, JsRegex, Json: strings, numbers,
    values, regular expressions and JSON as the program uses them. RegexLang: what a pattern can match at all.
  \<^item> Quoting (the locales \<open>written_text\<close>, \<open>quoted_text\<close>, \<open>written_pair\<close>), Dialects (\<open>dialects/\<close>), SqlText, SqlReader and
    SqlCheck (\<open>sql.js\<close>): the builders, a reader of what they build, the destructive check.
  \<^item> Runtime, Store, Managed, Backup, Tunnel, Lifecycle, CopyInfo, ConnDialog, SavedMap
    (\<open>runtime.js\<close>, \<open>connections/\<close>): the state, settings, import and export, connecting, the dialog,
    and the saved list as a map. Sidecar (\<open>sidecar.js\<close>): the helper's life and its requests.
  \<^item> Host: the world a handler acts on (state, keychain, history, the trace of effects), the status
    and the tab title (\<open>tree/connState.js\<close>, \<open>render/tabState.js\<close>), and the locale
    \<open>confirmed_action\<close>. TreeData, TreeCheck (\<open>tree/\<close>): the sidebar tree and its menu.
  \<^item> Columns, DateParts (\<open>columns.js\<close>, \<open>dom/dateParts.js\<close>), Cells, ResultGrid, TableData (\<open>grid/\<close>),
    CellEdit, RowOps (\<open>gridedit/\<close>), SqlRefs, EditContext, QueryRun, History (\<open>query/\<close>).
  \<^item> Dom and DomEvents: element trees, their builder (\<open>dom/element.js\<close>, \<open>icon.js\<close>, \<open>button.js\<close>,
    \<open>inputs.js\<close>) and the way of an event through them. GridDom, GridPages: the drawn result and
    table; DialogDom: the drawn dialogs. Over these, ResultPane (a result over time), Splitter,
    DdlEditor, Surface (toasts, the sidebar section, the tooltip bubble). AiTools: the tools as
    the host sees them; InsertFlow: the insert dialog while requests are under way; HistoryLoad:
    recordings beside the first read of the history.
  \<^item> DatePicker, Menus (\<open>dom/\<close>), Dialogs (\<open>dialogs.js\<close>), Completions, Workbench (\<open>render/\<close>), Transfers
    (\<open>connections/backupDialog.js\<close>, \<open>export.js\<close>, the dialog of \<open>query/history.js\<close>), Ai (\<open>ai.js\<close>),
    Extension (\<open>index.js\<close>). This theory: what holds across them.

  How the code corresponds.
  A function keeps its name. A handler is a function from the world to the world and its result;
  an error is \<open>Inl\<close> with its message. An awaited answer (of the helper, the host, the user, the
  clock) is an argument; a handler across which other handlers may run is split at the await,
  \<open>load_start\<close> and \<open>load_finish\<close> for a page, \<open>run_start\<close> and \<open>run_finish\<close> for a statement,
  \<open>toggle_start\<close> and \<open>toggle_finish\<close> for a node, and so on. Module state and records are records,
  a Map or a dictionary an ordered map. Requests are the \<open>Fetch\<close> effects of the trace. A DOM
  node is a value of \<open>dom_node\<close>, its listeners values that name what they do; a point of the
  page is the path to a node, and an event runs the listeners along it. A function that builds
  elements is modelled twice where it also decides something: as the view it decides on
  (ResultGrid, TableData, ConnDialog, RowOps, Transfers) and as the tree drawn from that view.
  The ellipsis and the two sort arrows of the source are outside the character model: \<open>...\<close>,
  \<open>glyph_up\<close> and \<open>glyph_down\<close> stand for them.

  What the lemmas show.
  \<^item> Round trips: every statement the builders emit reads back as its table, columns and values;
    URLs, shell words, dates, node names, backups, the dialog's form and the workbench session
    survive writing and reading.
  \<^item> Safety: an update or delete addresses the row by its own key and is sent only when asked and
    answered yes; a confirmation is answered once; a read-only connection offers no write.
  \<^item> Invariants, as step relations or event machines: the tree's loads, the two windows sharing the
    saved list, the result grid, the picker, the dropdown, dialogs, code editors, the history.
  \<^item> Equivalence and refinement: the destructive check against its specification over words, the
    change test against equality, the saved list against a map; a click at a point of a drawn
    grid or confirmation against the operation on the cell or button drawn there.
  \<^item> Composition: the statement a dialog shows is the request then sent, nothing destructive
    is sent without a yes, no listener of a read-only table writes.
  \<^item> What the code gets wrong is proved too, by an input that shows it (the sections named
    "What modelling showed", and single theorems beside the property they limit).

  Bounds and fuel.
  A request makes at most three attempts (\<open>request\<close> recurses on two flags), connecting three
  (\<open>MAX_CONNECT_ATTEMPTS\<close>); the boot polls until its deadline over the ticks it is given. The JSON
  parser and the readers of separated lists take fuel from the length of the text, which is
  enough for every text the extension writes (\<open>fuel_length\<close>, \<open>read_many_fuel\<close>); the regular
  expression matcher has none, it cuts off an iteration that consumes nothing and so recurses on
  the text. \<open>String\<close> of a number looks for up to 17 digits, which is enough for every double, and
  falls back to all digits. History keeps 200 statements, a model sees 200 rows, a page has at least one row.

  Not modelled.
  \<^item> The text of CSS (\<open>styles.js\<close>, \<open>styles/\<close>): it has no state or behaviour. The barrels only
    re-export. The bundler and the hand-run probe of the helper (\<open>sidecar-src/live-probe.mjs\<close>)
    are not part of the program. The popups of the dropdown, the context menu and the calendar
    are modelled by what they do (Menus, DatePicker), not as trees. A property name of an object
    that looks like an integer is listed first by JavaScript; the ordered maps keep insertion
    order for all.
  \<^item> The helper (Rust), the host and the browser: their answers are arguments, so nothing is
    assumed about them beyond the hypotheses a theorem names (the host opens what it sealed).
  \<^item> Characters beyond Latin-1, and the sign of zero.
  \<^item> The order of two handlers inside one await that the split steps do not separate. A delete is
    split at its dialog (\<open>delete_ask\<close>, \<open>delete_confirmed\<close>); the reads after it are one step.
\<close>

section \<open>Nothing destructive without a yes\<close>

text \<open>
  The five actions that ask before they act, each with what it was started with and the
  answers of the helper. \<open>perform\<close> runs one with the user's answer.
\<close>

datatype guarded =
    EditCell edit_spec "string + (string, jsval) omap" "string + int option" jsval
  | DeleteRow nat snapshot "string list" "string + int option" reload string
  | TreeDdl node ddl "string + string option" tree
  | DropConnection ssh_api bool conn
  | RunText run_env

fun perform :: "guarded \<Rightarrow> bool \<Rightarrow> world \<Rightarrow> world" where
  "perform (EditCell spec pk answer v) ok w = snd (edit_commit spec pk ok answer v w)"
| "perform (DeleteRow rowIdx snap pks answer rl i) ok w = deleteRowFromGrid rowIdx snap pks ok answer rl i w"
| "perform (TreeDdl m d answer t) ok w = fst (confirmAndRun m d ok answer w t)"
| "perform (DropConnection ssh can_delete c) ok w = confirmAndDeleteConnection ssh can_delete ok c w"
| "perform (RunText env) ok w = (if run_asks env w then snd (run_start (env\<lparr>rn_confirm := ok\<rparr>) w) else w)"

interpretation gate: confirmed_action "perform g" for g
  by unfold_locales
     (cases g, simp_all only: perform.simps edit_gate.refused delete_gate.refused ddl_gate.refused drop_gate.refused run_gate.refused)

text \<open>A session of the user: each action waits for the dialog with its number.\<close>

definition perform_all :: "(nat \<times> bool) list \<Rightarrow> (guarded \<times> nat) list \<Rightarrow> world \<Rightarrow> world" where
  "perform_all answers gs w = fold (\<lambda>(g, d). perform g ((d, True) \<in> set answers)) gs w"

lemma perform_all_quiet:
  "list_all (\<lambda>(g, d). (d, True) \<notin> set answers) gs \<Longrightarrow> same_data w (perform_all answers gs w)"
proof (induction gs arbitrary: w)
  case (Cons x gs)
  obtain g d where x: "x = (g, d)" by (cases x)
  have "same_data w (perform g False w)" by (rule gate.refused)
  with Cons x show ?case by (auto simp: perform_all_def intro: same_data_trans)
qed (simp add: perform_all_def)

text \<open>
  C1: Cell updates, row deletes, TRUNCATE and DROP from the tree, the removal of a connection
  and the run of a statement the check calls destructive: whatever dialogs open and close around
  them, if any of them sent a request, changed the list of connections, the keychain or the
  history, then the user pressed Enter or the confirm button of a dialog that one of them waited for.
\<close>

theorem nothing_destructive_without_yes:
  assumes "\<not> same_data w (perform_all (pa_answers (page_run evs)) gs w)"
  shows "\<exists>(g, d) \<in> set gs. (d, True) \<in> set (pa_answers (page_run evs)) \<and>
    ((\<exists>focus. Press EnterKey focus \<in> set evs) \<or> Click ConfirmButton (ConfirmOverlay d) \<in> set evs)"
proof -
  from assms perform_all_quiet obtain g d where gd: "(g, d) \<in> set gs" and yes: "(d, True) \<in> set (pa_answers (page_run evs))"
    by (fastforce simp: list_all_iff)
  from run_answers [OF yes] have "(\<exists>focus. Press EnterKey focus \<in> set evs) \<or> Click ConfirmButton (ConfirmOverlay d) \<in> set evs"
    by (auto simp: asks_true_def)
  with gd yes show ?thesis by blast
qed

theorem nothing_destructive_without_yes_witness:
  "\<exists>(g, d) \<in> set [(TreeDdl \<lparr>n_kind = ''table'', n_conn = ''c'', n_db = ''d'', n_schema = ''s'', n_table = ''t''\<rparr> ddl_drop (Inr None) (fst tree_start), 0)].
     (d, True) \<in> set (pa_answers (page_run two_dialogs))"
proof -
  let ?gs = "[(TreeDdl \<lparr>n_kind = ''table'', n_conn = ''c'', n_db = ''d'', n_schema = ''s'', n_table = ''t''\<rparr> ddl_drop (Inr None) (fst tree_start), 0::nat)]"
  have yes: "(0, True) \<in> set (pa_answers (page_run two_dialogs))" by code_simp
  have "requests (wd_trace (perform_all (pa_answers (page_run two_dialogs)) ?gs one_conn_world)) \<noteq> requests (wd_trace one_conn_world)"
    using yes by (simp add: perform_all_def confirmAndRun_requests)
  then have "\<not> same_data one_conn_world (perform_all (pa_answers (page_run two_dialogs)) ?gs one_conn_world)"
    by (simp add: same_data_def)
  from nothing_destructive_without_yes [OF this] show ?thesis by auto
qed

section \<open>What is confirmed is what is sent\<close>

text \<open>The statements the confirmations of a trace showed.\<close>

definition shown_sql :: "effect list \<Rightarrow> string list" where
  "shown_sql tr = concat (map (\<lambda>e. case e of Confirm q m (Some sql) \<Rightarrow> [sql] | _ \<Rightarrow> []) tr)"

lemma shown_sql_simps [simp]:
  "shown_sql [] = []" "shown_sql (tr @ tr2) = shown_sql tr @ shown_sql tr2"
  "shown_sql (Confirm q m (Some sql) # tr) = sql # shown_sql tr" "shown_sql (Fetch p v bd # tr) = shown_sql tr"
  "shown_sql (Toast x l # tr) = shown_sql tr"
  by (simp_all add: shown_sql_def)

lemma shown_reload [simp]: "shown_sql (wd_trace (reload_page i page rl w)) = shown_sql (wd_trace w)"
  by (auto simp: reload_page_def Let_def split: option.splits prod.splits)

text \<open>
  The request a statement stands for: an update or a delete names the table, the values and the
  key of its body; a query is its text.
\<close>

definition str_of :: "jsval \<Rightarrow> string" where
  "str_of v = (case v of VStr s \<Rightarrow> s | _ \<Rightarrow> [])"

definition body_table :: "jsval \<Rightarrow> table_ref" where
  "body_table b = \<lparr>t_database = str_of (jget b ''database''), t_schema = str_of (jget b ''schema''),
     t_table = str_of (jget b ''table''), t_kind = []\<rparr>"

definition body_values :: "string \<Rightarrow> jsval \<Rightarrow> (string \<times> sql_value) list" where
  "body_values k b = (case jget b k of VObj m \<Rightarrow> lit_values m | _ \<Rightarrow> [])"

definition says :: "string option \<Rightarrow> string \<Rightarrow> string \<times> jsval \<Rightarrow> bool" where
  "says kind sql r = (case r of (path, b) \<Rightarrow>
     if path = ''/table-update'' then read_update kind sql =
       Some (name_parts (body_table b), body_values ''values'' b, body_values ''pk'' b)
     else if path = ''/table-delete'' then read_delete kind sql = Some (name_parts (body_table b), body_values ''pk'' b)
     else path = ''/query'' \<and> jget b ''sql'' = VStr sql)"

fun guarded_conn :: "world \<Rightarrow> guarded \<Rightarrow> string" where
  "guarded_conn w (EditCell spec pk answer v) = es_connId spec"
| "guarded_conn w (DeleteRow rowIdx snap pks answer rl i) = i"
| "guarded_conn w (TreeDdl m d answer t) = n_conn m"
| "guarded_conn w (DropConnection ssh can_delete c) = c_id c"
| "guarded_conn w (RunText env) = (case a_active (wd_app w) of Some i \<Rightarrow> i | None \<Rightarrow> [])"

text \<open>An edit has a key (the grid refuses tables without), a session knows its connection.\<close>

fun guarded_ok :: "world \<Rightarrow> guarded \<Rightarrow> bool" where
  "guarded_ok w (EditCell spec pk answer v) = (pk \<noteq> Inr [])"
| "guarded_ok w (DeleteRow rowIdx snap pks answer rl i) = (s_connId (session_of (wd_app w) i) = i)"
| "guarded_ok w (TreeDdl m d answer t) = True"
| "guarded_ok w (DropConnection ssh can_delete c) = False"
| "guarded_ok w (RunText env) = True"

lemma edit_says:
  assumes "pk \<noteq> []"
  shows "says (sqlConnKind cs (es_connId spec)) (buildUpdateSql cs (es_connId spec) (es_table spec) pk [(es_colName spec, v)])
     (''/table-update'', update_body spec pk v)"
  using read_update_text [OF assms, of "[(es_colName spec, v)]" cs "es_connId spec" "es_table spec"]
  by (simp add: says_def update_body_def body_table_def body_values_def str_of_def name_parts_def)

lemma delete_says:
  assumes "pk \<noteq> []"
  shows "says (sqlConnKind cs i) (buildDeleteSql cs i t pk) (''/table-delete'', delete_body i t pk)"
  using read_delete_text [OF assms, of cs i t]
  by (simp add: says_def delete_body_def body_table_def body_values_def str_of_def name_parts_def)



section \<open>Read-only connections\<close>

text \<open>
  C20: On a read-only connection no control that writes is offered anywhere: nothing in the pane
  of a table, down to the last listener of its cells, buttons and toolbar, starts an edit, a
  delete or an insert, no cell of it is marked editable, no query result becomes editable, the tree's menu
  has neither Truncate nor Drop, the toolbar says that it is read-only, and the AI tool refuses a
  statement that begins with a write even when it is confirmed.
\<close>

theorem read_only_offers_no_write:
  assumes "isReadOnly cs (s_connId s)"
  shows "list_all (listens (\<lambda>a. \<not> writes a)) (table_pane host fmt cs s t) \<and>
    (\<forall>v. renderTableGrid fmt cs s t = Some v \<longrightarrow> list_all (list_all (\<lambda>(content, tip, editable). \<not> editable)) (tv_cells v)) \<and>
    fst (resolveQueryEditContext fetch cs s sql columns) = None \<and>
    (n_conn m = s_connId s \<longrightarrow> (\<forall>es. menuItemsFor cs m = Some es \<longrightarrow> MTruncate \<notin> set es \<and> MDrop \<notin> set es)) \<and>
    mv_read_only (renderEditorAndResults fmt cs s) \<and>
    (c_id c = s_connId s \<and> re_test re_ai_writes q \<longrightarrow> ai_refusal cs c q yes \<noteq> None)"
proof (intro conjI)
  show "list_all (listens (\<lambda>a. \<not> writes a)) (table_pane host fmt cs s t)"
    using assms by (rule read_only_pane)
  show "\<forall>v. renderTableGrid fmt cs s t = Some v \<longrightarrow> list_all (list_all (\<lambda>(content, tip, editable). \<not> editable)) (tv_cells v)"
    using assms by (auto simp: renderTableGrid_def Let_def list_all_iff split: option.splits)
  show "fst (resolveQueryEditContext fetch cs s sql columns) = None"
    using assms by (simp add: resolveQueryEditContext_def Let_def split: option.splits)
  show "n_conn m = s_connId s \<longrightarrow> (\<forall>es. menuItemsFor cs m = Some es \<longrightarrow> MTruncate \<notin> set es \<and> MDrop \<notin> set es)"
    using assms menu_gate [of cs m] by (auto simp: menuItemsFor_def copy_entries_def split: if_splits)
  show "mv_read_only (renderEditorAndResults fmt cs s)" using assms by (simp add: renderEditorAndResults_def)
  show "c_id c = s_connId s \<and> re_test re_ai_writes q \<longrightarrow> ai_refusal cs c q yes \<noteq> None"
    using assms by (simp add: ai_refusal_def)
qed

theorem read_only_offers_no_write_witness:
  "fst (resolveQueryEditContext (\<lambda>_. None) [plain_conn ''c'' ''mysql'' []\<lparr>c_allow_writes := False\<rparr>] (new_session ''c'')
      ''select * from t'' [''id'']) = None"
proof -
  have "isReadOnly [plain_conn ''c'' ''mysql'' []\<lparr>c_allow_writes := False\<rparr>] (s_connId (new_session ''c''))" by code_simp
  from read_only_offers_no_write [OF this, where fetch = "\<lambda>_. None"] show ?thesis by blast
qed

end
